(* ===== verification/Py_Prelude.thy ===== *)
theory Py_Prelude
  imports Complex_Main "HOL-Library.List_Lexorder" "HOL-Library.Char_ord" "HOL-Library.Product_Lexorder"
begin

text \<open>
  Shared vocabulary of the development.

  \<^item> Python values that travel in payloads (\<open>pyval\<close>), truthiness, \<open>str\<close>, \<open>int\<close>, and the string
    methods the sources use (\<open>strip\<close>, \<open>upper\<close>, \<open>lower\<close>, \<open>startswith\<close>, \<open>in\<close>). Strings are lists of
    characters; case mapping and white space are those of ASCII.
    The text that \<open>str\<close> gives for a float, a list or a dict is left to an argument \<open>rp\<close>, so what is
    proved holds whatever that text is.
  \<^item> Exceptions are the left summand of a sum; \<open>rbind\<close> sequences fallible steps.
  \<^item> Instants are integers counting microseconds since the epoch (UTC). \<open>wire_le\<close> is the order in
    which SQLite compares two timestamps written by \<open>datetime_to_wire\<close>.
  \<^item> SQL tables are lists of rows; \<open>sql_update\<close>, \<open>sql_find\<close>, \<open>sql_delete\<close> and \<open>sql_count\<close> are the
    statements the stores issue.
\<close>

section \<open>Collections of rewrite rules\<close>

named_theorems sql_simps \<open>equations for table operations\<close>
named_theorems str_simps \<open>definitions of the string methods\<close>
named_theorems res_simps \<open>equations for fallible steps\<close>
named_theorems ensures_rules \<open>proof rules for fallible steps\<close>

section \<open>Exceptions as values\<close>

datatype py_error =
    KeyError string
  | ValueError string
  | TypeError string
  | BrokerValidationError string
  | OverflowError string

type_synonym 'a result = "py_error + 'a"

fun rbind :: "'e + 'a \<Rightarrow> ('a \<Rightarrow> 'e + 'b) \<Rightarrow> 'e + 'b" where
  "rbind (Inl e) f = Inl e"
| "rbind (Inr x) f = f x"

lemma rbind_Inr_iff [res_simps]: "rbind m f = Inr y \<longleftrightarrow> (\<exists>x. m = Inr x \<and> f x = Inr y)"
  by (cases m) auto

lemma rbind_Inl_iff [res_simps]:
  "rbind m f = Inl e \<longleftrightarrow> m = Inl e \<or> (\<exists>x. m = Inr x \<and> f x = Inl e)"
  by (cases m) auto

text \<open>\<open>ensures P m\<close>: if \<open>m\<close> returns, its value satisfies \<open>P\<close>. The rules follow the code.\<close>

definition ensures :: "('b \<Rightarrow> bool) \<Rightarrow> 'e + 'b \<Rightarrow> bool" where
  "ensures P m \<longleftrightarrow> (\<forall>x. m = Inr x \<longrightarrow> P x)"

lemma ensures_bind [ensures_rules]: "(\<And>x. m = Inr x \<Longrightarrow> ensures P (f x)) \<Longrightarrow> ensures P (rbind m f)"
  by (auto simp: ensures_def rbind_Inr_iff)

lemma ensures_value [ensures_rules]: "P x \<Longrightarrow> ensures P (Inr x)" "ensures P (Inl e)"
  by (simp_all add: ensures_def)

lemma ensures_branch [ensures_rules]:
  "(b \<Longrightarrow> ensures P m) \<Longrightarrow> (\<not> b \<Longrightarrow> ensures P n) \<Longrightarrow> ensures P (if b then m else n)"
  "(oo = None \<Longrightarrow> ensures P m) \<Longrightarrow> (\<And>x. oo = Some x \<Longrightarrow> ensures P (f x)) \<Longrightarrow> ensures P (case oo of None \<Rightarrow> m | Some x \<Rightarrow> f x)"
  by (simp_all split: option.splits)

lemma ensures_pair: "(\<And>a b. x = (a, b) \<Longrightarrow> ensures P (f a b)) \<Longrightarrow> ensures P (case x of (a, b) \<Rightarrow> f a b)"
  by (cases x) simp

lemma ensuresD: "ensures P m \<Longrightarrow> m = Inr x \<Longrightarrow> P x"
  by (simp add: ensures_def)

lemma ensures_mono: "ensures Q m \<Longrightarrow> (\<And>x. Q x \<Longrightarrow> P x) \<Longrightarrow> ensures P m"
  by (simp add: ensures_def)

section \<open>Strings\<close>

definition char_code :: "char \<Rightarrow> nat" where
  "char_code c = of_char c"

definition py_space :: "char \<Rightarrow> bool" where
  [str_simps]: "py_space c \<longleftrightarrow> (let n = char_code c in (9 \<le> n \<and> n \<le> 13) \<or> (28 \<le> n \<and> n \<le> 32))"

definition py_strip :: "string \<Rightarrow> string" where
  [str_simps]: "py_strip s = rev (dropWhile py_space (rev (dropWhile py_space s)))"

definition upper_char :: "char \<Rightarrow> char" where
  [str_simps]: "upper_char c =
     (if 97 \<le> char_code c \<and> char_code c \<le> 122 then char_of (char_code c - 32) else c)"

definition lower_char :: "char \<Rightarrow> char" where
  [str_simps]: "lower_char c =
     (if 65 \<le> char_code c \<and> char_code c \<le> 90 then char_of (char_code c + 32) else c)"

definition py_upper :: "string \<Rightarrow> string" where
  [str_simps]: "py_upper = map upper_char"

definition py_lower :: "string \<Rightarrow> string" where
  [str_simps]: "py_lower = map lower_char"

definition py_startswith :: "string \<Rightarrow> string \<Rightarrow> bool" where
  [str_simps]: "py_startswith s p \<longleftrightarrow> take (length p) s = p"

fun py_contains :: "string \<Rightarrow> string \<Rightarrow> bool" where
  "py_contains sub [] \<longleftrightarrow> sub = []"
| "py_contains sub (c # cs) \<longleftrightarrow> py_startswith (c # cs) sub \<or> py_contains sub cs"

definition is_digit :: "char \<Rightarrow> bool" where
  [str_simps]: "is_digit c \<longleftrightarrow> 48 \<le> char_code c \<and> char_code c \<le> 57"

declare char_code_def [str_simps]

lemma char_code_less: "char_code c < 256"
  by (simp add: char_code_def)

lemma char_code_char_of: "n < 256 \<Longrightarrow> char_code (char_of n) = n"
  by (simp add: char_code_def)

lemma upper_char_idem [simp]: "upper_char (upper_char c) = upper_char c"
  by (auto simp: upper_char_def char_code_char_of)

lemma py_upper_idem [simp]: "py_upper (py_upper s) = py_upper s"
  by (simp add: py_upper_def)

lemma py_upper_Nil [simp]: "py_upper s = [] \<longleftrightarrow> s = []"
  by (simp add: py_upper_def)

lemma py_upper_length [simp]: "length (py_upper s) = length s"
  by (simp add: py_upper_def)

lemma char_code_inj: "char_code c = char_code d \<Longrightarrow> c = d"
  by (simp add: char_code_def)

lemma lower_char_idem [simp]: "lower_char (lower_char c) = lower_char c"
  by (auto simp: lower_char_def char_code_char_of)

lemma py_lower_idem [simp]: "py_lower (py_lower s) = py_lower s"
  by (simp add: py_lower_def)

lemma py_space_lower [simp]: "py_space (lower_char c) = py_space c"
  by (auto simp: py_space_def lower_char_def char_code_char_of Let_def)

lemma py_space_upper [simp]: "py_space (upper_char c) = py_space c"
  by (auto simp: py_space_def upper_char_def char_code_char_of Let_def)

lemma dropWhile_no_head: "dropWhile P xs = [] \<or> \<not> P (hd (dropWhile P xs))"
  by (induction xs) auto

lemma dropWhile_fix: "xs = [] \<or> \<not> P (hd xs) \<Longrightarrow> dropWhile P xs = xs"
  by (cases xs) auto

lemma dropWhile_suffix_last:
  "dropWhile P xs \<noteq> [] \<Longrightarrow> last (dropWhile P xs) = last xs"
  by (induction xs) (auto split: if_splits)

lemma py_strip_ends:
  "py_strip s = [] \<or> (\<not> py_space (hd (py_strip s)) \<and> \<not> py_space (last (py_strip s)))"
proof -
  let ?a = "dropWhile py_space s"
  let ?b = "dropWhile py_space (rev ?a)"
  show ?thesis
  proof (cases "?b = []")
    case True
    then show ?thesis by (simp add: py_strip_def)
  next
    case False
    then have ne: "?a \<noteq> []" by (metis dropWhile.simps(1) rev.simps(1))
    have "hd (py_strip s) = last ?b"
      using False by (simp add: py_strip_def hd_rev)
    also have "\<dots> = hd ?a"
      using False ne by (simp add: dropWhile_suffix_last last_rev)
    finally have 1: "\<not> py_space (hd (py_strip s))"
      using ne dropWhile_no_head [of py_space s] by argo
    have "last (py_strip s) = hd ?b"
      using False by (simp add: py_strip_def last_rev)
    then have 2: "\<not> py_space (last (py_strip s))"
      using False dropWhile_no_head [of py_space "rev ?a"] by argo
    show ?thesis using 1 2 by simp
  qed
qed

lemma py_strip_idem [simp]: "py_strip (py_strip s) = py_strip s"
proof -
  let ?t = "py_strip s"
  have a: "dropWhile py_space ?t = ?t"
    using py_strip_ends [of s] by (auto intro: dropWhile_fix)
  have b: "dropWhile py_space (rev ?t) = rev ?t"
    using py_strip_ends [of s] by (intro dropWhile_fix) (auto simp: hd_rev)
  show ?thesis unfolding py_strip_def [of ?t] a b by simp
qed

lemma py_strip_upper: "py_strip (py_upper s) = py_upper (py_strip s)"
proof -
  have 1: "dropWhile py_space (map upper_char xs) = map upper_char (dropWhile py_space xs)" for xs
    by (induction xs) auto
  show ?thesis unfolding py_strip_def py_upper_def 1 rev_map 1 by (simp add: rev_map)
qed

lemma py_strip_lower: "py_strip (py_lower s) = py_lower (py_strip s)"
proof -
  have 1: "dropWhile py_space (map lower_char xs) = map lower_char (dropWhile py_space xs)" for xs
    by (induction xs) auto
  show ?thesis unfolding py_strip_def py_lower_def 1 rev_map 1 by (simp add: rev_map)
qed

section \<open>Python values\<close>

datatype pyfloat = Finite rat | PosInf | NegInf | NaN

datatype pyval =
    PNone
  | PBool bool
  | PInt int
  | PFloat pyfloat
  | PStr string
  | PList "pyval list"
  | PDict "(string \<times> pyval) list"

type_synonym pydict = "(string \<times> pyval) list"

definition dget :: "pydict \<Rightarrow> string \<Rightarrow> pyval" where
  \<comment> \<open>\<open>d.get(k)\<close>\<close>
  "dget d k = (case map_of d k of None \<Rightarrow> PNone | Some v \<Rightarrow> v)"

definition dget_or :: "pydict \<Rightarrow> string \<Rightarrow> pyval \<Rightarrow> pyval" where
  \<comment> \<open>\<open>d.get(k, default)\<close>\<close>
  "dget_or d k v = (case map_of d k of None \<Rightarrow> v | Some w \<Rightarrow> w)"

definition dset :: "string \<Rightarrow> pyval \<Rightarrow> pydict \<Rightarrow> pydict" where
  \<comment> \<open>\<open>d[k] = v\<close>: an existing key keeps its place, a new one goes last\<close>
  "dset k v d =
     (if k \<in> set (map fst d) then map (\<lambda>(k', w). (k', if k' = k then v else w)) d
      else d @ [(k, v)])"

fun py_truthy :: "pyval \<Rightarrow> bool" where
  "py_truthy PNone = False"
| "py_truthy (PBool b) = b"
| "py_truthy (PInt n) = (n \<noteq> 0)"
| "py_truthy (PFloat f) = (f \<noteq> Finite 0)"
| "py_truthy (PStr s) = (s \<noteq> [])"
| "py_truthy (PList xs) = (xs \<noteq> [])"
| "py_truthy (PDict d) = (d \<noteq> [])"

definition py_or :: "pyval \<Rightarrow> pyval \<Rightarrow> pyval" where
  "py_or a b = (if py_truthy a then a else b)"

fun nat_text :: "nat \<Rightarrow> string" where
  "nat_text n = (if n < 10 then [char_of (48 + n)] else nat_text (n div 10) @ [char_of (48 + n mod 10)])"

declare nat_text.simps [simp del]

definition int_text :: "int \<Rightarrow> string" where
  "int_text n = (if n < 0 then CHR ''-'' # nat_text (nat (- n)) else nat_text (nat n))"

text \<open>\<open>str(v)\<close>; \<open>rp\<close> gives the text of a float or a container.\<close>

type_synonym repr = "pyval \<Rightarrow> string"

fun py_str :: "repr \<Rightarrow> pyval \<Rightarrow> string" where
  "py_str rp PNone = ''None''"
| "py_str rp (PBool b) = (if b then ''True'' else ''False'')"
| "py_str rp (PInt n) = int_text n"
| "py_str rp (PStr s) = s"
| "py_str rp v = rp v"

definition as_mapping :: "pyval \<Rightarrow> pydict" where
  \<comment> \<open>\<open>v if isinstance(v, Mapping) else {}\<close>\<close>
  "as_mapping v = (case v of PDict d \<Rightarrow> d | _ \<Rightarrow> [])"

text \<open>\<open>int(v)\<close> with decimal strings: optional sign, digits, single underscores between digits.\<close>

fun dec_digits :: "bool \<Rightarrow> nat \<Rightarrow> string \<Rightarrow> nat option" where
  "dec_digits ok acc [] = (if ok then Some acc else None)"
| "dec_digits ok acc (c # cs) =
     (if is_digit c then dec_digits True (10 * acc + (char_code c - 48)) cs
      else if c = CHR ''_'' \<and> ok then dec_digits False acc cs
      else None)"

definition py_int_of_str :: "string \<Rightarrow> int option" where
  "py_int_of_str s =
     (case py_strip s of
        [] \<Rightarrow> None
      | c # cs \<Rightarrow>
          (if c = CHR ''-'' then map_option (\<lambda>n. - int n) (dec_digits False 0 cs)
           else if c = CHR ''+'' then map_option int (dec_digits False 0 cs)
           else map_option int (dec_digits False 0 (c # cs))))"

definition rat_trunc :: "rat \<Rightarrow> int" where
  "rat_trunc r = (if r < 0 then \<lceil>r\<rceil> else \<lfloor>r\<rfloor>)"

fun py_int :: "pyval \<Rightarrow> int result" where
  "py_int (PInt n) = Inr n"
| "py_int (PBool b) = Inr (if b then 1 else 0)"
| "py_int (PFloat (Finite r)) = Inr (rat_trunc r)"
| "py_int (PFloat NaN) = Inl (ValueError ''cannot convert float NaN to integer'')"
| "py_int (PFloat _) = Inl (OverflowError ''cannot convert float infinity to integer'')"
| "py_int (PStr s) =
     (case py_int_of_str s of Some n \<Rightarrow> Inr n | None \<Rightarrow> Inl (ValueError ''invalid literal for int()''))"
| "py_int _ = Inl (TypeError ''int() argument'')"

text \<open>
  \<open>float(v)\<close>: decimal literals with an optional exponent, the names of the infinities and of NaN.
  A finite value is kept as the exact rational the literal denotes.
\<close>

fun split_at :: "(char \<Rightarrow> bool) \<Rightarrow> string \<Rightarrow> string \<times> string option" where
  "split_at p [] = ([], None)"
| "split_at p (c # cs) = (if p c then ([], Some cs) else (case split_at p cs of (a, b) \<Rightarrow> (c # a, b)))"

definition digits_or_zero :: "string \<Rightarrow> nat option" where
  "digits_or_zero s = (if s = [] then Some 0 else dec_digits False 0 s)"

definition dec_exponent :: "string \<Rightarrow> int option" where
  "dec_exponent s =
     (case s of
        [] \<Rightarrow> None
      | c # cs \<Rightarrow> (if c = CHR ''-'' then map_option (\<lambda>n. - int n) (dec_digits False 0 cs)
                  else if c = CHR ''+'' then map_option int (dec_digits False 0 cs)
                  else map_option int (dec_digits False 0 (c # cs))))"

definition dec_literal :: "string \<Rightarrow> rat option" where
  "dec_literal s =
     (let (mant, ex) = split_at (\<lambda>c. c = CHR ''e'' \<or> c = CHR ''E'') s;
          (whole, frac) = split_at (\<lambda>c. c = CHR ''.'') mant;
          frac_text = (case frac of None \<Rightarrow> [] | Some f \<Rightarrow> f);
          digits = length (filter is_digit frac_text) in
      if whole = [] \<and> frac_text = [] then None
      else (case (digits_or_zero whole, digits_or_zero frac_text,
                  case ex of None \<Rightarrow> Some 0 | Some e \<Rightarrow> dec_exponent e) of
              (Some w, Some f, Some e) \<Rightarrow>
                (let m = of_nat w + of_nat f / 10 ^ digits in
                 Some (if 0 \<le> e then m * 10 ^ nat e else m / 10 ^ nat (- e)))
            | _ \<Rightarrow> None))"

definition unsigned_float :: "string \<Rightarrow> pyfloat option" where
  "unsigned_float s =
     (if py_lower s \<in> {''inf'', ''infinity''} then Some PosInf
      else if py_lower s = ''nan'' then Some NaN
      else map_option Finite (dec_literal s))"

fun pyfloat_neg :: "pyfloat \<Rightarrow> pyfloat" where
  "pyfloat_neg (Finite r) = Finite (- r)"
| "pyfloat_neg PosInf = NegInf"
| "pyfloat_neg NegInf = PosInf"
| "pyfloat_neg NaN = NaN"

definition py_float_of_str :: "string \<Rightarrow> pyfloat option" where
  "py_float_of_str s =
     (case py_strip s of
        [] \<Rightarrow> None
      | c # cs \<Rightarrow> (if c = CHR ''-'' then map_option pyfloat_neg (unsigned_float cs)
                  else if c = CHR ''+'' then unsigned_float cs
                  else unsigned_float (c # cs)))"

fun py_float :: "pyval \<Rightarrow> pyfloat result" where
  "py_float (PInt n) = Inr (Finite (of_int n))"
| "py_float (PBool b) = Inr (Finite (if b then 1 else 0))"
| "py_float (PFloat f) = Inr f"
| "py_float (PStr s) =
     (case py_float_of_str s of
        Some f \<Rightarrow> Inr f | None \<Rightarrow> Inl (ValueError ''could not convert string to float''))"
| "py_float _ = Inl (TypeError ''float() argument'')"

fun pyfloat_less :: "pyfloat \<Rightarrow> pyfloat \<Rightarrow> bool" where
  \<comment> \<open>\<open>a < b\<close>; every comparison with NaN is false\<close>
  "pyfloat_less (Finite a) (Finite b) \<longleftrightarrow> a < b"
| "pyfloat_less (Finite _) PosInf \<longleftrightarrow> True"
| "pyfloat_less NegInf (Finite _) \<longleftrightarrow> True"
| "pyfloat_less NegInf PosInf \<longleftrightarrow> True"
| "pyfloat_less _ _ \<longleftrightarrow> False"

definition pyfloat_max :: "pyfloat \<Rightarrow> pyfloat \<Rightarrow> pyfloat" where
  \<comment> \<open>\<open>max(a, b)\<close> keeps the first argument unless the second is greater\<close>
  "pyfloat_max a b = (if pyfloat_less a b then b else a)"

definition pyfloat_min :: "pyfloat \<Rightarrow> pyfloat \<Rightarrow> pyfloat" where
  "pyfloat_min a b = (if pyfloat_less b a then b else a)"

text \<open>Rounding half to even, as \<open>round\<close> and \<open>timedelta(seconds=x)\<close> do.\<close>

definition round_half_even :: "rat \<Rightarrow> int" where
  "round_half_even r =
     (let f = \<lfloor>r\<rfloor>; d = r - of_int f in
      if d < 1 / 2 then f else if d > 1 / 2 then f + 1 else if even f then f else f + 1)"

lemma round_half_even_of_int [simp]: "round_half_even (of_int n) = n"
  by (simp add: round_half_even_def Let_def)

lemma round_half_even_bounds: "r - 1 / 2 \<le> of_int (round_half_even r)" "of_int (round_half_even r) \<le> r + 1 / 2"
proof -
  define f where "f = \<lfloor>r\<rfloor>"
  have "of_int f \<le> r" "r < of_int f + 1" unfolding f_def by linarith+
  then show "r - 1 / 2 \<le> of_int (round_half_even r)" "of_int (round_half_even r) \<le> r + 1 / 2"
    by (auto simp: round_half_even_def Let_def f_def [symmetric])
qed

lemma dget_Nil [simp]: "dget [] k = PNone"
  by (simp add: dget_def)

lemma dget_Cons [simp]: "dget ((k', v) # d) k = (if k' = k then v else dget d k)"
  by (simp add: dget_def)

lemma map_of_map_value:
  "map_of (map (\<lambda>(k', w). (k', if k' = k then v else w)) d) j =
     (if j = k \<and> k \<in> fst ` set d then Some v else map_of d j)"
proof (induction d)
  case (Cons p d)
  then show ?case by (cases p; cases "fst p = j"; cases "j = k") simp_all
qed simp

lemma dget_dset [simp]: "dget (dset k v d) j = (if j = k then v else dget d j)"
proof -
  have "map_of d k = None" if "k \<notin> set (map fst d)"
    using that by (simp add: map_of_eq_None_iff)
  then show ?thesis
    by (auto simp: dget_def dset_def map_of_map_value map_add_def split: option.splits)
qed

section \<open>Reason lists\<close>

text \<open>
  \<open>list(dict.fromkeys(xs))\<close>, and the equal loop \<open>if x not in out: out.append(x)\<close>: the first
  occurrence of every element, in order.
\<close>

fun dedupe_onto :: "'a list \<Rightarrow> 'a list \<Rightarrow> 'a list" where
  "dedupe_onto out [] = out"
| "dedupe_onto out (x # xs) = (if x \<in> set out then dedupe_onto out xs else dedupe_onto (out @ [x]) xs)"

definition dedupe :: "'a list \<Rightarrow> 'a list" where
  "dedupe xs = dedupe_onto [] xs"

lemma set_dedupe_onto [simp]: "set (dedupe_onto out xs) = set out \<union> set xs"
  by (induction out xs rule: dedupe_onto.induct) auto

lemma distinct_dedupe_onto: "distinct out \<Longrightarrow> distinct (dedupe_onto out xs)"
  by (induction out xs rule: dedupe_onto.induct) auto

lemma set_dedupe [simp]: "set (dedupe xs) = set xs"
  by (simp add: dedupe_def)

lemma distinct_dedupe [simp]: "distinct (dedupe xs)"
  by (simp add: dedupe_def distinct_dedupe_onto)

lemma dedupe_Nil_iff [simp]: "dedupe xs = [] \<longleftrightarrow> xs = []"
  using set_dedupe [of xs] by (metis set_empty)

lemma dedupe_onto_fresh:
  "distinct xs \<Longrightarrow> set out \<inter> set xs = {} \<Longrightarrow> dedupe_onto out xs = out @ xs"
  by (induction out xs rule: dedupe_onto.induct) auto

lemma dedupe_distinct: "distinct xs \<Longrightarrow> dedupe xs = xs"
  by (simp add: dedupe_def dedupe_onto_fresh)

section \<open>Instants and the order of their texts\<close>

type_synonym instant = int

definition microseconds :: int where "microseconds = 1000000"

definition after_sec :: "instant \<Rightarrow> int \<Rightarrow> instant" where
  "after_sec t s = t + s * microseconds"

text \<open>
  \<open>datetime_to_wire\<close> writes \<open>YYYY-MM-DDTHH:MM:SS\<close>, then a dot and six digits only when the
  microseconds are not zero, then \<open>Z\<close>. Two such texts agree on the fixed-width prefix exactly when
  their instants lie in the same second, and there \<open>.\<close> sorts before \<open>Z\<close>: the whole second sorts
  after every fraction of it. \<open>wire_key\<close> is the position of the text in that order.
\<close>

definition wire_key :: "instant \<Rightarrow> int" where
  "wire_key t = (t div microseconds) * (microseconds + 1)
     + (if t mod microseconds = 0 then microseconds else t mod microseconds)"

definition wire_le :: "instant \<Rightarrow> instant \<Rightarrow> bool" where
  "wire_le a b \<longleftrightarrow> wire_key a \<le> wire_key b"

lemma wire_le_refl [simp]: "wire_le a a"
  by (simp add: wire_le_def)

lemma wire_le_trans: "wire_le a b \<Longrightarrow> wire_le b c \<Longrightarrow> wire_le a c"
  by (simp add: wire_le_def)

lemma wire_le_total: "wire_le a b \<or> wire_le b a"
  by (auto simp: wire_le_def)

lemma wire_key_second: "a div microseconds < b div microseconds \<Longrightarrow> wire_key a < wire_key b"
proof -
  assume lt: "a div microseconds < b div microseconds"
  have ua: "(if a mod microseconds = 0 then microseconds else a mod microseconds) \<le> microseconds"
    using pos_mod_bound [of microseconds a] by (auto simp: microseconds_def)
  have lb: "0 < (if b mod microseconds = 0 then microseconds else b mod microseconds)"
    using pos_mod_sign [of microseconds b] by (auto simp: microseconds_def order_le_less)
  have "(a div microseconds + 1) * (microseconds + 1) \<le> (b div microseconds) * (microseconds + 1)"
    using lt by (intro mult_right_mono) (auto simp: microseconds_def)
  then show ?thesis using ua lb by (simp add: wire_key_def algebra_simps)
qed

lemma wire_le_chronological:
  assumes "a div microseconds \<noteq> b div microseconds \<or> (a mod microseconds = 0 \<longleftrightarrow> b mod microseconds = 0)"
  shows "wire_le a b \<longleftrightarrow> a \<le> b"
proof -
  have dm: "x = (x div microseconds) * microseconds + x mod microseconds" for x :: int
    by simp
  show ?thesis
  proof (cases "a div microseconds" "b div microseconds" rule: linorder_cases)
    case less
    then have "a < b"
      using zdiv_mono1 [of b a microseconds] by (auto simp: microseconds_def not_less [symmetric])
    then show ?thesis using wire_key_second [OF less] by (simp add: wire_le_def)
  next
    case greater
    then have "b < a"
      using zdiv_mono1 [of a b microseconds] by (auto simp: microseconds_def not_less [symmetric])
    then show ?thesis using wire_key_second [OF greater] by (simp add: wire_le_def)
  next
    case equal
    with assms have z: "a mod microseconds = 0 \<longleftrightarrow> b mod microseconds = 0" by simp
    have "wire_le a b \<longleftrightarrow> a mod microseconds \<le> b mod microseconds"
      using equal z by (cases "b mod microseconds = 0") (simp_all add: wire_le_def wire_key_def)
    also have "\<dots> \<longleftrightarrow> a \<le> b"
      using dm [of a] dm [of b] equal
      by (metis add_le_cancel_left)
    finally show ?thesis .
  qed
qed

lemma wire_le_after_second: "after_sec a 1 \<le> b \<Longrightarrow> wire_le a b"
proof -
  assume le: "after_sec a 1 \<le> b"
  have "a div microseconds + 1 = after_sec a 1 div microseconds"
    by (simp add: after_sec_def microseconds_def)
  also have "\<dots> \<le> b div microseconds"
    using le by (intro zdiv_mono1) (simp_all add: microseconds_def)
  finally show ?thesis
    using wire_key_second [of a b] by (simp add: wire_le_def)
qed

section \<open>SQL tables as lists of rows\<close>

definition sql_update :: "('r \<Rightarrow> bool) \<Rightarrow> ('r \<Rightarrow> 'r) \<Rightarrow> 'r list \<Rightarrow> 'r list" where
  "sql_update p f t = map (\<lambda>r. if p r then f r else r) t"

definition sql_find :: "('r \<Rightarrow> bool) \<Rightarrow> 'r list \<Rightarrow> 'r option" where
  "sql_find p t = find p t"

definition sql_delete :: "('r \<Rightarrow> bool) \<Rightarrow> 'r list \<Rightarrow> 'r list" where
  "sql_delete p t = filter (\<lambda>r. \<not> p r) t"

definition sql_count :: "('r \<Rightarrow> bool) \<Rightarrow> 'r list \<Rightarrow> nat" where
  "sql_count p t = length (filter p t)"

definition lookup_by :: "('r \<Rightarrow> 'k) \<Rightarrow> 'k \<Rightarrow> 'r list \<Rightarrow> 'r option" where
  "lookup_by key k t = sql_find (\<lambda>r. key r = k) t"

definition unique_key :: "('r \<Rightarrow> 'k) \<Rightarrow> 'r list \<Rightarrow> bool" where
  "unique_key key t \<longleftrightarrow> distinct (map key t)"

lemma lookup_by_Nil [simp]: "lookup_by key k [] = None"
  by (simp add: lookup_by_def sql_find_def)

lemma lookup_by_Cons [simp]:
  "lookup_by key k (r # t) = (if key r = k then Some r else lookup_by key k t)"
  by (simp add: lookup_by_def sql_find_def)

lemma lookup_by_append:
  "lookup_by key k (t @ u) = (case lookup_by key k t of None \<Rightarrow> lookup_by key k u | Some r \<Rightarrow> Some r)"
  by (induction t) auto

lemma lookup_by_None_iff: "lookup_by key k t = None \<longleftrightarrow> k \<notin> key ` set t"
  by (induction t) auto

lemma lookup_by_SomeD: "lookup_by key k t = Some r \<Longrightarrow> r \<in> set t \<and> key r = k"
  by (induction t) (auto split: if_splits)

lemma lookup_by_unique:
  "unique_key key t \<Longrightarrow> r \<in> set t \<Longrightarrow> lookup_by key (key r) t = Some r"
  by (induction t) (auto simp: unique_key_def)

lemma lookup_by_unique_iff:
  "unique_key key t \<Longrightarrow> lookup_by key k t = Some r \<longleftrightarrow> r \<in> set t \<and> key r = k"
  by (auto dest: lookup_by_unique lookup_by_SomeD)

lemma unique_key_Nil [simp]: "unique_key key []"
  by (simp add: unique_key_def)

lemma unique_key_snoc:
  "unique_key key (t @ [r]) \<longleftrightarrow> unique_key key t \<and> lookup_by key (key r) t = None"
  by (auto simp: unique_key_def lookup_by_None_iff)

lemma unique_key_filter: "unique_key key t \<Longrightarrow> unique_key key (filter p t)"
  by (simp add: unique_key_def distinct_map_filter)

lemma sql_update_Nil [simp]: "sql_update p f [] = []"
  by (simp add: sql_update_def)

lemma sql_update_Cons [simp]: "sql_update p f (r # t) = (if p r then f r else r) # sql_update p f t"
  by (simp add: sql_update_def)

lemma set_sql_update: "set (sql_update p f t) = (\<lambda>r. if p r then f r else r) ` set t"
  by (simp add: sql_update_def)

lemma length_sql_update [simp]: "length (sql_update p f t) = length t"
  by (simp add: sql_update_def)

lemma sql_update_none: "(\<And>r. r \<in> set t \<Longrightarrow> \<not> p r) \<Longrightarrow> sql_update p f t = t"
  by (induction t) auto

text \<open>
  Every statement of the stores keeps the primary key of the rows it changes. \<open>row_update\<close> is that
  contract; uniqueness of keys and the lookups of a client follow from it.
\<close>

locale row_update =
  fixes key :: "'r \<Rightarrow> 'k"
    and f :: "'r \<Rightarrow> 'r"
  assumes key_kept: "key (f r) = key r"
begin

lemma keys_update: "map key (sql_update p f t) = map key t"
  by (induction t) (auto simp: key_kept)

lemma unique_update: "unique_key key (sql_update p f t) = unique_key key t"
  by (simp only: unique_key_def keys_update)

lemma lookup_update:
  "lookup_by key k (sql_update p f t) =
     map_option (\<lambda>r. if p r then f r else r) (lookup_by key k t)"
  by (induction t) (auto simp: key_kept)

end

text \<open>The same three facts as rules for any row transformer, for use as \<open>sql_simps\<close>.\<close>

lemma unique_key_sql_update [sql_simps]:
  "(\<And>r. key (f r) = key r) \<Longrightarrow> unique_key key (sql_update p f t) = unique_key key t"
  by (rule row_update.unique_update) (rule row_update.intro)

lemma lookup_by_sql_update [sql_simps]:
  "(\<And>r. key (f r) = key r) \<Longrightarrow>
     lookup_by key k (sql_update p f t) = map_option (\<lambda>r. if p r then f r else r) (lookup_by key k t)"
  by (rule row_update.lookup_update) (rule row_update.intro)

lemma lookup_by_replace [sql_simps]:
  "key m = k \<Longrightarrow> lookup_by key j (sql_update (\<lambda>r. key r = k) (\<lambda>_. m) t) =
     (if j = k then map_option (\<lambda>_. m) (lookup_by key k t) else lookup_by key j t)"
  by (induction t) auto

lemma keys_replace [sql_simps]:
  "key m = k \<Longrightarrow> map key (sql_update (\<lambda>r. key r = k) (\<lambda>_. m) t) = map key t"
  by (induction t) auto

lemma lookup_by_sql_delete_key [sql_simps]:
  "lookup_by key k (sql_delete (\<lambda>r. key r = k) t) = None"
  by (auto simp: lookup_by_None_iff sql_delete_def)

lemma sql_delete_other [sql_simps]:
  "j \<noteq> k \<Longrightarrow> lookup_by key j (sql_delete (\<lambda>r. key r = k) t) = lookup_by key j t"
  by (induction t) (auto simp: sql_delete_def)

lemma unique_key_sql_delete [sql_simps]: "unique_key key t \<Longrightarrow> unique_key key (sql_delete p t)"
  by (simp add: sql_delete_def unique_key_filter)

section \<open>Bounded limits\<close>

definition clamp_int :: "int \<Rightarrow> int \<Rightarrow> int \<Rightarrow> int" where
  \<comment> \<open>\<open>min(max(x, lo), hi)\<close>\<close>
  "clamp_int lo hi x = min (max x lo) hi"

lemma clamp_int_bounds: "lo \<le> hi \<Longrightarrow> lo \<le> clamp_int lo hi x \<and> clamp_int lo hi x \<le> hi"
  by (simp add: clamp_int_def)

end
