(* ===== verification/Command_Row.thy ===== *)
theory Command_Row
  imports Py_Prelude
begin

text \<open>
  The data the gateway paths share: the envelopes \<open>GatewayCommand\<close> (domain/broker/commands.py) and
  \<open>GatewayEvent\<close> (domain/broker/events.py), the command statuses, and a row of the table \<open>gateway_commands\<close>. A JSON text column is represented by
  the object it encodes, a timestamp column by its instant.
\<close>

record gateway_command =
  g_command_id :: string
  g_command_type :: string
  g_source :: string
  g_ts :: instant
  g_payload :: pydict
  g_idempotency_key :: "string option"

record gateway_event =
  v_event_id :: string
  v_event_type :: string
  v_source :: string
  v_ts :: instant
  v_payload :: pydict
  v_command_id :: "string option"
  v_idempotency_key :: "string option"

definition command_wf :: "gateway_command \<Rightarrow> bool" where
  \<comment> \<open>what \<open>CommandEnvelope.__post_init__\<close> establishes: the mandatory texts are not empty\<close>
  "command_wf c \<longleftrightarrow> g_command_id c \<noteq> [] \<and> g_command_type c \<noteq> [] \<and> g_source c \<noteq> []
     \<and> g_idempotency_key c \<noteq> Some []"

datatype command_status =
    QUEUED | DISPATCHED | CLAIMED | GATEWAY_STARTED | PRE_ACK_RECORDED | BROKER_ACCEPTED
  | CHEJAN_CONFIRMED | UNCONFIRMED | ACKED | REJECTED | FAILED | EXPIRED | CANCELLED

record command_row =
  r_command_id :: string
  r_command_type :: string
  r_source :: string
  r_status :: command_status
  r_idempotency_key :: "string option"
  r_payload :: pydict
  r_payload_hash :: string
  r_created_at :: instant
  r_available_at :: "instant option"
  r_dispatched_at :: "instant option"
  r_completed_at :: "instant option"
  r_expires_at :: "instant option"
  r_attempts :: int
  r_last_error :: "string option"

definition ORDER_COMMAND_TYPES :: "string list" where
  "ORDER_COMMAND_TYPES = [''send_order'', ''cancel_order'']"

definition is_order_command_type :: "string \<Rightarrow> bool" where
  "is_order_command_type t \<longleftrightarrow> py_lower (py_strip t) \<in> set ORDER_COMMAND_TYPES"

definition normalize_command_type :: "string \<Rightarrow> string" where
  "normalize_command_type t = py_lower (py_strip t)"

lemma normalize_command_type_idem [simp]:
  "normalize_command_type (normalize_command_type t) = normalize_command_type t"
  by (simp add: normalize_command_type_def py_strip_lower)

lemma is_order_normalized [simp]:
  "is_order_command_type (normalize_command_type t) = is_order_command_type t"
  by (simp add: is_order_command_type_def normalize_command_type_def py_strip_lower)

abbreviation coalesce :: "'a option \<Rightarrow> 'a option \<Rightarrow> 'a option" where
  \<comment> \<open>SQL \<open>COALESCE(a, b)\<close>\<close>
  "coalesce a b \<equiv> (case a of None \<Rightarrow> b | Some x \<Rightarrow> Some x)"

end
