(* ===== verification/Order_Boundary.thy ===== *)
theory Order_Boundary
  imports Command_Row
begin

text \<open>
  The broker boundary ledger of order commands (storage/gateway_order_broker_boundary.py, the part
  that records claims and broker events): one row per order command, whose state says how far the
  command is known to have travelled toward the broker.
\<close>

section \<open>States and their ranks\<close>

datatype boundary_state =
    BS_CLAIMED | BS_GATEWAY_STARTED | BS_PRE_ACK_RECORDED | BS_BROKER_ACCEPTED
  | BS_CHEJAN_CONFIRMED | BS_UNCONFIRMED

fun state_rank :: "boundary_state \<Rightarrow> nat" where
  "state_rank BS_CLAIMED = 10"
| "state_rank BS_GATEWAY_STARTED = 20"
| "state_rank BS_PRE_ACK_RECORDED = 30"
| "state_rank BS_UNCONFIRMED = 35"
| "state_rank BS_BROKER_ACCEPTED = 40"
| "state_rank BS_CHEJAN_CONFIRMED = 50"

fun command_status_of :: "boundary_state \<Rightarrow> command_status" where
  \<comment> \<open>\<open>GatewayCommandStatus(boundary_state)\<close>: the values coincide\<close>
  "command_status_of BS_CLAIMED = CLAIMED"
| "command_status_of BS_GATEWAY_STARTED = GATEWAY_STARTED"
| "command_status_of BS_PRE_ACK_RECORDED = PRE_ACK_RECORDED"
| "command_status_of BS_BROKER_ACCEPTED = BROKER_ACCEPTED"
| "command_status_of BS_CHEJAN_CONFIRMED = CHEJAN_CONFIRMED"
| "command_status_of BS_UNCONFIRMED = UNCONFIRMED"

definition resolve_state :: "boundary_state option \<Rightarrow> boundary_state \<Rightarrow> boundary_state" where
  "resolve_state current_state proposed =
     (case current_state of
        None \<Rightarrow> proposed
      | Some current \<Rightarrow>
          if current = BS_CHEJAN_CONFIRMED then current
          else if proposed = BS_CHEJAN_CONFIRMED then proposed
          else if proposed = BS_BROKER_ACCEPTED then proposed
          else if current = BS_UNCONFIRMED then current
          else if state_rank current \<le> state_rank proposed then proposed else current)"

definition state_for_event :: "repr \<Rightarrow> string \<Rightarrow> pydict \<Rightarrow> boundary_state option" where
  "state_for_event rp event_type payload =
     (let normalized = py_lower (py_strip event_type) in
      if normalized = ''command_started'' then Some BS_GATEWAY_STARTED
      else if normalized = ''order_pre_ack'' then
        (if py_contains ''BROKER_ACCEPTED'' (py_upper (py_str rp (py_or (dget payload ''status'') (PStr []))))
         then Some BS_BROKER_ACCEPTED else Some BS_PRE_ACK_RECORDED)
      else if normalized = ''command_ack'' then Some BS_BROKER_ACCEPTED
      else if normalized = ''order_broker_unconfirmed'' then Some BS_UNCONFIRMED
      else if normalized \<in> {''execution_event'', ''kiwoom_order_chejan''} then Some BS_CHEJAN_CONFIRMED
      else None)"

section \<open>Rows\<close>

record boundary_row =
  b_command_id :: string
  b_idempotency_key :: "string option"
  b_command_type :: string
  b_source :: string
  b_state :: boundary_state
  b_attempts :: int
  b_account_id :: "string option"
  b_code :: "string option"
  b_side :: "string option"
  b_broker_order_no :: "string option"
  b_broker_result_code :: "string option"
  b_broker_message :: "string option"
  b_claimed_at :: "instant option"
  b_gateway_started_at :: "instant option"
  b_pre_ack_recorded_at :: "instant option"
  b_broker_accepted_at :: "instant option"
  b_chejan_confirmed_at :: "instant option"
  b_unconfirmed_at :: "instant option"
  b_last_event_id :: "string option"
  b_pre_ack_payload :: pydict
  b_latest_payload :: pydict
  b_created_at :: instant
  b_updated_at :: instant
  b_live_sim_only :: bool
  b_live_real_allowed :: bool

type_synonym boundaries = "boundary_row list"

datatype db_error = IntegrityError string

record state_timestamps =
  st_claimed_at :: "instant option"
  st_gateway_started_at :: "instant option"
  st_pre_ack_recorded_at :: "instant option"
  st_broker_accepted_at :: "instant option"
  st_chejan_confirmed_at :: "instant option"
  st_unconfirmed_at :: "instant option"

definition state_timestamps_of :: "boundary_state \<Rightarrow> instant \<Rightarrow> bool \<Rightarrow> state_timestamps" where
  "state_timestamps_of st occurred_at pre_ack_observed =
     (let rank = state_rank st in
      \<lparr> st_claimed_at = (if 10 \<le> rank then Some occurred_at else None),
        st_gateway_started_at =
          (if 20 \<le> rank \<and> st \<noteq> BS_UNCONFIRMED then Some occurred_at else None),
        st_pre_ack_recorded_at = (if pre_ack_observed then Some occurred_at else None),
        st_broker_accepted_at = (if 40 \<le> rank then Some occurred_at else None),
        st_chejan_confirmed_at = (if st = BS_CHEJAN_CONFIRMED then Some occurred_at else None),
        st_unconfirmed_at = (if st = BS_UNCONFIRMED then Some occurred_at else None) \<rparr>)"

definition optional_text :: "repr \<Rightarrow> pyval \<Rightarrow> string option" where
  "optional_text rp v =
     (if v = PNone then None
      else let t = py_strip (py_str rp v) in if t = [] then None else Some t)"

fun first_text :: "repr \<Rightarrow> pyval list \<Rightarrow> string option" where
  "first_text rp [] = None"
| "first_text rp (v # vs) =
     (case optional_text rp v of Some t \<Rightarrow> Some t | None \<Rightarrow> first_text rp vs)"

definition opt_str :: "string option \<Rightarrow> pyval" where
  "opt_str v = (case v of None \<Rightarrow> PNone | Some s \<Rightarrow> PStr s)"

definition text_or :: "string \<Rightarrow> string \<Rightarrow> string" where
  \<comment> \<open>\<open>str(value or default)\<close> on a text column\<close>
  "text_or s d = (if s = [] then d else s)"

text \<open>The row the \<open>INSERT\<close> proposes (\<open>excluded\<close> in the conflict clause).\<close>

definition excluded_row ::
  "repr \<Rightarrow> boundary_row option \<Rightarrow> command_row \<Rightarrow> boundary_state \<Rightarrow> pydict \<Rightarrow> string option
   \<Rightarrow> instant \<Rightarrow> bool \<Rightarrow> boundary_row" where
  "excluded_row rp existing cmd proposed pl event_id occurred_at pre_ack_observed =
     (let cp = r_payload cmd;
          details = as_mapping (dget pl ''details'');
          tst = state_timestamps_of proposed occurred_at pre_ack_observed in
      \<lparr> b_command_id = r_command_id cmd,
        b_idempotency_key = optional_text rp (opt_str (r_idempotency_key cmd)),
        b_command_type = py_lower (py_strip (r_command_type cmd)),
        b_source = text_or (r_source cmd) ''unknown'',
        b_state = resolve_state (map_option b_state existing) proposed,
        b_attempts = r_attempts cmd,
        b_account_id = first_text rp [dget pl ''account_id'', dget pl ''account'',
                                      dget cp ''account_id'', dget cp ''account''],
        b_code = first_text rp [dget pl ''code'', dget cp ''code''],
        b_side = first_text rp [dget pl ''side'', dget cp ''side''],
        b_broker_order_no = first_text rp [dget details ''broker_order_no'', dget details ''broker_order_id'',
                                           dget pl ''broker_order_no'', dget pl ''broker_order_id''],
        b_broker_result_code = first_text rp [dget details ''broker_result_code'', dget pl ''broker_result_code''],
        b_broker_message = first_text rp [dget details ''broker_message'', dget pl ''broker_message'',
                                          dget pl ''message'', dget pl ''error_message''],
        b_claimed_at = st_claimed_at tst,
        b_gateway_started_at = st_gateway_started_at tst,
        b_pre_ack_recorded_at = st_pre_ack_recorded_at tst,
        b_broker_accepted_at = st_broker_accepted_at tst,
        b_chejan_confirmed_at = st_chejan_confirmed_at tst,
        b_unconfirmed_at = st_unconfirmed_at tst,
        b_last_event_id = event_id,
        b_pre_ack_payload = (if pre_ack_observed then pl else []),
        b_latest_payload = pl,
        b_created_at = (case existing of None \<Rightarrow> occurred_at | Some e \<Rightarrow> b_created_at e),
        b_updated_at = occurred_at,
        b_live_sim_only = True,
        b_live_real_allowed = False \<rparr>)"

text \<open>\<open>ON CONFLICT(command_id) DO UPDATE SET ...\<close>: first writer wins on the time stamps.\<close>

definition merge_row :: "boundary_row \<Rightarrow> boundary_row \<Rightarrow> boundary_row" where
  "merge_row old new = old\<lparr>
     b_idempotency_key := coalesce (b_idempotency_key old) (b_idempotency_key new),
     b_state := b_state new,
     b_attempts := max (b_attempts old) (b_attempts new),
     b_account_id := coalesce (b_account_id old) (b_account_id new),
     b_code := coalesce (b_code old) (b_code new),
     b_side := coalesce (b_side old) (b_side new),
     b_broker_order_no := coalesce (b_broker_order_no new) (b_broker_order_no old),
     b_broker_result_code := coalesce (b_broker_result_code new) (b_broker_result_code old),
     b_broker_message := coalesce (b_broker_message new) (b_broker_message old),
     b_claimed_at := coalesce (b_claimed_at old) (b_claimed_at new),
     b_gateway_started_at := coalesce (b_gateway_started_at old) (b_gateway_started_at new),
     b_pre_ack_recorded_at := coalesce (b_pre_ack_recorded_at old) (b_pre_ack_recorded_at new),
     b_broker_accepted_at := coalesce (b_broker_accepted_at old) (b_broker_accepted_at new),
     b_chejan_confirmed_at := coalesce (b_chejan_confirmed_at old) (b_chejan_confirmed_at new),
     b_unconfirmed_at := coalesce (b_unconfirmed_at old) (b_unconfirmed_at new),
     b_last_event_id := coalesce (b_last_event_id new) (b_last_event_id old),
     b_pre_ack_payload := (if b_pre_ack_payload new \<noteq> [] then b_pre_ack_payload new else b_pre_ack_payload old),
     b_latest_payload := b_latest_payload new,
     b_updated_at := b_updated_at new\<rparr>"

definition key_taken :: "string option \<Rightarrow> string \<Rightarrow> boundaries \<Rightarrow> bool" where
  \<comment> \<open>the unique index on \<open>idempotency_key\<close>, which ignores NULL\<close>
  "key_taken k cid t \<longleftrightarrow> k \<noteq> None \<and> (\<exists>r \<in> set t. b_command_id r \<noteq> cid \<and> b_idempotency_key r = k)"

definition upsert_boundary ::
  "repr \<Rightarrow> command_row \<Rightarrow> boundary_state \<Rightarrow> pydict \<Rightarrow> string option \<Rightarrow> instant \<Rightarrow> bool
   \<Rightarrow> boundaries \<Rightarrow> db_error + (boundary_state \<times> boundaries)" where
  "upsert_boundary rp cmd proposed pl event_id occurred_at pre_ack_observed t =
     (let cid = r_command_id cmd;
          existing = lookup_by b_command_id cid t;
          new = excluded_row rp existing cmd proposed pl event_id occurred_at pre_ack_observed;
          row = (case existing of None \<Rightarrow> new | Some old \<Rightarrow> merge_row old new) in
      if key_taken (b_idempotency_key row) cid t
      then Inl (IntegrityError ''UNIQUE constraint failed: gateway_order_broker_boundaries.idempotency_key'')
      else Inr (b_state new,
                (case existing of
                   None \<Rightarrow> t @ [row]
                 | Some _ \<Rightarrow> sql_update (\<lambda>r. b_command_id r = cid) (\<lambda>_. row) t)))"

definition update_latest_boundary_payload ::
  "command_row \<Rightarrow> pydict \<Rightarrow> string option \<Rightarrow> instant \<Rightarrow> boundaries
   \<Rightarrow> boundary_state option \<times> boundaries" where
  "update_latest_boundary_payload cmd pl event_id occurred_at t =
     (case lookup_by b_command_id (r_command_id cmd) t of
        None \<Rightarrow> (None, t)
      | Some row \<Rightarrow>
          (Some (b_state row),
           sql_update (\<lambda>r. b_command_id r = r_command_id cmd)
             (\<lambda>r. r\<lparr>b_latest_payload := pl,
                    b_last_event_id := coalesce event_id (b_last_event_id r),
                    b_updated_at := occurred_at\<rparr>) t))"

section \<open>Operations\<close>

definition record_order_command_claim ::
  "repr \<Rightarrow> command_row \<Rightarrow> instant \<Rightarrow> boundaries \<Rightarrow> db_error + (boundary_state option \<times> boundaries)" where
  "record_order_command_claim rp cmd claimed_at t =
     (if \<not> is_order_command_type (r_command_type cmd) then Inr (None, t)
      else rbind (upsert_boundary rp cmd BS_CLAIMED (r_payload cmd) None claimed_at False t)
             (\<lambda>(st, t'). Inr (Some st, t')))"

definition record_order_broker_event ::
  "repr \<Rightarrow> command_row \<Rightarrow> string \<Rightarrow> pydict \<Rightarrow> string option \<Rightarrow> instant \<Rightarrow> boundaries
   \<Rightarrow> db_error + (boundary_state option \<times> boundaries)" where
  "record_order_broker_event rp cmd event_type pl event_id occurred_at t =
     (if \<not> is_order_command_type (r_command_type cmd) then Inr (None, t)
      else case state_for_event rp event_type pl of
             None \<Rightarrow> Inr (update_latest_boundary_payload cmd pl event_id occurred_at t)
           | Some proposed \<Rightarrow>
               rbind (upsert_boundary rp cmd proposed pl event_id occurred_at
                        (py_lower (py_strip event_type) = ''order_pre_ack'') t)
                 (\<lambda>(st, t'). Inr (Some st, t')))"

fun mark_each_unconfirmed ::
  "repr \<Rightarrow> command_row list \<Rightarrow> string list \<Rightarrow> instant \<Rightarrow> string \<Rightarrow> boundaries \<Rightarrow> db_error + boundaries" where
  "mark_each_unconfirmed rp cmds [] occurred_at reason t = Inr t"
| "mark_each_unconfirmed rp cmds (cid # cids) occurred_at reason t =
     (case lookup_by r_command_id cid cmds of
        None \<Rightarrow> mark_each_unconfirmed rp cmds cids occurred_at reason t
      | Some cmd \<Rightarrow>
          if \<not> is_order_command_type (r_command_type cmd)
          then mark_each_unconfirmed rp cmds cids occurred_at reason t
          else rbind (upsert_boundary rp cmd BS_UNCONFIRMED [(''reason'', PStr reason)] None occurred_at False t)
                 (\<lambda>(_, t'). mark_each_unconfirmed rp cmds cids occurred_at reason t'))"

definition mark_order_commands_unconfirmed ::
  "repr \<Rightarrow> command_row list \<Rightarrow> string list \<Rightarrow> instant \<Rightarrow> string \<Rightarrow> boundaries \<Rightarrow> db_error + boundaries" where
  "mark_order_commands_unconfirmed rp cmds cids occurred_at reason t =
     mark_each_unconfirmed rp cmds (dedupe (filter (\<lambda>c. c \<noteq> []) cids)) occurred_at reason t"

section \<open>The order of states\<close>

instantiation boundary_state :: linorder
begin

definition less_eq_boundary_state :: "boundary_state \<Rightarrow> boundary_state \<Rightarrow> bool" where
  "less_eq_boundary_state a b \<longleftrightarrow> state_rank a \<le> state_rank b"

definition less_boundary_state :: "boundary_state \<Rightarrow> boundary_state \<Rightarrow> bool" where
  "less_boundary_state a b \<longleftrightarrow> state_rank a < state_rank b"

instance
proof
  fix x y z :: boundary_state
  show "(x < y) = (x \<le> y \<and> \<not> y \<le> x)"
    by (auto simp: less_eq_boundary_state_def less_boundary_state_def)
  show "x \<le> x" by (simp add: less_eq_boundary_state_def)
  show "x \<le> y \<Longrightarrow> y \<le> z \<Longrightarrow> x \<le> z" by (simp add: less_eq_boundary_state_def)
  show "x \<le> y \<Longrightarrow> y \<le> x \<Longrightarrow> x = y"
    by (cases x; cases y) (simp_all add: less_eq_boundary_state_def)
  show "x \<le> y \<or> y \<le> x" by (auto simp: less_eq_boundary_state_def)
qed

end

text \<open>The case analysis of \<open>_resolve_state\<close> computes the larger of the two states.\<close>

lemma resolve_state_max: "resolve_state (Some c) p = max c p"
  by (cases c; cases p) (simp_all add: resolve_state_def max_def less_eq_boundary_state_def)

text \<open>
  What a client of a state merge relies on: the merge is a semilattice join, so replaying or
  reordering the same observations cannot change the outcome.
\<close>

locale state_join =
  fixes join :: "'s::linorder \<Rightarrow> 's \<Rightarrow> 's"
  assumes join_max: "join a b = max a b"
begin

lemma join_eq_max: "join = max"
  by (intro ext) (rule join_max)

lemma join_upper: "a \<le> join a b" "b \<le> join a b"
  by (simp_all add: join_max)

lemma foldl_join_ge: "s \<le> foldl join s xs"
proof (induction xs arbitrary: s)
  case (Cons x xs)
  show ?case using Cons [of "join s x"] join_upper(1) [of s x] by simp
qed simp

lemma foldl_join_Max: "foldl join s xs = Max (insert s (set xs))"
proof (induction xs arbitrary: s)
  case (Cons x xs)
  have "foldl join s (x # xs) = Max (insert (max s x) (set xs))"
    using Cons [of "join s x"] by (simp add: join_eq_max)
  also have "\<dots> = Max (insert s (insert x (set xs)))"
    by (cases "xs = []") (auto simp: max.assoc max.commute max.left_commute)
  finally show ?case by simp
qed simp

lemma foldl_join_same_set: "set xs = set ys \<Longrightarrow> foldl join s xs = foldl join s ys"
  by (simp add: foldl_join_Max)

lemma foldl_join_top: "(\<And>a. a \<le> s) \<Longrightarrow> foldl join s xs = s"
  by (metis antisym foldl_join_ge)

end

interpretation boundary_join: state_join "\<lambda>c p. resolve_state (Some c) p"
  by unfold_locales (rule resolve_state_max)

lemma chejan_top: "a \<le> BS_CHEJAN_CONFIRMED"
  by (cases a) (simp_all add: less_eq_boundary_state_def)

section \<open>What one upsert does\<close>

lemma excluded_row_simps [simp]:
  "b_command_id (excluded_row rp ex cmd p pl e t pa) = r_command_id cmd"
  "b_state (excluded_row rp ex cmd p pl e t pa) = resolve_state (map_option b_state ex) p"
  by (simp_all add: excluded_row_def Let_def)

lemma merge_row_simps [simp]:
  "b_command_id (merge_row old new) = b_command_id old"
  "b_state (merge_row old new) = b_state new"
  by (simp_all add: merge_row_def)

definition boundary_state_at :: "string \<Rightarrow> boundaries \<Rightarrow> boundary_state option" where
  "boundary_state_at cid t = map_option b_state (lookup_by b_command_id cid t)"

lemma upsert_boundary_result:
  assumes "upsert_boundary rp cmd p pl e tm pa t = Inr (st, t')"
  shows "st = resolve_state (boundary_state_at (r_command_id cmd) t) p"
    and "boundary_state_at (r_command_id cmd) t' = Some st"
    and "cid \<noteq> r_command_id cmd \<Longrightarrow> lookup_by b_command_id cid t' = lookup_by b_command_id cid t"
proof -
  let ?cid = "r_command_id cmd"
  let ?ex = "lookup_by b_command_id ?cid t"
  let ?new = "excluded_row rp ?ex cmd p pl e tm pa"
  have st: "st = b_state ?new"
    and t': "t' = (case ?ex of None \<Rightarrow> t @ [?new]
                   | Some old \<Rightarrow> sql_update (\<lambda>r. b_command_id r = ?cid) (\<lambda>_. merge_row old ?new) t)"
    using assms by (auto simp: upsert_boundary_def Let_def split: if_splits option.splits)
  show "st = resolve_state (boundary_state_at ?cid t) p"
    by (simp add: st boundary_state_at_def)
  show "boundary_state_at ?cid t' = Some st"
  proof (cases ?ex)
    case None
    then show ?thesis by (simp add: t' st boundary_state_at_def lookup_by_append)
  next
    case (Some old)
    then have id: "b_command_id old = ?cid" by (auto dest: lookup_by_SomeD)
    show ?thesis using Some id by (simp add: t' st boundary_state_at_def sql_simps)
  qed
  show "lookup_by b_command_id cid t' = lookup_by b_command_id cid t" if "cid \<noteq> ?cid"
  proof (cases ?ex)
    case None
    then show ?thesis using that by (simp add: t' lookup_by_append split: option.splits)
  next
    case (Some old)
    then have id: "b_command_id old = ?cid" by (auto dest: lookup_by_SomeD)
    show ?thesis using that id by (simp add: t' Some sql_simps)
  qed
qed

text \<open>A successful upsert changes exactly one row, and an insertion is the only other outcome.\<close>

lemma upsert_boundary_cases:
  assumes "upsert_boundary rp cmd p pl e tm pa t = Inr (st, t')"
  obtains (insert) "lookup_by b_command_id (r_command_id cmd) t = None"
      "t' = t @ [excluded_row rp None cmd p pl e tm pa]"
      "\<not> key_taken (b_idempotency_key (excluded_row rp None cmd p pl e tm pa)) (r_command_id cmd) t"
  | (merge) old where "lookup_by b_command_id (r_command_id cmd) t = Some old"
      "t' = sql_update (\<lambda>r. b_command_id r = r_command_id cmd)
              (\<lambda>_. merge_row old (excluded_row rp (Some old) cmd p pl e tm pa)) t"
      "\<not> key_taken (b_idempotency_key (merge_row old (excluded_row rp (Some old) cmd p pl e tm pa)))
           (r_command_id cmd) t"
  using assms by (auto simp: upsert_boundary_def Let_def split: if_splits option.splits)

section \<open>Row invariant\<close>

text \<open>
  A row is consistent when the state it claims is backed by the time stamps of that state and the
  scope flags say simulation only.
\<close>

definition boundary_row_ok :: "boundary_row \<Rightarrow> bool" where
  "boundary_row_ok r \<longleftrightarrow>
     b_claimed_at r \<noteq> None
   \<and> (b_state r \<notin> {BS_CLAIMED, BS_UNCONFIRMED} \<longrightarrow> b_gateway_started_at r \<noteq> None)
   \<and> (b_state r = BS_PRE_ACK_RECORDED \<longrightarrow> b_pre_ack_recorded_at r \<noteq> None)
   \<and> (b_state r \<in> {BS_BROKER_ACCEPTED, BS_CHEJAN_CONFIRMED} \<longrightarrow> b_broker_accepted_at r \<noteq> None)
   \<and> (b_state r = BS_CHEJAN_CONFIRMED \<longrightarrow> b_chejan_confirmed_at r \<noteq> None)
   \<and> (b_state r = BS_UNCONFIRMED \<longrightarrow> b_unconfirmed_at r \<noteq> None)
   \<and> b_live_sim_only r \<and> \<not> b_live_real_allowed r"

definition keys_exclusive :: "boundaries \<Rightarrow> bool" where
  "keys_exclusive t \<longleftrightarrow> (\<forall>r \<in> set t. \<forall>s \<in> set t.
     b_idempotency_key r \<noteq> None \<longrightarrow> b_idempotency_key r = b_idempotency_key s \<longrightarrow>
     b_command_id r = b_command_id s)"

definition boundaries_ok :: "boundaries \<Rightarrow> bool" where
  "boundaries_ok t \<longleftrightarrow> unique_key b_command_id t \<and> keys_exclusive t \<and> (\<forall>r \<in> set t. boundary_row_ok r)"

lemma excluded_row_ok:
  assumes "p = BS_PRE_ACK_RECORDED \<Longrightarrow> pa"
  shows "boundary_row_ok (excluded_row rp None cmd p pl e tm pa)"
  using assms
  by (cases p) (simp_all add: boundary_row_ok_def excluded_row_def Let_def state_timestamps_of_def
      resolve_state_def)

lemma coalesce_eq_None [simp]: "coalesce a b = None \<longleftrightarrow> a = None \<and> b = None"
  by (cases a) auto

lemma merge_row_ok:
  assumes "boundary_row_ok old" and "p = BS_PRE_ACK_RECORDED \<Longrightarrow> pa"
  shows "boundary_row_ok (merge_row old (excluded_row rp (Some old) cmd p pl e tm pa))"
  using assms
  by (cases p; cases "b_state old")
    (simp_all add: boundary_row_ok_def merge_row_def excluded_row_def Let_def state_timestamps_of_def
      resolve_state_def del: not_None_eq)

lemma keys_exclusiveI:
  assumes "\<And>r s k. r \<in> set t \<Longrightarrow> s \<in> set t \<Longrightarrow> b_idempotency_key r = Some k \<Longrightarrow>
     b_idempotency_key s = Some k \<Longrightarrow> b_command_id r = b_command_id s"
  shows "keys_exclusive t"
  unfolding keys_exclusive_def
proof (intro ballI impI)
  fix r s
  assume "r \<in> set t" "s \<in> set t" "b_idempotency_key r \<noteq> None" "b_idempotency_key r = b_idempotency_key s"
  then show "b_command_id r = b_command_id s" using assms [of r s] by auto
qed

lemma keys_exclusiveD:
  "keys_exclusive t \<Longrightarrow> r \<in> set t \<Longrightarrow> s \<in> set t \<Longrightarrow> b_idempotency_key r = Some k \<Longrightarrow>
     b_idempotency_key s = Some k \<Longrightarrow> b_command_id r = b_command_id s"
  unfolding keys_exclusive_def by (metis option.discI)

lemma not_key_takenD:
  "\<not> key_taken (Some k) cid t \<Longrightarrow> r \<in> set t \<Longrightarrow> b_idempotency_key r = Some k \<Longrightarrow> b_command_id r = cid"
  by (auto simp: key_taken_def)

lemma keys_exclusive_insert:
  assumes ex: "keys_exclusive t" and free: "\<not> key_taken (b_idempotency_key m) (b_command_id m) t"
  shows "keys_exclusive (t @ [m])"
proof (rule keys_exclusiveI)
  fix r s k
  assume "r \<in> set (t @ [m])" "s \<in> set (t @ [m])"
    and k: "b_idempotency_key r = Some k" "b_idempotency_key s = Some k"
  then consider "r \<in> set t" "s \<in> set t" | "r = m" "s = m" | "r = m" "s \<in> set t" | "r \<in> set t" "s = m"
    by auto
  then show "b_command_id r = b_command_id s"
  proof cases
    case 1
    then show ?thesis by (rule keys_exclusiveD [OF ex _ _ k])
  next
    case 2
    then show ?thesis by simp
  next
    case 3
    then show ?thesis using not_key_takenD [OF _ 3(2) k(2), of "b_command_id m"] free k(1) by metis
  next
    case 4
    then show ?thesis using not_key_takenD [OF _ 4(1) k(1), of "b_command_id m"] free k(2) by metis
  qed
qed

lemma keys_exclusive_replace:
  assumes ex: "keys_exclusive t" and free: "\<not> key_taken (b_idempotency_key m) (b_command_id m) t"
  shows "keys_exclusive (sql_update (\<lambda>r. b_command_id r = b_command_id m) (\<lambda>_. m) t)"
proof (rule keys_exclusiveI)
  fix r s k
  let ?u = "sql_update (\<lambda>r. b_command_id r = b_command_id m) (\<lambda>_. m) t"
  assume "r \<in> set ?u" "s \<in> set ?u"
    and k: "b_idempotency_key r = Some k" "b_idempotency_key s = Some k"
  then consider "r \<in> set t" "s \<in> set t" | "r = m" "s = m" | "r = m" "s \<in> set t" | "r \<in> set t" "s = m"
    by (auto simp: set_sql_update split: if_splits)
  then show "b_command_id r = b_command_id s"
  proof cases
    case 1
    then show ?thesis by (rule keys_exclusiveD [OF ex _ _ k])
  next
    case 2
    then show ?thesis by simp
  next
    case 3
    then show ?thesis using not_key_takenD [OF _ 3(2) k(2), of "b_command_id m"] free k(1) by metis
  next
    case 4
    then show ?thesis using not_key_takenD [OF _ 4(1) k(1), of "b_command_id m"] free k(2) by metis
  qed
qed

lemma upsert_boundary_ok:
  assumes ok: "boundaries_ok t" and pre: "p = BS_PRE_ACK_RECORDED \<Longrightarrow> pa"
    and res: "upsert_boundary rp cmd p pl e tm pa t = Inr (st, t')"
  shows "boundaries_ok t'"
  using res
proof (cases rule: upsert_boundary_cases)
  case insert
  let ?m = "excluded_row rp None cmd p pl e tm pa"
  have "boundary_row_ok ?m" by (rule excluded_row_ok [OF pre])
  moreover have "keys_exclusive t'"
    unfolding insert(2) using ok insert(3) by (intro keys_exclusive_insert) (simp_all add: boundaries_ok_def)
  ultimately show ?thesis
    using ok insert(1,2) by (simp add: boundaries_ok_def unique_key_snoc)
next
  case (merge old)
  let ?m = "merge_row old (excluded_row rp (Some old) cmd p pl e tm pa)"
  have old: "old \<in> set t" "b_command_id old = r_command_id cmd"
    using merge(1) by (auto dest: lookup_by_SomeD)
  then have id: "b_command_id ?m = r_command_id cmd" by simp
  have m: "boundary_row_ok ?m"
    using ok old(1) pre by (intro merge_row_ok) (auto simp: boundaries_ok_def)
  have "keys_exclusive t'"
    using keys_exclusive_replace [of t ?m] ok merge(2,3) id by (simp add: boundaries_ok_def)
  then show ?thesis
    using ok m merge(2) id
    by (auto simp: boundaries_ok_def unique_key_def keys_replace set_sql_update)
qed

lemma sql_update_latest_ok:
  assumes "boundaries_ok t"
    and f: "\<And>r. b_command_id (f r) = b_command_id r" "\<And>r. b_idempotency_key (f r) = b_idempotency_key r"
      "\<And>r. boundary_row_ok (f r) = boundary_row_ok r"
  shows "boundaries_ok (sql_update q f t)"
proof -
  have "keys_exclusive (sql_update q f t)"
  proof (rule keys_exclusiveI)
    fix r s k
    assume "r \<in> set (sql_update q f t)" "s \<in> set (sql_update q f t)"
      and k: "b_idempotency_key r = Some k" "b_idempotency_key s = Some k"
    then obtain r' s' where "r' \<in> set t" "s' \<in> set t" "b_command_id r = b_command_id r'"
      "b_command_id s = b_command_id s'" "b_idempotency_key r' = Some k" "b_idempotency_key s' = Some k"
      using f by (auto simp: set_sql_update split: if_splits)
    then show "b_command_id r = b_command_id s"
      using assms(1) keys_exclusiveD unfolding boundaries_ok_def by metis
  qed
  moreover have "\<forall>r \<in> set (sql_update q f t). boundary_row_ok r"
    using assms(1) f(3) by (auto simp: boundaries_ok_def set_sql_update)
  ultimately show ?thesis
    using assms(1) f(1) by (simp add: boundaries_ok_def unique_key_sql_update)
qed

lemma update_latest_boundary_payload_ok:
  assumes "boundaries_ok t"
  shows "boundaries_ok (snd (update_latest_boundary_payload cmd pl e tm t))"
proof (cases "lookup_by b_command_id (r_command_id cmd) t")
  case (Some row)
  then show ?thesis
    using sql_update_latest_ok [OF assms] by (simp add: update_latest_boundary_payload_def boundary_row_ok_def)
qed (use assms in \<open>simp add: update_latest_boundary_payload_def\<close>)

section \<open>Success and frame\<close>

definition key_free :: "repr \<Rightarrow> command_row \<Rightarrow> boundaries \<Rightarrow> bool" where
  "key_free rp cmd t \<longleftrightarrow>
     \<not> key_taken (optional_text rp (opt_str (r_idempotency_key cmd))) (r_command_id cmd) t"

lemma excluded_row_key [simp]:
  "b_idempotency_key (excluded_row rp ex cmd p pl e tm pa) = optional_text rp (opt_str (r_idempotency_key cmd))"
  by (simp add: excluded_row_def Let_def)

lemma upsert_boundary_succeeds:
  assumes ok: "boundaries_ok t" and free: "key_free rp cmd t"
  shows "\<exists>t'. upsert_boundary rp cmd p pl e tm pa t =
           Inr (resolve_state (boundary_state_at (r_command_id cmd) t) p, t')"
proof (cases "lookup_by b_command_id (r_command_id cmd) t")
  case None
  then show ?thesis
    using free by (simp add: upsert_boundary_def Let_def key_free_def boundary_state_at_def)
next
  case (Some old)
  let ?m = "merge_row old (excluded_row rp (Some old) cmd p pl e tm pa)"
  have old: "old \<in> set t" "b_command_id old = r_command_id cmd"
    using Some by (auto dest: lookup_by_SomeD)
  have "\<not> key_taken (b_idempotency_key ?m) (r_command_id cmd) t"
  proof (cases "b_idempotency_key old")
    case None
    then show ?thesis using free by (simp add: merge_row_def key_free_def)
  next
    case (Some k)
    then have "b_idempotency_key ?m = Some k" by (simp add: merge_row_def)
    moreover have "keys_exclusive t" using ok by (simp add: boundaries_ok_def)
    ultimately show ?thesis
      using keys_exclusiveD [OF _ old(1)] Some old(2) unfolding key_taken_def by metis
  qed
  then show ?thesis
    using Some by (simp add: upsert_boundary_def Let_def boundary_state_at_def)
qed

lemma key_free_upsert:
  assumes "key_free rp cmd t" and res: "upsert_boundary rp cmd p pl e tm pa t = Inr (st, t')"
  shows "key_free rp cmd t'"
proof -
  have "r \<in> set t" if "r \<in> set t'" "b_command_id r \<noteq> r_command_id cmd" for r
    using res that by (cases rule: upsert_boundary_cases)
      (auto simp: set_sql_update dest!: lookup_by_SomeD split: if_splits)
  then show ?thesis using assms(1) unfolding key_free_def key_taken_def by blast
qed

lemma state_for_event_pre_ack:
  "state_for_event rp ty pl = Some BS_PRE_ACK_RECORDED \<Longrightarrow> py_lower (py_strip ty) = ''order_pre_ack''"
  by (auto simp: state_for_event_def Let_def split: if_splits)

lemma update_latest_frame:
  "lookup_by b_command_id cid (snd (update_latest_boundary_payload cmd pl e tm t)) =
     (if cid = r_command_id cmd
      then map_option (\<lambda>r. r\<lparr>b_latest_payload := pl, b_last_event_id := coalesce e (b_last_event_id r),
                             b_updated_at := tm\<rparr>) (lookup_by b_command_id cid t)
      else lookup_by b_command_id cid t)"
  by (cases "lookup_by b_command_id cid t")
    (auto simp: update_latest_boundary_payload_def sql_simps dest: lookup_by_SomeD split: option.splits)

lemma update_latest_state:
  "boundary_state_at cid (snd (update_latest_boundary_payload cmd pl e tm t)) = boundary_state_at cid t"
  by (simp add: boundary_state_at_def update_latest_frame option.map_comp o_def)

section \<open>Recording one event\<close>

lemma record_order_broker_event_cases:
  assumes "record_order_broker_event rp cmd ty pl e tm t = Inr (res, t')"
  obtains (ignored) "\<not> is_order_command_type (r_command_type cmd)" "res = None" "t' = t"
  | (latest) "is_order_command_type (r_command_type cmd)" "state_for_event rp ty pl = None"
      "t' = snd (update_latest_boundary_payload cmd pl e tm t)"
      "res = fst (update_latest_boundary_payload cmd pl e tm t)"
  | (state) p st where "is_order_command_type (r_command_type cmd)" "state_for_event rp ty pl = Some p"
      "res = Some st"
      "upsert_boundary rp cmd p pl e tm (py_lower (py_strip ty) = ''order_pre_ack'') t = Inr (st, t')"
  using assms
  by (auto simp: record_order_broker_event_def rbind_Inr_iff prod_eq_iff split: if_splits option.splits)

lemma record_order_broker_event_ok:
  assumes "boundaries_ok t" "record_order_broker_event rp cmd ty pl e tm t = Inr (res, t')"
  shows "boundaries_ok t'"
  using assms(2)
proof (cases rule: record_order_broker_event_cases)
  case (state p st)
  then show ?thesis
    using upsert_boundary_ok [OF assms(1) _ state(4)] state_for_event_pre_ack by blast
qed (use assms(1) update_latest_boundary_payload_ok in auto)

lemma record_order_broker_event_frame:
  assumes "record_order_broker_event rp cmd ty pl e tm t = Inr (res, t')" "cid \<noteq> r_command_id cmd"
  shows "lookup_by b_command_id cid t' = lookup_by b_command_id cid t"
  using assms(1)
  by (cases rule: record_order_broker_event_cases)
    (use assms(2) upsert_boundary_result(3) in \<open>auto simp: update_latest_frame\<close>)

lemma record_order_broker_event_state:
  assumes "record_order_broker_event rp cmd ty pl e tm t = Inr (res, t')"
    and "is_order_command_type (r_command_type cmd)"
  shows "boundary_state_at (r_command_id cmd) t' =
     (case state_for_event rp ty pl of
        None \<Rightarrow> boundary_state_at (r_command_id cmd) t
      | Some p \<Rightarrow> Some (resolve_state (boundary_state_at (r_command_id cmd) t) p))"
    and "res = boundary_state_at (r_command_id cmd) t'"
proof -
  have "boundary_state_at (r_command_id cmd) t' =
      (case state_for_event rp ty pl of
        None \<Rightarrow> boundary_state_at (r_command_id cmd) t
      | Some p \<Rightarrow> Some (resolve_state (boundary_state_at (r_command_id cmd) t) p))
     \<and> res = boundary_state_at (r_command_id cmd) t'"
    using assms(1)
  proof (cases rule: record_order_broker_event_cases)
    case latest
    have "boundary_state_at (r_command_id cmd) t' = boundary_state_at (r_command_id cmd) t"
      by (simp only: latest(3) update_latest_state)
    moreover have "res = boundary_state_at (r_command_id cmd) t"
      unfolding latest(4) by (simp add: update_latest_boundary_payload_def boundary_state_at_def split: option.split)
    ultimately show ?thesis using latest(2) by simp
  next
    case (state p st)
    then show ?thesis using upsert_boundary_result(1,2) [OF state(4)] by simp
  qed (use assms(2) in simp)
  then show "boundary_state_at (r_command_id cmd) t' =
     (case state_for_event rp ty pl of
        None \<Rightarrow> boundary_state_at (r_command_id cmd) t
      | Some p \<Rightarrow> Some (resolve_state (boundary_state_at (r_command_id cmd) t) p))"
    and "res = boundary_state_at (r_command_id cmd) t'" by auto
qed

lemma resolve_state_ge: "s \<le> resolve_state (Some s) p"
  by (rule boundary_join.join_upper(1))

lemma record_order_broker_event_mono:
  assumes "record_order_broker_event rp cmd ty pl e tm t = Inr (res, t')"
    and "boundary_state_at cid t = Some s"
  shows "\<exists>s'. boundary_state_at cid t' = Some s' \<and> s \<le> s'"
proof (cases "cid = r_command_id cmd \<and> is_order_command_type (r_command_type cmd)")
  case True
  then show ?thesis
    using record_order_broker_event_state(1) [OF assms(1)] assms(2) resolve_state_ge
    by (auto split: option.splits)
next
  case False
  then have "lookup_by b_command_id cid t' = lookup_by b_command_id cid t"
    using assms(1) record_order_broker_event_frame [OF assms(1)]
    by (auto simp: record_order_broker_event_def)
  then have "boundary_state_at cid t' = boundary_state_at cid t" by (simp add: boundary_state_at_def)
  then show ?thesis using assms(2) by simp
qed

lemma record_order_broker_event_succeeds:
  assumes "boundaries_ok t" "key_free rp cmd t"
  shows "\<exists>res t'. record_order_broker_event rp cmd ty pl e tm t = Inr (res, t') \<and> key_free rp cmd t'"
proof (cases "is_order_command_type (r_command_type cmd)")
  case order: True
  show ?thesis
  proof (cases "state_for_event rp ty pl")
    case None
    have "key_free rp cmd (snd (update_latest_boundary_payload cmd pl e tm t))"
      using assms(2)
      by (auto simp: update_latest_boundary_payload_def key_free_def key_taken_def set_sql_update
          split: option.splits)
    then show ?thesis
      using None order by (auto simp: record_order_broker_event_def intro: prod.collapse [symmetric])
  next
    case (Some p)
    obtain st t' where r: "upsert_boundary rp cmd p pl e tm (py_lower (py_strip ty) = ''order_pre_ack'') t
        = Inr (st, t')"
      using upsert_boundary_succeeds [OF assms] by blast
    then show ?thesis
      using Some order key_free_upsert [OF assms(2) r] by (simp add: record_order_broker_event_def)
  qed
qed (use assms(2) in \<open>simp add: record_order_broker_event_def\<close>)

section \<open>Replaying a command's events\<close>

text \<open>The inner loop of \<open>_backfill_order_broker_boundaries\<close>: the stored events of one command, in order.\<close>

record broker_event =
  e_type :: string
  e_payload :: pydict
  e_id :: "string option"
  e_occurred_at :: instant

fun replay_events ::
  "repr \<Rightarrow> command_row \<Rightarrow> broker_event list \<Rightarrow> boundaries \<Rightarrow> db_error + boundaries" where
  "replay_events rp cmd [] t = Inr t"
| "replay_events rp cmd (ev # evs) t =
     rbind (record_order_broker_event rp cmd (e_type ev) (e_payload ev) (e_id ev) (e_occurred_at ev) t)
       (\<lambda>(_, t'). replay_events rp cmd evs t')"

definition proposals :: "repr \<Rightarrow> broker_event list \<Rightarrow> boundary_state list" where
  "proposals rp evs = List.map_filter (\<lambda>ev. state_for_event rp (e_type ev) (e_payload ev)) evs"

lemma proposals_simps [simp]:
  "proposals rp [] = []"
  "proposals rp (ev # evs) =
     (case state_for_event rp (e_type ev) (e_payload ev) of None \<Rightarrow> proposals rp evs
      | Some p \<Rightarrow> p # proposals rp evs)"
  by (simp_all add: proposals_def map_filter_simps split: option.splits)

lemma set_proposals:
  "set (proposals rp evs) = {p. \<exists>ev \<in> set evs. state_for_event rp (e_type ev) (e_payload ev) = Some p}"
  by (induction evs) (auto split: option.splits)

lemma foldl_resolve_Some:
  "foldl (\<lambda>s p. Some (resolve_state s p)) (Some c) ps = Some (foldl (\<lambda>c p. resolve_state (Some c) p) c ps)"
  by (induction ps arbitrary: c) simp_all

lemma resolve_state_None: "resolve_state None p = p"
  by (simp add: resolve_state_def)

lemma foldl_resolve_Max:
  "foldl (\<lambda>s p. Some (resolve_state s p)) s ps =
     (if set_option s \<union> set ps = {} then None else Some (Max (set_option s \<union> set ps)))"
proof (cases s)
  case None
  show ?thesis
  proof (cases ps)
    case (Cons p ps')
    then show ?thesis
      using None by (simp add: resolve_state_None foldl_resolve_Some boundary_join.foldl_join_Max)
  qed (use None in simp)
next
  case (Some c)
  then show ?thesis by (simp add: foldl_resolve_Some boundary_join.foldl_join_Max)
qed

lemma replay_events_state:
  assumes "boundaries_ok t" "key_free rp cmd t" "is_order_command_type (r_command_type cmd)"
  shows "\<exists>u. replay_events rp cmd evs t = Inr u \<and> boundaries_ok u \<and>
     boundary_state_at (r_command_id cmd) u =
       foldl (\<lambda>s p. Some (resolve_state s p)) (boundary_state_at (r_command_id cmd) t) (proposals rp evs)"
  using assms(1,2)
proof (induction evs arbitrary: t)
  case (Cons ev evs)
  obtain res t' where r: "record_order_broker_event rp cmd (e_type ev) (e_payload ev) (e_id ev) (e_occurred_at ev) t
      = Inr (res, t')" and free: "key_free rp cmd t'"
    using record_order_broker_event_succeeds [OF Cons.prems] by blast
  have ok: "boundaries_ok t'" by (rule record_order_broker_event_ok [OF Cons.prems(1) r])
  from Cons.IH [OF ok free] show ?case
    using record_order_broker_event_state(1) [OF r assms(3)] r by (auto split: option.splits)
qed simp

section \<open>Histories of the ledger\<close>

text \<open>Every way the ledger changes, as one step: a claim, a broker event, a batch of time-outs.\<close>

inductive ledger_step :: "repr \<Rightarrow> boundaries \<Rightarrow> boundaries \<Rightarrow> bool" for rp where
  claim: "record_order_command_claim rp cmd tm t = Inr (res, t') \<Longrightarrow> ledger_step rp t t'"
| event: "record_order_broker_event rp cmd ty pl e tm t = Inr (res, t') \<Longrightarrow> ledger_step rp t t'"
| mark: "mark_order_commands_unconfirmed rp cmds cids tm reason t = Inr t' \<Longrightarrow> ledger_step rp t t'"

inductive_cases ledger_stepE: "ledger_step rp t t'"

definition keeps :: "'a option \<Rightarrow> 'a option \<Rightarrow> bool" where
  \<comment> \<open>a value, once present, is never replaced\<close>
  "keeps a b \<longleftrightarrow> a = None \<or> b = a"

definition row_extends :: "boundary_row \<Rightarrow> boundary_row \<Rightarrow> bool" where
  \<comment> \<open>the later row tells the same story further: nothing recorded is lost or rewritten\<close>
  "row_extends r r' \<longleftrightarrow>
     b_command_id r' = b_command_id r \<and> b_created_at r' = b_created_at r
   \<and> b_state r \<le> b_state r' \<and> b_attempts r \<le> b_attempts r'
   \<and> keeps (b_idempotency_key r) (b_idempotency_key r')
   \<and> keeps (b_account_id r) (b_account_id r') \<and> keeps (b_code r) (b_code r') \<and> keeps (b_side r) (b_side r')
   \<and> keeps (b_claimed_at r) (b_claimed_at r') \<and> keeps (b_gateway_started_at r) (b_gateway_started_at r')
   \<and> keeps (b_pre_ack_recorded_at r) (b_pre_ack_recorded_at r')
   \<and> keeps (b_broker_accepted_at r) (b_broker_accepted_at r')
   \<and> keeps (b_chejan_confirmed_at r) (b_chejan_confirmed_at r')
   \<and> keeps (b_unconfirmed_at r) (b_unconfirmed_at r')
   \<and> (b_broker_order_no r \<noteq> None \<longrightarrow> b_broker_order_no r' \<noteq> None)"

definition ledger_extends :: "boundaries \<Rightarrow> boundaries \<Rightarrow> bool" where
  "ledger_extends t t' \<longleftrightarrow>
     (\<forall>cid r. lookup_by b_command_id cid t = Some r \<longrightarrow>
        (\<exists>r'. lookup_by b_command_id cid t' = Some r' \<and> row_extends r r'))"

lemma keeps_refl [simp]: "keeps a a"
  by (simp add: keeps_def)

lemma keeps_coalesce [simp]: "keeps a (coalesce a b)"
  by (cases a) (simp_all add: keeps_def)

lemma keeps_trans: "keeps a b \<Longrightarrow> keeps b c \<Longrightarrow> keeps a c"
  by (auto simp: keeps_def)

lemma row_extends_refl [simp]: "row_extends r r"
  by (simp add: row_extends_def)

lemma row_extends_trans: "row_extends a b \<Longrightarrow> row_extends b c \<Longrightarrow> row_extends a c"
  unfolding row_extends_def by (intro conjI; (elim conjE)?) (metis keeps_trans order_trans)+

lemma ledger_extends_refl [simp]: "ledger_extends t t"
  by (auto simp: ledger_extends_def)

lemma ledger_extends_trans: "ledger_extends a b \<Longrightarrow> ledger_extends b c \<Longrightarrow> ledger_extends a c"
  unfolding ledger_extends_def by (meson row_extends_trans)

lemma merge_row_extends: "row_extends old (merge_row old (excluded_row rp (Some old) cmd p pl e tm pa))"
  using resolve_state_ge [of "b_state old" p]
  by (simp add: row_extends_def merge_row_def excluded_row_def Let_def del: not_None_eq)

lemma upsert_boundary_extends:
  assumes "upsert_boundary rp cmd p pl e tm pa t = Inr (st, t')"
  shows "ledger_extends t t'"
  using assms
proof (cases rule: upsert_boundary_cases)
  case insert
  then show ?thesis by (auto simp: ledger_extends_def lookup_by_append)
next
  case (merge old)
  then have "b_command_id old = r_command_id cmd" by (auto dest: lookup_by_SomeD)
  then show ?thesis
    using merge(1) merge_row_extends by (auto simp: ledger_extends_def merge(2) lookup_by_replace)
qed

lemma update_latest_extends: "ledger_extends t (snd (update_latest_boundary_payload cmd pl e tm t))"
  by (auto simp: ledger_extends_def update_latest_frame row_extends_def)

lemma mark_each_unconfirmed_step:
  assumes "\<And>cmd st t t'. upsert_boundary rp cmd BS_UNCONFIRMED [(''reason'', PStr reason)] None tm False t
      = Inr (st, t') \<Longrightarrow> R t t'"
    and "\<And>t. R t t" "\<And>a b c. R a b \<Longrightarrow> R b c \<Longrightarrow> R a c"
    and "mark_each_unconfirmed rp cmds cids tm reason t = Inr t'"
  shows "R t t'"
  using assms(4)
proof (induction cids arbitrary: t)
  case (Cons c cids)
  then show ?case
    using assms(1,3) by (fastforce simp: rbind_Inr_iff split: option.splits if_splits)
qed (use assms(2) in simp)

lemma ledger_step_extends: "ledger_step rp t t' \<Longrightarrow> ledger_extends t t'"
proof (erule ledger_stepE)
  show "ledger_extends t t'" if "record_order_command_claim rp cmd tm t = Inr (res, t')" for cmd tm res
    using that upsert_boundary_extends
    by (auto simp: record_order_command_claim_def rbind_Inr_iff split: if_splits)
  show "ledger_extends t t'" if "record_order_broker_event rp cmd ty pl e tm t = Inr (res, t')"
    for cmd ty pl e tm res
    using that by (cases rule: record_order_broker_event_cases)
      (auto simp: update_latest_extends upsert_boundary_extends)
  show "ledger_extends t t'" if "mark_order_commands_unconfirmed rp cmds cids tm reason t = Inr t'"
    for cmds cids tm reason
    using that unfolding mark_order_commands_unconfirmed_def
    by (rule mark_each_unconfirmed_step [where R = ledger_extends, rotated 3])
      (auto intro: upsert_boundary_extends ledger_extends_trans)
qed

lemma ledger_step_ok: "ledger_step rp t t' \<Longrightarrow> boundaries_ok t \<Longrightarrow> boundaries_ok t'"
proof (erule ledger_stepE)
  assume ok: "boundaries_ok t"
  show "boundaries_ok t'" if "record_order_command_claim rp cmd tm t = Inr (res, t')" for cmd tm res
    using that ok upsert_boundary_ok [OF ok, of BS_CLAIMED False]
    by (auto simp: record_order_command_claim_def rbind_Inr_iff split: if_splits)
  show "boundaries_ok t'" if "record_order_broker_event rp cmd ty pl e tm t = Inr (res, t')"
    for cmd ty pl e tm res
    by (rule record_order_broker_event_ok [OF ok that])
  show "boundaries_ok t'" if "mark_order_commands_unconfirmed rp cmds cids tm reason t = Inr t'"
    for cmds cids tm reason
  proof -
    have "boundaries_ok t \<longrightarrow> boundaries_ok t'"
      using that unfolding mark_order_commands_unconfirmed_def
      by (rule mark_each_unconfirmed_step [where R = "\<lambda>a b. boundaries_ok a \<longrightarrow> boundaries_ok b", rotated 3])
        (auto dest: upsert_boundary_ok [where p = BS_UNCONFIRMED and pa = False, rotated 2])
    with ok show ?thesis by simp
  qed
qed

section \<open>Properties\<close>

text \<open>A concrete order command and ledger for the witnesses.\<close>

definition sample_order :: command_row where
  "sample_order = \<lparr> r_command_id = ''c1'', r_command_type = ''send_order'', r_source = ''core'',
     r_status = QUEUED, r_idempotency_key = Some ''k1'', r_payload = [], r_payload_hash = [],
     r_created_at = 0, r_available_at = Some 0, r_dispatched_at = None, r_completed_at = None,
     r_expires_at = None, r_attempts = 0, r_last_error = None \<rparr>"

definition sample_event :: "string \<Rightarrow> int \<Rightarrow> broker_event" where
  "sample_event ty tm = \<lparr> e_type = ty, e_payload = [], e_id = None, e_occurred_at = tm \<rparr>"

lemma sample_claim:
  "\<exists>t. record_order_command_claim rp sample_order 5 [] = Inr (Some BS_CLAIMED, t)
     \<and> lookup_by b_command_id ''c1'' t = Some (excluded_row rp None sample_order BS_CLAIMED [] None 5 False)"
  by (simp add: record_order_command_claim_def upsert_boundary_def sample_order_def key_taken_def
      is_order_command_type_def ORDER_COMMAND_TYPES_def excluded_row_def resolve_state_def Let_def str_simps)

text \<open>
  C2: Replaying the stored broker events of an order command on a consistent ledger in which no other command
  holds its idempotency key succeeds, and the resulting boundary state is the highest state among the one recorded before and those the
  events propose. Order and repetition of the events do not matter: two event lists with the same
  elements give the same state.
\<close>

theorem replay_order_independent:
  assumes "boundaries_ok t" "key_free rp cmd t" "is_order_command_type (r_command_type cmd)"
    and "set evs = set evs'"
  shows "\<exists>u u'. replay_events rp cmd evs t = Inr u \<and> replay_events rp cmd evs' t = Inr u'
     \<and> boundary_state_at (r_command_id cmd) u = boundary_state_at (r_command_id cmd) u'
     \<and> boundary_state_at (r_command_id cmd) u =
         (let S = set_option (boundary_state_at (r_command_id cmd) t) \<union> set (proposals rp evs)
          in if S = {} then None else Some (Max S))"
proof -
  have "set (proposals rp evs) = set (proposals rp evs')"
    using assms(4) by (simp add: set_proposals)
  then show ?thesis
    using replay_events_state [OF assms(1-3), of evs] replay_events_state [OF assms(1-3), of evs']
    by (auto simp: foldl_resolve_Max Let_def)
qed

theorem replay_order_independent_witness:
  "\<exists>u u'. replay_events (\<lambda>_. []) sample_order [sample_event ''command_ack'' 7, sample_event ''order_broker_unconfirmed'' 6] [] = Inr u
     \<and> replay_events (\<lambda>_. []) sample_order [sample_event ''order_broker_unconfirmed'' 6, sample_event ''command_ack'' 7] [] = Inr u'
     \<and> boundary_state_at ''c1'' u = boundary_state_at ''c1'' u'"
proof -
  have "boundaries_ok []" "key_free (\<lambda>_. []) sample_order []" "is_order_command_type (r_command_type sample_order)"
    by (simp_all add: boundaries_ok_def keys_exclusive_def key_free_def key_taken_def sample_order_def
        is_order_command_type_def ORDER_COMMAND_TYPES_def str_simps)
  from replay_order_independent [OF this, of
      "[sample_event ''command_ack'' 7, sample_event ''order_broker_unconfirmed'' 6]"
      "[sample_event ''order_broker_unconfirmed'' 6, sample_event ''command_ack'' 7]"]
  show ?thesis by (auto simp: insert_commute sample_order_def)
qed

text \<open>
  C3: Every ledger reachable from the empty one by claims, broker events and time-out batches is
  consistent: one row per command, no two commands share an idempotency key, every row has the time
  stamps its state calls for, and every row is marked simulation only.
\<close>

theorem reachable_ledger_ok:
  assumes "(ledger_step rp)\<^sup>*\<^sup>* [] t"
  shows "boundaries_ok t"
  using assms
proof (induction rule: rtranclp_induct)
  case base
  show ?case by (simp add: boundaries_ok_def keys_exclusive_def)
next
  case (step t u)
  then show ?case by (blast intro: ledger_step_ok)
qed

theorem reachable_ledger_ok_witness:
  "\<exists>t. lookup_by b_command_id ''c1'' t \<noteq> None \<and> boundaries_ok t"
proof -
  obtain t where r: "record_order_command_claim (\<lambda>_. []) sample_order 5 [] = Inr (Some BS_CLAIMED, t)"
    and l: "lookup_by b_command_id ''c1'' t \<noteq> None"
    using sample_claim [of "\<lambda>_. []"] by auto
  have "(ledger_step (\<lambda>_. []))\<^sup>*\<^sup>* [] t" using ledger_step.claim [OF r] by (rule r_into_rtranclp)
  from reachable_ledger_ok [OF this] l show ?thesis by blast
qed

text \<open>
  C28: The ledger never forgets. Along any sequence of steps a row is never removed, its state never
  moves to a lower rank (a confirmed fill stays confirmed), each state's time stamp keeps the first
  value written, and the order's identity (idempotency key, account, code, side, creation time) is
  never rewritten.
\<close>

theorem ledger_never_forgets:
  assumes "(ledger_step rp)\<^sup>*\<^sup>* t t'" "lookup_by b_command_id cid t = Some r"
  shows "\<exists>r'. lookup_by b_command_id cid t' = Some r' \<and> row_extends r r'
     \<and> (b_state r = BS_CHEJAN_CONFIRMED \<longrightarrow> b_state r' = BS_CHEJAN_CONFIRMED)"
proof -
  have "ledger_extends t t'"
    using assms(1) by (induction rule: rtranclp_induct)
      (auto intro: ledger_step_extends ledger_extends_trans)
  with assms(2) obtain r' where r': "lookup_by b_command_id cid t' = Some r'" "row_extends r r'"
    unfolding ledger_extends_def by blast
  then have "b_state r \<le> b_state r'" by (simp add: row_extends_def)
  then show ?thesis using r' chejan_top [of "b_state r'"] by (metis antisym)
qed

theorem ledger_never_forgets_witness:
  "\<exists>t t' r r'. record_order_command_claim (\<lambda>_. []) sample_order 5 [] = Inr (Some BS_CLAIMED, t)
     \<and> record_order_broker_event (\<lambda>_. []) sample_order ''command_started'' [] None 9 t = Inr (Some BS_GATEWAY_STARTED, t')
     \<and> lookup_by b_command_id ''c1'' t = Some r \<and> lookup_by b_command_id ''c1'' t' = Some r' \<and> row_extends r r'"
proof -
  obtain t r where c: "record_order_command_claim (\<lambda>_. []) sample_order 5 [] = Inr (Some BS_CLAIMED, t)"
    and l: "lookup_by b_command_id ''c1'' t = Some r"
    using sample_claim [of "\<lambda>_. []"] by auto
  have "\<exists>t'. record_order_broker_event (\<lambda>_. []) sample_order ''command_started'' [] None 9 t = Inr (Some BS_GATEWAY_STARTED, t')"
    using c
    by (auto simp: record_order_command_claim_def record_order_broker_event_def upsert_boundary_def
        sample_order_def key_taken_def is_order_command_type_def ORDER_COMMAND_TYPES_def excluded_row_def
        merge_row_def resolve_state_def state_for_event_def Let_def str_simps)
  then obtain t' where e: "record_order_broker_event (\<lambda>_. []) sample_order ''command_started'' [] None 9 t
      = Inr (Some BS_GATEWAY_STARTED, t')" by blast
  from ledger_never_forgets [OF r_into_rtranclp [of "ledger_step (\<lambda>_. [])", OF ledger_step.event [OF e]] l] c l e
  show ?thesis by blast
qed

end
