(* ===== verification/Command_Policy.thy ===== *)
theory Command_Policy
  imports Command_Row
begin

text \<open>
  Which commands the gateway queue accepts (storage/gateway_command_store.py,
  \<open>validate_command_type_allowed\<close> and the three simulation validators). A validator is a list of
  guards tried in order; the first that fires gives the error message.
\<close>

section \<open>Guards\<close>

fun first_error :: "(bool \<times> string) list \<Rightarrow> string option" where
  \<comment> \<open>a sequence of \<open>if cond: return message\<close>, ending in \<open>return None\<close>\<close>
  "first_error [] = None"
| "first_error ((c, m) # gs) = (if c then Some m else first_error gs)"

lemma first_error_None_iff: "first_error gs = None \<longleftrightarrow> (\<forall>g \<in> set gs. \<not> fst g)"
  by (induction gs rule: first_error.induct) auto

lemma first_error_append:
  "first_error (gs @ hs) = (case first_error gs of None \<Rightarrow> first_error hs | Some m \<Rightarrow> Some m)"
  by (induction gs rule: first_error.induct) auto

declare first_error.simps [simp del]

definition ALLOWED_COMMAND_TYPES :: "string list" where
  "ALLOWED_COMMAND_TYPES =
     [''heartbeat_request'', ''broker_snapshot_request'', ''request_tr'', ''register_realtime'',
      ''remove_realtime'', ''load_conditions'', ''send_condition'', ''stop_condition'']"

definition FORBIDDEN_ORDER_COMMAND_TYPES :: "string list" where
  "FORBIDDEN_ORDER_COMMAND_TYPES =
     [''send_order'', ''submit_order'', ''cancel_order'', ''modify_order'', ''enqueue_order'',
      ''order_intent'', ''gateway_order'', ''live_order'']"

definition mapping_value :: "pydict \<Rightarrow> string \<Rightarrow> pydict" where
  "mapping_value d k = as_mapping (dget d k)"

definition is_simulation_like :: "repr \<Rightarrow> pyval \<Rightarrow> bool" where
  "is_simulation_like rp v \<longleftrightarrow>
     py_upper (py_strip (py_str rp (py_or v (PStr [])))) \<in>
       {''SIMULATION'', ''MOCK'', ''PAPER'', ''MOCK_TRADING'', ''LIVE_SIM''}"

definition opt_text :: "string option \<Rightarrow> pyval" where
  "opt_text k = (case k of None \<Rightarrow> PNone | Some s \<Rightarrow> PStr s)"

abbreviation str_upper :: "repr \<Rightarrow> pyval \<Rightarrow> string" where
  "str_upper rp v \<equiv> py_upper (py_str rp v)"

abbreviation no_key :: "gateway_command \<Rightarrow> bool" where
  \<comment> \<open>\<open>not command.idempotency_key\<close>\<close>
  "no_key c \<equiv> g_idempotency_key c \<in> {None, Some []}"

abbreviation not_live_sim_source :: "gateway_command \<Rightarrow> bool" where
  "not_live_sim_source c \<equiv> py_lower (py_strip (g_source c)) \<noteq> ''live_sim''"

abbreviation payload_mode :: "pydict \<Rightarrow> pyval" where
  "payload_mode p \<equiv> dget_or p ''mode'' (dget_or p ''live_mode'' (PStr []))"

abbreviation payload_live_mode :: "pydict \<Rightarrow> pyval" where
  "payload_live_mode p \<equiv> dget_or p ''live_mode'' (dget_or p ''mode'' (PStr []))"

section \<open>The validators\<close>

definition validate_live_sim_broker_snapshot_allowed :: "repr \<Rightarrow> gateway_command option \<Rightarrow> string option" where
  "validate_live_sim_broker_snapshot_allowed rp cmd =
     (case cmd of
        None \<Rightarrow> Some ''broker_snapshot_request requires LIVE_SIM command envelope validation''
      | Some c \<Rightarrow>
          (let p = g_payload c in first_error
            [(not_live_sim_source c, ''broker_snapshot_request disabled except live_sim source''),
             (no_key c, ''broker_snapshot_request requires idempotency_key''),
             (py_strip (py_str rp (py_or (dget p ''account_id'') (PStr []))) = [],
              ''broker_snapshot_request requires account_id''),
             (dget p ''idempotency_key'' \<noteq> opt_text (g_idempotency_key c),
              ''broker_snapshot_request payload idempotency_key mismatch''),
             (dget p ''live_sim_only'' \<noteq> PBool True, ''broker_snapshot_request requires live_sim_only=true''),
             (dget p ''live_real_allowed'' \<noteq> PBool False,
              ''broker_snapshot_request requires live_real_allowed=false''),
             (dget p ''read_only'' \<noteq> PBool True, ''broker_snapshot_request requires read_only=true''),
             (dget p ''automatic_local_repair'' \<noteq> PBool False,
              ''broker_snapshot_request requires automatic_local_repair=false''),
             (str_upper rp (py_or (dget p ''broker_order_path'') (PStr [])) \<noteq> ''LIVE_SIM_ONLY'',
              ''broker_snapshot_request requires broker_order_path=LIVE_SIM_ONLY''),
             (\<not> is_simulation_like rp (dget p ''account_mode''),
              ''broker_snapshot_request account_mode must be simulation-like''),
             (\<not> is_simulation_like rp (dget p ''broker_env''),
              ''broker_snapshot_request broker_env must be simulation-like''),
             (\<not> is_simulation_like rp (dget p ''server_mode''),
              ''broker_snapshot_request server_mode must be simulation-like'')]))"

definition send_order_scope_guards :: "repr \<Rightarrow> gateway_command \<Rightarrow> (bool \<times> string) list" where
  \<comment> \<open>the guards of \<open>_validate_live_sim_send_order_allowed\<close> before the side is looked at\<close>
  "send_order_scope_guards rp c =
     (let p = g_payload c; m = mapping_value p ''metadata''; key = opt_text (g_idempotency_key c) in
      [(not_live_sim_source c, ''send_order disabled except live_sim source''),
       (no_key c, ''send_order LIVE_SIM requires idempotency_key''),
       (str_upper rp (payload_mode p) \<noteq> ''LIVE_SIM'', ''send_order payload mode must be LIVE_SIM''),
       (str_upper rp (payload_live_mode p) \<noteq> ''LIVE_SIM'', ''send_order payload live_mode must be LIVE_SIM''),
       (dget p ''idempotency_key'' \<noteq> key,
        ''send_order payload idempotency_key must match command idempotency_key''),
       (py_lower (py_str rp (dget_or m ''source'' (PStr ''live_sim''))) \<noteq> ''live_sim'',
        ''send_order metadata source must be live_sim''),
       (dget m ''live_sim_only'' \<noteq> PBool True, ''send_order metadata.live_sim_only must be true''),
       (dget m ''live_real_allowed'' \<noteq> PBool False, ''send_order metadata.live_real_allowed must be false''),
       (\<not> py_truthy (dget m ''live_sim_intent_id'') \<and> \<not> py_truthy (dget p ''live_sim_intent_id''),
        ''send_order requires live_sim_intent_id''),
       (dget m ''idempotency_key'' \<noteq> key,
        ''send_order metadata idempotency_key must match command idempotency_key''),
       (\<not> is_simulation_like rp (dget p ''account_mode''), ''send_order account_mode must be simulation-like''),
       (\<not> is_simulation_like rp (dget p ''broker_env''), ''send_order broker_env must be simulation-like''),
       (\<not> is_simulation_like rp (dget p ''server_mode''), ''send_order server_mode must be simulation-like'')])"

definition send_order_sell_guards :: "repr \<Rightarrow> gateway_command \<Rightarrow> (bool \<times> string) list" where
  "send_order_sell_guards rp c =
     (let p = g_payload c; m = mapping_value p ''metadata'' in
      [(\<not> (dget p ''close_only'' = PBool True \<or> dget m ''close_only'' = PBool True),
        ''send_order LIVE_SIM SELL requires close_only=true''),
       (dget p ''live_real_allowed'' \<noteq> PBool False, ''send_order SELL requires live_real_allowed=false''),
       (dget p ''live_sim_only'' \<noteq> PBool True, ''send_order SELL requires live_sim_only=true''),
       (str_upper rp (dget_or p ''broker_order_path'' (PStr [])) \<noteq> ''LIVE_SIM_ONLY'',
        ''send_order SELL requires broker_order_path=LIVE_SIM_ONLY''),
       (\<not> py_truthy (dget m ''position_id''), ''send_order SELL close-only requires metadata.position_id''),
       (\<not> py_truthy (dget m ''exit_intent_id'') \<and> \<not> py_truthy (dget p ''exit_intent_id''),
        ''send_order SELL close-only requires exit_intent_id''),
       (str_upper rp (dget_or p ''order_type'' (PStr [])) = ''MARKET'',
        ''send_order SELL market order disabled by default''),
       (py_lower (py_str rp (dget_or p ''allow_short'' (PStr ''false''))) \<in> {''1'', ''true'', ''yes'', ''y''},
        ''send_order SELL allow_short must be false'')])"

definition validate_live_sim_send_order_allowed :: "repr \<Rightarrow> gateway_command option \<Rightarrow> string option" where
  "validate_live_sim_send_order_allowed rp cmd =
     (case cmd of
        None \<Rightarrow> Some ''send_order requires LIVE_SIM command envelope validation''
      | Some c \<Rightarrow>
          (case first_error (send_order_scope_guards rp c) of
             Some m \<Rightarrow> Some m
           | None \<Rightarrow>
               (let side = str_upper rp (dget_or (g_payload c) ''side'' (PStr [])) in
                if side = ''BUY'' then None
                else if side = ''SELL'' then first_error (send_order_sell_guards rp c)
                else Some ''send_order LIVE_SIM allows BUY or close-only SELL only'')))"

definition validate_live_sim_cancel_order_allowed :: "repr \<Rightarrow> gateway_command option \<Rightarrow> string option" where
  "validate_live_sim_cancel_order_allowed rp cmd =
     (case cmd of
        None \<Rightarrow> Some ''cancel_order requires LIVE_SIM command envelope validation''
      | Some c \<Rightarrow>
          (let p = g_payload c; m = mapping_value p ''metadata''; key = opt_text (g_idempotency_key c) in
           first_error
            [(not_live_sim_source c, ''cancel_order disabled except live_sim source''),
             (no_key c, ''cancel_order LIVE_SIM requires idempotency_key''),
             (str_upper rp (payload_mode p) \<noteq> ''LIVE_SIM'', ''cancel_order payload mode must be LIVE_SIM''),
             (str_upper rp (payload_live_mode p) \<noteq> ''LIVE_SIM'',
              ''cancel_order payload live_mode must be LIVE_SIM''),
             (dget p ''idempotency_key'' \<noteq> key,
              ''cancel_order payload idempotency_key must match command idempotency_key''),
             (dget m ''idempotency_key'' \<noteq> key,
              ''cancel_order metadata idempotency_key must match command idempotency_key''),
             (dget p ''live_sim_only'' \<noteq> PBool True \<or> dget m ''live_sim_only'' \<noteq> PBool True,
              ''cancel_order requires live_sim_only=true''),
             (dget p ''live_real_allowed'' \<noteq> PBool False, ''cancel_order requires live_real_allowed=false''),
             (dget m ''live_real_allowed'' \<noteq> PBool False,
              ''cancel_order metadata.live_real_allowed must be false''),
             (str_upper rp (dget_or p ''broker_order_path'' (PStr [])) \<noteq> ''LIVE_SIM_ONLY'',
              ''cancel_order requires broker_order_path=LIVE_SIM_ONLY''),
             (\<not> is_simulation_like rp (dget p ''account_mode''),
              ''cancel_order account_mode must be simulation-like''),
             (\<not> is_simulation_like rp (dget p ''broker_env''), ''cancel_order broker_env must be simulation-like''),
             (\<not> is_simulation_like rp (dget p ''server_mode''),
              ''cancel_order server_mode must be simulation-like''),
             (str_upper rp (dget_or p ''side'' (PStr [])) \<notin> {''BUY_CANCEL'', ''CANCEL_BUY''},
              ''cancel_order requires side=BUY_CANCEL''),
             (\<not> py_truthy (dget p ''original_order_no''), ''cancel_order requires original_order_no''),
             (\<not> py_truthy (dget m ''cancel_intent_id''), ''cancel_order requires metadata.cancel_intent_id''),
             (\<not> py_truthy (dget m ''original_live_sim_order_id''),
              ''cancel_order requires metadata.original_live_sim_order_id'')]))"

definition validate_command_type_allowed :: "repr \<Rightarrow> string \<Rightarrow> gateway_command option \<Rightarrow> string option" where
  "validate_command_type_allowed rp command_type cmd =
     (let normalized = normalize_command_type command_type in
      if normalized = ''send_order'' then validate_live_sim_send_order_allowed rp cmd
      else if normalized = ''cancel_order'' then validate_live_sim_cancel_order_allowed rp cmd
      else if normalized = ''broker_snapshot_request'' then validate_live_sim_broker_snapshot_allowed rp cmd
      else if normalized = ''modify_order'' then Some ''modify_order is disabled for LIVE_SIM''
      else if normalized \<in> set FORBIDDEN_ORDER_COMMAND_TYPES \<or> py_contains ''order'' normalized
      then Some (''Order command_type is disabled for PR 2B: '' @ command_type)
      else if normalized \<notin> set ALLOWED_COMMAND_TYPES
      then Some (''Unsupported gateway command_type for PR 2B: '' @ command_type)
      else None)"

section \<open>What an accepted order command is bound to\<close>

text \<open>
  The scope the rest of the system relies on for a command that can reach the broker: it comes from
  the simulation service, names one idempotency key everywhere, and says of account, broker and
  server that they are simulated.
\<close>

definition simulation_order :: "repr \<Rightarrow> string \<Rightarrow> string option \<Rightarrow> pydict \<Rightarrow> bool" where
  "simulation_order rp source key p \<longleftrightarrow>
     (let m = mapping_value p ''metadata'' in
      py_lower (py_strip source) = ''live_sim''
    \<and> (\<exists>k. key = Some k \<and> k \<noteq> [] \<and> dget p ''idempotency_key'' = PStr k \<and> dget m ''idempotency_key'' = PStr k)
    \<and> str_upper rp (payload_mode p) = ''LIVE_SIM'' \<and> str_upper rp (payload_live_mode p) = ''LIVE_SIM''
    \<and> dget m ''live_sim_only'' = PBool True \<and> dget m ''live_real_allowed'' = PBool False
    \<and> is_simulation_like rp (dget p ''account_mode'') \<and> is_simulation_like rp (dget p ''broker_env'')
    \<and> is_simulation_like rp (dget p ''server_mode''))"

definition closing_only :: "repr \<Rightarrow> pydict \<Rightarrow> bool" where
  \<comment> \<open>a sale may only close a known position, at a limit, never short\<close>
  "closing_only rp p \<longleftrightarrow>
     (let m = mapping_value p ''metadata'' in
      (dget p ''close_only'' = PBool True \<or> dget m ''close_only'' = PBool True)
    \<and> dget p ''live_sim_only'' = PBool True \<and> dget p ''live_real_allowed'' = PBool False
    \<and> py_truthy (dget m ''position_id'')
    \<and> str_upper rp (dget_or p ''order_type'' (PStr [])) \<noteq> ''MARKET''
    \<and> py_lower (py_str rp (dget_or p ''allow_short'' (PStr ''false''))) \<notin> {''1'', ''true'', ''yes'', ''y''})"

lemma opt_text_key:
  "g_idempotency_key c \<notin> {None, Some []} \<Longrightarrow> \<exists>k. g_idempotency_key c = Some k \<and> k \<noteq> [] \<and> opt_text (g_idempotency_key c) = PStr k"
  by (cases "g_idempotency_key c") (auto simp: opt_text_def)

lemma send_order_scope:
  assumes "first_error (send_order_scope_guards rp c) = None"
  shows "simulation_order rp (g_source c) (g_idempotency_key c) (g_payload c)"
  using assms opt_text_key [of c]
  by (auto simp: send_order_scope_guards_def first_error_None_iff Let_def simulation_order_def)

lemma cancel_order_scope:
  assumes "validate_live_sim_cancel_order_allowed rp (Some c) = None"
  shows "simulation_order rp (g_source c) (g_idempotency_key c) (g_payload c)"
  using assms opt_text_key [of c]
  by (auto simp: validate_live_sim_cancel_order_allowed_def first_error_None_iff Let_def simulation_order_def)

lemma send_order_accepted:
  assumes "validate_live_sim_send_order_allowed rp (Some c) = None"
  shows "first_error (send_order_scope_guards rp c) = None"
    and "str_upper rp (dget_or (g_payload c) ''side'' (PStr [])) = ''BUY''
       \<or> str_upper rp (dget_or (g_payload c) ''side'' (PStr [])) = ''SELL'' \<and> closing_only rp (g_payload c)"
  using assms
  by (auto simp: validate_live_sim_send_order_allowed_def send_order_sell_guards_def closing_only_def
      first_error_None_iff Let_def split: option.splits if_splits)

lemma accepted_order_scope:
  assumes "validate_command_type_allowed rp ty (Some c) = None" "is_order_command_type ty"
  shows "simulation_order rp (g_source c) (g_idempotency_key c) (g_payload c)"
  using assms send_order_accepted(1) send_order_scope cancel_order_scope
  by (auto simp: validate_command_type_allowed_def is_order_command_type_def ORDER_COMMAND_TYPES_def
      normalize_command_type_def Let_def split: if_splits)

section \<open>Properties\<close>

definition sample_buy_payload :: pydict where
  "sample_buy_payload =
     [(''mode'', PStr ''live_sim''), (''idempotency_key'', PStr ''k1''), (''side'', PStr ''buy''),
      (''account_mode'', PStr ''simulation''), (''broker_env'', PStr ''MOCK''), (''server_mode'', PStr '' paper ''),
      (''metadata'', PDict [(''live_sim_only'', PBool True), (''live_real_allowed'', PBool False),
                            (''live_sim_intent_id'', PStr ''i1''), (''idempotency_key'', PStr ''k1'')])]"

definition sample_buy :: gateway_command where
  "sample_buy = \<lparr> g_command_id = ''c1'', g_command_type = ''send_order'', g_source = ''live_sim'', g_ts = 0,
     g_payload = sample_buy_payload, g_idempotency_key = Some ''k1'' \<rparr>"

lemma sample_buy_allowed: "validate_command_type_allowed (\<lambda>_. []) '' Send_Order '' (Some sample_buy) = None"
  by code_simp

text \<open>
  A command passes the policy only if its type is one of the allowed read-only types or an order
  command; an accepted order command is bound to the simulation (source, mode, environment, matching
  idempotency keys, never the real account), and an accepted \<open>send_order\<close> is a buy or a closing sale.
\<close>

theorem accepted_command_is_simulated:
  assumes "validate_command_type_allowed rp ty (Some c) = None"
  shows "normalize_command_type ty \<in> set ALLOWED_COMMAND_TYPES \<union> set ORDER_COMMAND_TYPES
    \<and> (is_order_command_type ty \<longrightarrow> simulation_order rp (g_source c) (g_idempotency_key c) (g_payload c))
    \<and> (normalize_command_type ty = ''send_order'' \<longrightarrow>
       (str_upper rp (dget_or (g_payload c) ''side'' (PStr [])) = ''BUY''
        \<or> str_upper rp (dget_or (g_payload c) ''side'' (PStr [])) = ''SELL'' \<and> closing_only rp (g_payload c)))"
proof (intro conjI impI)
  show "normalize_command_type ty \<in> set ALLOWED_COMMAND_TYPES \<union> set ORDER_COMMAND_TYPES"
    using assms
    by (auto simp: validate_command_type_allowed_def ALLOWED_COMMAND_TYPES_def ORDER_COMMAND_TYPES_def Let_def
        split: if_splits)
  show "simulation_order rp (g_source c) (g_idempotency_key c) (g_payload c)" if "is_order_command_type ty"
    using assms that accepted_order_scope by blast
  show "str_upper rp (dget_or (g_payload c) ''side'' (PStr [])) = ''BUY''
        \<or> str_upper rp (dget_or (g_payload c) ''side'' (PStr [])) = ''SELL'' \<and> closing_only rp (g_payload c)"
    if "normalize_command_type ty = ''send_order''"
    using assms that by (intro send_order_accepted(2)) (simp add: validate_command_type_allowed_def Let_def)
qed

theorem accepted_command_is_simulated_witness:
  "simulation_order (\<lambda>_. []) ''live_sim'' (Some ''k1'') sample_buy_payload"
proof -
  have "is_order_command_type '' Send_Order ''" by code_simp
  then show ?thesis
    using accepted_command_is_simulated [OF sample_buy_allowed] by (simp add: sample_buy_def)
qed

text \<open>
  No command whose normalised type mentions an order passes the policy, except the two that the
  simulation validators check; and without the command envelope nothing that needs one passes.
\<close>

theorem other_order_types_rejected:
  assumes "py_contains ''order'' (normalize_command_type ty)"
    and "normalize_command_type ty \<notin> set ORDER_COMMAND_TYPES" 
  shows "validate_command_type_allowed rp ty cmd \<noteq> None"
proof -
  have "\<not> py_contains ''order'' ''broker_snapshot_request''" by code_simp
  then have "normalize_command_type ty \<noteq> ''broker_snapshot_request''" using assms(1) by metis
  then show ?thesis
    using assms by (simp add: validate_command_type_allowed_def ORDER_COMMAND_TYPES_def Let_def)
qed

theorem other_order_types_rejected_witness:
  "validate_command_type_allowed (\<lambda>_. []) ''Reorder_All'' (Some sample_buy) \<noteq> None"
proof -
  have "py_contains ''order'' (normalize_command_type ''Reorder_All'')"
    "normalize_command_type ''Reorder_All'' \<notin> set ORDER_COMMAND_TYPES" by code_simp+
  then show ?thesis by (rule other_order_types_rejected)
qed

end
