(* ===== verification/Broker_Values.thy ===== *)
theory Broker_Values
  imports Py_Prelude
begin

text \<open>
  The validation of values at the boundary of the domain: \<open>domain/broker/utils.py\<close>. A value that violates it
  raises \<open>BrokerValidationError\<close>; what passes is normalised. The texts of errors are shortened to the field name.
  The parsing of a timestamp is an argument of the definitions that need it.
\<close>

definition invalid :: "string \<Rightarrow> 'a result" where
  "invalid field = Inl (BrokerValidationError field)"

definition require_non_empty_str :: "string \<Rightarrow> pyval \<Rightarrow> string result" where
  "require_non_empty_str field v =
     (case v of PStr s \<Rightarrow> (if py_strip s = [] then invalid field else Inr (py_strip s)) | _ \<Rightarrow> invalid field)"

definition optional_non_empty_str :: "string \<Rightarrow> pyval \<Rightarrow> string option result" where
  "optional_non_empty_str field v =
     (case v of PNone \<Rightarrow> Inr None | _ \<Rightarrow> rbind (require_non_empty_str field v) (\<lambda>s. Inr (Some s)))"

definition validate_stock_code :: "string \<Rightarrow> string result" where
  \<comment> \<open>for a text\<close>
  "validate_stock_code s =
     (let stripped = py_strip s; upper = py_upper stripped;
          code = (if py_startswith upper ''A'' \<and> length upper = 7 then tl upper else upper) in
      if stripped = [] then Inl (BrokerValidationError ''code must not be empty'')
      else if length code = 6 \<and> list_all is_digit code then Inr code
      else Inl (BrokerValidationError ''code must be a 6-digit domestic stock code''))"

definition validate_stock_code_value :: "pyval \<Rightarrow> string result" where
  "validate_stock_code_value v = (case v of PStr s \<Rightarrow> validate_stock_code s | _ \<Rightarrow> invalid ''code'')"

definition at_least :: "string \<Rightarrow> ('a::linorder) option \<Rightarrow> 'a \<Rightarrow> 'a result" where
  \<comment> \<open>the check against \<open>min_value\<close>\<close>
  "at_least field lowest x = (case lowest of Some m \<Rightarrow> (if x < m then invalid field else Inr x) | None \<Rightarrow> Inr x)"

definition signed_digits :: "string \<Rightarrow> bool" where
  \<comment> \<open>\<open>re.fullmatch(r"[+-]?\d+", s)\<close>\<close>
  "signed_digits s =
     (case s of [] \<Rightarrow> False
      | c # cs \<Rightarrow> (if c = CHR ''+'' \<or> c = CHR ''-'' then cs \<noteq> [] \<and> list_all is_digit cs else list_all is_digit s))"

definition without_commas :: "string \<Rightarrow> string" where
  "without_commas s = filter (\<lambda>c. c \<noteq> CHR '','') (py_strip s)"

definition parse_int :: "string \<Rightarrow> int option \<Rightarrow> pyval \<Rightarrow> int result" where
  "parse_int field lowest v =
     (let done' = at_least field lowest in
      case v of
        PInt n \<Rightarrow> done' n
      | PFloat (Finite r) \<Rightarrow> (if r = of_int \<lfloor>r\<rfloor> then done' \<lfloor>r\<rfloor> else invalid field)
      | PStr s \<Rightarrow> (if signed_digits (without_commas s)
                  then (case py_int_of_str (without_commas s) of Some n \<Rightarrow> done' n | None \<Rightarrow> invalid field) else invalid field)
      | _ \<Rightarrow> invalid field)"

definition number_text :: "string \<Rightarrow> string" where
  \<comment> \<open>without commas and a final percent sign\<close>
  "number_text s = (let t = without_commas s in if t \<noteq> [] \<and> last t = CHR ''%'' then py_strip (butlast t) else t)"

definition parse_float :: "string \<Rightarrow> rat option \<Rightarrow> pyval \<Rightarrow> rat result" where
  "parse_float field lowest v =
     (let done' = (\<lambda>f. case f of Finite r \<Rightarrow> at_least field lowest r | _ \<Rightarrow> invalid field) in
      case v of
        PInt n \<Rightarrow> done' (Finite (of_int n))
      | PFloat f \<Rightarrow> done' f
      | PStr s \<Rightarrow> (case py_float_of_str (number_text s) of Some f \<Rightarrow> done' f | None \<Rightarrow> invalid field)
      | _ \<Rightarrow> invalid field)"

definition parse_str_enum :: "string \<Rightarrow> (string \<times> 'a) list \<Rightarrow> pyval \<Rightarrow> 'a result" where
  \<comment> \<open>the members are given with their values, which equal their names in every enum it is used for\<close>
  "parse_str_enum field members v =
     (case v of PStr s \<Rightarrow> (case map_of members (py_upper (py_strip s)) of Some m \<Rightarrow> Inr m | None \<Rightarrow> invalid field) | _ \<Rightarrow> invalid field)"

text \<open>The services share a helper that collects reasons: blank ones are dropped, the others are in upper case and occur once.\<close>

definition merge_reasons :: "string list \<Rightarrow> string list" where
  "merge_reasons rs = dedupe (map py_upper (filter (\<lambda>r. py_strip r \<noteq> []) rs))"

lemma merge_reasons_Nil_iff: "merge_reasons rs = [] \<longleftrightarrow> (\<forall>r \<in> set rs. py_strip r = [])"
  by (auto simp: merge_reasons_def filter_empty_conv)

lemma merge_append_Nil: "merge_reasons (xs @ ys) = [] \<longleftrightarrow> merge_reasons xs = [] \<and> merge_reasons ys = []"
  by (auto simp: merge_reasons_Nil_iff)

lemma merge_Nil [simp]: "merge_reasons [] = []"
  by (simp add: merge_reasons_Nil_iff)

lemma merge_Cons_Nil: "merge_reasons (r # rs) = [] \<longleftrightarrow> py_strip r = [] \<and> merge_reasons rs = []"
  by (auto simp: merge_reasons_Nil_iff)

lemma at_least_Inr: "at_least field (Some m) x = Inr y \<Longrightarrow> m \<le> y"
  by (auto simp: at_least_def invalid_def split: if_splits)

lemma parse_int_at_least: "parse_int field (Some m) v = Inr n \<Longrightarrow> m \<le> n"
  by (auto simp: parse_int_def invalid_def Let_def dest: at_least_Inr split: pyval.splits pyfloat.splits if_splits option.splits)

lemma parse_float_at_least: "parse_float field (Some m) v = Inr r \<Longrightarrow> m \<le> r"
  by (auto simp: parse_float_def invalid_def Let_def dest: at_least_Inr split: pyval.splits pyfloat.splits option.splits)

end
