(* ===== verification/Rate_Governor.thy ===== *)
theory Rate_Governor
  imports Py_Prelude
begin

text \<open>
  The rate limits of calls to the broker: \<open>KiwoomRateLimitGovernor\<close> of \<open>gateway/kiwoom_command_handlers.py\<close>.

  Times are readings of a monotonic clock in seconds, rationals. The two deques hold the recorded calls of the
  last second and the last hour with their weights; a dict is an association list whose first entry counts.
  \<open>governed\<close> is any use of the governor by the handlers, which record a call only after a check has allowed it;
  it carries the history of all recorded calls. The property bounds that history in every window of time.
\<close>

section \<open>Operations\<close>

record rate_limit_decision =
  rd_allowed :: bool
  rd_wait_time_sec :: rat
  rd_reason :: string

record governor =
  gv_global_per_second :: rat
  gv_hourly_limit :: rat
  gv_min_interval_sec :: "(string \<times> rat) list"
  gv_type_weights :: "(string \<times> rat) list"
  gv_last_call_at :: "(string \<times> rat) list"
  gv_second_calls :: "(rat \<times> rat) list"
  gv_hourly_calls :: "(rat \<times> rat) list"

definition make_governor ::
  "rat \<Rightarrow> rat \<Rightarrow> (string \<times> rat) list \<Rightarrow> (string \<times> rat) list \<Rightarrow> governor" where
  "make_governor global_per_second hourly_limit min_interval_sec type_weights =
     \<lparr> gv_global_per_second = max global_per_second (1 / 10), gv_hourly_limit = max hourly_limit 1,
       gv_min_interval_sec = min_interval_sec @
         [(''request_tr'', 1), (''broker_snapshot_request'', 1), (''load_conditions'', 1), (''send_condition'', 1 / 5),
          (''send_order'', 1 / 5), (''cancel_order'', 1 / 5)],
       gv_type_weights = type_weights @
         [(''heartbeat_request'', 0), (''register_realtime'', 1), (''remove_realtime'', 1), (''request_tr'', 1),
          (''broker_snapshot_request'', 3), (''load_conditions'', 1), (''send_condition'', 1), (''stop_condition'', 1),
          (''send_order'', 1), (''cancel_order'', 1)],
       gv_last_call_at = [], gv_second_calls = [], gv_hourly_calls = [] \<rparr>"

definition get_or :: "(string \<times> rat) list \<Rightarrow> string \<Rightarrow> rat \<Rightarrow> rat" where
  "get_or d k v = (case map_of d k of None \<Rightarrow> v | Some x \<Rightarrow> x)"

definition weight_of :: "governor \<Rightarrow> string \<Rightarrow> rat" where
  "weight_of g t = max (get_or (gv_type_weights g) t 1) 0"

definition interval_of :: "governor \<Rightarrow> string \<Rightarrow> rat" where
  "interval_of g t = max (get_or (gv_min_interval_sec g) t 0) 0"

definition drop_old :: "rat \<Rightarrow> (rat \<times> rat) list \<Rightarrow> (rat \<times> rat) list" where
  "drop_old edge calls = dropWhile (\<lambda>c. fst c \<le> edge) calls"

definition trim :: "rat \<Rightarrow> governor \<Rightarrow> governor" where
  "trim now g = g\<lparr> gv_second_calls := drop_old (now - 1) (gv_second_calls g),
                   gv_hourly_calls := drop_old (now - 3600) (gv_hourly_calls g) \<rparr>"

definition window_wait :: "rat \<Rightarrow> rat \<Rightarrow> rat \<Rightarrow> rat \<Rightarrow> (rat \<times> rat) list \<Rightarrow> string \<Rightarrow> (rat \<times> string) list" where
  \<comment> \<open>the wait for a window of the given length, if the weight exceeds its limit\<close>
  "window_wait now weight limit len calls reason =
     (case calls of
        [] \<Rightarrow> []
      | (first, _) # _ \<Rightarrow> (if sum_list (map snd calls) + weight > limit then [(first + len - now, reason)] else []))"

definition interval_wait :: "rat \<Rightarrow> string \<Rightarrow> governor \<Rightarrow> (rat \<times> string) list" where
  "interval_wait now t g =
     (case map_of (gv_last_call_at g) t of
        None \<Rightarrow> []
      | Some last_at \<Rightarrow>
          (if interval_of g t > 0 \<and> interval_of g t - (now - last_at) > 0
           then [(interval_of g t - (now - last_at), ''type_min_interval'')] else []))"

fun longest :: "(rat \<times> string) list \<Rightarrow> rat \<times> string \<Rightarrow> rat \<times> string" where
  \<comment> \<open>\<open>max(waits, key=...)\<close>: the first of the longest waits\<close>
  "longest [] best = best"
| "longest (w # ws) best = longest ws (if fst w > fst best then w else best)"

definition check :: "string \<Rightarrow> rat \<Rightarrow> governor \<Rightarrow> rate_limit_decision \<times> governor" where
  "check command_type now g =
     (let t = py_lower (py_strip command_type); weight = weight_of g t in
      if weight \<le> 0 then (\<lparr> rd_allowed = True, rd_wait_time_sec = 0, rd_reason = [] \<rparr>, g)
      else
        (let g' = trim now g;
             waits = interval_wait now t g'
               @ window_wait now weight (gv_global_per_second g') 1 (gv_second_calls g') ''global_per_second''
               @ window_wait now weight (gv_hourly_limit g') 3600 (gv_hourly_calls g') ''hourly_rolling_limit'';
             waits' = map (\<lambda>(wait, reason). (max wait (1 / 1000), reason)) (filter (\<lambda>w. fst w > 0) waits) in
         case waits' of
           [] \<Rightarrow> (\<lparr> rd_allowed = True, rd_wait_time_sec = 0, rd_reason = [] \<rparr>, g')
         | w # ws \<Rightarrow> (let (wait, reason) = longest ws w in
                      (\<lparr> rd_allowed = False, rd_wait_time_sec = wait, rd_reason = reason \<rparr>, g'))))"

definition record_call :: "string \<Rightarrow> rat \<Rightarrow> governor \<Rightarrow> governor" where
  \<comment> \<open>\<open>record\<close>\<close>
  "record_call command_type now g =
     (let t = py_lower (py_strip command_type); weight = weight_of g t in
      if weight \<le> 0 then g
      else (let g' = trim now g in
            g'\<lparr> gv_last_call_at := (t, now) # filter (\<lambda>p. fst p \<noteq> t) (gv_last_call_at g'),
                gv_second_calls := gv_second_calls g' @ [(now, weight)],
                gv_hourly_calls := gv_hourly_calls g' @ [(now, weight)] \<rparr>))"

section \<open>Histories\<close>

record past_call =
  pc_type :: string
  pc_at :: rat
  pc_weight :: rat

inductive governed :: "governor \<Rightarrow> rat \<Rightarrow> past_call list \<Rightarrow> bool" where
  start: "governed (make_governor global_limit hourly_limit intervals weights) now []"
| look: "governed g now h \<Longrightarrow> now \<le> t \<Longrightarrow> governed (snd (check command_type t g)) t h"
| call: "governed g now h \<Longrightarrow> now \<le> t \<Longrightarrow> check command_type t g = (d, g') \<Longrightarrow> rd_allowed d \<Longrightarrow> t \<le> t' \<Longrightarrow>
    governed (record_call command_type t' g') t'
      (if weight_of g (py_lower (py_strip command_type)) \<le> 0 then h
       else h @ [\<lparr> pc_type = py_lower (py_strip command_type), pc_at = t', pc_weight = weight_of g (py_lower (py_strip command_type)) \<rparr>])"

definition since :: "rat \<Rightarrow> past_call list \<Rightarrow> past_call list" where
  "since edge h = filter (\<lambda>c. edge < pc_at c) h"

definition in_window :: "rat \<Rightarrow> rat \<Rightarrow> past_call list \<Rightarrow> past_call list" where
  \<comment> \<open>the calls of the window of the given length that ends at \<open>t\<close>\<close>
  "in_window len t h = filter (\<lambda>c. t - len < pc_at c \<and> pc_at c \<le> t) h"

definition load :: "past_call list \<Rightarrow> rat" where
  "load h = sum_list (map pc_weight h)"

definition limit_ok :: "rat \<Rightarrow> past_call list \<Rightarrow> bool" where
  \<comment> \<open>the limit is respected, except that a single call may exceed it on its own\<close>
  "limit_ok limit h \<longleftrightarrow> load h \<le> limit \<or> length h \<le> 1"

definition timed :: "past_call list \<Rightarrow> (rat \<times> rat) list" where
  "timed h = map (\<lambda>c. (pc_at c, pc_weight c)) h"

definition limits_kept :: "governor \<Rightarrow> past_call list \<Rightarrow> bool" where
  "limits_kept g h \<longleftrightarrow>
     (\<forall>t. limit_ok (gv_global_per_second g) (in_window 1 t h))
   \<and> (\<forall>t. limit_ok (gv_hourly_limit g) (in_window 3600 t h))
   \<and> sorted_wrt (\<lambda>c d. pc_type c = pc_type d \<longrightarrow> interval_of g (pc_type c) \<le> pc_at d - pc_at c) h"

definition governor_inv :: "governor \<Rightarrow> rat \<Rightarrow> past_call list \<Rightarrow> bool" where
  "governor_inv g now h \<longleftrightarrow>
     sorted_wrt (\<lambda>c d. pc_at c \<le> pc_at d) h \<and> (\<forall>c \<in> set h. pc_at c \<le> now \<and> 0 < pc_weight c)
   \<and> (\<exists>edge \<le> now. gv_second_calls g = timed (since (edge - 1) h))
   \<and> (\<exists>edge \<le> now. gv_hourly_calls g = timed (since (edge - 3600) h))
   \<and> (\<forall>c \<in> set h. \<exists>s. map_of (gv_last_call_at g) (pc_type c) = Some s \<and> pc_at c \<le> s)
   \<and> limits_kept g h"

lemma drop_old_sorted:
  "sorted_wrt (\<lambda>c d. pc_at c \<le> pc_at d) h \<Longrightarrow> drop_old edge (timed h) = timed (since edge h)"
proof (induction h)
  case (Cons c h)
  show ?case
  proof (cases "pc_at c \<le> edge")
    case True
    then show ?thesis using Cons by (simp add: drop_old_def timed_def since_def)
  next
    case False
    then have "since edge (c # h) = c # h" using Cons.prems by (auto simp: since_def intro!: filter_True)
    then show ?thesis using False by (simp add: drop_old_def timed_def)
  qed
qed (simp add: drop_old_def timed_def since_def)

lemma since_since: "since a (since b h) = since (max a b) h"
  by (auto simp: since_def intro: filter_cong)

lemma since_sorted: "sorted_wrt P h \<Longrightarrow> sorted_wrt P (since edge h)"
  by (simp add: since_def sorted_wrt_filter)

lemma trim_calls:
  assumes "sorted_wrt (\<lambda>c d. pc_at c \<le> pc_at d) h" "calls = timed (since (edge - len) h)" "edge \<le> now" 
  shows "drop_old (now - len) calls = timed (since (now - len) h)"
proof -
  have "max (now - len) (edge - len) = now - len" using assms(3) by simp
  then show ?thesis using assms(1,2) by (simp add: drop_old_sorted since_sorted since_since)
qed

lemma trim_inv:
  assumes "governor_inv g now h" "now \<le> t"
  shows "governor_inv (trim t g) t h"
    and "gv_second_calls (trim t g) = timed (since (t - 1) h)" "gv_hourly_calls (trim t g) = timed (since (t - 3600) h)"
proof -
  show 1: "gv_second_calls (trim t g) = timed (since (t - 1) h)" "gv_hourly_calls (trim t g) = timed (since (t - 3600) h)"
    using assms trim_calls [of h] by (force simp: governor_inv_def trim_def)+
  show "governor_inv (trim t g) t h"
    using assms 1 unfolding governor_inv_def limits_kept_def by (force simp: trim_def interval_of_def)
qed

lemma load_filter: "(\<And>c. c \<in> set h \<Longrightarrow> 0 < pc_weight c) \<Longrightarrow> (\<And>c. p c \<Longrightarrow> q c) \<Longrightarrow> load (filter p h) \<le> load (filter q h)"
  by (induction h) (auto simp: load_def intro: add_increasing order_less_imp_le)

lemma limit_ok_extend:
  assumes "sorted_wrt (\<lambda>c d. pc_at c \<le> pc_at d) (h @ [n])" "\<forall>c \<in> set h. 0 < pc_weight c" "\<And>t. limit_ok limit (in_window len t h)" "0 < len"
    and "since edge h = [] \<or> load (since edge h) + pc_weight n \<le> limit" "edge \<le> pc_at n - len"
  shows "limit_ok limit (in_window len t (h @ [n]))"
proof (cases "t - len < pc_at n \<and> pc_at n \<le> t")
  case True
  have old: "filter (\<lambda>c. t - len < pc_at c \<and> pc_at c \<le> t) h = filter (\<lambda>c. t - len < pc_at c \<and> pc_at c \<le> t) (since edge h)"
    using assms(6) True by (auto simp: since_def intro: filter_cong)
  have "load (filter (\<lambda>c. t - len < pc_at c \<and> pc_at c \<le> t) h) \<le> load (since edge h)"
    unfolding since_def using assms(2,6) True by (intro load_filter) auto
  then show ?thesis using assms(5) True old by (auto simp: in_window_def limit_ok_def load_def)
next
  case False
  show ?thesis
  proof (cases "pc_at n \<le> t")
    case True
    then have "in_window len t (h @ [n]) = []" using False assms(1) by (auto simp: in_window_def sorted_wrt_append filter_empty_conv)
    then show ?thesis by (simp add: limit_ok_def)
  next
    case late: False
    then have "in_window len t (h @ [n]) = in_window len t h" by (simp add: in_window_def)
    then show ?thesis using assms(3) by simp
  qed
qed


lemma trim_fields:
  "gv_last_call_at (trim t g) = gv_last_call_at g" "gv_global_per_second (trim t g) = gv_global_per_second g"
  "gv_hourly_limit (trim t g) = gv_hourly_limit g" "weight_of (trim t g) x = weight_of g x" "interval_of (trim t g) x = interval_of g x"
  "interval_of (g\<lparr> gv_last_call_at := a, gv_second_calls := b, gv_hourly_calls := c \<rparr>) x = interval_of g x"
  by (simp_all add: trim_def weight_of_def interval_of_def)

lemma governor_inv_later: "governor_inv g now h \<Longrightarrow> now \<le> t \<Longrightarrow> governor_inv g t h"
  unfolding governor_inv_def by (meson order_trans)

lemma check_cases:
  assumes "check command_type t g = (d, g')"
  shows "(weight_of g (py_lower (py_strip command_type)) \<le> 0 \<longrightarrow> g' = g \<and> rd_allowed d)
     \<and> (0 < weight_of g (py_lower (py_strip command_type)) \<longrightarrow> g' = trim t g)"
  using assms by (auto simp: check_def Let_def split: if_splits list.splits prod.splits)

lemma no_wait:
  "map f (filter (\<lambda>w. fst w > 0) (a @ b @ c)) = [] \<Longrightarrow> filter (\<lambda>w. fst w > 0) a = [] \<and> filter (\<lambda>w. fst w > 0) b = [] \<and> filter (\<lambda>w. fst w > 0) c = []"
  by simp

lemma check_allowed:
  assumes "check command_type t g = (d, g')" "rd_allowed d" "0 < weight_of g (py_lower (py_strip command_type))"
  shows "filter (\<lambda>w. fst w > 0) (interval_wait t (py_lower (py_strip command_type)) (trim t g)) = []"
    and "filter (\<lambda>w. fst w > 0) (window_wait t (weight_of g (py_lower (py_strip command_type))) (gv_global_per_second g) 1
           (gv_second_calls (trim t g)) r) = []"
    and "filter (\<lambda>w. fst w > 0) (window_wait t (weight_of g (py_lower (py_strip command_type))) (gv_hourly_limit g) 3600
           (gv_hourly_calls (trim t g)) r) = []"
  using assms
  by (auto simp: check_def Let_def trim_def window_wait_def split: if_splits list.splits prod.splits)

lemma window_free:
  assumes "filter (\<lambda>w. fst w > 0) (window_wait t w limit len (timed (since (t - len) h)) r) = []"
  shows "since (t - len) h = [] \<or> load (since (t - len) h) + w \<le> limit"
proof (cases "since (t - len) h")
  case (Cons c cs)
  have "c \<in> set (since (t - len) h)" by (simp add: Cons)
  then have "t - len < pc_at c" by (simp add: since_def)
  moreover have "sum_list (map snd (timed (since (t - len) h))) = load (since (t - len) h)"
    by (simp add: timed_def load_def comp_def)
  ultimately show ?thesis using assms Cons by (auto simp: window_wait_def timed_def split: if_splits)
qed simp

lemma map_of_filter_key: "k \<noteq> t \<Longrightarrow> map_of (filter (\<lambda>p. fst p \<noteq> t) d) k = map_of d k"
  by (induction d) auto

lemma record_inv:
  assumes inv: "governor_inv g now h" and le: "now \<le> t" "t \<le> t'" and ck: "check command_type t g = (d, g')" "rd_allowed d"
    and w: "0 < weight_of g (py_lower (py_strip command_type))"
  defines "n \<equiv> \<lparr> pc_type = py_lower (py_strip command_type), pc_at = t', pc_weight = weight_of g (py_lower (py_strip command_type)) \<rparr>"
  shows "governor_inv (record_call command_type t' g') t' (h @ [n])"
proof -
  let ?ct = "py_lower (py_strip command_type)"
  note tr = trim_inv [OF inv le(1)]
  have g': "g' = trim t g" using check_cases [OF ck(1)] w by blast
  note tr' = trim_inv [OF tr(1) le(2), folded g']
  have same: "gv_global_per_second g' = gv_global_per_second g" "gv_hourly_limit g' = gv_hourly_limit g" "weight_of g' ?ct = weight_of g ?ct"
    "interval_of g' x = interval_of g x"
    "gv_last_call_at g' = gv_last_call_at g" for x
    by (simp_all add: g' trim_fields)
  define r where "r = record_call command_type t' g'"
  have rec: "gv_second_calls r = timed (since (t' - 1) h) @ [(t', weight_of g ?ct)]"
    "gv_hourly_calls r = timed (since (t' - 3600) h) @ [(t', weight_of g ?ct)]"
    "gv_last_call_at r = (?ct, t') # filter (\<lambda>p. fst p \<noteq> ?ct) (gv_last_call_at g)"
    "gv_global_per_second r = gv_global_per_second g" "gv_hourly_limit r = gv_hourly_limit g" "interval_of r x = interval_of g x" for x
    using w same tr'(2,3) by (simp_all add: r_def record_call_def Let_def trim_fields not_le [symmetric])
  have h: "sorted_wrt (\<lambda>c d. pc_at c \<le> pc_at d) h" "\<forall>c \<in> set h. pc_at c \<le> now \<and> 0 < pc_weight c"
    "\<forall>c \<in> set h. \<exists>s. map_of (gv_last_call_at g) (pc_type c) = Some s \<and> pc_at c \<le> s" "limits_kept g h"
    using inv by (simp_all add: governor_inv_def)
  have sorted: "sorted_wrt (\<lambda>c d. pc_at c \<le> pc_at d) (h @ [n])"
    using h(1,2) le by (force simp: sorted_wrt_append n_def)
  have ends: "timed (since (t' - 1) (h @ [n])) = timed (since (t' - 1) h) @ [(t', weight_of g ?ct)]"
    "timed (since (t' - 3600) (h @ [n])) = timed (since (t' - 3600) h) @ [(t', weight_of g ?ct)]"
    by (simp_all add: timed_def since_def n_def)
  have free: "since (t - 1) h = [] \<or> load (since (t - 1) h) + pc_weight n \<le> gv_global_per_second g"
    "since (t - 3600) h = [] \<or> load (since (t - 3600) h) + pc_weight n \<le> gv_hourly_limit g"
    using window_free check_allowed(2,3) [OF ck w] tr(2,3) by (simp_all add: n_def)
  have apart: "interval_of g ?ct \<le> t' - pc_at c" if c: "c \<in> set h" "pc_type c = ?ct" for c
  proof -
    obtain s where s: "map_of (gv_last_call_at g) ?ct = Some s" "pc_at c \<le> s" using h(3) c by metis
    have "interval_of g ?ct \<le> 0 \<or> interval_of g ?ct \<le> t - s"
      using check_allowed(1) [OF ck w] s(1) by (auto simp: interval_wait_def trim_def interval_of_def split: if_splits)
    moreover have "0 \<le> t' - pc_at c" using h(2) c(1) le by force
    ultimately show ?thesis using s(2) le by linarith
  qed
  have kept: "limits_kept r (h @ [n])"
    unfolding limits_kept_def rec
    using h(2,4) free le apart
    by (intro conjI allI limit_ok_extend [OF sorted, where edge = "t - 1"] limit_ok_extend [OF sorted, where edge = "t - 3600"])
       (auto simp: limits_kept_def sorted_wrt_append n_def)
  have last: "\<exists>s. map_of (gv_last_call_at r) (pc_type c) = Some s \<and> pc_at c \<le> s" if "c \<in> set (h @ [n])" for c
  proof (cases "pc_type c = ?ct")
    case True
    moreover have "pc_at c \<le> t'" using that h(2) le by (force simp: n_def)
    ultimately show ?thesis by (simp add: rec)
  next
    case False
    then show ?thesis using that h(3) by (auto simp: rec map_of_filter_key n_def)
  qed
  have all: "\<forall>c \<in> set (h @ [n]). pc_at c \<le> t' \<and> 0 < pc_weight c" using h(2) le w by (force simp: n_def)
  have deques: "\<exists>edge \<le> t'. gv_second_calls r = timed (since (edge - 1) (h @ [n]))"
    "\<exists>edge \<le> t'. gv_hourly_calls r = timed (since (edge - 3600) (h @ [n]))"
    by (rule exI [of _ t'], simp add: rec ends)+
  show ?thesis unfolding governor_inv_def r_def [symmetric] using sorted all deques last kept by blast
qed

lemma governed_inv: "governed g now h \<Longrightarrow> governor_inv g now h"
proof (induction rule: governed.induct)
  case (start global_limit hourly_limit intervals weights now)
  show ?case
    unfolding governor_inv_def limits_kept_def
    by (auto simp: make_governor_def since_def timed_def limit_ok_def in_window_def)
next
  case (look g now h t command_type)
  have *: "governor_inv g t h" by (rule governor_inv_later [OF look.IH look.hyps(2)])
  obtain d g' where c: "check command_type t g = (d, g')" by (cases "check command_type t g")
  then show ?case
    using check_cases [OF c] trim_inv(1) [OF look.IH look.hyps(2)] *
    by (cases "weight_of g (py_lower (py_strip command_type)) \<le> 0") auto
next
  case (call g now h t command_type d g' t')
  show ?case
  proof (cases "weight_of g (py_lower (py_strip command_type)) \<le> 0")
    case True
    then have "record_call command_type t' g' = g" using check_cases [OF call.hyps(3)] by (simp add: record_call_def Let_def)
    moreover have "governor_inv g t' h" by (rule governor_inv_later [OF call.IH]) (use call.hyps in simp)
    ultimately show ?thesis using True by simp
  next
    case False
    then show ?thesis using record_inv [OF call.IH call.hyps(2) call.hyps(5) call.hyps(3,4)] by simp
  qed
qed

section \<open>Property\<close>

text \<open>
  C32: The governor keeps its limits in every window of time, not only at the moments of its checks. However
  checks and calls are interleaved, the recorded calls of any second weigh at most the limit per second and
  those of any hour at most the hourly limit, unless the window holds a single call, and two calls of one type are
  at least its minimal interval apart. A limit so configured is never below a tenth, or one for the hour.
\<close>

theorem calls_stay_within_limits:
  assumes "governed g now h"
  shows "(\<forall>t. load (in_window 1 t h) \<le> gv_global_per_second g \<or> length (in_window 1 t h) \<le> 1)
     \<and> (\<forall>t. load (in_window 3600 t h) \<le> gv_hourly_limit g \<or> length (in_window 3600 t h) \<le> 1)
     \<and> sorted_wrt (\<lambda>c d. pc_type c = pc_type d \<longrightarrow> interval_of g (pc_type c) \<le> pc_at d - pc_at c) h"
  using governed_inv [OF assms] by (simp add: governor_inv_def limits_kept_def limit_ok_def)

definition sample_governor :: governor where
  "sample_governor = record_call ''send_order'' (1 / 4) (snd (check ''send_order'' (1 / 4)
     (record_call ''send_order'' 0 (snd (check ''send_order'' 0 (make_governor 2 900 [] []))))))"

definition sample_calls :: "past_call list" where
  "sample_calls = [\<lparr> pc_type = ''send_order'', pc_at = 0, pc_weight = 1 \<rparr>, \<lparr> pc_type = ''send_order'', pc_at = 1 / 4, pc_weight = 1 \<rparr>]"

lemma sample_governed: "governed sample_governor (1 / 4) sample_calls"
proof -
  let ?g0 = "make_governor 2 900 [] []"
  let ?g1 = "record_call ''send_order'' 0 (snd (check ''send_order'' 0 ?g0))"
  have w: "weight_of ?g0 ''send_order'' = 1" "weight_of ?g1 ''send_order'' = 1"
    "py_lower (py_strip ''send_order'') = ''send_order''" by code_simp+
  have ok: "rd_allowed (fst (check ''send_order'' 0 ?g0))" "rd_allowed (fst (check ''send_order'' (1 / 4) ?g1))" by code_simp+
  have "governed ?g1 0 [\<lparr> pc_type = ''send_order'', pc_at = 0, pc_weight = 1 \<rparr>]"
    using governed.call [OF governed.start [of 2 900 "[]" "[]" 0] order_refl surjective_pairing ok(1) order_refl]
    by (simp add: w)
  from governed.call [OF this _ surjective_pairing ok(2) order_refl] show ?thesis
    by (simp add: w sample_governor_def sample_calls_def)
qed

theorem calls_stay_within_limits_witness:
  "load (in_window 1 (1 / 2) sample_calls) \<le> gv_global_per_second sample_governor \<and> load (in_window 1 (1 / 2) sample_calls) = 2"
proof -
  have "load (in_window 1 (1 / 2) sample_calls) = 2" "length (in_window 1 (1 / 2) sample_calls) = 2" by code_simp+
  then show ?thesis using spec [OF conjunct1 [OF calls_stay_within_limits [OF sample_governed]], of "1 / 2"] by simp
qed

end
