(* ===== verification/Order_Gateway.thy ===== *)
theory Order_Gateway
  imports Command_Policy Broker_Values Rate_Governor
begin

text \<open>
  The way of an order to the broker: the order handlers of \<open>gateway/kiwoom_command_handlers.py\<close>, the journal of
  \<open>gateway/order_pre_ack_journal.py\<close>, the order request of \<open>gateway/kiwoom_client.py\<close> and the exception boundary of
  \<open>handle_commands\<close> in \<open>gateway/kiwoom_runtime.py\<close>.

  \<^item> A handler is a step on the state of the gateway: the rate governor, the lines of the journal and the list of
    effects performed so far, which is what the outside world has seen. It returns its events or the text of the
    exception it raises.
  \<^item> What the outside answers in a step is a \<open>world\<close>: the server kind the client reports, the clock readings, the
    answer of Core to the synchronous pre-ack, the answer of the broker, the journal writes that fail and the
    outcome of the acknowledgement callback. The parsing of a timestamp is the argument \<open>ts\<close>.
  \<^item> An event here has no id and time of its own, which its constructor draws; \<open>emitted\<close> is the rest of it.
  \<^item> The properties: what has happened before every call of the broker, what a handler may report after one, and
    that a crash at any point leaves a pending journal record for every call whose outcome was not recorded.

  The handlers for the other command types only call the client and are not modelled.
\<close>

section \<open>Order requests\<close>

definition string_value :: "repr \<Rightarrow> pydict \<Rightarrow> string \<Rightarrow> string \<Rightarrow> string" where
  "string_value rp payload key fallback =
     (case dget_or payload key (PStr fallback) of PNone \<Rightarrow> fallback | v \<Rightarrow> py_str rp v)"

definition last_six :: "string \<Rightarrow> string" where
  \<comment> \<open>\<open>digits[-6:].zfill(6)\<close>\<close>
  "last_six ds = (let l = drop (length ds - 6) ds in replicate (6 - length l) (CHR ''0'') @ l)"

definition normalize_code :: "repr \<Rightarrow> pyval \<Rightarrow> string result" where
  "normalize_code rp v =
     (let t0 = py_upper (py_strip (py_str rp (py_or v (PStr []))));
          text = (if py_startswith t0 ''A'' \<and> length t0 = 7 then tl t0 else t0);
          digits = filter is_digit text in
      if digits \<noteq> [] then Inr (last_six digits) else validate_stock_code text)"

definition exchange_aliases :: "(string \<times> string) list" where
  "exchange_aliases =
     [('''', ''KRX''), (''K'', ''KRX''), (''KRX'', ''KRX''), (''N'', ''NXT''), (''NX'', ''NXT''), (''NXT'', ''NXT''),
      (''S'', ''SOR''), (''SO'', ''SOR''), (''SOR'', ''SOR''), (''A'', ''SOR''), (''AL'', ''SOR''), (''ALL'', ''SOR''),
      (''INTEGRATED'', ''SOR'')]"

definition normalize_order_exchange :: "repr \<Rightarrow> pyval \<Rightarrow> string result" where
  "normalize_order_exchange rp v =
     (case map_of exchange_aliases (py_upper (py_strip (py_str rp (py_or v (PStr ''KRX''))))) of
        Some x \<Rightarrow> Inr x
      | None \<Rightarrow> Inl (ValueError (''unsupported order exchange: '' @ py_str rp v)))"

definition broker_env_from_server_gubun :: "repr \<Rightarrow> pyval \<Rightarrow> string" where
  "broker_env_from_server_gubun rp v =
     (let text = py_upper (py_strip (py_str rp (py_or v (PStr [])))) in
      if text \<in> {''1'', ''SIM'', ''SIMULATION'', ''MOCK'', ''PAPER'', ''PAPER_TRADING'', ''LIVE_SIM'', ''TEST''} then ''SIMULATION''
      else if text \<in> {''0'', ''REAL'', ''LIVE'', ''PROD'', ''PRODUCTION'', ''LIVE_REAL''} then ''REAL''
      else ''UNKNOWN'')"

abbreviation text_upper :: "repr \<Rightarrow> pydict \<Rightarrow> string \<Rightarrow> string" where
  "text_upper rp payload key \<equiv> py_upper (py_strip (py_str rp (py_or (dget payload key) (PStr []))))"

definition order_price :: "repr \<Rightarrow> pydict \<Rightarrow> int result" where
  "order_price rp payload =
     (if text_upper rp payload ''order_type'' = ''MARKET'' then Inr 0
      else py_int (py_or (dget payload ''price'') (py_or (dget payload ''limit_price'') (PInt 0))))"

definition kiwoom_hoga :: "repr \<Rightarrow> pydict \<Rightarrow> string" where
  "kiwoom_hoga rp payload =
     (let explicit = py_strip (py_str rp (py_or (dget payload ''hoga'') (PStr []))) in
      if explicit \<noteq> [] then explicit
      else if text_upper rp payload ''order_type'' = ''MARKET'' then ''03'' else ''00'')"

definition kiwoom_order_type :: "repr \<Rightarrow> pydict \<Rightarrow> int result" where
  "kiwoom_order_type rp payload =
     (let side = text_upper rp payload ''side'' in
      if side = ''BUY'' then Inr 1
      else if side = ''SELL'' then Inr 2
      else if side \<in> {''BUY_CANCEL'', ''CANCEL_BUY''} then Inr 3
      else Inl (ValueError ''Kiwoom LIVE_SIM adapter allows BUY, close-only SELL, or BUY_CANCEL''))"

record order_request =
  rq_account :: string
  rq_code :: string
  rq_quantity :: int
  rq_price :: int
  rq_side :: string
  rq_tag :: string
  rq_order_type :: int
  rq_hoga :: string
  rq_original_order_no :: string
  rq_command_id :: string
  rq_idempotency_key :: string
  rq_order_exchange :: string
  rq_metadata :: pydict

definition key_text :: "gateway_command \<Rightarrow> string" where
  \<comment> \<open>\<open>command.idempotency_key or \"\"\<close>\<close>
  "key_text c = (case g_idempotency_key c of None \<Rightarrow> [] | Some k \<Rightarrow> k)"

definition account_of :: "repr \<Rightarrow> pydict \<Rightarrow> string" where
  "account_of rp p = string_value rp p ''account_id'' (string_value rp p ''account'' '''')"

definition send_request :: "repr \<Rightarrow> gateway_command \<Rightarrow> order_request result" where
  "send_request rp c =
     (let p = g_payload c in
      rbind (normalize_code rp (dget p ''code'')) (\<lambda>code.
      rbind (py_int (py_or (dget p ''quantity'') (PInt 0))) (\<lambda>quantity.
      rbind (order_price rp p) (\<lambda>price.
      rbind (kiwoom_order_type rp p) (\<lambda>order_type.
      rbind (normalize_order_exchange rp (dget_or p ''order_exchange'' (PStr ''KRX''))) (\<lambda>exchange.
        Inr \<lparr> rq_account = account_of rp p, rq_code = code, rq_quantity = quantity, rq_price = price,
              rq_side = py_upper (string_value rp p ''side'' ''BUY''), rq_tag = string_value rp p ''tag'' (g_command_id c),
              rq_order_type = order_type, rq_hoga = kiwoom_hoga rp p, rq_original_order_no = [],
              rq_command_id = g_command_id c, rq_idempotency_key = key_text c, rq_order_exchange = exchange,
              rq_metadata = mapping_value p ''metadata'' \<rparr>))))))"

definition cancel_request :: "repr \<Rightarrow> gateway_command \<Rightarrow> order_request result" where
  "cancel_request rp c =
     (let p = g_payload c in
      rbind (normalize_code rp (dget p ''code'')) (\<lambda>code.
      rbind (py_int (py_or (dget p ''cancel_quantity'') (py_or (dget p ''quantity'') (PInt 0)))) (\<lambda>quantity.
      rbind (kiwoom_order_type rp p) (\<lambda>order_type.
      rbind (normalize_order_exchange rp (dget_or p ''order_exchange'' (PStr ''KRX''))) (\<lambda>exchange.
        Inr \<lparr> rq_account = account_of rp p, rq_code = code, rq_quantity = quantity, rq_price = 0,
              rq_side = ''BUY_CANCEL'', rq_tag = string_value rp p ''tag'' (g_command_id c),
              rq_order_type = order_type, rq_hoga = kiwoom_hoga rp p,
              rq_original_order_no = string_value rp p ''original_order_no'' '''',
              rq_command_id = g_command_id c, rq_idempotency_key = key_text c, rq_order_exchange = exchange,
              rq_metadata = mapping_value p ''metadata'' \<rparr>)))))"

section \<open>Events and the journal\<close>

record emitted =
  em_type :: string
  em_source :: string
  em_command_id :: string
  em_idempotency_key :: "string option"
  em_payload :: pydict

definition event_for :: "string \<Rightarrow> string \<Rightarrow> gateway_command \<Rightarrow> pydict \<Rightarrow> emitted" where
  "event_for event_type source c payload =
     \<lparr> em_type = event_type, em_source = source, em_command_id = g_command_id c, em_idempotency_key = g_idempotency_key c,
       em_payload = payload \<rparr>"

definition command_payload :: "gateway_command \<Rightarrow> string \<Rightarrow> pydict" where
  "command_payload c status =
     [(''command_id'', PStr (g_command_id c)), (''command_type'', PStr (g_command_type c)), (''status'', PStr status)]"

definition make_command_started_event :: "string \<Rightarrow> gateway_command \<Rightarrow> emitted" where
  "make_command_started_event source c = event_for ''command_started'' source c (command_payload c ''started'')"

definition make_command_ack_event :: "string \<Rightarrow> gateway_command \<Rightarrow> string \<Rightarrow> pydict \<Rightarrow> emitted" where
  "make_command_ack_event source c message details =
     event_for ''command_ack'' source c (command_payload c ''acked'' @ [(''message'', PStr message), (''details'', PDict details)])"

definition make_command_failed_event :: "string \<Rightarrow> gateway_command \<Rightarrow> string \<Rightarrow> emitted" where
  "make_command_failed_event source c error_message =
     event_for ''command_failed'' source c (command_payload c ''failed'' @ [(''error_message'', PStr error_message)])"

definition named_payload :: "gateway_command \<Rightarrow> string \<Rightarrow> pydict" where
  "named_payload c status =
     [(''command_id'', PStr (g_command_id c)), (''command_type'', PStr (g_command_type c)),
      (''idempotency_key'', opt_text (g_idempotency_key c)), (''status'', PStr status)]"

definition make_order_pre_ack_event :: "string \<Rightarrow> string \<Rightarrow> gateway_command \<Rightarrow> order_request \<Rightarrow> emitted" where
  "make_order_pre_ack_event source broker_env c rq =
     event_for ''order_pre_ack'' source c (named_payload c ''PRE_ACK'' @
       [(''broker_env'', PStr broker_env), (''account_id'', PStr (rq_account rq)), (''code'', PStr (rq_code rq)),
        (''side'', PStr (rq_side rq)), (''quantity'', PInt (rq_quantity rq)), (''price'', PInt (rq_price rq)),
        (''order_type'', PInt (rq_order_type rq)), (''hoga'', PStr (rq_hoga rq)),
        (''original_order_no'', PStr (rq_original_order_no rq)), (''metadata'', PDict (rq_metadata rq))])"

definition order_broker_unconfirmed_event :: "string \<Rightarrow> gateway_command \<Rightarrow> string \<Rightarrow> emitted" where
  "order_broker_unconfirmed_event source c exc =
     event_for ''order_broker_unconfirmed'' source c (named_payload c ''UNCONFIRMED'' @
       [(''broker_call_attempted'', PBool True), (''broker_acceptance_unknown'', PBool True), (''error_message'', PStr exc),
        (''live_sim_only'', PBool True), (''live_real_allowed'', PBool False)])"

definition round_3 :: "rat \<Rightarrow> rat" where
  "round_3 x = of_int (round_half_even (x * 1000)) / 1000"

definition rate_limited_event :: "string \<Rightarrow> gateway_command \<Rightarrow> rate_limit_decision \<Rightarrow> emitted" where
  "rate_limited_event source c d =
     event_for ''rate_limited'' source c
       [(''command_id'', PStr (g_command_id c)), (''command_type'', PStr (g_command_type c)),
        (''wait_time_sec'', PFloat (Finite (round_3 (rd_wait_time_sec d)))),
        (''next_available_in_sec'', PFloat (Finite (round_3 (rd_wait_time_sec d)))),
        (''reason'', PStr (rd_reason d)), (''status'', PStr ''rate_limited'')]"

record journal_row =
  jr_command_id :: string
  jr_idempotency_key :: string
  jr_command_type :: string
  jr_status :: string
  jr_payload :: pydict
  jr_recorded_at :: instant

datatype journal_line = Row journal_row | Unreadable

fun read_records :: "journal_line list \<Rightarrow> journal_row list" where
  "read_records [] = []"
| "read_records (Row r # ls) = r # read_records ls"
| "read_records (Unreadable # ls) = read_records ls"

definition put_record :: "journal_row list \<Rightarrow> journal_row \<Rightarrow> journal_row list" where
  \<comment> \<open>\<open>latest[record.command_id] = record\<close>: a known key keeps its place\<close>
  "put_record latest r =
     (if jr_command_id r \<in> jr_command_id ` set latest
      then map (\<lambda>x. if jr_command_id x = jr_command_id r then r else x) latest else latest @ [r])"

definition pending_records :: "journal_line list \<Rightarrow> journal_row list" where
  "pending_records ls =
     filter (\<lambda>r. jr_status r \<in> {''PRE_ACK'', ''BROKER_ACCEPTED''}) (foldl put_record [] (read_records ls))"

definition recovery_event :: "string \<Rightarrow> string \<Rightarrow> (instant \<Rightarrow> string) \<Rightarrow> journal_row \<Rightarrow> emitted" where
  "recovery_event source path wire r =
     \<lparr> em_type = ''order_pre_ack'', em_source = source, em_command_id = jr_command_id r,
       em_idempotency_key = (if jr_idempotency_key r = [] then None else Some (jr_idempotency_key r)),
       em_payload = dset ''journal_recorded_at'' (PStr (wire (jr_recorded_at r))) (dset ''journal_path'' (PStr path)
         (dset ''status'' (PStr (''RECOVERED_'' @ jr_status r)) (jr_payload r))) \<rparr>"

definition recovery_events :: "string \<Rightarrow> string \<Rightarrow> (instant \<Rightarrow> string) \<Rightarrow> journal_line list \<Rightarrow> emitted list" where
  "recovery_events source path wire ls = map (recovery_event source path wire) (pending_records ls)"

section \<open>The gateway and its world\<close>

record order_result =
  or_ok :: bool
  or_code :: int
  or_message :: string
  or_order_no :: string

record gateway_config =
  gc_source :: string
  gc_async_events :: bool
  gc_journal :: bool

record world =
  w_server_gubun :: "pyval option"
  w_now :: instant
  w_check_at :: rat
  w_record_at :: rat
  w_core :: "(string + pyval) option"
  w_broker :: "string + order_result"
  w_append_fails :: "string \<Rightarrow> string option"
  w_ack_callback :: "string option"
  w_non_order :: "string + emitted list"

datatype effect =
    Journal_append journal_row
  | Core_post emitted bool
  | Broker_call order_request
  | Async_emit emitted

record gateway =
  gw_governor :: governor
  gw_journal :: "journal_line list"
  gw_effects :: "effect list"

type_synonym 'a step = "gateway \<Rightarrow> (string + 'a) \<times> gateway"

definition sreturn :: "'a \<Rightarrow> 'a step" where
  "sreturn x g = (Inr x, g)"

definition sraise :: "string \<Rightarrow> 'a step" where
  "sraise e g = (Inl e, g)"

definition sbind :: "'a step \<Rightarrow> ('a \<Rightarrow> 'b step) \<Rightarrow> 'b step" where
  "sbind m f g = (case m g of (Inl e, g') \<Rightarrow> (Inl e, g') | (Inr x, g') \<Rightarrow> f x g')"

definition stry :: "'a step \<Rightarrow> (string \<Rightarrow> 'a step) \<Rightarrow> 'a step" where
  \<comment> \<open>\<open>try: m except Exception as exc: h(exc)\<close>\<close>
  "stry m h g = (case m g of (Inl e, g') \<Rightarrow> h e g' | (Inr x, g') \<Rightarrow> (Inr x, g'))"

fun error_text :: "py_error \<Rightarrow> string" where
  "error_text (KeyError s) = s"
| "error_text (ValueError s) = s"
| "error_text (TypeError s) = s"
| "error_text (BrokerValidationError s) = s"
| "error_text (OverflowError s) = s"

definition of_result :: "'a result \<Rightarrow> 'a step" where
  "of_result r = (case r of Inl e \<Rightarrow> sraise (error_text e) | Inr x \<Rightarrow> sreturn x)"

definition perform :: "effect \<Rightarrow> unit step" where
  "perform e g = (Inr (), g\<lparr> gw_effects := gw_effects g @ [e] \<rparr>)"

definition journal_append :: "gateway_config \<Rightarrow> world \<Rightarrow> gateway_command \<Rightarrow> string \<Rightarrow> pydict \<Rightarrow> unit step" where
  \<comment> \<open>\<open>if self.order_journal is not None: self.order_journal._append(...)\<close>\<close>
  "journal_append cfg w c status payload g =
     (if \<not> gc_journal cfg then (Inr (), g)
      else case w_append_fails w status of
             Some e \<Rightarrow> (Inl e, g)
           | None \<Rightarrow>
               (let row = \<lparr> jr_command_id = g_command_id c, jr_idempotency_key = key_text c, jr_command_type = g_command_type c,
                            jr_status = status, jr_payload = payload, jr_recorded_at = w_now w \<rparr> in
                (Inr (), g\<lparr> gw_journal := gw_journal g @ [Row row], gw_effects := gw_effects g @ [Journal_append row] \<rparr>)))"

definition mark_broker_result :: "gateway_config \<Rightarrow> world \<Rightarrow> gateway_command \<Rightarrow> order_result \<Rightarrow> unit step" where
  "mark_broker_result cfg w c r =
     (let status = (if or_ok r then ''BROKER_ACCEPTED'' else ''BROKER_REJECTED'') in
      journal_append cfg w c status (named_payload c status @
        [(''broker_result_code'', PInt (or_code r)), (''broker_message'', PStr (or_message r)), (''broker_order_no'', PStr (or_order_no r))]))"

definition journal_mark_failed :: "gateway_config \<Rightarrow> world \<Rightarrow> gateway_command \<Rightarrow> string \<Rightarrow> unit step" where
  "journal_mark_failed cfg w c msg = journal_append cfg w c ''SEND_FAILED'' (named_payload c ''SEND_FAILED'' @ [(''error_message'', PStr msg)])"

definition mark_unconfirmed :: "gateway_config \<Rightarrow> world \<Rightarrow> gateway_command \<Rightarrow> string \<Rightarrow> unit step" where
  "mark_unconfirmed cfg w c msg =
     journal_append cfg w c ''UNCONFIRMED'' (named_payload c ''UNCONFIRMED'' @
       [(''broker_call_attempted'', PBool True), (''broker_acceptance_unknown'', PBool True), (''error_message'', PStr msg)])"

definition durable_error :: "string + pyval \<Rightarrow> string option" where
  "durable_error answer =
     (case answer of
        Inl e \<Rightarrow> Some (''DURABLE_DB_PRE_ACK_FAILED: '' @ e)
      | Inr (PDict d) \<Rightarrow>
          (if dget d ''accepted'' \<noteq> PBool True then Some ''DURABLE_DB_PRE_ACK_FAILED: Core did not accept pre-ack event''
           else if dget d ''durable_pre_ack_recorded'' \<noteq> PBool True
           then Some ''DURABLE_DB_PRE_ACK_FAILED: Core did not confirm durable pre-ack''
           else None)
      | Inr _ \<Rightarrow> Some ''DURABLE_DB_PRE_ACK_FAILED: Core returned an invalid response'')"

definition record_durable_pre_ack ::
  "gateway_config \<Rightarrow> world \<Rightarrow> gateway_command \<Rightarrow> order_request \<Rightarrow> string \<Rightarrow> string option step" where
  "record_durable_pre_ack cfg w c rq broker_env =
     (let event = make_order_pre_ack_event (gc_source cfg) broker_env c rq in
      sbind (journal_append cfg w c ''PRE_ACK'' (em_payload event)) (\<lambda>_.
        case w_core w of
          None \<Rightarrow> sreturn (Some ''DURABLE_DB_PRE_ACK_FAILED: callback is not configured'')
        | Some answer \<Rightarrow>
            sbind (perform (Core_post event (durable_error answer = None))) (\<lambda>_. sreturn (durable_error answer))))"

section \<open>The order handlers\<close>

definition actual_broker_env :: "repr \<Rightarrow> world \<Rightarrow> string" where
  "actual_broker_env rp w = (case w_server_gubun w of None \<Rightarrow> ''UNKNOWN'' | Some v \<Rightarrow> broker_env_from_server_gubun rp v)"

definition emit_before_blocking_call :: "gateway_config \<Rightarrow> emitted \<Rightarrow> emitted list step" where
  "emit_before_blocking_call cfg e =
     (if gc_async_events cfg then sbind (perform (Async_emit e)) (\<lambda>_. sreturn []) else sreturn [e])"

definition rate_check :: "string \<Rightarrow> world \<Rightarrow> rate_limit_decision step" where
  "rate_check t w g = (case check t (w_check_at w) (gw_governor g) of (d, gv) \<Rightarrow> (Inr d, g\<lparr> gw_governor := gv \<rparr>))"

definition rate_record :: "string \<Rightarrow> world \<Rightarrow> unit step" where
  "rate_record t w g = (Inr (), g\<lparr> gw_governor := record_call t (w_record_at w) (gw_governor g) \<rparr>)"

definition call_broker :: "gateway_config \<Rightarrow> world \<Rightarrow> gateway_command \<Rightarrow> string \<Rightarrow> order_request \<Rightarrow> order_result step" where
  \<comment> \<open>the body of the \<open>try\<close>\<close>
  "call_broker cfg w c t rq =
     sbind (perform (Broker_call rq)) (\<lambda>_.
       case w_broker w of
         Inl e \<Rightarrow> sraise e
       | Inr r \<Rightarrow> sbind (rate_record t w) (\<lambda>_. sbind (mark_broker_result cfg w c r) (\<lambda>_. sreturn r)))"

definition result_details :: "string \<Rightarrow> order_request \<Rightarrow> order_result \<Rightarrow> (string \<times> pyval) list \<Rightarrow> pydict" where
  "result_details env rq r extra =
     [(''accepted'', PBool (or_ok r)), (''broker_result_code'', PStr (int_text (or_code r))), (''broker_message'', PStr (or_message r))]
     @ extra @
     [(''live_sim_only'', PBool True), (''live_real_allowed'', PBool False), (''broker_env'', PStr env), (''account_mode'', PStr env),
      (''server_mode'', PStr env), (''order_exchange'', PStr (rq_order_exchange rq))]"

definition send_outcome :: "gateway_config \<Rightarrow> world \<Rightarrow> gateway_command \<Rightarrow> string \<Rightarrow> order_request \<Rightarrow> order_result \<Rightarrow> emitted step" where
  "send_outcome cfg w c env rq r =
     (if or_ok r \<and> w_ack_callback w \<noteq> None then sraise (the (w_ack_callback w))
      else if or_ok r
      then sreturn (make_command_ack_event (gc_source cfg) c ''Kiwoom LIVE_SIM order accepted''
             (result_details env rq r [] @
               (if or_order_no r = [] then []
                else [(''broker_order_no'', PStr (or_order_no r)), (''broker_order_id'', PStr (or_order_no r))])))
      else sreturn (make_command_failed_event (gc_source cfg) c (''Kiwoom SendOrder rejected: '' @ or_message r)))"

definition cancel_outcome :: "gateway_config \<Rightarrow> world \<Rightarrow> gateway_command \<Rightarrow> string \<Rightarrow> order_request \<Rightarrow> order_result \<Rightarrow> emitted step" where
  "cancel_outcome cfg w c env rq r =
     (if or_ok r
      then sreturn (make_command_ack_event (gc_source cfg) c ''Kiwoom LIVE_SIM cancel accepted''
             (result_details env rq r [(''original_order_no'', PStr (rq_original_order_no rq))]))
      else sreturn (make_command_failed_event (gc_source cfg) c (''Kiwoom cancel_order rejected: '' @ or_message r)))"

definition submit_order ::
  "gateway_config \<Rightarrow> world \<Rightarrow> gateway_command \<Rightarrow> string \<Rightarrow> string \<Rightarrow> order_request
     \<Rightarrow> (order_request \<Rightarrow> order_result \<Rightarrow> emitted step) \<Rightarrow> emitted list step" where
  \<comment> \<open>from the started event on; the two handlers agree but for the request and the outcome\<close>
  "submit_order cfg w c t env rq outcome =
     sbind (emit_before_blocking_call cfg (make_command_started_event (gc_source cfg) c)) (\<lambda>events.
     sbind (record_durable_pre_ack cfg w c rq env) (\<lambda>pre_ack_error.
       case pre_ack_error of
         Some msg \<Rightarrow> sbind (journal_mark_failed cfg w c msg) (\<lambda>_. sreturn (events @ [make_command_failed_event (gc_source cfg) c msg]))
       | None \<Rightarrow>
           sbind (stry (sbind (call_broker cfg w c t rq) (\<lambda>r. sreturn (Inr r)))
                    (\<lambda>exc. sbind (mark_unconfirmed cfg w c exc) (\<lambda>_. sreturn (Inl exc))))
             (\<lambda>placed. case placed of
                Inl exc \<Rightarrow> sreturn (events @ [order_broker_unconfirmed_event (gc_source cfg) c exc])
              | Inr r \<Rightarrow> sbind (outcome rq r) (\<lambda>e. sreturn (events @ [e])))))"

definition handle_order ::
  "repr \<Rightarrow> gateway_config \<Rightarrow> world \<Rightarrow> gateway_command \<Rightarrow> string \<Rightarrow> order_request result
     \<Rightarrow> (order_request \<Rightarrow> order_result \<Rightarrow> emitted step) \<Rightarrow> emitted list step" where
  "handle_order rp cfg w c t request outcome =
     (case validate_command_type_allowed rp t (Some c) of
        Some e \<Rightarrow> sreturn [make_command_failed_event (gc_source cfg) c e]
      | None \<Rightarrow>
          (let env = actual_broker_env rp w in
           if env \<noteq> ''SIMULATION''
           then sreturn [make_command_failed_event (gc_source cfg) c (''Kiwoom '' @ t @ '' requires simulation server, got '' @ env)]
           else sbind (rate_check t w) (\<lambda>d.
             if \<not> rd_allowed d
             then sbind (emit_before_blocking_call cfg (make_command_started_event (gc_source cfg) c)) (\<lambda>events.
                    sreturn (events @ [rate_limited_event (gc_source cfg) c d]))
             else sbind (of_result request) (\<lambda>rq. submit_order cfg w c t env rq outcome))))"

definition handle_send_order :: "repr \<Rightarrow> gateway_config \<Rightarrow> world \<Rightarrow> gateway_command \<Rightarrow> emitted list step" where
  "handle_send_order rp cfg w c =
     handle_order rp cfg w c ''send_order'' (send_request rp c) (send_outcome cfg w c (actual_broker_env rp w))"

definition handle_cancel_order :: "repr \<Rightarrow> gateway_config \<Rightarrow> world \<Rightarrow> gateway_command \<Rightarrow> emitted list step" where
  "handle_cancel_order rp cfg w c =
     handle_order rp cfg w c ''cancel_order'' (cancel_request rp c) (cancel_outcome cfg w c (actual_broker_env rp w))"

definition command_expired :: "(pyval \<Rightarrow> instant option) \<Rightarrow> instant \<Rightarrow> gateway_command \<Rightarrow> bool" where
  \<comment> \<open>\<open>ts\<close> is \<open>parse_timestamp\<close>; \<open>None\<close> where it raises\<close>
  "command_expired ts now c =
     (let p = g_payload c;
          v = py_or (dget p ''_gateway_command_expires_at'') (py_or (dget p ''gateway_command_expires_at'') (dget p ''expires_at'')) in
      if \<not> py_truthy v then False else (case ts v of None \<Rightarrow> False | Some e \<Rightarrow> e \<le> now))"

definition ALLOWED_KIWOOM_COMMAND_TYPES :: "string list" where
  "ALLOWED_KIWOOM_COMMAND_TYPES =
     [''heartbeat_request'', ''broker_snapshot_request'', ''request_tr'', ''register_realtime'', ''remove_realtime'',
      ''load_conditions'', ''send_condition'', ''stop_condition'', ''send_order'', ''cancel_order'']"

definition FORBIDDEN_KIWOOM_COMMAND_TYPES :: "string list" where
  "FORBIDDEN_KIWOOM_COMMAND_TYPES =
     [''modify_order'', ''submit_order'', ''enqueue_order'', ''order_intent'', ''gateway_order'', ''live_order'']"

definition handle_other :: "gateway_config \<Rightarrow> world \<Rightarrow> gateway_command \<Rightarrow> string \<Rightarrow> emitted list step" where
  \<comment> \<open>the rest of \<open>handle\<close>; what \<open>_handle_non_order\<close> returns or raises after calling the client is part of the world\<close>
  "handle_other cfg w c t =
     (let started = make_command_started_event (gc_source cfg) c in
      sbind (rate_check t w) (\<lambda>d.
        if \<not> rd_allowed d then sreturn [started, rate_limited_event (gc_source cfg) c d]
        else case w_non_order w of
               Inl e \<Rightarrow> sreturn [started, make_command_failed_event (gc_source cfg) c e]
             | Inr events \<Rightarrow> sbind (rate_record t w) (\<lambda>_. sreturn (started # events))))"

definition handle_command ::
  "repr \<Rightarrow> (pyval \<Rightarrow> instant option) \<Rightarrow> gateway_config \<Rightarrow> world \<Rightarrow> gateway_command \<Rightarrow> emitted list step" where
  \<comment> \<open>\<open>handle\<close>\<close>
  "handle_command rp ts cfg w c =
     (let t = normalize_command_type (g_command_type c);
          failed = (\<lambda>msg. sreturn [make_command_failed_event (gc_source cfg) c msg]) in
      if t \<in> set FORBIDDEN_KIWOOM_COMMAND_TYPES \<or> py_contains ''order'' t \<and> t \<notin> {''send_order'', ''cancel_order''}
      then failed (g_command_type c @ '' is disabled in the real Kiwoom Gateway adapter'')
      else if t \<notin> set ALLOWED_KIWOOM_COMMAND_TYPES then failed (''unsupported Kiwoom gateway command: '' @ g_command_type c)
      else if t \<in> {''send_order'', ''cancel_order''} \<and> command_expired ts (w_now w) c then failed ''EXPIRED_BEFORE_EXECUTION''
      else if t = ''send_order'' then handle_send_order rp cfg w c
      else if t = ''cancel_order'' then handle_cancel_order rp cfg w c
      else handle_other cfg w c t)"

definition run_command ::
  "repr \<Rightarrow> (pyval \<Rightarrow> instant option) \<Rightarrow> gateway_config \<Rightarrow> world \<Rightarrow> gateway_command \<Rightarrow> gateway \<Rightarrow> emitted list \<times> gateway" where
  \<comment> \<open>one turn of \<open>handle_commands\<close>: an exception becomes a failure event\<close>
  "run_command rp ts cfg w c g =
     (case handle_command rp ts cfg w c g of
        (Inr events, g') \<Rightarrow> (events, g')
      | (Inl e, g') \<Rightarrow> ([make_command_failed_event (gc_source cfg) c e], g'))"


section \<open>Effects of a handler\<close>

lemmas step_defs = sbind_def sreturn_def sraise_def perform_def stry_def of_result_def

definition broker_calls :: "effect list \<Rightarrow> order_request list" where
  "broker_calls es = List.map_filter (\<lambda>e. case e of Broker_call rq \<Rightarrow> Some rq | _ \<Rightarrow> None) es"

definition appended_rows :: "effect list \<Rightarrow> journal_row list" where
  "appended_rows es = List.map_filter (\<lambda>e. case e of Journal_append r \<Rightarrow> Some r | _ \<Rightarrow> None) es"

lemma effect_lists [simp]:
  "broker_calls [] = []" "broker_calls (e # es) = (case e of Broker_call rq \<Rightarrow> rq # broker_calls es | _ \<Rightarrow> broker_calls es)"
  "broker_calls (es @ fs) = broker_calls es @ broker_calls fs"
  "appended_rows [] = []" "appended_rows (e # es) = (case e of Journal_append r \<Rightarrow> r # appended_rows es | _ \<Rightarrow> appended_rows es)"
  "appended_rows (es @ fs) = appended_rows es @ appended_rows fs"
  by (simp_all add: broker_calls_def appended_rows_def List.map_filter_def split: effect.splits)

lemma in_broker_calls: "rq \<in> set (broker_calls es) \<longleftrightarrow> Broker_call rq \<in> set es"
  by (induction es) (auto split: effect.splits)

text \<open>A step adds effects, and the journal grows by the rows it appended.\<close>

definition adds :: "gateway \<Rightarrow> gateway \<Rightarrow> effect list \<Rightarrow> bool" where
  "adds g g' new \<longleftrightarrow> gw_effects g' = gw_effects g @ new \<and> gw_journal g' = gw_journal g @ map Row (appended_rows new)"

lemma adds_none: "gw_effects g' = gw_effects g \<Longrightarrow> gw_journal g' = gw_journal g \<Longrightarrow> adds g g' []"
  by (simp add: adds_def)

lemma adds_trans: "adds g g' a \<Longrightarrow> adds g' g'' b \<Longrightarrow> adds g g'' (a @ b)"
  by (simp add: adds_def)

definition row_for :: "world \<Rightarrow> gateway_command \<Rightarrow> string \<Rightarrow> pydict \<Rightarrow> journal_row" where
  "row_for w c status payload = \<lparr> jr_command_id = g_command_id c, jr_idempotency_key = key_text c, jr_command_type = g_command_type c,
     jr_status = status, jr_payload = payload, jr_recorded_at = w_now w \<rparr>"

lemma journal_append_cases:
  assumes "journal_append cfg w c status payload g = (res, g')"
  obtains (off) "\<not> gc_journal cfg" "res = Inr ()" "g' = g"
    | (fails) e where "gc_journal cfg" "w_append_fails w status = Some e" "res = Inl e" "g' = g"
    | (written) "gc_journal cfg" "w_append_fails w status = None" "res = Inr ()" "adds g g' [Journal_append (row_for w c status payload)]"
  using assms by (auto simp: journal_append_def row_for_def adds_def Let_def split: if_splits option.splits)

text \<open>The effects that prepare a call of the broker, and the only ones that may follow it.\<close>

definition preparation :: "gateway_config \<Rightarrow> world \<Rightarrow> gateway_command \<Rightarrow> string \<Rightarrow> order_request \<Rightarrow> effect list" where
  "preparation cfg w c env rq =
     (if gc_async_events cfg then [Async_emit (make_command_started_event (gc_source cfg) c)] else [])
   @ (if gc_journal cfg then [Journal_append (row_for w c ''PRE_ACK'' (em_payload (make_order_pre_ack_event (gc_source cfg) env c rq)))] else [])
   @ [Core_post (make_order_pre_ack_event (gc_source cfg) env c rq) True]"

definition core_confirmed :: "world \<Rightarrow> bool" where
  \<comment> \<open>Core answered that it took the event and that the pre-acknowledgement is durable\<close>
  "core_confirmed w \<longleftrightarrow> (\<exists>d. w_core w = Some (Inr (PDict d)) \<and> dget d ''accepted'' = PBool True \<and> dget d ''durable_pre_ack_recorded'' = PBool True)"

lemma durable_error_None_iff:
  "durable_error answer = None \<longleftrightarrow> (\<exists>d. answer = Inr (PDict d) \<and> dget d ''accepted'' = PBool True \<and> dget d ''durable_pre_ack_recorded'' = PBool True)"
  by (auto simp: durable_error_def split: sum.splits pyval.splits)

definition closing_row :: "gateway_command \<Rightarrow> world \<Rightarrow> journal_row \<Rightarrow> bool" where
  "closing_row c w r \<longleftrightarrow> jr_command_id r = g_command_id c
     \<and> (case w_broker w of Inl _ \<Rightarrow> jr_status r = ''UNCONFIRMED''
        | Inr x \<Rightarrow> jr_status r \<in> {if or_ok x then ''BROKER_ACCEPTED'' else ''BROKER_REJECTED'', ''UNCONFIRMED''})"

definition closing :: "gateway_command \<Rightarrow> world \<Rightarrow> effect list \<Rightarrow> bool" where
  "closing c w after \<longleftrightarrow> after = [] \<or> (\<exists>r. after = [Journal_append r] \<and> closing_row c w r)"

lemma call_broker_effects:
  assumes "call_broker cfg w c t rq g = (res, g')"
  shows "\<exists>after. adds g g' (Broker_call rq # after) \<and> closing c w after \<and> (\<forall>e. res = Inl e \<longrightarrow> after = [])
     \<and> (\<forall>r. res = Inr r \<longrightarrow> w_broker w = Inr r)
     \<and> (\<forall>e. res = Inl e \<longrightarrow> w_broker w = Inl e \<or> gc_journal cfg \<and> (\<exists>s. w_append_fails w s = Some e))"
  using assms
  by (auto simp: call_broker_def step_defs rate_record_def mark_broker_result_def journal_append_def adds_def closing_def closing_row_def Let_def
      split: sum.splits prod.splits if_splits option.splits)

definition accepted :: "world \<Rightarrow> bool" where
  "accepted w \<longleftrightarrow> (case w_broker w of Inl _ \<Rightarrow> False | Inr r \<Rightarrow> or_ok r)"

definition rejected :: "world \<Rightarrow> bool" where
  "rejected w \<longleftrightarrow> (case w_broker w of Inl _ \<Rightarrow> False | Inr r \<Rightarrow> \<not> or_ok r)"

definition report_type :: "string \<Rightarrow> bool" where
  "report_type ty \<longleftrightarrow> ty = ''command_ack'' \<or> ty = ''command_failed'' \<or> ty = ''order_broker_unconfirmed'' \<or> ty = ''rate_limited''"

definition all_started :: "emitted list \<Rightarrow> bool" where
  "all_started events \<longleftrightarrow> (\<forall>e \<in> set events. em_type e = ''command_started'')"

lemma report_types [simp]:
  "report_type ''command_ack''" "report_type ''command_failed''" "report_type ''order_broker_unconfirmed''" "report_type ''rate_limited''"
  "all_started []"
  by (simp_all add: report_type_def all_started_def)

definition honest :: "gateway_config \<Rightarrow> world \<Rightarrow> bool \<Rightarrow> string + emitted list \<Rightarrow> bool" where
  \<comment> \<open>what a handler that did or did not call the broker reports or raises\<close>
  "honest cfg w called res \<longleftrightarrow>
     (case res of
        Inr events \<Rightarrow> events \<noteq> [] \<and> all_started (butlast events) \<and> report_type (em_type (last events))
          \<and> (em_type (last events) = ''order_broker_unconfirmed'' \<longrightarrow> called)
          \<and> (em_type (last events) = ''command_ack'' \<longrightarrow> called \<and> accepted w)
          \<and> (called \<longrightarrow> (em_type (last events) = ''command_ack'' \<and> accepted w)
                      \<or> (em_type (last events) = ''command_failed'' \<and> rejected w)
                      \<or> (em_type (last events) = ''order_broker_unconfirmed''
                          \<and> ((\<exists>e. w_broker w = Inl e) \<or> gc_journal cfg \<and> (\<exists>s. w_append_fails w s \<noteq> None))))
      | Inl e \<Rightarrow> called \<longrightarrow> gc_journal cfg \<and> w_append_fails w ''UNCONFIRMED'' \<noteq> None \<or> accepted w \<and> w_ack_callback w \<noteq> None)"

definition harmless :: "gateway_command \<Rightarrow> world \<Rightarrow> (order_request \<Rightarrow> order_result \<Rightarrow> emitted step) \<Rightarrow> bool" where
  "harmless c w outcome \<longleftrightarrow>
     (\<forall>rq r g res g'. outcome rq r g = (res, g') \<longrightarrow> g' = g
        \<and> (case res of Inl _ \<Rightarrow> or_ok r \<and> w_ack_callback w \<noteq> None
           | Inr e \<Rightarrow> em_type e = (if or_ok r then ''command_ack'' else ''command_failed'')))"

lemma outcomes_harmless: "harmless c w (send_outcome cfg w c env)" "harmless c w (cancel_outcome cfg w c env)"
  by (auto simp: harmless_def send_outcome_def cancel_outcome_def step_defs make_command_ack_event_def make_command_failed_event_def event_for_def)

definition prepared_call :: "gateway_config \<Rightarrow> world \<Rightarrow> gateway_command \<Rightarrow> string \<Rightarrow> order_request \<Rightarrow> effect list \<Rightarrow> bool" where
  "prepared_call cfg w c env rq new \<longleftrightarrow>
     core_confirmed w \<and> (\<exists>after. new = preparation cfg w c env rq @ Broker_call rq # after \<and> closing c w after)"

lemma closing_no_calls: "closing c w after \<Longrightarrow> broker_calls after = []"
  by (auto simp: closing_def)

lemma started_effects:
  assumes "emit_before_blocking_call cfg e g = (res, g')"
  shows "\<exists>events. res = Inr events \<and> set events \<subseteq> {e} \<and> adds g g' (if gc_async_events cfg then [Async_emit e] else [])"
  using assms by (auto simp: emit_before_blocking_call_def step_defs adds_def split: if_splits)

lemma durable_effects:
  assumes "record_durable_pre_ack cfg w c rq env g = (res, g')"
  shows "(\<exists>new. adds g g' new \<and> broker_calls new = [])
     \<and> (res = Inr None \<longrightarrow> core_confirmed w) \<and> (res = Inr None \<longrightarrow> adds g g'
         ((if gc_journal cfg then [Journal_append (row_for w c ''PRE_ACK'' (em_payload (make_order_pre_ack_event (gc_source cfg) env c rq)))] else [])
          @ [Core_post (make_order_pre_ack_event (gc_source cfg) env c rq) True]))"
  using assms
  by (auto simp: record_durable_pre_ack_def step_defs journal_append_def adds_def row_for_def core_confirmed_def durable_error_None_iff Let_def
      split: if_splits option.splits prod.splits)

lemma append_effects:
  assumes "journal_append cfg w c status payload g = (res, g')"
  shows "\<exists>new. adds g g' new \<and> broker_calls new = [] \<and> (new = [] \<or> new = [Journal_append (row_for w c status payload)])
     \<and> (\<forall>e. res = Inl e \<longrightarrow> gc_journal cfg \<and> w_append_fails w status = Some e)"
  using assms by (cases rule: journal_append_cases) (auto intro!: exI adds_none)

lemma failed_type [simp]: "em_type (make_command_failed_event s c e) = ''command_failed''"
  "em_type (order_broker_unconfirmed_event s c e) = ''order_broker_unconfirmed''"
  "em_type (rate_limited_event s c d) = ''rate_limited''"
  "em_type (make_command_started_event s c) = ''command_started''"
  by (simp_all add: make_command_started_event_def command_payload_def make_command_failed_event_def order_broker_unconfirmed_event_def rate_limited_event_def event_for_def)

lemma submit_order_effects:
  assumes "submit_order cfg w c t env rq outcome g = (res, g')" "harmless c w outcome"
  shows "\<exists>new. adds g g' new \<and> (broker_calls new = [] \<or> prepared_call cfg w c env rq new) \<and> honest cfg w (broker_calls new \<noteq> []) res"
proof -
  obtain r1 g1 where 1: "emit_before_blocking_call cfg (make_command_started_event (gc_source cfg) c) g = (r1, g1)" by force
  define n1 where "n1 = (if gc_async_events cfg then [Async_emit (make_command_started_event (gc_source cfg) c)] else [])"
  obtain events where ev: "r1 = Inr events" and a1: "adds g g1 n1" and "set events \<subseteq> {make_command_started_event (gc_source cfg) c}"
    using started_effects [OF 1] unfolding n1_def by blast
  then have st: "all_started events" by (auto simp: all_started_def)
  have n1: "broker_calls n1 = []" by (simp add: n1_def)
  obtain r2 g2 where 2: "record_durable_pre_ack cfg w c rq env g1 = (r2, g2)" by force
  show ?thesis
  proof (cases "r2 = Inr None")
    case False
    obtain n2 where n2: "adds g1 g2 n2" "broker_calls n2 = []" using durable_effects [OF 2] by blast
    show ?thesis
    proof (cases r2)
      case (Inl e)
      then have "res = Inl e" "g' = g2" using assms(1) 1 2 ev by (simp_all add: submit_order_def sbind_def)
      then show ?thesis using adds_trans [OF a1 n2(1)] n1 n2(2) by (intro exI [of _ "n1 @ n2"]) (simp add: honest_def)
    next
      case (Inr x)
      then obtain msg where msg: "r2 = Inr (Some msg)" using False by (cases x) auto
      obtain r3 g3 where 3: "journal_mark_failed cfg w c msg g2 = (r3, g3)" by force
      obtain n3 where n3: "adds g2 g3 n3" "broker_calls n3 = []"
        using append_effects [OF 3 [unfolded journal_mark_failed_def]] by blast
      have "g' = g3" "res = (case r3 of Inl e \<Rightarrow> Inl e | Inr _ \<Rightarrow> Inr (events @ [make_command_failed_event (gc_source cfg) c msg]))"
        using assms(1) 1 2 3 ev msg by (auto simp: submit_order_def step_defs split: sum.splits)
      then show ?thesis
        using adds_trans [OF adds_trans [OF a1 n2(1)] n3(1)] n1 n2(2) n3(2) st
        by (intro exI [of _ "(n1 @ n2) @ n3"]) (auto simp: honest_def split: sum.splits)
    qed
  next
    case True
    have a2: "adds g1 g2 ((if gc_journal cfg then [Journal_append (row_for w c ''PRE_ACK'' (em_payload (make_order_pre_ack_event (gc_source cfg) env c rq)))] else [])
          @ [Core_post (make_order_pre_ack_event (gc_source cfg) env c rq) True])" and core: "core_confirmed w"
      using durable_effects [OF 2] True by blast+
    obtain r3 g3 where 3: "call_broker cfg w c t rq g2 = (r3, g3)" by force
    obtain after where a3: "adds g2 g3 (Broker_call rq # after)" "closing c w after" "\<forall>e. r3 = Inl e \<longrightarrow> after = []"
        "\<forall>r. r3 = Inr r \<longrightarrow> w_broker w = Inr r"
        "\<forall>e. r3 = Inl e \<longrightarrow> w_broker w = Inl e \<or> gc_journal cfg \<and> (\<exists>s. w_append_fails w s = Some e)"
      using call_broker_effects [OF 3] by blast
    note pre = adds_trans [OF a1 a2]
    have prep: "adds g g3 (preparation cfg w c env rq @ Broker_call rq # after)"
      using adds_trans [OF pre a3(1)] by (simp add: preparation_def n1_def)
    show ?thesis
    proof (cases r3)
      case (Inr r)
      obtain r4 g4 where 4: "outcome rq r g3 = (r4, g4)" by force
      have "g4 = g3" and out: "case r4 of Inl _ \<Rightarrow> or_ok r \<and> w_ack_callback w \<noteq> None
           | Inr e \<Rightarrow> em_type e = (if or_ok r then ''command_ack'' else ''command_failed'')"
        using assms(2) 4 unfolding harmless_def by blast+
      then have "g' = g3" "res = (case r4 of Inl e \<Rightarrow> Inl e | Inr e \<Rightarrow> Inr (events @ [e]))"
        using assms(1) 1 2 3 4 ev True Inr by (auto simp: submit_order_def step_defs split: sum.splits)
      then show ?thesis
        using prep a3(2,4) Inr out st core
        by (intro exI [of _ "preparation cfg w c env rq @ Broker_call rq # after"])
           (auto simp: prepared_call_def honest_def accepted_def rejected_def split: sum.splits if_splits)
    next
      case (Inl exc)
      obtain r4 g4 where 4: "mark_unconfirmed cfg w c exc g3 = (r4, g4)" by force
      obtain n4 where n4: "adds g3 g4 n4" "broker_calls n4 = []"
          "n4 = [] \<or> (\<exists>pl. n4 = [Journal_append (row_for w c ''UNCONFIRMED'' pl)])"
          "\<forall>e. r4 = Inl e \<longrightarrow> gc_journal cfg \<and> w_append_fails w ''UNCONFIRMED'' = Some e"
        using append_effects [OF 4 [unfolded mark_unconfirmed_def]] by blast
      have res: "g' = g4" "res = (case r4 of Inl e \<Rightarrow> Inl e | Inr _ \<Rightarrow> Inr (events @ [order_broker_unconfirmed_event (gc_source cfg) c exc]))"
        using assms(1) 1 2 3 4 ev True Inl by (auto simp: submit_order_def step_defs split: sum.splits)
      have "closing c w n4" using n4(3) by (auto simp: closing_def closing_row_def row_for_def split: sum.splits)
      moreover have "adds g g' (preparation cfg w c env rq @ Broker_call rq # n4)"
        using adds_trans [OF prep n4(1)] a3(3) Inl res(1) by simp
      ultimately show ?thesis
        using a3(5) n4(4) Inl res(2) st core
        by (intro exI [of _ "preparation cfg w c env rq @ Broker_call rq # n4"])
           (auto simp: prepared_call_def honest_def split: sum.splits)
    qed
  qed
qed

definition order_guards :: "repr \<Rightarrow> world \<Rightarrow> gateway_command \<Rightarrow> string \<Rightarrow> gateway \<Rightarrow> bool" where
  "order_guards rp w c t g \<longleftrightarrow>
     validate_command_type_allowed rp t (Some c) = None \<and> actual_broker_env rp w = ''SIMULATION''
   \<and> rd_allowed (fst (check t (w_check_at w) (gw_governor g)))"

lemma handle_order_effects:
  assumes "handle_order rp cfg w c t request outcome g = (res, g')" "harmless c w outcome"
  shows "\<exists>new. adds g g' new \<and> honest cfg w (broker_calls new \<noteq> []) res
     \<and> (broker_calls new = [] \<or> order_guards rp w c t g \<and> (\<exists>rq. request = Inr rq \<and> prepared_call cfg w c ''SIMULATION'' rq new))"
proof (cases "order_guards rp w c t g")
  case False
  show ?thesis
  proof (cases "validate_command_type_allowed rp t (Some c) = None \<and> actual_broker_env rp w = ''SIMULATION''")
    case True
    obtain d gv where d: "check t (w_check_at w) (gw_governor g) = (d, gv)" by force
    with False True have "\<not> rd_allowed d" by (simp add: order_guards_def)
    then show ?thesis
      using assms(1) True d
      by (intro exI [of _ "if gc_async_events cfg then [Async_emit (make_command_started_event (gc_source cfg) c)] else []"])
         (auto simp: handle_order_def rate_check_def step_defs emit_before_blocking_call_def adds_def honest_def all_started_def split: if_splits)
  next
    case False
    then show ?thesis
      using assms(1) by (intro exI [of _ "[]"]) (auto simp: handle_order_def step_defs adds_def honest_def Let_def split: if_splits option.splits)
  qed
next
  case True
  obtain d gv where d: "check t (w_check_at w) (gw_governor g) = (d, gv)" by force
  let ?g1 = "g\<lparr> gw_governor := gv \<rparr>"
  have run: "handle_order rp cfg w c t request outcome g = sbind (of_result request) (\<lambda>rq. submit_order cfg w c t ''SIMULATION'' rq outcome) ?g1"
    using True d by (simp add: handle_order_def order_guards_def rate_check_def sbind_def)
  show ?thesis
  proof (cases request)
    case (Inl e)
    then show ?thesis using run assms(1) by (intro exI [of _ "[]"]) (auto simp: step_defs adds_def honest_def)
  next
    case (Inr rq)
    then have "submit_order cfg w c t ''SIMULATION'' rq outcome ?g1 = (res, g')" using run assms(1) by (simp add: step_defs)
    from submit_order_effects [OF this assms(2)] show ?thesis using True Inr by (auto simp: adds_def)
  qed
qed

lemma request_command_id: "send_request rp c = Inr rq \<Longrightarrow> rq_command_id rq = g_command_id c" "cancel_request rp c = Inr rq \<Longrightarrow> rq_command_id rq = g_command_id c"
  by (auto simp: send_request_def cancel_request_def Let_def rbind_Inr_iff)

definition may_call :: "repr \<Rightarrow> (pyval \<Rightarrow> instant option) \<Rightarrow> world \<Rightarrow> gateway_command \<Rightarrow> gateway \<Rightarrow> bool" where
  "may_call rp ts w c g \<longleftrightarrow>
     (let t = normalize_command_type (g_command_type c) in
      t \<in> {''send_order'', ''cancel_order''} \<and> order_guards rp w c t g \<and> \<not> command_expired ts (w_now w) c)"

lemma order_types_pass:
  "''send_order'' \<notin> set FORBIDDEN_KIWOOM_COMMAND_TYPES" "''cancel_order'' \<notin> set FORBIDDEN_KIWOOM_COMMAND_TYPES"
  "''send_order'' \<in> set ALLOWED_KIWOOM_COMMAND_TYPES" "''cancel_order'' \<in> set ALLOWED_KIWOOM_COMMAND_TYPES"
  by code_simp+

lemma handle_command_cases:
  obtains (send) "normalize_command_type (g_command_type c) = ''send_order''"
      "handle_command rp ts cfg w c g = handle_send_order rp cfg w c g" "\<not> command_expired ts (w_now w) c"
    | (cancel) "normalize_command_type (g_command_type c) = ''cancel_order''"
      "handle_command rp ts cfg w c g = handle_cancel_order rp cfg w c g" "\<not> command_expired ts (w_now w) c"
    | (other) "normalize_command_type (g_command_type c) \<notin> {''send_order'', ''cancel_order''}"
      "handle_command rp ts cfg w c g = handle_other cfg w c (normalize_command_type (g_command_type c)) g"
    | (fails) msg where "handle_command rp ts cfg w c g = (Inr [make_command_failed_event (gc_source cfg) c msg], g)"
proof -
  define t where "t = normalize_command_type (g_command_type c)"
  note run = handle_command_def [of rp ts cfg w c, unfolded Let_def sreturn_def, folded t_def]
  consider "t = ''send_order''" | "t = ''cancel_order''" | "t \<notin> {''send_order'', ''cancel_order''}" by blast
  then show thesis
  proof cases
    case 1
    have "handle_command rp ts cfg w c g = (if command_expired ts (w_now w) c
        then (Inr [make_command_failed_event (gc_source cfg) c ''EXPIRED_BEFORE_EXECUTION''], g) else handle_send_order rp cfg w c g)"
      unfolding run 1 using order_types_pass by simp
    then show ?thesis using send fails 1 by (cases "command_expired ts (w_now w) c") (simp_all add: t_def)
  next
    case 2
    have "handle_command rp ts cfg w c g = (if command_expired ts (w_now w) c
        then (Inr [make_command_failed_event (gc_source cfg) c ''EXPIRED_BEFORE_EXECUTION''], g) else handle_cancel_order rp cfg w c g)"
      unfolding run 2 using order_types_pass by simp
    then show ?thesis using cancel fails 2 by (cases "command_expired ts (w_now w) c") (simp_all add: t_def)
  next
    case 3
    then have "(\<exists>msg. handle_command rp ts cfg w c g = (Inr [make_command_failed_event (gc_source cfg) c msg], g))
       \<or> handle_command rp ts cfg w c g = handle_other cfg w c t g"
      unfolding run by simp blast
    then show ?thesis using other fails 3 unfolding t_def by blast
  qed
qed

lemma handle_command_effects:
  assumes "handle_command rp ts cfg w c g = (res, g')"
  shows "\<exists>new. adds g g' new \<and> (normalize_command_type (g_command_type c) \<in> {''send_order'', ''cancel_order''} \<longrightarrow> honest cfg w (broker_calls new \<noteq> []) res)
     \<and> (broker_calls new = [] \<or> may_call rp ts w c g \<and> (\<exists>rq. rq_command_id rq = g_command_id c \<and> prepared_call cfg w c ''SIMULATION'' rq new))"
proof -
  show ?thesis
  proof (cases rule: handle_command_cases [of c rp ts cfg w g])
    case send
    obtain new where new: "adds g g' new" "honest cfg w (broker_calls new \<noteq> []) res"
      and cases: "broker_calls new = [] \<or> order_guards rp w c ''send_order'' g \<and> (\<exists>rq. send_request rp c = Inr rq \<and> prepared_call cfg w c ''SIMULATION'' rq new)"
      using handle_order_effects [OF assms [unfolded send(2) handle_send_order_def] outcomes_harmless(1)] by blast
    have "broker_calls new = [] \<or> may_call rp ts w c g \<and> (\<exists>rq. rq_command_id rq = g_command_id c \<and> prepared_call cfg w c ''SIMULATION'' rq new)"
      using cases request_command_id(1) [of rp c] send(3) unfolding may_call_def Let_def send(1) by blast
    then show ?thesis using new by blast
  next
    case cancel
    obtain new where new: "adds g g' new" "honest cfg w (broker_calls new \<noteq> []) res"
      and cases: "broker_calls new = [] \<or> order_guards rp w c ''cancel_order'' g \<and> (\<exists>rq. cancel_request rp c = Inr rq \<and> prepared_call cfg w c ''SIMULATION'' rq new)"
      using handle_order_effects [OF assms [unfolded cancel(2) handle_cancel_order_def] outcomes_harmless(2)] by blast
    have "broker_calls new = [] \<or> may_call rp ts w c g \<and> (\<exists>rq. rq_command_id rq = g_command_id c \<and> prepared_call cfg w c ''SIMULATION'' rq new)"
      using cases request_command_id(2) [of rp c] cancel(3) unfolding may_call_def Let_def cancel(1) by blast
    then show ?thesis using new by blast
  next
    case other
    then have "adds g g' []"
      using assms by (auto simp: handle_other_def rate_check_def rate_record_def step_defs adds_def Let_def split: prod.splits if_splits sum.splits)
    then show ?thesis using other(1) by (intro exI [of _ "[]"]) simp
  next
    case fails
    then show ?thesis using assms by (intro exI [of _ "[]"]) (auto simp: adds_def honest_def)
  qed
qed

section \<open>Runs and crashes\<close>

fun run_all :: "repr \<Rightarrow> (pyval \<Rightarrow> instant option) \<Rightarrow> gateway_config \<Rightarrow> (world \<times> gateway_command) list \<Rightarrow> gateway \<Rightarrow> gateway" where
  "run_all rp ts cfg [] g = g"
| "run_all rp ts cfg ((w, c) # jobs) g = run_all rp ts cfg jobs (snd (run_command rp ts cfg w c g))"

lemma run_command_effects:
  assumes "run_command rp ts cfg w c g = (events, g')"
  shows "\<exists>new. adds g g' new
     \<and> (broker_calls new = [] \<or> may_call rp ts w c g \<and> (\<exists>rq. rq_command_id rq = g_command_id c \<and> prepared_call cfg w c ''SIMULATION'' rq new))"
proof -
  obtain res h where h: "handle_command rp ts cfg w c g = (res, h)" by force
  then have "g' = h" using assms by (auto simp: run_command_def split: sum.splits)
  then show ?thesis using handle_command_effects [OF h] by blast
qed

text \<open>Every call is preceded by a journal record of its command, with no other record in between.\<close>

definition journaled :: "effect list \<Rightarrow> bool" where
  "journaled es \<longleftrightarrow>
     (\<forall>xs rq ys. es = xs @ Broker_call rq # ys \<longrightarrow>
        (\<exists>p row q. xs = p @ Journal_append row # q \<and> appended_rows q = [] \<and> jr_command_id row = rq_command_id rq \<and> jr_status row = ''PRE_ACK''))"

lemma journaled_append:
  assumes "journaled a" "journaled b"
  shows "journaled (a @ b)"
  unfolding journaled_def
proof (intro allI impI)
  fix xs rq ys
  assume "a @ b = xs @ Broker_call rq # ys"
  then consider us where "a = xs @ Broker_call rq # us" | us where "xs = a @ us" "b = us @ Broker_call rq # ys"
    by (auto simp: append_eq_append_conv2 append_eq_Cons_conv)
  then show "\<exists>p row q. xs = p @ Journal_append row # q \<and> appended_rows q = [] \<and> jr_command_id row = rq_command_id rq \<and> jr_status row = ''PRE_ACK''"
  proof cases
    case 1
    then show ?thesis using assms(1) unfolding journaled_def by blast
  next
    case 2
    then obtain p row q where "us = p @ Journal_append row # q" "appended_rows q = []" "jr_command_id row = rq_command_id rq" "jr_status row = ''PRE_ACK''"
      using assms(2) unfolding journaled_def by blast
    then show ?thesis using 2 by (intro exI [of _ "a @ p"] exI [of _ row] exI [of _ q]) simp
  qed
qed

lemma no_calls_journaled: "broker_calls es = [] \<Longrightarrow> journaled es"
  by (auto simp: journaled_def)

lemma prepared_journaled:
  assumes "prepared_call cfg w c env rq new" "gc_journal cfg" "rq_command_id rq = g_command_id c"
  shows "journaled new"
  unfolding journaled_def
proof (intro allI impI)
  fix xs rq' ys
  assume split: "new = xs @ Broker_call rq' # ys"
  obtain after where new: "new = preparation cfg w c env rq @ Broker_call rq # after" and "broker_calls after = []"
    using assms(1) closing_no_calls unfolding prepared_call_def by blast
  moreover have prep: "broker_calls (preparation cfg w c env rq) = []" by (simp add: preparation_def)
  ultimately have "Broker_call rq' \<notin> set (preparation cfg w c env rq)" "Broker_call rq' \<notin> set after" "Broker_call rq \<notin> set (preparation cfg w c env rq)"
    by (metis in_broker_calls empty_iff list.set(1))+
  then have "xs = preparation cfg w c env rq \<and> rq' = rq"
    using split new by (auto simp: append_eq_append_conv2 append_eq_Cons_conv Cons_eq_append_conv)
  then show "\<exists>p row q. xs = p @ Journal_append row # q \<and> appended_rows q = [] \<and> jr_command_id row = rq_command_id rq' \<and> jr_status row = ''PRE_ACK''"
    using assms(2,3)
    by (intro exI [of _ "if gc_async_events cfg then [Async_emit (make_command_started_event (gc_source cfg) c)] else []"]
          exI [of _ "row_for w c ''PRE_ACK'' (em_payload (make_order_pre_ack_event (gc_source cfg) env c rq))"]
          exI [of _ "[Core_post (make_order_pre_ack_event (gc_source cfg) env c rq) True]"])
       (simp add: preparation_def row_for_def)
qed

lemma run_all_effects:
  assumes "gc_journal cfg"
  shows "\<exists>new. adds g (run_all rp ts cfg jobs g) new \<and> journaled new"
proof (induction jobs arbitrary: g)
  case Nil
  then show ?case by (intro exI [of _ "[]"]) (simp add: adds_def no_calls_journaled)
next
  case (Cons job jobs)
  obtain w c where job: "job = (w, c)" by force
  obtain events g' where r: "run_command rp ts cfg w c g = (events, g')" by force
  obtain a where a: "adds g g' a" "journaled a"
    using run_command_effects [OF r] prepared_journaled [OF _ assms] no_calls_journaled by blast
  obtain b where b: "adds g' (run_all rp ts cfg jobs g') b" "journaled b" using Cons.IH by blast
  show ?case using adds_trans [OF a(1) b(1)] journaled_append [OF a(2) b(2)] job r by auto
qed

lemma put_record_in: "r \<in> set (put_record L r)"
  by (auto simp: put_record_def image_iff)

lemma put_record_keeps: "r \<in> set L \<Longrightarrow> jr_command_id x \<noteq> jr_command_id r \<Longrightarrow> r \<in> set (put_record L x)"
  by (force simp: put_record_def)

lemma put_records_keep: "r \<in> set L \<Longrightarrow> (\<And>x. x \<in> set rs \<Longrightarrow> jr_command_id x \<noteq> jr_command_id r) \<Longrightarrow> r \<in> set (foldl put_record L rs)"
  by (induction rs arbitrary: L) (auto intro: put_record_keeps)

lemma read_records_append: "read_records (ls @ ms) = read_records ls @ read_records ms"
  by (induction ls rule: read_records.induct) auto

lemma read_rows: "read_records (map Row rs) = rs"
  by (induction rs) auto

lemma last_record_pending:
  assumes "jr_status r \<in> {''PRE_ACK'', ''BROKER_ACCEPTED''}" "\<And>x. x \<in> set rs' \<Longrightarrow> jr_command_id x \<noteq> jr_command_id r"
  shows "r \<in> set (pending_records (ls @ map Row (rs @ r # rs')))"
  using assms put_records_keep [OF put_record_in assms(2)]
  by (simp add: pending_records_def read_records_append read_rows)

section \<open>Properties\<close>

text \<open>
  C4: When the broker is called. One turn of the command loop calls the broker at most once, and then only for an
  order command that passes the policy, on a simulation server, not expired and allowed by the rate limits; and
  immediately before the call, in this order, the order was written to the journal as \<open>PRE_ACK\<close> (if there is a
  journal) and the pre-acknowledgement of exactly this request was posted to Core, which answered that it accepted it and that
  it is durable.
\<close>

theorem broker_called_only_when_prepared:
  assumes "run_command rp ts cfg w c g = (events, g')"
  shows "\<exists>new. gw_effects g' = gw_effects g @ new
     \<and> (broker_calls new = [] \<or>
        (\<exists>rq before after. broker_calls new = [rq] \<and> rq_command_id rq = g_command_id c \<and> may_call rp ts w c g
          \<and> (\<exists>answer. w_core w = Some (Inr (PDict answer)) \<and> dget answer ''accepted'' = PBool True \<and> dget answer ''durable_pre_ack_recorded'' = PBool True)
          \<and> new = before @ [Core_post (make_order_pre_ack_event (gc_source cfg) ''SIMULATION'' c rq) True, Broker_call rq] @ after
          \<and> (gc_journal cfg \<longrightarrow> (\<exists>row. last before = Journal_append row \<and> before \<noteq> [] \<and> jr_status row = ''PRE_ACK''
               \<and> jr_command_id row = g_command_id c \<and> jr_idempotency_key row = key_text c))))"
proof -
  obtain new where new: "adds g g' new" and cases: "broker_calls new = [] \<or> may_call rp ts w c g
      \<and> (\<exists>rq. rq_command_id rq = g_command_id c \<and> prepared_call cfg w c ''SIMULATION'' rq new)"
    using run_command_effects [OF assms] by blast
  show ?thesis
  proof (cases "broker_calls new = []")
    case True
    then show ?thesis using new by (auto simp: adds_def)
  next
    case False
    then obtain rq after where rq: "may_call rp ts w c g" "rq_command_id rq = g_command_id c" "closing c w after"
        "new = preparation cfg w c ''SIMULATION'' rq @ Broker_call rq # after" "core_confirmed w"
      using cases unfolding prepared_call_def by blast
    define before where "before = butlast (preparation cfg w c ''SIMULATION'' rq)"
    have prep: "preparation cfg w c ''SIMULATION'' rq = before @ [Core_post (make_order_pre_ack_event (gc_source cfg) ''SIMULATION'' c rq) True]"
      by (simp add: before_def preparation_def butlast_append)
    have row: "gc_journal cfg \<longrightarrow> (\<exists>row. last before = Journal_append row \<and> before \<noteq> [] \<and> jr_status row = ''PRE_ACK''
               \<and> jr_command_id row = g_command_id c \<and> jr_idempotency_key row = key_text c)"
      by (simp add: before_def preparation_def butlast_append row_for_def)
    have "broker_calls (preparation cfg w c ''SIMULATION'' rq) = []" by (simp add: preparation_def)
    then have "broker_calls new = [rq]" using rq(4) closing_no_calls [OF rq(3)] by simp
    then show ?thesis
      using new rq row prep
      by (intro exI [of _ new] conjI disjI2 exI [of _ rq] exI [of _ before] exI [of _ after]) (simp_all add: adds_def core_confirmed_def)
  qed
qed

definition sample_cfg :: gateway_config where
  "sample_cfg = \<lparr> gc_source = ''kiwoom_gateway'', gc_async_events = True, gc_journal = True \<rparr>"

definition sample_live_order :: gateway_command where
  "sample_live_order = sample_buy\<lparr> g_payload := [(''code'', PStr ''005930''), (''quantity'', PInt 1), (''price'', PInt 70000)] @ g_payload sample_buy \<rparr>"

definition sample_world :: world where
  "sample_world = \<lparr> w_server_gubun = Some (PStr ''1''), w_now = 10, w_check_at = 5, w_record_at = 6,
     w_core = Some (Inr (PDict [(''accepted'', PBool True), (''durable_pre_ack_recorded'', PBool True)])),
     w_broker = Inr \<lparr> or_ok = True, or_code = 0, or_message = ''ok'', or_order_no = ''77'' \<rparr>,
     w_append_fails = (\<lambda>_. None), w_ack_callback = None, w_non_order = Inr [] \<rparr>"

definition sample_gateway :: gateway where
  "sample_gateway = \<lparr> gw_governor = make_governor 5 900 [] [], gw_journal = [], gw_effects = [] \<rparr>"

text \<open>The undisturbed course of an order, used for the examples.\<close>

lemma accepted_order_effects:
  assumes "order_guards rp w c t g" "request = Inr rq" "w_core w = Some answer" "durable_error answer = None" "w_append_fails w = (\<lambda>_. None)"
    and "w_broker w = Inr r" "outcome rq r = sreturn e"
  shows "\<exists>events g' after. handle_order rp cfg w c t request outcome g = (Inr (events @ [e]), g')
     \<and> gw_effects g' = gw_effects g @ preparation cfg w c ''SIMULATION'' rq @ Broker_call rq # after"
proof -
  obtain d gv where d: "check t (w_check_at w) (gw_governor g) = (d, gv)" by force
  show ?thesis
    using assms d
    by (auto simp: handle_order_def order_guards_def rate_check_def submit_order_def record_durable_pre_ack_def emit_before_blocking_call_def
        journal_append_def call_broker_def rate_record_def mark_broker_result_def step_defs preparation_def row_for_def Let_def)
qed

lemma sample_guards:
  "order_guards (\<lambda>_. []) sample_world sample_live_order ''send_order'' sample_gateway"
  "normalize_command_type (g_command_type sample_live_order) = ''send_order''"
  unfolding order_guards_def by (intro conjI) code_simp+

lemma sample_handle:
  obtains rq events e g' after where
    "handle_command (\<lambda>_. []) (\<lambda>_. None) sample_cfg sample_world sample_live_order sample_gateway = (Inr (events @ [e]), g')"
    and "em_type e = ''command_ack''" "gw_effects g' = gw_effects sample_gateway @ preparation sample_cfg sample_world sample_live_order ''SIMULATION'' rq @ Broker_call rq # after"
proof -
  have "\<not> isl (send_request (\<lambda>_. []) sample_live_order)" by code_simp
  then obtain rq where rq: "send_request (\<lambda>_. []) sample_live_order = Inr rq" by (cases "send_request (\<lambda>_. []) sample_live_order") auto
  have run: "handle_command (\<lambda>_. []) (\<lambda>_. None) sample_cfg sample_world sample_live_order sample_gateway
      = handle_send_order (\<lambda>_. []) sample_cfg sample_world sample_live_order sample_gateway"
    unfolding handle_command_def Let_def sample_guards(2) by (simp add: order_types_pass command_expired_def Let_def)
  define r where "r = \<lparr> or_ok = True, or_code = 0, or_message = ''ok'', or_order_no = ''77'' \<rparr>"
  have w: "w_broker sample_world = Inr r" "w_ack_callback sample_world = None" "w_append_fails sample_world = (\<lambda>_. None)" "or_ok r"
    by (simp_all add: sample_world_def r_def)
  obtain answer where a: "w_core sample_world = Some answer" "durable_error answer = None"
    by (simp add: sample_world_def durable_error_def)
  obtain e where e: "send_outcome sample_cfg sample_world sample_live_order (actual_broker_env (\<lambda>_. []) sample_world) rq r = sreturn e" "em_type e = ''command_ack''"
    by (simp add: send_outcome_def w make_command_ack_event_def event_for_def)
  from accepted_order_effects [where outcome = "send_outcome sample_cfg sample_world sample_live_order (actual_broker_env (\<lambda>_. []) sample_world)",
      OF sample_guards(1) rq a w(3) w(1) e(1), of sample_cfg] show thesis
    unfolding handle_send_order_def [symmetric] run [symmetric] using that e(2) by blast
qed

lemma sample_gateway_fresh: "gw_effects sample_gateway = []" "gw_journal sample_gateway = []" "gc_journal sample_cfg"
  by (simp_all add: sample_gateway_def sample_cfg_def)

theorem broker_called_only_when_prepared_witness:
  "may_call (\<lambda>_. []) (\<lambda>_. None) sample_world sample_live_order sample_gateway"
proof -
  obtain rq events e g' after where
    h: "handle_command (\<lambda>_. []) (\<lambda>_. None) sample_cfg sample_world sample_live_order sample_gateway = (Inr (events @ [e]), g')"
      "gw_effects g' = gw_effects sample_gateway @ preparation sample_cfg sample_world sample_live_order ''SIMULATION'' rq @ Broker_call rq # after"
    by (rule sample_handle)
  then have "run_command (\<lambda>_. []) (\<lambda>_. None) sample_cfg sample_world sample_live_order sample_gateway = (events @ [e], g')"
    by (simp add: run_command_def)
  from broker_called_only_when_prepared [OF this] show ?thesis using h(2) by force
qed

text \<open>
  C5: What the gateway reports of an order. A handler that returns reports an acknowledgement only of a call the
  broker accepted, a failure after a call only if the broker rejected it, and otherwise that the outcome is
  unknown, which happens if the call raised or the journal could not record the result. So after a call the command loop
  reports \<open>command_failed\<close> of an order the broker did not reject only if the handler raised, and it raises after a
  call only when the journal cannot even record \<open>UNCONFIRMED\<close> or the acknowledgement callback raises.
\<close>

theorem order_report_is_honest:
  assumes "handle_command rp ts cfg w c g = (res, g')"
    and "normalize_command_type (g_command_type c) \<in> {''send_order'', ''cancel_order''}"
  shows "\<exists>new. gw_effects g' = gw_effects g @ new \<and>
     (case res of
        Inr events \<Rightarrow>
          (em_type (last events) = ''command_ack'' \<longrightarrow> broker_calls new \<noteq> [] \<and> accepted w)
        \<and> (broker_calls new \<noteq> [] \<and> em_type (last events) = ''command_failed'' \<longrightarrow> rejected w)
        \<and> (broker_calls new \<noteq> [] \<longrightarrow> em_type (last events) \<in> {''command_ack'', ''command_failed'', ''order_broker_unconfirmed''})
        \<and> (broker_calls new \<noteq> [] \<and> em_type (last events) = ''order_broker_unconfirmed'' \<longrightarrow>
             (\<exists>e. w_broker w = Inl e) \<or> gc_journal cfg \<and> (\<exists>s. w_append_fails w s \<noteq> None))
      | Inl e \<Rightarrow> broker_calls new \<noteq> [] \<longrightarrow>
          gc_journal cfg \<and> w_append_fails w ''UNCONFIRMED'' \<noteq> None \<or> accepted w \<and> w_ack_callback w \<noteq> None)"
proof -
  obtain new where "adds g g' new" "honest cfg w (broker_calls new \<noteq> []) res"
    using handle_command_effects [OF assms(1)] assms(2) by blast
  then show ?thesis by (intro exI [of _ new]) (auto simp: adds_def honest_def split: sum.splits)
qed

theorem order_report_is_honest_witness: "accepted sample_world"
proof -
  obtain rq events e g' after where
    h: "handle_command (\<lambda>_. []) (\<lambda>_. None) sample_cfg sample_world sample_live_order sample_gateway = (Inr (events @ [e]), g')"
      "em_type e = ''command_ack''"
    by (rule sample_handle)
  have "normalize_command_type (g_command_type sample_live_order) \<in> {''send_order'', ''cancel_order''}" by (simp add: sample_guards(2))
  from order_report_is_honest [OF h(1) this] show ?thesis using h(2) by auto
qed

text \<open>
  C20: A crash loses no order. Take any run of the command loop with a journal and stop it anywhere after a call of
  the broker, before another record of that command is written: the journal left behind, to which the run has only added
  lines (its garbage collection has not run), has, read at the next start, a pending \<open>PRE_ACK\<close> record of the command, for
  which a recovery event is emitted.
\<close>

theorem crash_leaves_pending_record:
  assumes "gc_journal cfg" "gw_effects (run_all rp ts cfg jobs g) = gw_effects g @ xs @ Broker_call rq # ys @ zs"
    and "\<forall>r \<in> set (appended_rows ys). jr_command_id r \<noteq> rq_command_id rq"
  shows "\<exists>e \<in> set (recovery_events source path wire (gw_journal g @ map Row (appended_rows (xs @ Broker_call rq # ys)))).
     em_type e = ''order_pre_ack'' \<and> em_command_id e = rq_command_id rq \<and> dget (em_payload e) ''status'' = PStr ''RECOVERED_PRE_ACK''"
proof -
  obtain new where new: "adds g (run_all rp ts cfg jobs g) new" "journaled new" using run_all_effects [OF assms(1)] by blast
  then have "new = xs @ Broker_call rq # (ys @ zs)" using assms(2) by (simp add: adds_def)
  then obtain p row q where row: "xs = p @ Journal_append row # q" "appended_rows q = []" "jr_command_id row = rq_command_id rq" "jr_status row = ''PRE_ACK''"
    using new(2) unfolding journaled_def by blast
  have "row \<in> set (pending_records (gw_journal g @ map Row (appended_rows p @ row # appended_rows ys)))"
    by (rule last_record_pending) (use row assms(3) in auto)
  then have "recovery_event source path wire row \<in> set (recovery_events source path wire (gw_journal g @ map Row (appended_rows (xs @ Broker_call rq # ys))))"
    using row(1,2) by (simp add: recovery_events_def)
  moreover have "em_type (recovery_event source path wire row) = ''order_pre_ack''" "em_command_id (recovery_event source path wire row) = rq_command_id rq"
    "dget (em_payload (recovery_event source path wire row)) ''status'' = PStr ''RECOVERED_PRE_ACK''"
    using row(3,4) by (simp_all add: recovery_event_def)
  ultimately show ?thesis by blast
qed

theorem crash_leaves_pending_record_witness:
  "\<exists>g' xs rq zs. run_all (\<lambda>_. []) (\<lambda>_. None) sample_cfg [(sample_world, sample_live_order)] sample_gateway = g'
     \<and> gw_effects g' = xs @ Broker_call rq # zs \<and> recovery_events ''g'' ''p'' (\<lambda>_. []) (map Row (appended_rows xs)) \<noteq> []"
proof -
  obtain rq events e g' after where
    h: "handle_command (\<lambda>_. []) (\<lambda>_. None) sample_cfg sample_world sample_live_order sample_gateway = (Inr (events @ [e]), g')"
      "gw_effects g' = gw_effects sample_gateway @ preparation sample_cfg sample_world sample_live_order ''SIMULATION'' rq @ Broker_call rq # after"
    by (rule sample_handle)
  then have run: "run_all (\<lambda>_. []) (\<lambda>_. None) sample_cfg [(sample_world, sample_live_order)] sample_gateway = g'"
    by (simp add: run_command_def)
  have "gw_effects (run_all (\<lambda>_. []) (\<lambda>_. None) sample_cfg [(sample_world, sample_live_order)] sample_gateway) =
      gw_effects sample_gateway @ preparation sample_cfg sample_world sample_live_order ''SIMULATION'' rq @ Broker_call rq # [] @ after"
    using h(2) run by simp
  from crash_leaves_pending_record [OF sample_gateway_fresh(3) this, of "''g''" "''p''" "\<lambda>_. []"]
  have "recovery_events ''g'' ''p'' (\<lambda>_. []) (map Row (appended_rows (preparation sample_cfg sample_world sample_live_order ''SIMULATION'' rq))) \<noteq> []"
    by (force simp: sample_gateway_fresh)
  then show ?thesis using h(2) run by (auto simp: sample_gateway_fresh)
qed

end
