(* ===== verification/Order_Report.thy ===== *)
theory Order_Report
  imports Order_Boundary Order_Gateway
begin

text \<open>
  From the gateway to the ledger: what a turn of the command loop tells Core (\<open>Order_Gateway\<close>), recorded in the
  ledger of what the broker may hold (\<open>Order_Boundary\<close>). The events may arrive in any order, more than once, or not at all; only what
  Core answered to be durable is certain to be recorded. The result is that the ledger never claims less
  than the broker may hold, and claims an acceptance only if the broker accepted.
\<close>

section \<open>What Core is told\<close>

fun posted :: "effect \<Rightarrow> emitted list" where
  "posted (Core_post e confirmed) = [e]"
| "posted (Async_emit e) = [e]"
| "posted _ = []"

fun answered_post :: "effect \<Rightarrow> emitted list" where
  "answered_post (Core_post e ok) = [e]"
| "answered_post _ = []"

type_synonym told_event = "string \<times> pydict"

definition event_data :: "emitted \<Rightarrow> told_event" where
  "event_data e = (em_type e, em_payload e)"

definition delivered :: "effect list \<Rightarrow> emitted list \<Rightarrow> told_event set" where
  "delivered new events = event_data ` (set (concat (map posted new)) \<union> set events)"

definition answered :: "effect list \<Rightarrow> told_event set" where
  \<comment> \<open>the posts that waited for the answer of Core\<close>
  "answered new = event_data ` set (concat (map answered_post new))"

definition told :: "broker_event list \<Rightarrow> told_event set" where
  "told evs = (\<lambda>ev. (e_type ev, e_payload ev)) ` set evs"

definition proposal :: "repr \<Rightarrow> told_event \<Rightarrow> boundary_state option" where
  "proposal rp d = state_for_event rp (fst d) (snd d)"

lemma proposals_told: "set (proposals rp evs) = {p. \<exists>d \<in> told evs. proposal rp d = Some p}"
  by (auto simp: set_proposals told_def proposal_def)

lemma event_types_normal:
  "py_lower (py_strip ''command_started'') = ''command_started''" "py_lower (py_strip ''command_ack'') = ''command_ack''"
  "py_lower (py_strip ''command_failed'') = ''command_failed''" "py_lower (py_strip ''rate_limited'') = ''rate_limited''"
  "py_lower (py_strip ''order_broker_unconfirmed'') = ''order_broker_unconfirmed''" "py_lower (py_strip ''order_pre_ack'') = ''order_pre_ack''"
  by code_simp+

lemma pre_ack_status: "\<not> py_contains ''BROKER_ACCEPTED'' (py_upper ''PRE_ACK'')"
  by code_simp

lemma proposal_of_type:
  "em_type e = ''command_started'' \<Longrightarrow> proposal rp (event_data e) = Some BS_GATEWAY_STARTED"
  "em_type e = ''command_ack'' \<Longrightarrow> proposal rp (event_data e) = Some BS_BROKER_ACCEPTED"
  "em_type e = ''order_broker_unconfirmed'' \<Longrightarrow> proposal rp (event_data e) = Some BS_UNCONFIRMED"
  "em_type e = ''command_failed'' \<Longrightarrow> proposal rp (event_data e) = None"
  "em_type e = ''rate_limited'' \<Longrightarrow> proposal rp (event_data e) = None"
  by (simp_all add: proposal_def event_data_def state_for_event_def Let_def event_types_normal)

lemma proposal_pre_ack: "proposal rp (event_data (make_order_pre_ack_event source env c rq)) = Some BS_PRE_ACK_RECORDED"
proof -
  have "dget (named_payload c ''PRE_ACK'' @ rest) ''status'' = PStr ''PRE_ACK''" for rest
    by (simp add: named_payload_def)
  then show ?thesis
    by (simp add: proposal_def event_data_def state_for_event_def Let_def make_order_pre_ack_event_def event_for_def event_types_normal
        py_or_def pre_ack_status)
qed

section \<open>What the effects of a turn can be\<close>

text \<open>\<open>only P m\<close>: whatever happens in \<open>m\<close>, the effects it adds satisfy \<open>P\<close>. The rules follow the combinators of the handlers.\<close>

definition only :: "(effect \<Rightarrow> bool) \<Rightarrow> 'a step \<Rightarrow> bool" where
  "only P m \<longleftrightarrow> (\<forall>g. \<exists>new. gw_effects (snd (m g)) = gw_effects g @ new \<and> (\<forall>e \<in> set new. P e))"

named_theorems only_rules \<open>which effects a step can add\<close>

lemma only_bind [only_rules]:
  assumes "only P m" "\<And>x. only P (f x)"
  shows "only P (sbind m f)"
  unfolding only_def
proof
  fix g
  obtain r h where h: "m g = (r, h)" by force
  obtain a where a: "gw_effects h = gw_effects g @ a" "\<forall>e \<in> set a. P e"
    using assms(1) h unfolding only_def by (metis snd_conv)
  show "\<exists>new. gw_effects (snd (sbind m f g)) = gw_effects g @ new \<and> (\<forall>e \<in> set new. P e)"
  proof (cases r)
    case (Inl e)
    then show ?thesis using h a by (intro exI [of _ a]) (simp add: sbind_def)
  next
    case (Inr x)
    obtain b where "gw_effects (snd (f x h)) = gw_effects h @ b" "\<forall>e \<in> set b. P e"
      using assms(2) unfolding only_def by blast
    then show ?thesis using h a Inr by (intro exI [of _ "a @ b"]) (auto simp: sbind_def)
  qed
qed

lemma only_try [only_rules]:
  assumes "only P m" "\<And>x. only P (f x)"
  shows "only P (stry m f)"
  unfolding only_def
proof
  fix g
  obtain r h where h: "m g = (r, h)" by force
  obtain a where a: "gw_effects h = gw_effects g @ a" "\<forall>e \<in> set a. P e"
    using assms(1) h unfolding only_def by (metis snd_conv)
  show "\<exists>new. gw_effects (snd (stry m f g)) = gw_effects g @ new \<and> (\<forall>e \<in> set new. P e)"
  proof (cases r)
    case (Inr e)
    then show ?thesis using h a by (intro exI [of _ a]) (simp add: stry_def)
  next
    case (Inl x)
    obtain b where "gw_effects (snd (f x h)) = gw_effects h @ b" "\<forall>e \<in> set b. P e"
      using assms(2) unfolding only_def by blast
    then show ?thesis using h a Inl by (intro exI [of _ "a @ b"]) (auto simp: stry_def)
  qed
qed

lemma only_quiet [only_rules]: "only P (sreturn x)" "only P (sraise e)" "only P (rate_check t w)" "only P (rate_record t w)"
  "only P (of_result r)"
  by (auto simp: only_def step_defs rate_check_def rate_record_def split: prod.splits sum.splits)

lemma only_perform [only_rules]: "P e \<Longrightarrow> only P (perform e)"
  by (auto simp: only_def perform_def)

lemma only_append [only_rules]:
  assumes "\<And>row. P (Journal_append row)"
  shows "only P (journal_append cfg w c status payload)"
  using assms by (auto simp: only_def journal_append_def Let_def split: option.splits)

text \<open>The effects a turn can have.\<close>

definition plain_effect :: "gateway_config \<Rightarrow> gateway_command \<Rightarrow> effect \<Rightarrow> bool" where
  "plain_effect cfg c e \<longleftrightarrow>
     (case e of
        Core_post ev ok \<Rightarrow> \<exists>env rq. ev = make_order_pre_ack_event (gc_source cfg) env c rq
      | Async_emit ev \<Rightarrow> em_type ev = ''command_started''
      | _ \<Rightarrow> True)"

lemma plain_simps [simp]:
  "plain_effect cfg c (Journal_append row)" "plain_effect cfg c (Broker_call rq)"
  "plain_effect cfg c (Async_emit (make_command_started_event s c))"
  "plain_effect cfg c (Core_post (make_order_pre_ack_event (gc_source cfg) env c rq) ok)"
  by (auto simp: plain_effect_def)

lemma only_outcome: "only P (send_outcome cfg w c env rq r)" "only P (cancel_outcome cfg w c env rq r)"
  by (auto simp: send_outcome_def cancel_outcome_def intro: only_rules)

lemma only_case [only_rules]:
  "(\<And>x. only P (f x)) \<Longrightarrow> (\<And>x. only P (h x)) \<Longrightarrow> only P (case s of Inl x \<Rightarrow> f x | Inr x \<Rightarrow> h x)"
  "only P m \<Longrightarrow> (\<And>x. only P (f x)) \<Longrightarrow> only P (case oo of None \<Rightarrow> m | Some x \<Rightarrow> f x)"
  "only P m \<Longrightarrow> only P n \<Longrightarrow> only P (if b then m else n)"
  by (simp_all split: sum.splits option.splits)

lemma only_submit:
  assumes "\<And>rq r. only (plain_effect cfg c) (outcome rq r)"
  shows "only (plain_effect cfg c) (submit_order cfg w c t env rq outcome)"
  unfolding submit_order_def emit_before_blocking_call_def record_durable_pre_ack_def Let_def journal_mark_failed_def mark_unconfirmed_def
    call_broker_def mark_broker_result_def
  by (intro only_rules assms plain_simps)

lemma only_handle_order:
  assumes "\<And>rq r. only (plain_effect cfg c) (outcome rq r)"
  shows "only (plain_effect cfg c) (handle_order rp cfg w c t request outcome)"
  unfolding handle_order_def emit_before_blocking_call_def Let_def
  by (intro only_rules only_submit assms plain_simps)

lemma only_handle_command: "only (plain_effect cfg c) (handle_command rp ts cfg w c)"
  unfolding handle_command_def handle_send_order_def handle_cancel_order_def handle_other_def Let_def
  by (intro only_rules only_handle_order only_outcome plain_simps)

section \<open>What a turn tells\<close>

definition outcome_unknown :: "gateway_config \<Rightarrow> world \<Rightarrow> bool" where
  "outcome_unknown cfg w \<longleftrightarrow> (\<exists>e. w_broker w = Inl e) \<or> gc_journal cfg \<and> (\<exists>s. w_append_fails w s \<noteq> None)"

definition harmless_news :: "repr \<Rightarrow> told_event \<Rightarrow> bool" where
  "harmless_news rp d \<longleftrightarrow> (\<forall>p. proposal rp d = Some p \<longrightarrow> p \<le> BS_PRE_ACK_RECORDED)"

lemma plain_effect_news:
  assumes "plain_effect cfg c e" "ev \<in> set (posted e)"
  shows "harmless_news rp (event_data ev)"
  using assms
  by (cases e) (auto simp: plain_effect_def harmless_news_def proposal_of_type(1) proposal_pre_ack less_eq_boundary_state_def)

lemma last_news:
  assumes "honest cfg w called (Inr events)" "ev \<in> set events"
  shows "harmless_news rp (event_data ev)
     \<or> proposal rp (event_data ev) = Some BS_BROKER_ACCEPTED \<and> called \<and> accepted w
     \<or> proposal rp (event_data ev) = Some BS_UNCONFIRMED \<and> called \<and> outcome_unknown cfg w"
proof (cases "em_type ev = ''command_started''")
  case True
  then show ?thesis by (simp add: harmless_news_def proposal_of_type(1) less_eq_boundary_state_def)
next
  case False
  have h: "events \<noteq> []" "all_started (butlast events)" "report_type (em_type (last events))"
    "em_type (last events) = ''order_broker_unconfirmed'' \<longrightarrow> called"
    "em_type (last events) = ''command_ack'' \<longrightarrow> called \<and> accepted w"
    "called \<longrightarrow> (em_type (last events) = ''command_ack'' \<and> accepted w)
        \<or> (em_type (last events) = ''command_failed'' \<and> rejected w)
        \<or> (em_type (last events) = ''order_broker_unconfirmed'' \<and> outcome_unknown cfg w)"
    using assms(1) by (simp_all add: honest_def outcome_unknown_def)
  have "ev = last events"
    using False h(1,2) assms(2) unfolding all_started_def
    by (metis append_butlast_last_id rotate1.simps(2) set_ConsD set_rotate1)
  then show ?thesis
    using h(3-6) unfolding report_type_def harmless_news_def by (elim disjE) (simp_all add: proposal_of_type)
qed

lemma final_news:
  assumes "honest cfg w True (Inr events)"
  shows "(accepted w \<and> \<not> outcome_unknown cfg w \<longrightarrow> (\<exists>ev \<in> set events. proposal rp (event_data ev) = Some BS_BROKER_ACCEPTED))
     \<and> ((\<exists>e. w_broker w = Inl e) \<longrightarrow> (\<exists>ev \<in> set events. proposal rp (event_data ev) = Some BS_UNCONFIRMED))"
proof -
  have h: "last events \<in> set events"
    "(em_type (last events) = ''command_ack'' \<and> accepted w)
        \<or> (em_type (last events) = ''command_failed'' \<and> rejected w)
        \<or> (em_type (last events) = ''order_broker_unconfirmed'' \<and> outcome_unknown cfg w)"
    using assms by (simp_all add: honest_def outcome_unknown_def)
  have "accepted w \<Longrightarrow> \<not> rejected w" "w_broker w = Inl e \<Longrightarrow> \<not> accepted w \<and> \<not> rejected w" for e
    by (auto simp: accepted_def rejected_def split: sum.splits)
  then show ?thesis using h proposal_of_type(2,3) by metis
qed

lemma run_told:
  assumes "run_command rp ts cfg w c g = (events, g')" "normalize_command_type (g_command_type c) \<in> {''send_order'', ''cancel_order''}"
    and "gw_effects g' = gw_effects g @ new"
  defines "called \<equiv> broker_calls new \<noteq> []"
  shows "(\<forall>d \<in> delivered new events. harmless_news rp d
        \<or> proposal rp d = Some BS_BROKER_ACCEPTED \<and> called \<and> accepted w
        \<or> proposal rp d = Some BS_UNCONFIRMED \<and> called \<and> outcome_unknown cfg w)
     \<and> (called \<longrightarrow> core_confirmed w \<and> (\<exists>d \<in> answered new. proposal rp d = Some BS_PRE_ACK_RECORDED))
     \<and> (called \<and> accepted w \<and> \<not> outcome_unknown cfg w \<and> w_ack_callback w = None \<longrightarrow>
          (\<exists>d \<in> delivered new events. proposal rp d = Some BS_BROKER_ACCEPTED))
     \<and> (called \<and> (\<exists>e. w_broker w = Inl e) \<and> w_append_fails w ''UNCONFIRMED'' = None \<longrightarrow>
          (\<exists>d \<in> delivered new events. proposal rp d = Some BS_UNCONFIRMED))"
proof -
  obtain res h where h: "handle_command rp ts cfg w c g = (res, h)" by force
  then have g': "g' = h" "events = (case res of Inl e \<Rightarrow> [make_command_failed_event (gc_source cfg) c e] | Inr es \<Rightarrow> es)"
    using assms(1) by (auto simp: run_command_def split: sum.splits)
  obtain n where n: "adds g h n" "honest cfg w (broker_calls n \<noteq> []) res"
    "broker_calls n = [] \<or> (\<exists>rq. prepared_call cfg w c ''SIMULATION'' rq n)"
    using handle_command_effects [OF h] assms(2) by blast
  then have "n = new" using assms(3) g'(1) by (simp add: adds_def)
  note n = n [unfolded this, folded called_def]
  have "\<exists>n. gw_effects h = gw_effects g @ n \<and> (\<forall>e \<in> set n. plain_effect cfg c e)"
    using only_handle_command [of cfg c rp ts w] h unfolding only_def by (metis snd_conv)
  then have plain: "\<forall>e \<in> set new. plain_effect cfg c e" using assms(3) g'(1) by auto
  have conf: "core_confirmed w \<and> (\<exists>d \<in> answered new. proposal rp d = Some BS_PRE_ACK_RECORDED)" if call: called
  proof -
    obtain rq after where "new = preparation cfg w c ''SIMULATION'' rq @ Broker_call rq # after" and core: "core_confirmed w"
      using n(3) call unfolding called_def prepared_call_def by blast
    then have "event_data (make_order_pre_ack_event (gc_source cfg) ''SIMULATION'' c rq) \<in> answered new"
      by (simp add: answered_def preparation_def)
    then show ?thesis using proposal_pre_ack core by metis
  qed
  have posts: "harmless_news rp (event_data ev)" if "ev \<in> set (concat (map posted new))" for ev
    using that plain plain_effect_news by fastforce
  show ?thesis
  proof (cases res)
    case (Inl e)
    then have ev: "events = [make_command_failed_event (gc_source cfg) c e]" using g'(2) by simp
    have "harmless_news rp (event_data (make_command_failed_event (gc_source cfg) c e))"
      by (simp add: harmless_news_def proposal_of_type)
    then have all: "\<forall>d \<in> delivered new events. harmless_news rp d" using posts by (auto simp: delivered_def ev)
    have "called \<longrightarrow> gc_journal cfg \<and> w_append_fails w ''UNCONFIRMED'' \<noteq> None \<or> accepted w \<and> w_ack_callback w \<noteq> None"
      using n(2) Inl by (simp add: honest_def)
    moreover have "w_broker w = Inl x \<Longrightarrow> \<not> accepted w" for x by (simp add: accepted_def)
    ultimately show ?thesis using all conf by (auto simp: outcome_unknown_def)
  next
    case (Inr es)
    then have ho: "honest cfg w called (Inr events)" using n(2) g'(2) by simp
    have evs: "event_data ev \<in> delivered new events" if "ev \<in> set events" for ev using that by (simp add: delivered_def)
    have all: "\<forall>d \<in> delivered new events. harmless_news rp d
        \<or> proposal rp d = Some BS_BROKER_ACCEPTED \<and> called \<and> accepted w
        \<or> proposal rp d = Some BS_UNCONFIRMED \<and> called \<and> outcome_unknown cfg w"
      using posts last_news [OF ho] unfolding delivered_def by blast
    have fin: "called \<Longrightarrow> honest cfg w True (Inr events)" using ho by simp
    show ?thesis using all conf final_news [OF fin] evs by blast
  qed
qed

section \<open>Property\<close>

lemma replay_order_free:
  assumes "boundaries_ok t" "key_free rp cmd t" "is_order_command_type (r_command_type cmd)" "st = boundary_state_at (r_command_id cmd) t"
  shows "\<exists>u. replay_events rp cmd evs t = Inr u \<and> boundary_state_at (r_command_id cmd) u =
     (let S = set_option st \<union> set (proposals rp evs) in if S = {} then None else Some (Max S))"
  using replay_events_state [OF assms(1-3), of evs] assms(4) by (auto simp: foldl_resolve_Max Let_def)

lemma state_within:
  fixes S :: "boundary_state set"
  assumes "finite S" "\<forall>p \<in> S. p \<le> BS_PRE_ACK_RECORDED \<or> p = BS_BROKER_ACCEPTED \<and> A \<or> p = BS_UNCONFIRMED \<and> B" "S \<noteq> {}"
  shows "(Max S = BS_BROKER_ACCEPTED \<longrightarrow> A) \<and> (Max S = BS_UNCONFIRMED \<longrightarrow> B) \<and> Max S \<noteq> BS_CHEJAN_CONFIRMED
     \<and> (BS_BROKER_ACCEPTED \<in> S \<longrightarrow> Max S = BS_BROKER_ACCEPTED)
     \<and> (BS_UNCONFIRMED \<in> S \<and> \<not> A \<longrightarrow> Max S = BS_UNCONFIRMED)"
proof -
  have m: "Max S \<in> S" "\<And>p. p \<in> S \<Longrightarrow> p \<le> Max S" using assms by simp_all
  then show ?thesis using bspec [OF assms(2) m(1)] m(2) [of BS_BROKER_ACCEPTED] m(2) [of BS_UNCONFIRMED]
    by (cases "Max S") (auto simp: less_eq_boundary_state_def)
qed

lemma claimed_ledger:
  assumes "(ledger_step rp)\<^sup>*\<^sup>* [] t0" "boundary_state_at (r_command_id cmd) t0 = None" "record_order_command_claim rp cmd now t0 = Inr (Some st, t)"
  shows "boundaries_ok t \<and> key_free rp cmd t \<and> is_order_command_type (r_command_type cmd) \<and> boundary_state_at (r_command_id cmd) t = Some BS_CLAIMED"
proof -
  have t0: "boundaries_ok t0" using assms(1)
  proof (induction rule: rtranclp_induct)
    case base
    show ?case by (simp add: boundaries_ok_def keys_exclusive_def)
  next
    case (step t u)
    then show ?case by (blast intro: ledger_step_ok)
  qed
  then have ok: "boundaries_ok t" by (rule ledger_step_ok [OF ledger_step.claim [OF assms(3)]])
  obtain st' where order: "is_order_command_type (r_command_type cmd)"
    and up: "upsert_boundary rp cmd BS_CLAIMED (r_payload cmd) None now False t0 = Inr (st', t)"
    using assms(3) by (auto simp: record_order_command_claim_def rbind_Inr_iff split: if_splits)
  have none: "lookup_by b_command_id (r_command_id cmd) t0 = None" using assms(2) by (auto simp: boundary_state_at_def)
  have free: "key_free rp cmd t0" using up none by (auto simp: upsert_boundary_def key_free_def Let_def split: if_splits)
  have new: "t = t0 @ [excluded_row rp None cmd BS_CLAIMED (r_payload cmd) None now False]"
    using up none by (auto simp: upsert_boundary_def Let_def split: if_splits)
  have "lookup_by b_command_id (r_command_id cmd) t = Some (excluded_row rp None cmd BS_CLAIMED (r_payload cmd) None now False)"
    using none by (simp add: new lookup_by_append excluded_row_def Let_def)
  then have "boundary_state_at (r_command_id cmd) t = Some BS_CLAIMED" by (simp add: boundary_state_at_def excluded_row_def resolve_state_def Let_def)
  then show ?thesis using ok order key_free_upsert [OF free up] by blast
qed

text \<open>
  C1: The ledger agrees with the broker. Let Core claim an order command for the first time, in any reachable ledger, let the gateway
  run one turn of the command loop for it, and let Core record any of the events of that turn, in any order and any number of
  times, provided that it records what it answers to be accepted and durable. Recording succeeds, and: if the broker was called,
  Core had so answered and the ledger says at least \<open>PRE_ACK_RECORDED\<close>; it says \<open>BROKER_ACCEPTED\<close> only if the broker
  accepted the order, \<open>UNCONFIRMED\<close> only if the outcome of the call is unknown, and never that an execution was confirmed. If
  every event arrives, an accepted order whose result was written down ends in \<open>BROKER_ACCEPTED\<close> and a call that raised in
  \<open>UNCONFIRMED\<close>.
\<close>

theorem ledger_agrees_with_broker:
  assumes "(ledger_step rp)\<^sup>*\<^sup>* [] t0" "boundary_state_at (r_command_id cmd) t0 = None" "record_order_command_claim rp cmd now t0 = Inr (Some st, t)"
    and "run_command rp ts cfg w c g = (events, g')" "normalize_command_type (g_command_type c) \<in> {''send_order'', ''cancel_order''}"
    and "gw_effects g' = gw_effects g @ new" "r_command_id cmd = g_command_id c"
    and "core_confirmed w \<Longrightarrow> answered new \<subseteq> told evs" "told evs \<subseteq> delivered new events"
  shows "\<exists>u s. replay_events rp cmd evs t = Inr u \<and> boundary_state_at (g_command_id c) u = Some s
     \<and> (broker_calls new \<noteq> [] \<longrightarrow> core_confirmed w \<and> BS_PRE_ACK_RECORDED \<le> s)
     \<and> (s = BS_BROKER_ACCEPTED \<longrightarrow> broker_calls new \<noteq> [] \<and> accepted w)
     \<and> (s = BS_UNCONFIRMED \<longrightarrow> broker_calls new \<noteq> [] \<and> outcome_unknown cfg w) \<and> s \<noteq> BS_CHEJAN_CONFIRMED
     \<and> (told evs = delivered new events \<and> broker_calls new \<noteq> [] \<longrightarrow>
          (accepted w \<and> \<not> outcome_unknown cfg w \<and> w_ack_callback w = None \<longrightarrow> s = BS_BROKER_ACCEPTED)
        \<and> ((\<exists>e. w_broker w = Inl e) \<and> w_append_fails w ''UNCONFIRMED'' = None \<longrightarrow> s = BS_UNCONFIRMED))"
proof -
  define S where "S = insert BS_CLAIMED (set (proposals rp evs))"
  define called where "called \<longleftrightarrow> broker_calls new \<noteq> []"
  obtain u where u: "replay_events rp cmd evs t = Inr u" "boundary_state_at (g_command_id c) u = Some (Max S)"
    using claimed_ledger [OF assms(1-3)] replay_order_free [of t rp cmd _ evs] assms(7) by (auto simp: S_def Let_def)
  have S: "finite S" "S \<noteq> {}" by (simp_all add: S_def)
  note news = run_told [OF assms(4-6), folded called_def]
  have in_S: "p \<in> S" if "d \<in> told evs" "proposal rp d = Some p" for d p
    using that by (auto simp: S_def proposals_told)
  have "p \<le> BS_PRE_ACK_RECORDED \<or> p = BS_BROKER_ACCEPTED \<and> called \<and> accepted w \<or> p = BS_UNCONFIRMED \<and> called \<and> outcome_unknown cfg w"
    if p: "p \<in> S" for p
  proof (cases "p = BS_CLAIMED")
    case False
    then obtain d where d: "d \<in> delivered new events" "proposal rp d = Some p" using p assms(9) by (auto simp: S_def proposals_told)
    show ?thesis using bspec [OF conjunct1 [OF news] d(1)] d(2) by (auto simp: harmless_news_def)
  qed (simp add: less_eq_boundary_state_def)
  then have "\<forall>p \<in> S. p \<le> BS_PRE_ACK_RECORDED \<or> p = BS_BROKER_ACCEPTED \<and> (called \<and> accepted w) \<or> p = BS_UNCONFIRMED \<and> (called \<and> outcome_unknown cfg w)"
    by blast
  note state = state_within [OF S(1) this S(2)]
  have pre: "called \<longrightarrow> core_confirmed w \<and> BS_PRE_ACK_RECORDED \<le> Max S" using news assms(8) in_S S(1) by (metis Max_ge subsetD)
  have acc: "told evs = delivered new events \<and> called \<and> accepted w \<and> \<not> outcome_unknown cfg w \<and> w_ack_callback w = None
      \<longrightarrow> BS_BROKER_ACCEPTED \<in> S" using news in_S by metis
  have unc: "told evs = delivered new events \<and> called \<and> (\<exists>e. w_broker w = Inl e) \<and> w_append_fails w ''UNCONFIRMED'' = None
      \<longrightarrow> BS_UNCONFIRMED \<in> S \<and> \<not> accepted w" using news in_S by (auto simp: accepted_def)
  have final: "told evs = delivered new events \<and> called \<longrightarrow>
          (accepted w \<and> \<not> outcome_unknown cfg w \<and> w_ack_callback w = None \<longrightarrow> Max S = BS_BROKER_ACCEPTED)
        \<and> ((\<exists>e. w_broker w = Inl e) \<and> w_append_fails w ''UNCONFIRMED'' = None \<longrightarrow> Max S = BS_UNCONFIRMED)"
    using state acc unc by blast
  show ?thesis
    unfolding called_def [symmetric]
    by (intro exI [of _ u] exI [of _ "Max S"] conjI) (use u state pre final in \<open>blast+\<close>)
qed

lemma answered_delivered: "answered new \<subseteq> delivered new events"
proof -
  have "set (answered_post e) \<subseteq> set (posted e)" for e by (cases e) simp_all
  then show ?thesis by (fastforce simp: answered_def delivered_def)
qed

definition as_broker_event :: "emitted \<Rightarrow> broker_event" where
  "as_broker_event e = \<lparr> e_type = em_type e, e_payload = em_payload e, e_id = None, e_occurred_at = 6 \<rparr>"

lemma told_all: "told (map as_broker_event (concat (map posted new) @ events)) = delivered new events"
  unfolding told_def delivered_def list.set_map image_image set_append
  by (simp add: as_broker_event_def event_data_def)

theorem ledger_agrees_with_broker_witness:
  "\<exists>evs t u. record_order_command_claim (\<lambda>_. []) sample_order 5 [] = Inr (Some BS_CLAIMED, t)
     \<and> replay_events (\<lambda>_. []) sample_order evs t = Inr u \<and> boundary_state_at ''c1'' u = Some BS_BROKER_ACCEPTED"
proof -
  obtain rq events e g' after where
    h: "handle_command (\<lambda>_. []) (\<lambda>_. None) sample_cfg sample_world sample_live_order sample_gateway = (Inr (events @ [e]), g')"
      "gw_effects g' = gw_effects sample_gateway @ preparation sample_cfg sample_world sample_live_order ''SIMULATION'' rq @ Broker_call rq # after"
    by (rule sample_handle)
  have run: "run_command (\<lambda>_. []) (\<lambda>_. None) sample_cfg sample_world sample_live_order sample_gateway = (events @ [e], g')"
    using h(1) by (simp add: run_command_def)
  obtain t where t: "record_order_command_claim (\<lambda>_. []) sample_order 5 [] = Inr (Some BS_CLAIMED, t)" using sample_claim by blast
  have none: "boundary_state_at (r_command_id sample_order) [] = None" by (simp add: boundary_state_at_def)
  have ids: "r_command_id sample_order = g_command_id sample_live_order" "g_command_id sample_live_order = ''c1''"
    by (simp_all add: sample_order_def sample_live_order_def sample_buy_def)
  have w: "accepted sample_world" "\<not> outcome_unknown sample_cfg sample_world" "w_ack_callback sample_world = None"
    by (simp_all add: accepted_def outcome_unknown_def sample_world_def)
  define new where "new = preparation sample_cfg sample_world sample_live_order ''SIMULATION'' rq @ Broker_call rq # after"
  have called: "broker_calls new \<noteq> []" by (simp add: new_def)
  have order: "normalize_command_type (g_command_type sample_live_order) \<in> {''send_order'', ''cancel_order''}" by (simp add: sample_guards(2))
  define evs where "evs = map as_broker_event (concat (map posted new) @ events @ [e])"
  have evs: "answered new \<subseteq> told evs" "told evs \<subseteq> delivered new (events @ [e])" "told evs = delivered new (events @ [e])"
    unfolding evs_def by (simp_all only: told_all answered_delivered order_refl)
  from ledger_agrees_with_broker [OF rtranclp.rtrancl_refl none t run order h(2) [folded new_def] ids(1) evs(1,2)]
  have "\<exists>u. replay_events (\<lambda>_. []) sample_order evs t = Inr u \<and> boundary_state_at ''c1'' u = Some BS_BROKER_ACCEPTED"
    using w called evs(3) ids(2) by auto
  then show ?thesis using t by blast
qed

end
