(* ===== verification/Command_Store.thy ===== *)
theory Command_Store
  imports Command_Policy Order_Boundary
begin

text \<open>
  The durable command queue between Core and Gateway (storage/gateway_command_store.py). The state
  holds the tables the module writes; each function of the module is one operation on it. Clock
  readings are arguments (\<open>now\<close>), and so is the report of the boundary status query that
  \<open>_dispatch_ready_commands\<close> consults, the content hash \<open>hsh\<close> and the text form \<open>wire\<close> of an instant.
\<close>

section \<open>State\<close>

record dedupe_row =
  d_key :: string
  d_command_id :: string
  d_command_type :: string
  d_created_at :: instant
  d_retained_until :: "instant option"

record command_event_row =
  ce_command_id :: string
  ce_event_type :: string
  ce_status :: "command_status option"
  ce_payload :: pydict
  ce_created_at :: instant

record command_store =
  s_commands :: "command_row list"
  s_dedupe :: "dedupe_row list"
  s_events :: "command_event_row list"
  s_boundaries :: boundaries
  s_queue_healthy :: "(bool \<times> instant) option"

datatype store_error =
    DbError db_error
  | PyError py_error
  | OperationalError

record enqueue_result =
  q_accepted :: bool
  q_command_id :: string
  q_status :: command_status
  q_payload_hash :: string
  q_duplicate :: bool
  q_error_message :: "string option"

definition empty_store :: command_store where
  "empty_store = \<lparr> s_commands = [], s_dedupe = [], s_events = [], s_boundaries = [], s_queue_healthy = None \<rparr>"

section \<open>Enqueueing\<close>

definition find_active_dedupe_error :: "string \<Rightarrow> instant \<Rightarrow> command_store \<Rightarrow> string option \<times> command_store" where
  "find_active_dedupe_error key now s =
     (case lookup_by d_key key (s_dedupe s) of
        None \<Rightarrow> (None, s)
      | Some row \<Rightarrow>
          (if (case d_retained_until row of None \<Rightarrow> True | Some ru \<Rightarrow> ru > now)
           then (Some (''idempotency_key already retained for command_id='' @ d_command_id row), s)
           else (None, s\<lparr>s_dedupe := sql_delete (\<lambda>d. d_key d = key) (s_dedupe s)\<rparr>)))"

definition queued_row :: "(pydict \<Rightarrow> string) \<Rightarrow> gateway_command \<Rightarrow> instant option \<Rightarrow> command_row" where
  "queued_row hsh c expires_at =
     \<lparr> r_command_id = g_command_id c, r_command_type = normalize_command_type (g_command_type c),
       r_source = g_source c, r_status = QUEUED, r_idempotency_key = g_idempotency_key c,
       r_payload = g_payload c, r_payload_hash = hsh (g_payload c), r_created_at = g_ts c,
       r_available_at = None, r_dispatched_at = None, r_completed_at = None, r_expires_at = expires_at,
       r_attempts = 0, r_last_error = None \<rparr>"

definition rejection :: "(pydict \<Rightarrow> string) \<Rightarrow> gateway_command \<Rightarrow> command_status \<Rightarrow> bool \<Rightarrow> string \<Rightarrow> enqueue_result" where
  "rejection hsh c st dup msg =
     \<lparr> q_accepted = False, q_command_id = g_command_id c, q_status = st, q_payload_hash = hsh (g_payload c),
       q_duplicate = dup, q_error_message = Some msg \<rparr>"

definition insert_queued ::
  "(pydict \<Rightarrow> string) \<Rightarrow> gateway_command \<Rightarrow> instant option \<Rightarrow> instant \<Rightarrow> command_store \<Rightarrow> string + command_store" where
  \<comment> \<open>the two INSERT statements; a primary key that is taken raises \<open>IntegrityError\<close>\<close>
  "insert_queued hsh c expires_at now s =
     (if lookup_by r_command_id (g_command_id c) (s_commands s) \<noteq> None
      then Inl ''UNIQUE constraint failed: gateway_commands.command_id''
      else case g_idempotency_key c of
             None \<Rightarrow> Inr (s\<lparr>s_commands := s_commands s @ [queued_row hsh c expires_at]\<rparr>)
           | Some key \<Rightarrow>
               (if lookup_by d_key key (s_dedupe s) \<noteq> None
                then Inl ''UNIQUE constraint failed: gateway_command_dedupe_keys.idempotency_key''
                else Inr (s\<lparr>s_commands := s_commands s @ [queued_row hsh c expires_at],
                            s_dedupe := s_dedupe s @
                              [\<lparr> d_key = key, d_command_id = g_command_id c,
                                 d_command_type = normalize_command_type (g_command_type c),
                                 d_created_at = now, d_retained_until = expires_at \<rparr>]\<rparr>)))"

definition enqueue_command ::
  "repr \<Rightarrow> (pydict \<Rightarrow> string) \<Rightarrow> instant \<Rightarrow> gateway_command \<Rightarrow> instant option \<Rightarrow> command_store
   \<Rightarrow> enqueue_result \<times> command_store" where
  "enqueue_command rp hsh now c expires_at s =
     (let command_type = normalize_command_type (g_command_type c) in
      case validate_command_type_allowed rp command_type (Some c) of
        Some safety_error \<Rightarrow> (rejection hsh c REJECTED False safety_error, s)
      | None \<Rightarrow>
          (case lookup_by r_command_id (g_command_id c) (s_commands s) of
             Some existing \<Rightarrow> (rejection hsh c (r_status existing) True ''command_id already exists'', s)
           | None \<Rightarrow>
               (case (case g_idempotency_key c of
                        None \<Rightarrow> (None, s)
                      | Some key \<Rightarrow> find_active_dedupe_error key now s) of
                  (Some dedupe_error, s1) \<Rightarrow> (rejection hsh c REJECTED True dedupe_error, s1)
                | (None, s1) \<Rightarrow>
                    (case insert_queued hsh c expires_at now s1 of
                       Inl msg \<Rightarrow> (rejection hsh c REJECTED True msg, s)
                     | Inr s2 \<Rightarrow>
                         (\<lparr> q_accepted = True, q_command_id = g_command_id c, q_status = QUEUED,
                            q_payload_hash = hsh (g_payload c), q_duplicate = False,
                            q_error_message = None \<rparr>, s2)))))"

section \<open>Expiry\<close>

definition expired_queued :: "instant \<Rightarrow> command_row \<Rightarrow> bool" where
  "expired_queued now r \<longleftrightarrow>
     r_status r = QUEUED \<and> (case r_expires_at r of None \<Rightarrow> False | Some e \<Rightarrow> wire_le e now)"

definition expire_row :: "instant \<Rightarrow> command_row \<Rightarrow> command_row" where
  "expire_row now r = r\<lparr>r_status := EXPIRED, r_completed_at := Some now\<rparr>"

definition expire_queued_commands :: "instant \<Rightarrow> command_store \<Rightarrow> command_store" where
  "expire_queued_commands now s =
     s\<lparr>s_commands := sql_update (expired_queued now) (expire_row now) (s_commands s)\<rparr>"

definition dispatched_by :: "instant \<Rightarrow> command_row \<Rightarrow> bool" where
  "dispatched_by cutoff r \<longleftrightarrow> (case r_dispatched_at r of None \<Rightarrow> False | Some d \<Rightarrow> wire_le d cutoff)"

definition timed_out_dispatched :: "instant \<Rightarrow> command_row \<Rightarrow> bool" where
  "timed_out_dispatched cutoff r \<longleftrightarrow>
     r_status r = DISPATCHED \<and> r_command_type r \<notin> {''send_order'', ''cancel_order''} \<and> dispatched_by cutoff r"

definition unconfirmed_order :: "instant \<Rightarrow> command_row \<Rightarrow> bool" where
  "unconfirmed_order cutoff r \<longleftrightarrow>
     r_status r \<in> {DISPATCHED, CLAIMED, GATEWAY_STARTED, PRE_ACK_RECORDED}
   \<and> r_command_type r \<in> {''send_order'', ''cancel_order''} \<and> dispatched_by cutoff r"

definition fail_row :: "instant \<Rightarrow> command_row \<Rightarrow> command_row" where
  "fail_row now r = r\<lparr>r_status := FAILED, r_completed_at := Some now,
     r_last_error := coalesce (r_last_error r)
       (Some ''Gateway command dispatch timed out before ack/failure event.'')\<rparr>"

definition unconfirm_row :: "command_row \<Rightarrow> command_row" where
  "unconfirm_row r = r\<lparr>r_status := UNCONFIRMED, r_completed_at := None,
     r_last_error := coalesce (r_last_error r)
       (Some ''Gateway order dispatch timed out; reconciliation required.'')\<rparr>"

record stale_counts =
  expired_queued_count :: nat
  timed_out_dispatched_count :: nat
  unconfirmed_order_count :: nat

definition expire_stale_gateway_commands ::
  "repr \<Rightarrow> instant \<Rightarrow> int \<Rightarrow> command_store \<Rightarrow> store_error + (stale_counts \<times> command_store)" where
  "expire_stale_gateway_commands rp now dispatched_timeout_sec s =
     (let cutoff = after_sec now (- max dispatched_timeout_sec 1);
          cs = s_commands s;
          counts = \<lparr> expired_queued_count = sql_count (expired_queued now) cs,
                     timed_out_dispatched_count = sql_count (timed_out_dispatched cutoff) cs,
                     unconfirmed_order_count = sql_count (unconfirmed_order cutoff) cs \<rparr> in
      if expired_queued_count counts = 0 \<and> timed_out_dispatched_count counts = 0
         \<and> unconfirmed_order_count counts = 0
      then Inr (counts, s)
      else
        let cs1 = sql_update (expired_queued now) (expire_row now) cs;
            cs2 = sql_update (timed_out_dispatched cutoff) (fail_row now) cs1;
            stale_orders = map r_command_id (filter (unconfirmed_order cutoff) cs2);
            cs3 = sql_update (unconfirmed_order cutoff) unconfirm_row cs2 in
        case mark_order_commands_unconfirmed rp cs3 stale_orders now
               ''Gateway order command timed out before durable broker confirmation.'' (s_boundaries s) of
          Inl e \<Rightarrow> Inl (DbError e)
        | Inr bs \<Rightarrow>
            Inr (\<lparr> expired_queued_count = sql_count (expired_queued now) cs,
                   timed_out_dispatched_count = sql_count (timed_out_dispatched cutoff) cs1,
                   unconfirmed_order_count = sql_count (unconfirmed_order cutoff) cs2 \<rparr>,
                 s\<lparr>s_commands := cs3, s_boundaries := bs, s_queue_healthy := Some (True, now)\<rparr>))"

section \<open>Dispatch\<close>

definition boundary_blocks_routing :: "pydict \<Rightarrow> bool" where
  "boundary_blocks_routing status =
     (case dget status ''effective_block_new_order_routing'' of
        PBool b \<Rightarrow> b
      | _ \<Rightarrow> dget status ''block_new_order_routing'' = PBool True)"

definition ready_queued :: "instant \<Rightarrow> bool \<Rightarrow> command_row \<Rightarrow> bool" where
  "ready_queued now order_routing_blocked r \<longleftrightarrow>
     r_status r = QUEUED
   \<and> (case r_available_at r of None \<Rightarrow> True | Some a \<Rightarrow> wire_le a now)
   \<and> (case r_expires_at r of None \<Rightarrow> True | Some e \<Rightarrow> \<not> wire_le e now)
   \<and> (\<not> order_routing_blocked \<or> py_lower (r_command_type r) \<noteq> ''send_order'')"

definition has_expired_queued_command :: "instant \<Rightarrow> command_store \<Rightarrow> bool" where
  "has_expired_queued_command now s \<longleftrightarrow> sql_find (expired_queued now) (s_commands s) \<noteq> None"

definition has_ready_queued_command :: "instant \<Rightarrow> bool \<Rightarrow> command_store \<Rightarrow> bool" where
  "has_ready_queued_command now blocked s \<longleftrightarrow> sql_find (ready_queued now blocked) (s_commands s) \<noteq> None"

definition dispatch_rank :: "string \<Rightarrow> nat" where
  "dispatch_rank ty = (if ty \<in> {''send_order'', ''cancel_order''} then 0
     else if ty \<in> {''register_realtime'', ''request_tr''} then 2 else 1)"

definition dispatch_key :: "command_row \<Rightarrow> nat \<times> int \<times> string" where
  "dispatch_key r = (dispatch_rank (r_command_type r), wire_key (r_created_at r), r_command_id r)"

definition select_ready :: "instant \<Rightarrow> bool \<Rightarrow> nat \<Rightarrow> command_row list \<Rightarrow> command_row list" where
  "select_ready now blocked limit cs = take limit (sort_key dispatch_key (filter (ready_queued now blocked) cs))"

definition dispatch_status :: "command_row \<Rightarrow> command_status" where
  "dispatch_status r = (if is_order_command_type (r_command_type r) then CLAIMED else DISPATCHED)"

definition dispatch_row :: "instant \<Rightarrow> command_status \<Rightarrow> command_row \<Rightarrow> command_row" where
  "dispatch_row now st r = r\<lparr>r_status := st, r_dispatched_at := Some now, r_attempts := r_attempts r + 1\<rparr>"

fun dispatch_rows :: "repr \<Rightarrow> instant \<Rightarrow> command_row list \<Rightarrow> command_store \<Rightarrow> db_error + command_store" where
  "dispatch_rows rp now [] s = Inr s"
| "dispatch_rows rp now (row # rows) s =
     (let next_status = dispatch_status row;
          s1 = s\<lparr>s_commands := sql_update (\<lambda>r. r_command_id r = r_command_id row \<and> r_status r = QUEUED)
                                 (dispatch_row now next_status) (s_commands s)\<rparr> in
      if next_status = CLAIMED
      then rbind (record_order_command_claim rp (row\<lparr>r_attempts := r_attempts row + 1\<rparr>) now (s_boundaries s1))
             (\<lambda>(_, bs). dispatch_rows rp now rows (s1\<lparr>s_boundaries := bs\<rparr>))
      else dispatch_rows rp now rows s1)"

definition row_to_gateway_command :: "(instant \<Rightarrow> string) \<Rightarrow> command_row \<Rightarrow> gateway_command" where
  "row_to_gateway_command wire r =
     \<lparr> g_command_id = r_command_id r, g_command_type = r_command_type r, g_source = r_source r,
       g_ts = r_created_at r,
       g_payload = (case r_expires_at r of
          None \<Rightarrow> r_payload r
        | Some e \<Rightarrow> (if ''_gateway_command_expires_at'' \<in> set (map fst (r_payload r)) then r_payload r
                    else dset ''_gateway_command_expires_at'' (PStr (wire e)) (r_payload r))),
       g_idempotency_key = r_idempotency_key r \<rparr>"

definition dispatch_ready_commands ::
  "repr \<Rightarrow> (instant \<Rightarrow> string) \<Rightarrow> instant \<Rightarrow> pydict \<Rightarrow> instant \<Rightarrow> pydict \<Rightarrow> nat \<Rightarrow> command_store
   \<Rightarrow> db_error + (gateway_command list \<times> command_store)" where
  \<comment> \<open>\<open>now0\<close> and \<open>status0\<close> are read before the transaction, \<open>now\<close> and \<open>status\<close> inside it\<close>
  "dispatch_ready_commands rp wire now0 status0 now status limit s =
     (let has_expired = has_expired_queued_command now0 s;
          has_ready = has_ready_queued_command now0 False s in
      if \<not> has_expired \<and> \<not> has_ready then Inr ([], s)
      else
        let has_ready' = (if boundary_blocks_routing status0 then has_ready_queued_command now0 True s
                          else has_ready) in
        if \<not> has_expired \<and> \<not> has_ready' then Inr ([], s)
        else
          let blocked = boundary_blocks_routing status;
              s1 = expire_queued_commands now s;
              rows = select_ready now blocked limit (s_commands s1) in
          rbind (dispatch_rows rp now rows s1) (\<lambda>s2. Inr (map (row_to_gateway_command wire) rows, s2)))"

section \<open>Polling\<close>

text \<open>
  One round of the polling loop: whether SQLite reports a locked database in either half, the clock
  readings and status reports of the round, and whether the deadline has passed when it is checked.
\<close>

datatype io_outcome = Io_ok | Io_locked | Io_failed

record poll_round =
  rd_expire_io :: io_outcome
  rd_dispatch_io :: io_outcome
  rd_now_expire :: instant
  rd_now0 :: instant
  rd_status0 :: pydict
  rd_now :: instant
  rd_status :: pydict
  rd_deadline :: bool

definition poll_body ::
  "repr \<Rightarrow> (instant \<Rightarrow> string) \<Rightarrow> nat \<Rightarrow> poll_round \<Rightarrow> command_store
   \<Rightarrow> (store_error + gateway_command list) option \<times> command_store" where
  \<comment> \<open>the body of the try; \<open>None\<close> is a locked database\<close>
  "poll_body rp wire limit rd s =
     (case rd_expire_io rd of
        Io_locked \<Rightarrow> (None, s)
      | Io_failed \<Rightarrow> (Some (Inl OperationalError), s)
      | Io_ok \<Rightarrow>
          (case expire_stale_gateway_commands rp (rd_now_expire rd) 120 s of
             Inl e \<Rightarrow> (Some (Inl e), s)
           | Inr (_, s1) \<Rightarrow>
               (case rd_dispatch_io rd of
                  Io_locked \<Rightarrow> (None, s1)
                | Io_failed \<Rightarrow> (Some (Inl OperationalError), s1)
                | Io_ok \<Rightarrow>
                    (case dispatch_ready_commands rp wire (rd_now0 rd) (rd_status0 rd) (rd_now rd) (rd_status rd) limit s1 of
                       Inl e \<Rightarrow> (Some (Inl (DbError e)), s1)
                     | Inr (cmds, s2) \<Rightarrow> (Some (Inr cmds), s2)))))"

fun poll_loop ::
  "repr \<Rightarrow> (instant \<Rightarrow> string) \<Rightarrow> nat \<Rightarrow> poll_round list \<Rightarrow> command_store
   \<Rightarrow> (store_error + gateway_command list) option \<times> command_store" where
  "poll_loop rp wire limit [] s = (None, s)"
| "poll_loop rp wire limit (rd # rds) s =
     (case poll_body rp wire limit rd s of
        (None, s1) \<Rightarrow> (if rd_deadline rd then (Some (Inr []), s1) else poll_loop rp wire limit rds s1)
      | (Some (Inl e), s1) \<Rightarrow> (Some (Inl e), s1)
      | (Some (Inr cmds), s1) \<Rightarrow>
          (if cmds \<noteq> [] \<or> rd_deadline rd then (Some (Inr cmds), s1) else poll_loop rp wire limit rds s1))"

definition poll_commands ::
  "repr \<Rightarrow> (instant \<Rightarrow> string) \<Rightarrow> int \<Rightarrow> poll_round list \<Rightarrow> command_store
   \<Rightarrow> (store_error + gateway_command list) option \<times> command_store" where
  "poll_commands rp wire limit rds s = poll_loop rp wire (nat (clamp_int 1 100 limit)) rds s"

section \<open>Events\<close>

definition status_for_command_event :: "string \<Rightarrow> bool \<Rightarrow> command_status option" where
  "status_for_command_event event_type order_command =
     (let normalized = py_lower (py_strip event_type) in
      if normalized = ''command_started'' then Some (if order_command then GATEWAY_STARTED else DISPATCHED)
      else if normalized = ''order_pre_ack'' \<and> order_command then Some PRE_ACK_RECORDED
      else if normalized = ''command_ack'' then Some (if order_command then BROKER_ACCEPTED else ACKED)
      else if normalized = ''execution_event'' then Some (if order_command then CHEJAN_CONFIRMED else ACKED)
      else if normalized = ''kiwoom_order_chejan'' \<and> order_command then Some CHEJAN_CONFIRMED
      else if normalized = ''order_broker_unconfirmed'' \<and> order_command then Some UNCONFIRMED
      else if normalized = ''command_failed'' then Some FAILED
      else None)"

fun order_rank :: "command_status \<Rightarrow> nat" where
  "order_rank CLAIMED = 10"
| "order_rank GATEWAY_STARTED = 20"
| "order_rank PRE_ACK_RECORDED = 30"
| "order_rank UNCONFIRMED = 35"
| "order_rank _ = 0"

definition effective_order_command_status :: "command_status \<Rightarrow> command_status \<Rightarrow> command_status" where
  "effective_order_command_status current proposed =
     (if current = CHEJAN_CONFIRMED then CHEJAN_CONFIRMED
      else if proposed = CHEJAN_CONFIRMED then proposed
      else if proposed = BROKER_ACCEPTED then proposed
      else if current = BROKER_ACCEPTED then BROKER_ACCEPTED
      else if proposed \<in> {FAILED, REJECTED, EXPIRED, CANCELLED} then proposed
      else if current \<in> {FAILED, REJECTED, EXPIRED, CANCELLED} then current
      else if current = UNCONFIRMED \<and> proposed \<in> {CLAIMED, GATEWAY_STARTED, PRE_ACK_RECORDED} then UNCONFIRMED
      else if order_rank current \<le> order_rank proposed then proposed else current)"

fun extract_first_text :: "pydict \<Rightarrow> string list \<Rightarrow> string option" where
  "extract_first_text pl [] = None"
| "extract_first_text pl (k # ks) =
     (case dget pl k of
        PStr v \<Rightarrow> (if py_strip v \<noteq> [] then Some (py_strip v) else extract_first_text pl ks)
      | _ \<Rightarrow> extract_first_text pl ks)"

definition extract_error_message :: "pydict \<Rightarrow> string option" where
  "extract_error_message pl = extract_first_text pl [''error_message'', ''message'', ''error'']"

fun extract_first_wait :: "pydict \<Rightarrow> string list \<Rightarrow> pyfloat" where
  "extract_first_wait pl [] = Finite 1"
| "extract_first_wait pl (k # ks) =
     (case py_float (dget pl k) of
        Inl _ \<Rightarrow> extract_first_wait pl ks
      | Inr w \<Rightarrow> pyfloat_min (pyfloat_max w (Finite (1 / 1000))) (Finite 300))"

definition extract_wait_time_sec :: "pydict \<Rightarrow> pyfloat" where
  "extract_wait_time_sec pl =
     extract_first_wait pl [''next_available_in_sec'', ''wait_time_sec'', ''retry_after_sec'']"

fun timedelta_seconds :: "pyfloat \<Rightarrow> int result" where
  \<comment> \<open>\<open>timedelta(seconds=x)\<close> in microseconds\<close>
  "timedelta_seconds (Finite r) = Inr (round_half_even (r * of_int microseconds))"
| "timedelta_seconds NaN = Inl (ValueError ''cannot convert float NaN to integer'')"
| "timedelta_seconds _ = Inl (ValueError ''cannot convert float infinity to integer'')"

definition completed_statuses :: "command_status set" where
  "completed_statuses = {ACKED, BROKER_ACCEPTED, CHEJAN_CONFIRMED, REJECTED, FAILED, EXPIRED, CANCELLED}"

definition requeue_row :: "instant \<Rightarrow> command_row \<Rightarrow> command_row" where
  "requeue_row available_at r =
     r\<lparr>r_status := QUEUED, r_available_at := Some available_at, r_completed_at := None, r_last_error := None\<rparr>"

definition event_row_update :: "instant \<Rightarrow> command_status \<Rightarrow> string option \<Rightarrow> command_row \<Rightarrow> command_row" where
  "event_row_update now st last_error r =
     r\<lparr>r_status := st,
       r_completed_at := coalesce (if st \<in> completed_statuses then Some now else None) (r_completed_at r),
       r_last_error := coalesce last_error (r_last_error r)\<rparr>"

definition next_event_status ::
  "command_row option \<Rightarrow> string \<Rightarrow> boundary_state option \<Rightarrow> command_status option" where
  \<comment> \<open>the status the event leads to, once the boundary has recorded it\<close>
  "next_event_status command event_type boundary =
     (case command of
        Some cmd \<Rightarrow>
          (if is_order_command_type (r_command_type cmd)
           then case status_for_command_event event_type True of
                  None \<Rightarrow> None
                | Some p \<Rightarrow>
                    (case boundary of
                       Some b \<Rightarrow>
                         (if p \<in> {GATEWAY_STARTED, PRE_ACK_RECORDED, BROKER_ACCEPTED, CHEJAN_CONFIRMED}
                          then Some (command_status_of b)
                          else Some (effective_order_command_status (r_status cmd) p))
                     | None \<Rightarrow> Some (effective_order_command_status (r_status cmd) p))
           else status_for_command_event event_type False)
      | None \<Rightarrow> status_for_command_event event_type False)"

definition event_boundary ::
  "repr \<Rightarrow> command_row option \<Rightarrow> string \<Rightarrow> pydict \<Rightarrow> string option \<Rightarrow> instant \<Rightarrow> boundaries
   \<Rightarrow> db_error + (boundary_state option \<times> boundaries)" where
  "event_boundary rp command event_type pl event_id at_time t =
     (case command of
        None \<Rightarrow> Inr (None, t)
      | Some cmd \<Rightarrow>
          (if is_order_command_type (r_command_type cmd)
           then record_order_broker_event rp cmd event_type pl event_id at_time t
           else Inr (None, t)))"

definition apply_command_event ::
  "instant \<Rightarrow> instant \<Rightarrow> command_row option \<Rightarrow> string \<Rightarrow> string \<Rightarrow> pydict \<Rightarrow> command_status option
   \<Rightarrow> command_store \<Rightarrow> store_error + (command_status option \<times> command_store)" where
  \<comment> \<open>the part of \<open>record_command_event\<close> after the event row is inserted\<close>
  "apply_command_event clock now command cid event_type pl next_status s =
     (if py_lower (py_strip event_type) = ''rate_limited''
      then (case command of
              Some cmd \<Rightarrow>
                (if is_order_command_type (r_command_type cmd)
                    \<and> r_status cmd \<in> {PRE_ACK_RECORDED, BROKER_ACCEPTED, CHEJAN_CONFIRMED, UNCONFIRMED}
                 then Inr (Some (r_status cmd), s)
                 else case timedelta_seconds (extract_wait_time_sec pl) of
                        Inl e \<Rightarrow> Inl (PyError e)
                      | Inr d \<Rightarrow> Inr (Some QUEUED, s\<lparr>s_commands :=
                          sql_update (\<lambda>r. r_command_id r = cid) (requeue_row (clock + d)) (s_commands s)\<rparr>))
            | None \<Rightarrow>
                (case timedelta_seconds (extract_wait_time_sec pl) of
                   Inl e \<Rightarrow> Inl (PyError e)
                 | Inr d \<Rightarrow> Inr (Some QUEUED, s)))
      else case next_status of
             None \<Rightarrow> Inr (None, s)
           | Some st \<Rightarrow>
               Inr (Some st, s\<lparr>s_commands :=
                 sql_update (\<lambda>r. r_command_id r = cid)
                   (event_row_update now st (if st = FAILED then extract_error_message pl else None))
                   (s_commands s)\<rparr>))"

definition record_command_event ::
  "repr \<Rightarrow> instant \<Rightarrow> string \<Rightarrow> string \<Rightarrow> pydict \<Rightarrow> string option \<Rightarrow> instant option \<Rightarrow> command_store
   \<Rightarrow> store_error + (command_status option \<times> command_store)" where
  "record_command_event rp clock cid event_type pl event_id occurred_at s =
     (let command = lookup_by r_command_id cid (s_commands s);
          now = (case occurred_at of None \<Rightarrow> clock | Some o' \<Rightarrow> o') in
      case event_boundary rp command event_type pl event_id now (s_boundaries s) of
        Inl e \<Rightarrow> Inl (DbError e)
      | Inr (boundary, bs) \<Rightarrow>
          (let next_status = next_event_status command event_type boundary;
               s1 = s\<lparr>s_boundaries := bs,
                      s_events := s_events s @ [\<lparr> ce_command_id = cid, ce_event_type = event_type,
                        ce_status = next_status, ce_payload = pl, ce_created_at = now \<rparr>]\<rparr> in
           apply_command_event clock now command cid event_type pl next_status s1))"

section \<open>Counts\<close>

definition get_command_status_counts :: "command_store \<Rightarrow> command_status \<Rightarrow> nat" where
  "get_command_status_counts s st = sql_count (\<lambda>r. r_status r = st) (s_commands s)"

definition get_command_type_counts :: "command_store \<Rightarrow> (string \<times> nat) list" where
  "get_command_type_counts s =
     (let types = map (\<lambda>r. py_lower (r_command_type r)) (s_commands s) in
      map (\<lambda>ty. (ty, length (filter (\<lambda>x. x = ty) types))) (sort (remdups types)))"

section \<open>What no update touches\<close>

definition row_identity :: "command_row \<Rightarrow> string \<times> string \<times> string \<times> string option \<times> pydict \<times> string \<times> instant \<times> instant option" where
  "row_identity r = (r_command_id r, r_command_type r, r_source r, r_idempotency_key r, r_payload r,
     r_payload_hash r, r_created_at r, r_expires_at r)"

lemmas row_transformers = expire_row_def fail_row_def unconfirm_row_def dispatch_row_def requeue_row_def
  event_row_update_def

interpretation expire_upd: row_update row_identity "expire_row now" for now
  by unfold_locales (simp add: row_identity_def row_transformers)

interpretation fail_upd: row_update row_identity "fail_row now" for now
  by unfold_locales (simp add: row_identity_def row_transformers)

interpretation unconfirm_upd: row_update row_identity unconfirm_row
  by unfold_locales (simp add: row_identity_def row_transformers)

interpretation dispatch_upd: row_update row_identity "dispatch_row now st" for now st
  by unfold_locales (simp add: row_identity_def row_transformers)

interpretation requeue_upd: row_update row_identity "requeue_row av" for av
  by unfold_locales (simp add: row_identity_def row_transformers)

interpretation event_upd: row_update row_identity "event_row_update now st le" for now st le
  by unfold_locales (simp add: row_identity_def row_transformers)

definition identities :: "command_store \<Rightarrow> (string \<times> string \<times> string \<times> string option \<times> pydict \<times> string \<times> instant \<times> instant option) list" where
  "identities s = map row_identity (s_commands s)"

lemmas identity_kept = expire_upd.keys_update fail_upd.keys_update unconfirm_upd.keys_update
  dispatch_upd.keys_update requeue_upd.keys_update event_upd.keys_update

lemma command_ids_of_identities: "map r_command_id (s_commands s) = map fst (identities s)"
  by (simp add: identities_def row_identity_def)

lemma expire_queued_identities: "identities (expire_queued_commands now s) = identities s"
  by (simp add: identities_def expire_queued_commands_def identity_kept)

text \<open>The three updates of the stale sweep, in the order the code issues them.\<close>

definition sweep_queued :: "instant \<Rightarrow> command_row list \<Rightarrow> command_row list" where
  "sweep_queued now = sql_update (expired_queued now) (expire_row now)"

definition sweep_dispatched :: "instant \<Rightarrow> instant \<Rightarrow> command_row list \<Rightarrow> command_row list" where
  "sweep_dispatched now cutoff cs = sql_update (timed_out_dispatched cutoff) (fail_row now) (sweep_queued now cs)"

definition sweep_all :: "instant \<Rightarrow> instant \<Rightarrow> command_row list \<Rightarrow> command_row list" where
  "sweep_all now cutoff cs = sql_update (unconfirmed_order cutoff) unconfirm_row (sweep_dispatched now cutoff cs)"

lemma expire_stale_cases:
  assumes "expire_stale_gateway_commands rp now tmo s = Inr (cnt, s')"
  obtains (clean) "s' = s" "sql_count (expired_queued now) (s_commands s) = 0"
      "sql_count (timed_out_dispatched (after_sec now (- max tmo 1))) (s_commands s) = 0"
      "sql_count (unconfirmed_order (after_sec now (- max tmo 1))) (s_commands s) = 0"
  | (swept) bs where
      "mark_order_commands_unconfirmed rp (sweep_all now (after_sec now (- max tmo 1)) (s_commands s))
         (map r_command_id (filter (unconfirmed_order (after_sec now (- max tmo 1)))
            (sweep_dispatched now (after_sec now (- max tmo 1)) (s_commands s)))) now
         ''Gateway order command timed out before durable broker confirmation.'' (s_boundaries s) = Inr bs"
      "s' = s\<lparr>s_commands := sweep_all now (after_sec now (- max tmo 1)) (s_commands s), s_boundaries := bs,
              s_queue_healthy := Some (True, now)\<rparr>"
proof -
  let ?cut = "after_sec now (- max tmo 1)"
  let ?idle = "sql_count (expired_queued now) (s_commands s) = 0 \<and> sql_count (timed_out_dispatched ?cut) (s_commands s) = 0
     \<and> sql_count (unconfirmed_order ?cut) (s_commands s) = 0"
  have eq: "\<exists>cnt0 cnt1. expire_stale_gateway_commands rp now tmo s =
    (if ?idle then Inr (cnt0, s)
     else case mark_order_commands_unconfirmed rp (sweep_all now ?cut (s_commands s))
         (map r_command_id (filter (unconfirmed_order ?cut) (sweep_dispatched now ?cut (s_commands s)))) now
         ''Gateway order command timed out before durable broker confirmation.'' (s_boundaries s) of
         Inl e \<Rightarrow> Inl (DbError e)
       | Inr bs \<Rightarrow> Inr (cnt1, s\<lparr>s_commands := sweep_all now ?cut (s_commands s), s_boundaries := bs,
              s_queue_healthy := Some (True, now)\<rparr>))"
    unfolding expire_stale_gateway_commands_def Let_def sweep_all_def sweep_dispatched_def sweep_queued_def
      stale_counts.simps
    by (intro exI) (rule refl)
  then obtain c0 c1 where eq: "expire_stale_gateway_commands rp now tmo s =
    (if ?idle then Inr (c0, s)
     else case mark_order_commands_unconfirmed rp (sweep_all now ?cut (s_commands s))
         (map r_command_id (filter (unconfirmed_order ?cut) (sweep_dispatched now ?cut (s_commands s)))) now
         ''Gateway order command timed out before durable broker confirmation.'' (s_boundaries s) of
         Inl e \<Rightarrow> Inl (DbError e)
       | Inr bs \<Rightarrow> Inr (c1, s\<lparr>s_commands := sweep_all now ?cut (s_commands s), s_boundaries := bs,
              s_queue_healthy := Some (True, now)\<rparr>))" by blast
  show ?thesis
  proof (cases ?idle)
    case True
    with assms show ?thesis using clean unfolding eq by simp
  next
    case False
    with assms show ?thesis using swept unfolding eq by (auto split: sum.splits simp del: One_nat_def)
  qed
qed

lemma expire_stale_frame:
  assumes "expire_stale_gateway_commands rp now tmo s = Inr (cnt, s')"
  shows "identities s' = identities s \<and> s_dedupe s' = s_dedupe s
     \<and> (ledger_step rp)\<^sup>*\<^sup>* (s_boundaries s) (s_boundaries s')"
  using assms
proof (cases rule: expire_stale_cases)
  case (swept bs)
  from ledger_step.mark [OF swept(1)] show ?thesis
    by (simp add: swept(2) identities_def sweep_all_def sweep_dispatched_def sweep_queued_def identity_kept r_into_rtranclp)
qed simp

lemma dispatch_rows_frame:
  assumes "dispatch_rows rp now rows s = Inr s'"
  shows "identities s' = identities s \<and> s_dedupe s' = s_dedupe s
     \<and> (ledger_step rp)\<^sup>*\<^sup>* (s_boundaries s) (s_boundaries s')"
  using assms
proof (induction rows arbitrary: s)
  case (Cons row rows)
  let ?s1 = "s\<lparr>s_commands := sql_update (\<lambda>r. r_command_id r = r_command_id row \<and> r_status r = QUEUED)
                                 (dispatch_row now (dispatch_status row)) (s_commands s)\<rparr>"
  have id: "identities ?s1 = identities s" by (simp add: identities_def identity_kept)
  show ?case
  proof (cases "dispatch_status row = CLAIMED")
    case True
    then obtain res bs where
      claim: "record_order_command_claim rp (row\<lparr>r_attempts := r_attempts row + 1\<rparr>) now (s_boundaries s) = Inr (res, bs)"
      and rest: "dispatch_rows rp now rows (?s1\<lparr>s_boundaries := bs\<rparr>) = Inr s'"
      using Cons.prems by (auto simp: Let_def rbind_Inr_iff)
    have "identities (?s1\<lparr>s_boundaries := bs\<rparr>) = identities s" using id by (simp add: identities_def)
    with Cons.IH [OF rest] ledger_step.claim [OF claim] show ?thesis
      by (auto intro: converse_rtranclp_into_rtranclp)
  next
    case False
    with Cons.prems Cons.IH [of ?s1] id show ?thesis by (simp add: Let_def)
  qed
qed simp

lemma dispatch_ready_cases:
  assumes "dispatch_ready_commands rp wire now0 st0 now st lmt s = Inr (cmds, s')"
  obtains (idle) "cmds = []" "s' = s"
  | (dispatched) rows where
      "rows = select_ready now (boundary_blocks_routing st) lmt (s_commands (expire_queued_commands now s))"
      "dispatch_rows rp now rows (expire_queued_commands now s) = Inr s'"
      "cmds = map (row_to_gateway_command wire) rows"
  using assms by (auto simp: dispatch_ready_commands_def Let_def rbind_Inr_iff split: if_splits)

lemma dispatch_ready_frame:
  assumes "dispatch_ready_commands rp wire now0 st0 now st lmt s = Inr (cmds, s')"
  shows "identities s' = identities s \<and> s_dedupe s' = s_dedupe s
     \<and> (ledger_step rp)\<^sup>*\<^sup>* (s_boundaries s) (s_boundaries s')"
  using assms
proof (cases rule: dispatch_ready_cases)
  case (dispatched rows)
  from dispatch_rows_frame [OF dispatched(2)] show ?thesis
    by (simp add: expire_queued_identities) (simp add: expire_queued_commands_def)
qed simp

lemma record_command_event_cases:
  assumes "record_command_event rp clock cid ty pl e oc s = Inr (res, s')"
  obtains boundary bs where
    "event_boundary rp (lookup_by r_command_id cid (s_commands s)) ty pl e (case oc of None \<Rightarrow> clock | Some t \<Rightarrow> t)
       (s_boundaries s) = Inr (boundary, bs)"
    "apply_command_event clock (case oc of None \<Rightarrow> clock | Some t \<Rightarrow> t) (lookup_by r_command_id cid (s_commands s))
       cid ty pl (next_event_status (lookup_by r_command_id cid (s_commands s)) ty boundary)
       (s\<lparr>s_boundaries := bs, s_events := s_events s @ [\<lparr> ce_command_id = cid, ce_event_type = ty,
          ce_status = next_event_status (lookup_by r_command_id cid (s_commands s)) ty boundary,
          ce_payload = pl, ce_created_at = (case oc of None \<Rightarrow> clock | Some t \<Rightarrow> t) \<rparr>]\<rparr>) = Inr (res, s')"
  using assms by (auto simp: record_command_event_def Let_def split: sum.splits)

lemma apply_command_event_frame:
  assumes "apply_command_event clock now command cid ty pl st s = Inr (res, s')"
  shows "identities s' = identities s" "s_dedupe s' = s_dedupe s" "s_boundaries s' = s_boundaries s"
    "s_events s' = s_events s"
  using assms
  by (auto simp: apply_command_event_def identities_def identity_kept
      split: if_splits option.splits sum.splits)

lemma event_boundary_step:
  "event_boundary rp command ty pl e tm t = Inr (b, t') \<Longrightarrow> (ledger_step rp)\<^sup>*\<^sup>* t t'"
  by (auto simp: event_boundary_def intro: ledger_step.event split: option.splits if_splits)

lemma record_command_event_frame:
  assumes "record_command_event rp clock cid ty pl e oc s = Inr (res, s')"
  shows "identities s' = identities s" "s_dedupe s' = s_dedupe s"
    "(ledger_step rp)\<^sup>*\<^sup>* (s_boundaries s) (s_boundaries s')"
proof -
  obtain b bs where eb: "event_boundary rp (lookup_by r_command_id cid (s_commands s)) ty pl e
      (case oc of None \<Rightarrow> clock | Some t \<Rightarrow> t) (s_boundaries s) = Inr (b, bs)"
    and ap: "apply_command_event clock (case oc of None \<Rightarrow> clock | Some t \<Rightarrow> t) (lookup_by r_command_id cid (s_commands s))
       cid ty pl (next_event_status (lookup_by r_command_id cid (s_commands s)) ty b)
       (s\<lparr>s_boundaries := bs, s_events := s_events s @ [\<lparr> ce_command_id = cid, ce_event_type = ty,
          ce_status = next_event_status (lookup_by r_command_id cid (s_commands s)) ty b,
          ce_payload = pl, ce_created_at = (case oc of None \<Rightarrow> clock | Some t \<Rightarrow> t) \<rparr>]\<rparr>) = Inr (res, s')"
    using assms by (rule record_command_event_cases)
  show "identities s' = identities s" "s_dedupe s' = s_dedupe s"
    using apply_command_event_frame [OF ap] by (simp_all add: identities_def)
  show "(ledger_step rp)\<^sup>*\<^sup>* (s_boundaries s) (s_boundaries s')"
    using apply_command_event_frame(3) [OF ap] event_boundary_step [OF eb] by simp
qed

section \<open>Enqueueing: every branch\<close>

lemma insert_queued_cases:
  assumes "insert_queued hsh c ex now s = Inr s'"
  obtains "lookup_by r_command_id (g_command_id c) (s_commands s) = None"
    "s_commands s' = s_commands s @ [queued_row hsh c ex]" "s_boundaries s' = s_boundaries s"
    "s_events s' = s_events s"
    "s_dedupe s' = s_dedupe s @ (case g_idempotency_key c of None \<Rightarrow> []
       | Some key \<Rightarrow> [\<lparr> d_key = key, d_command_id = g_command_id c,
           d_command_type = normalize_command_type (g_command_type c), d_created_at = now, d_retained_until = ex \<rparr>])"
    "\<And>key. g_idempotency_key c = Some key \<Longrightarrow> lookup_by d_key key (s_dedupe s) = None"
  using assms by (auto simp: insert_queued_def split: if_splits option.splits)

text \<open>An expired retention entry is dropped; everything else is as before.\<close>

definition dedupe_after :: "gateway_command \<Rightarrow> instant \<Rightarrow> dedupe_row list \<Rightarrow> dedupe_row list" where
  "dedupe_after c now ds =
     (case g_idempotency_key c of
        None \<Rightarrow> ds
      | Some key \<Rightarrow> (case lookup_by d_key key ds of None \<Rightarrow> ds | Some _ \<Rightarrow> sql_delete (\<lambda>d. d_key d = key) ds))"

definition key_retained :: "string option \<Rightarrow> instant \<Rightarrow> dedupe_row list \<Rightarrow> bool" where
  "key_retained k now ds \<longleftrightarrow>
     (case k of None \<Rightarrow> False
      | Some key \<Rightarrow> (case lookup_by d_key key ds of
          None \<Rightarrow> False
        | Some d \<Rightarrow> (case d_retained_until d of None \<Rightarrow> True | Some ru \<Rightarrow> ru > now)))"

lemma dedupe_phase:
  "(case g_idempotency_key c of None \<Rightarrow> (None, s) | Some key \<Rightarrow> find_active_dedupe_error key now s) =
     (if key_retained (g_idempotency_key c) now (s_dedupe s)
      then (Some (''idempotency_key already retained for command_id='' @
              d_command_id (the (lookup_by d_key (the (g_idempotency_key c)) (s_dedupe s)))), s)
      else (None, s\<lparr>s_dedupe := dedupe_after c now (s_dedupe s)\<rparr>))"
  by (auto simp: find_active_dedupe_error_def key_retained_def dedupe_after_def split: option.splits)

lemma dedupe_after_free:
  "g_idempotency_key c = Some key \<Longrightarrow> lookup_by d_key key (dedupe_after c now ds) = None"
  by (auto simp: dedupe_after_def sql_simps split: option.splits)

lemma unique_dedupe_after: "unique_key d_key ds \<Longrightarrow> unique_key d_key (dedupe_after c now ds)"
  by (auto simp: dedupe_after_def sql_simps split: option.splits)

lemma enqueue_command_cases:
  obtains (unsafe) m where "validate_command_type_allowed rp (normalize_command_type (g_command_type c)) (Some c) = Some m"
      "enqueue_command rp hsh now c ex s = (rejection hsh c REJECTED False m, s)"
  | (exists) r where "validate_command_type_allowed rp (normalize_command_type (g_command_type c)) (Some c) = None"
      "lookup_by r_command_id (g_command_id c) (s_commands s) = Some r"
      "enqueue_command rp hsh now c ex s = (rejection hsh c (r_status r) True ''command_id already exists'', s)"
  | (retained) m where "validate_command_type_allowed rp (normalize_command_type (g_command_type c)) (Some c) = None"
      "key_retained (g_idempotency_key c) now (s_dedupe s)"
      "enqueue_command rp hsh now c ex s = (rejection hsh c REJECTED True m, s)"
  | (accepted) res s' where
      "validate_command_type_allowed rp (normalize_command_type (g_command_type c)) (Some c) = None"
      "\<not> key_retained (g_idempotency_key c) now (s_dedupe s)"
      "enqueue_command rp hsh now c ex s = (res, s')" "q_accepted res"
      "insert_queued hsh c ex now (s\<lparr>s_dedupe := dedupe_after c now (s_dedupe s)\<rparr>) = Inr s'"
proof (cases "validate_command_type_allowed rp (normalize_command_type (g_command_type c)) (Some c)")
  case (Some m)
  then show ?thesis using unsafe [of m] by (simp add: enqueue_command_def Let_def)
next
  case ok: None
  show ?thesis
  proof (cases "lookup_by r_command_id (g_command_id c) (s_commands s)")
    case (Some r)
    then show ?thesis using exists [of r] ok by (simp add: enqueue_command_def Let_def)
  next
    case new: None
    show ?thesis
    proof (cases "key_retained (g_idempotency_key c) now (s_dedupe s)")
      case True
      show ?thesis by (rule retained [OF ok True]) (simp add: enqueue_command_def dedupe_phase ok new True)
    next
      case False
      let ?s1 = "s\<lparr>s_dedupe := dedupe_after c now (s_dedupe s)\<rparr>"
      have "\<exists>s'. insert_queued hsh c ex now ?s1 = Inr s'"
        using new dedupe_after_free [of c] by (simp add: insert_queued_def split: option.split)
      then obtain s' where s': "insert_queued hsh c ex now ?s1 = Inr s'" ..
      show ?thesis
        by (rule accepted [OF ok False, where s' = s'])
          (simp add: enqueue_command_def dedupe_phase ok new False s', simp, rule s')
    qed
  qed
qed

section \<open>Steps and the invariant\<close>

inductive store_step :: "repr \<Rightarrow> command_store \<Rightarrow> command_store \<Rightarrow> bool" for rp where
  enqueue: "command_wf c \<Longrightarrow> enqueue_command rp hsh now c ex s = (res, s') \<Longrightarrow> store_step rp s s'"
| expire: "store_step rp s (expire_queued_commands now s)"
| stale: "expire_stale_gateway_commands rp now tmo s = Inr (cnt, s') \<Longrightarrow> store_step rp s s'"
| dispatch: "dispatch_ready_commands rp wire now0 st0 now st lmt s = Inr (cmds, s') \<Longrightarrow> store_step rp s s'"
| event: "record_command_event rp clock cid ty pl e oc s = Inr (res, s') \<Longrightarrow> store_step rp s s'"

inductive_cases store_stepE: "store_step rp s s'"

fun identity_ok :: "repr \<Rightarrow> string \<times> string \<times> string \<times> string option \<times> pydict \<times> string \<times> instant \<times> instant option \<Rightarrow> bool" where
  "identity_ok rp (cid, ty, src, key, pl, h, cr, ex) \<longleftrightarrow>
     cid \<noteq> [] \<and> normalize_command_type ty = ty
   \<and> ty \<in> set ALLOWED_COMMAND_TYPES \<union> set ORDER_COMMAND_TYPES
   \<and> (is_order_command_type ty \<longrightarrow> simulation_order rp src key pl)"

definition store_ok :: "repr \<Rightarrow> command_store \<Rightarrow> bool" where
  "store_ok rp s \<longleftrightarrow>
     unique_key r_command_id (s_commands s) \<and> (\<forall>i \<in> set (identities s). identity_ok rp i)
   \<and> unique_key d_key (s_dedupe s) \<and> boundaries_ok (s_boundaries s)"

lemma allowed_types:
  "validate_command_type_allowed rp ty (Some c) = None \<Longrightarrow>
     normalize_command_type ty \<in> set ALLOWED_COMMAND_TYPES \<union> set ORDER_COMMAND_TYPES"
  by (auto simp: validate_command_type_allowed_def ALLOWED_COMMAND_TYPES_def ORDER_COMMAND_TYPES_def Let_def
      split: if_splits)

lemma queued_row_identity_ok:
  assumes "validate_command_type_allowed rp (normalize_command_type (g_command_type c)) (Some c) = None" "command_wf c"
  shows "identity_ok rp (row_identity (queued_row hsh c ex))"
  using assms(2) allowed_types [OF assms(1)] accepted_order_scope [OF assms(1)]
  by (simp add: row_identity_def queued_row_def command_wf_def)

lemma ledger_steps_ok: "(ledger_step rp)\<^sup>*\<^sup>* t t' \<Longrightarrow> boundaries_ok t \<Longrightarrow> boundaries_ok t'"
  by (induction rule: rtranclp_induct) (auto intro: ledger_step_ok)

lemma store_ok_frame:
  assumes "store_ok rp s" "identities s' = identities s \<and> s_dedupe s' = s_dedupe s
     \<and> (ledger_step rp)\<^sup>*\<^sup>* (s_boundaries s) (s_boundaries s')"
  shows "store_ok rp s'"
  using assms command_ids_of_identities [of s] command_ids_of_identities [of s'] ledger_steps_ok
  by (auto simp: store_ok_def unique_key_def)

lemma store_ok_enqueue:
  assumes "store_ok rp s" "enqueue_command rp hsh now c ex s = (res, s')" "command_wf c"
  shows "store_ok rp s'"
proof (cases rule: enqueue_command_cases [where rp = rp and c = c and hsh = hsh and now = now and ex = ex and s = s])
  case (accepted res' s'')
  with assms(2) have s': "insert_queued hsh c ex now (s\<lparr>s_dedupe := dedupe_after c now (s_dedupe s)\<rparr>) = Inr s'" by simp
  from s' show ?thesis
  proof (cases rule: insert_queued_cases)
    case 1
    have "unique_key d_key (s_dedupe s')"
      using assms(1) unique_dedupe_after [of "s_dedupe s" c now] dedupe_after_free [of c]
      by (auto simp: 1(5) store_ok_def unique_key_snoc split: option.split)
    moreover have "unique_key r_command_id (s_commands s')"
      using assms(1) 1(1) by (simp add: 1(2) unique_key_snoc store_ok_def) (simp add: queued_row_def)
    ultimately show ?thesis
      using assms(1) queued_row_identity_ok [OF accepted(1) assms(3)] by (auto simp: store_ok_def identities_def 1)
  qed
qed (use assms in auto)

lemma store_step_ok: "store_step rp s s' \<Longrightarrow> store_ok rp s \<Longrightarrow> store_ok rp s'"
proof (erule store_stepE)
  assume ok: "store_ok rp s"
  show "store_ok rp s'" if "command_wf c" "enqueue_command rp hsh now c ex s = (res, s')" for hsh now c ex res
    by (rule store_ok_enqueue [OF ok that(2,1)])
  show "store_ok rp s'" if "s' = expire_queued_commands now s" for now
    by (rule store_ok_frame [OF ok]) (simp add: that expire_queued_identities, simp add: expire_queued_commands_def)
  show "store_ok rp s'" if "expire_stale_gateway_commands rp now tmo s = Inr (cnt, s')" for now tmo cnt
    by (rule store_ok_frame [OF ok expire_stale_frame [OF that]])
  show "store_ok rp s'" if "dispatch_ready_commands rp wire now0 st0 now st lmt s = Inr (cmds, s')"
    for wire now0 st0 now st lmt cmds
    by (rule store_ok_frame [OF ok dispatch_ready_frame [OF that]])
  show "store_ok rp s'" if "record_command_event rp clock cid ty pl e oc s = Inr (res, s')" for clock cid ty pl e oc res
    by (rule store_ok_frame [OF ok]) (use record_command_event_frame [OF that] in blast)
qed

lemma reachable_store_ok: "(store_step rp)\<^sup>*\<^sup>* empty_store s \<Longrightarrow> store_ok rp s"
proof (induction rule: rtranclp_induct)
  case base
  show ?case by (simp add: store_ok_def empty_store_def identities_def boundaries_ok_def keys_exclusive_def)
next
  case (step s u)
  then show ?case by (blast intro: store_step_ok)
qed

section \<open>Rows after an update\<close>

abbreviation command_at :: "string \<Rightarrow> command_store \<Rightarrow> command_row option" where
  "command_at cid s \<equiv> lookup_by r_command_id cid (s_commands s)"

lemma row_transformer_fields [simp]:
  "r_command_id (expire_row now r) = r_command_id r" "r_command_type (expire_row now r) = r_command_type r"
  "r_status (expire_row now r) = EXPIRED"
  "r_command_id (fail_row now r) = r_command_id r" "r_command_type (fail_row now r) = r_command_type r"
  "r_status (fail_row now r) = FAILED"
  "r_command_id (unconfirm_row r) = r_command_id r" "r_command_type (unconfirm_row r) = r_command_type r"
  "r_status (unconfirm_row r) = UNCONFIRMED"
  "r_command_id (dispatch_row now st r) = r_command_id r" "r_command_type (dispatch_row now st r) = r_command_type r"
  "r_status (dispatch_row now st r) = st"
  "r_command_id (requeue_row av r) = r_command_id r" "r_command_type (requeue_row av r) = r_command_type r"
  "r_status (requeue_row av r) = QUEUED"
  "r_command_id (event_row_update now st le r) = r_command_id r"
  "r_command_type (event_row_update now st le r) = r_command_type r"
  "r_status (event_row_update now st le r) = st"
  by (simp_all add: row_transformers)

lemma identity_of_lookup:
  assumes "identities s' = identities s"
  shows "map_option row_identity (command_at cid s') = map_option row_identity (command_at cid s)"
proof -
  have gen: "map_option row_identity (lookup_by r_command_id cid t) = sql_find (\<lambda>i. fst i = cid) (map row_identity t)" for t
    by (induction t) (auto simp: sql_find_def row_identity_def)
  show ?thesis using assms by (simp add: gen identities_def)
qed

lemma expire_queued_at:
  "command_at cid (expire_queued_commands now s) =
     map_option (\<lambda>r. if expired_queued now r then expire_row now r else r) (command_at cid s)"
  by (simp add: expire_queued_commands_def lookup_by_sql_update)

definition sweep_row :: "instant \<Rightarrow> instant \<Rightarrow> command_row \<Rightarrow> command_row" where
  "sweep_row now cutoff r =
     (if expired_queued now r then expire_row now r
      else if timed_out_dispatched cutoff r then fail_row now r
      else if unconfirmed_order cutoff r then unconfirm_row r else r)"

lemma sweep_all_rows: "sweep_all now cutoff cs = map (sweep_row now cutoff) cs"
  by (auto simp: sweep_all_def sweep_dispatched_def sweep_queued_def sql_update_def sweep_row_def
      timed_out_dispatched_def unconfirmed_order_def)

lemma stale_order_ids:
  "map r_command_id (filter (unconfirmed_order cutoff) (sweep_dispatched now cutoff cs)) =
     map r_command_id (filter (unconfirmed_order cutoff) cs)"
  by (induction cs) (auto simp: sweep_dispatched_def sweep_queued_def unconfirmed_order_def
      timed_out_dispatched_def expired_queued_def)

lemma no_match_lookup: "sql_count p t = 0 \<Longrightarrow> lookup_by key k t = Some r \<Longrightarrow> \<not> p r"
  by (auto simp: sql_count_def filter_empty_conv dest: lookup_by_SomeD)

lemma expire_stale_at:
  assumes "expire_stale_gateway_commands rp now tmo s = Inr (cnt, s')"
  shows "command_at cid s' = map_option (sweep_row now (after_sec now (- max tmo 1))) (command_at cid s)"
  using assms
proof (cases rule: expire_stale_cases)
  case clean
  show ?thesis
  proof (cases "command_at cid s")
    case (Some r)
    then show ?thesis
      using no_match_lookup [OF clean(2) Some] no_match_lookup [OF clean(3) Some] no_match_lookup [OF clean(4) Some]
      by (simp add: clean(1) sweep_row_def)
  qed (simp add: clean(1))
next
  case (swept bs)
  have "lookup_by r_command_id cid (map (sweep_row now c) t) = map_option (sweep_row now c) (lookup_by r_command_id cid t)" for c t
    by (induction t) (auto simp: sweep_row_def)
  then show ?thesis by (simp add: swept(2) sweep_all_rows)
qed

lemma resolve_state_upper: "p \<le> resolve_state c p"
  using boundary_join.join_upper(2) by (cases c) (auto simp: resolve_state_None)

lemma mark_each_unconfirmed_state:
  assumes "mark_each_unconfirmed rp cmds cids tm reason t = Inr t'"
    and "cid \<in> set cids" "lookup_by r_command_id cid cmds = Some cmd" "is_order_command_type (r_command_type cmd)"
  shows "\<exists>b. boundary_state_at cid t' = Some b \<and> BS_UNCONFIRMED \<le> b"
  using assms(1,2)
proof (induction cids arbitrary: t)
  case (Cons c cids)
  show ?case
  proof (cases "cid = c")
    case True
    have id: "r_command_id cmd = cid" using assms(3) by (auto dest: lookup_by_SomeD)
    obtain st u where up: "upsert_boundary rp cmd BS_UNCONFIRMED [(''reason'', PStr reason)] None tm False t = Inr (st, u)"
      and rest: "mark_each_unconfirmed rp cmds cids tm reason u = Inr t'"
      using Cons.prems(1) assms(3,4) True by (auto simp: rbind_Inr_iff)
    have u: "boundary_state_at cid u = Some st" using upsert_boundary_result(2) [OF up] id by simp
    have st: "BS_UNCONFIRMED \<le> st"
      unfolding upsert_boundary_result(1) [OF up] by (rule resolve_state_upper)
    have "ledger_extends u t'"
      using rest by (rule mark_each_unconfirmed_step [where R = ledger_extends, rotated 3])
        (auto intro: upsert_boundary_extends ledger_extends_trans)
    then show ?thesis
      using u st unfolding boundary_state_at_def ledger_extends_def row_extends_def
      by (fastforce intro: order_trans)
  next
    case False
    with Cons show ?thesis by (auto simp: rbind_Inr_iff split: option.splits if_splits)
  qed
qed simp

lemma ledger_steps_extend: "(ledger_step rp)\<^sup>*\<^sup>* t t' \<Longrightarrow> ledger_extends t t'"
  by (induction rule: rtranclp_induct) (auto intro: ledger_step_extends ledger_extends_trans)

lemma ledger_extends_state:
  "ledger_extends t t' \<Longrightarrow> boundary_state_at cid t = Some b \<Longrightarrow> \<exists>b'. boundary_state_at cid t' = Some b' \<and> b \<le> b'"
  unfolding boundary_state_at_def ledger_extends_def row_extends_def by fastforce

section \<open>Dispatching selected rows\<close>

lemma dispatch_rows_at:
  assumes "dispatch_rows rp now rows s = Inr s'" "distinct (map r_command_id rows)"
  shows "command_at cid s' =
     (case find (\<lambda>r. r_command_id r = cid) rows of
        None \<Rightarrow> command_at cid s
      | Some row \<Rightarrow> map_option (\<lambda>r. if r_status r = QUEUED then dispatch_row now (dispatch_status row) r else r) (command_at cid s))"
  using assms
proof (induction rows arbitrary: s)
  case (Cons row rows)
  let ?u = "sql_update (\<lambda>r. r_command_id r = r_command_id row \<and> r_status r = QUEUED)
                                 (dispatch_row now (dispatch_status row)) (s_commands s)"
  obtain bs where rest: "dispatch_rows rp now rows (s\<lparr>s_commands := ?u, s_boundaries := bs\<rparr>) = Inr s'"
  proof (cases "dispatch_status row = CLAIMED")
    case True
    then show ?thesis using Cons.prems(1) that by (auto simp: Let_def rbind_Inr_iff)
  next
    case False
    then show ?thesis using Cons.prems(1) that [of "s_boundaries s"] by (simp add: Let_def)
  qed
  have at_u: "lookup_by r_command_id c ?u = map_option (\<lambda>r. if c = r_command_id row \<and> r_status r = QUEUED
        then dispatch_row now (dispatch_status row) r else r) (command_at c s)" for c
    by (cases "command_at c s") (auto simp: lookup_by_sql_update dest: lookup_by_SomeD)
  have fresh: "find (\<lambda>r. r_command_id r = r_command_id row) rows = None"
    using Cons.prems(2) unfolding find_None_iff by (metis distinct.simps(2) image_eqI list.set_map list.simps(9))
  show ?case
    using Cons.IH [OF rest] Cons.prems(2) fresh
    by (cases "command_at cid s") (auto simp: at_u split: option.splits)
qed simp

lemma dispatch_rows_claimed:
  assumes "dispatch_rows rp now rows s = Inr s'" "row \<in> set rows" "is_order_command_type (r_command_type row)"
  shows "\<exists>b. boundary_state_at (r_command_id row) (s_boundaries s') = Some b"
  using assms(1,2)
proof (induction rows arbitrary: s)
  case (Cons r rows)
  show ?case
  proof (cases "row = r")
    case True
    then obtain res bs s1 where
      claim: "record_order_command_claim rp (row\<lparr>r_attempts := r_attempts row + 1\<rparr>) now (s_boundaries s) = Inr (res, bs)"
      and rest: "dispatch_rows rp now rows s1 = Inr s'" "s_boundaries s1 = bs"
      using Cons.prems(1) assms(3) by (auto simp: Let_def rbind_Inr_iff dispatch_status_def)
    have "\<exists>b. boundary_state_at (r_command_id row) bs = Some b"
      using claim assms(3) upsert_boundary_result(2)
      by (fastforce simp: record_order_command_claim_def rbind_Inr_iff split: if_splits)
    then show ?thesis
      using ledger_extends_state ledger_steps_extend dispatch_rows_frame [OF rest(1)] rest(2) by metis
  next
    case False
    with Cons show ?thesis by (auto simp: Let_def rbind_Inr_iff split: if_splits)
  qed
qed simp

lemma select_ready_props:
  "r \<in> set (select_ready now blocked lmt cs) \<Longrightarrow> r \<in> set cs \<and> ready_queued now blocked r"
  "length (select_ready now blocked lmt cs) \<le> lmt"
  "unique_key r_command_id cs \<Longrightarrow> distinct (map r_command_id (select_ready now blocked lmt cs))"
  "sorted (map dispatch_key (select_ready now blocked lmt cs))"
proof -
  show "r \<in> set (select_ready now blocked lmt cs) \<Longrightarrow> r \<in> set cs \<and> ready_queued now blocked r"
    by (auto simp: select_ready_def dest: in_set_takeD)
  show "length (select_ready now blocked lmt cs) \<le> lmt" by (simp add: select_ready_def)
  show "sorted (map dispatch_key (select_ready now blocked lmt cs))"
    by (simp add: select_ready_def take_map [symmetric] sorted_wrt_take)
  assume "unique_key r_command_id cs"
  then have "distinct (map r_command_id (filter (ready_queued now blocked) cs))"
    by (simp add: unique_key_def distinct_map_filter)
  then have "distinct (map r_command_id (sort_key dispatch_key (filter (ready_queued now blocked) cs)))"
    by (simp add: distinct_map)
  then show "distinct (map r_command_id (select_ready now blocked lmt cs))"
    by (simp add: select_ready_def take_map [symmetric])
qed

section \<open>The queue claims no more than the ledger\<close>

text \<open>
  An order row whose status is one of the boundary states is backed when the ledger has recorded that
  state or a higher one for the command.
\<close>

definition row_backed :: "boundaries \<Rightarrow> command_row \<Rightarrow> bool" where
  "row_backed t r \<longleftrightarrow> is_order_command_type (r_command_type r) \<longrightarrow>
     (\<forall>b. r_status r = command_status_of b \<longrightarrow>
        (\<exists>b'. boundary_state_at (r_command_id r) t = Some b' \<and> b \<le> b'))"

definition store_backed :: "command_store \<Rightarrow> bool" where
  "store_backed s \<longleftrightarrow> (\<forall>cid r. command_at cid s = Some r \<longrightarrow> row_backed (s_boundaries s) r)"

lemma command_status_of_inj [simp]: "command_status_of a = command_status_of b \<longleftrightarrow> a = b"
  by (cases a; cases b) simp_all

lemma not_boundary_status [simp]:
  "QUEUED \<noteq> command_status_of b" "DISPATCHED \<noteq> command_status_of b" "FAILED \<noteq> command_status_of b"
  "EXPIRED \<noteq> command_status_of b" "REJECTED \<noteq> command_status_of b" "CANCELLED \<noteq> command_status_of b"
  "ACKED \<noteq> command_status_of b"
  by (cases b; simp)+

lemma status_of_cases [simp]:
  "CLAIMED = command_status_of b \<longleftrightarrow> b = BS_CLAIMED" "GATEWAY_STARTED = command_status_of b \<longleftrightarrow> b = BS_GATEWAY_STARTED"
  "PRE_ACK_RECORDED = command_status_of b \<longleftrightarrow> b = BS_PRE_ACK_RECORDED"
  "BROKER_ACCEPTED = command_status_of b \<longleftrightarrow> b = BS_BROKER_ACCEPTED"
  "CHEJAN_CONFIRMED = command_status_of b \<longleftrightarrow> b = BS_CHEJAN_CONFIRMED"
  "UNCONFIRMED = command_status_of b \<longleftrightarrow> b = BS_UNCONFIRMED"
  by (cases b; simp)+

lemma row_backed_extends: "row_backed t r \<Longrightarrow> ledger_extends t t' \<Longrightarrow> row_backed t' r"
  unfolding row_backed_def using ledger_extends_state by (meson order_trans)

lemma claimed_least: "BS_CLAIMED \<le> b"
  by (cases b) (simp_all add: less_eq_boundary_state_def)

text \<open>What an event proposes for an order command and for the ledger agree.\<close>

lemma status_for_event_boundary:
  assumes "status_for_command_event ty True = Some p"
    and "p \<in> {GATEWAY_STARTED, PRE_ACK_RECORDED, BROKER_ACCEPTED, CHEJAN_CONFIRMED, UNCONFIRMED}"
  shows "\<exists>q. state_for_event rp ty pl = Some q \<and> (\<forall>b. p = command_status_of b \<longrightarrow> b \<le> q)"
  using assms
  by (auto simp: status_for_command_event_def state_for_event_def Let_def less_eq_boundary_state_def split: if_splits)

lemma status_for_event_range:
  "status_for_command_event ty True = Some p \<Longrightarrow>
     p \<in> {GATEWAY_STARTED, PRE_ACK_RECORDED, BROKER_ACCEPTED, CHEJAN_CONFIRMED, UNCONFIRMED, FAILED}"
  by (auto simp: status_for_command_event_def Let_def split: if_splits)

lemma effective_status_choice:
  "effective_order_command_status c p \<in> {c, p}"
  by (auto simp: effective_order_command_status_def)

lemma next_event_status_backed:
  assumes order: "is_order_command_type (r_command_type cmd)"
    and ev: "record_order_broker_event rp cmd ty pl e tm t = Inr (boundary, t')"
    and nxt: "next_event_status (Some cmd) ty boundary = Some st" "st = command_status_of b"
    and old: "row_backed t cmd"
  shows "\<exists>b'. boundary_state_at (r_command_id cmd) t' = Some b' \<and> b \<le> b'"
proof -
  obtain p where p: "status_for_command_event ty True = Some p"
    using nxt(1) order by (auto simp: next_event_status_def split: option.splits)
  have ext: "ledger_extends t t'" by (rule ledger_step_extends [OF ledger_step.event [OF ev]])
  have res: "boundary = boundary_state_at (r_command_id cmd) t'"
    by (rule record_order_broker_event_state(2) [OF ev order])
  have proposed: "\<exists>b'. boundary_state_at (r_command_id cmd) t' = Some b' \<and> b \<le> b'" if pb: "p = command_status_of b"
  proof -
    have "p \<in> {GATEWAY_STARTED, PRE_ACK_RECORDED, BROKER_ACCEPTED, CHEJAN_CONFIRMED, UNCONFIRMED}"
      using status_for_event_range [OF p] pb by (cases b) auto
    then obtain q where q: "state_for_event rp ty pl = Some q" "b \<le> q"
      using status_for_event_boundary [OF p] pb by blast
    then show ?thesis
      using record_order_broker_event_state(1) [OF ev order] resolve_state_upper order_trans by fastforce
  qed
  show ?thesis
  proof (cases "\<exists>c. boundary = Some c \<and> p \<in> {GATEWAY_STARTED, PRE_ACK_RECORDED, BROKER_ACCEPTED, CHEJAN_CONFIRMED}")
    case True
    then have "boundary = Some b"
      using nxt order p by (auto simp: next_event_status_def)
    then show ?thesis using res by simp
  next
    case False
    then have "st = effective_order_command_status (r_status cmd) p"
      using nxt order p by (auto simp: next_event_status_def split: option.splits)
    then consider "r_status cmd = command_status_of b" | "p = command_status_of b"
      using effective_status_choice [of "r_status cmd" p] nxt(2) by auto
    then show ?thesis
    proof cases
      case 1
      then show ?thesis
        using row_backed_extends [OF old ext] order by (simp add: row_backed_def)
    next
      case 2
      then show ?thesis by (rule proposed)
    qed
  qed
qed

lemma record_command_event_at:
  assumes "record_command_event rp clock cid ty pl e oc s = Inr (res, s')" "command_at c s' = Some r'"
  obtains r where "command_at c s = Some r" "r' = r"
  | (requeued) r av where "c = cid" "command_at c s = Some r" "r' = requeue_row av r"
      "py_lower (py_strip ty) = ''rate_limited''"
      "\<not> (is_order_command_type (r_command_type r)
          \<and> r_status r \<in> {PRE_ACK_RECORDED, BROKER_ACCEPTED, CHEJAN_CONFIRMED, UNCONFIRMED})"
  | (moved) r st boundary bs now le where "c = cid" "command_at c s = Some r" "r' = event_row_update now st le r"
      "event_boundary rp (Some r) ty pl e now (s_boundaries s) = Inr (boundary, bs)" "s_boundaries s' = bs"
      "next_event_status (Some r) ty boundary = Some st"
proof -
  define now where "now = (case oc of None \<Rightarrow> clock | Some t \<Rightarrow> t)"
  obtain b bs s1 where eb: "event_boundary rp (command_at cid s) ty pl e now (s_boundaries s) = Inr (b, bs)"
    and ap: "apply_command_event clock now (command_at cid s) cid ty pl (next_event_status (command_at cid s) ty b) s1
        = Inr (res, s')" and s1: "s_commands s1 = s_commands s" "s_boundaries s1 = bs"
    using assms(1) unfolding now_def by (rule record_command_event_cases) auto
  have bnd: "s_boundaries s' = bs" using apply_command_event_frame(3) [OF ap] s1(2) by simp
  show ?thesis
  proof (cases "c = cid")
    case False
    then have "command_at c s' = command_at c s"
      using ap s1(1) by (auto simp: apply_command_event_def lookup_by_sql_update map_option_idI
          dest!: lookup_by_SomeD split: if_splits option.splits sum.splits intro!: option.map_ident_strong)
    then show ?thesis using that(1) [of r'] assms(2) by simp
  next
    case True
    show ?thesis
    proof (cases "command_at cid s")
      case None
      then have "command_at c s' = None"
        using ap s1(1) True by (auto simp: apply_command_event_def lookup_by_sql_update split: if_splits option.splits sum.splits)
      then show ?thesis using assms(2) by simp
    next
      case (Some r)
      have id: "r_command_id r = cid" using Some by (auto dest: lookup_by_SomeD)
      from ap Some s1(1) have "(r' = r)
        \<or> (\<exists>av. r' = requeue_row av r \<and> py_lower (py_strip ty) = ''rate_limited''
            \<and> \<not> (is_order_command_type (r_command_type r)
              \<and> r_status r \<in> {PRE_ACK_RECORDED, BROKER_ACCEPTED, CHEJAN_CONFIRMED, UNCONFIRMED}))
        \<or> (\<exists>st le. r' = event_row_update now st le r \<and> next_event_status (Some r) ty b = Some st)"
        using assms(2) True id
        by (cases "next_event_status (Some r) ty b")
          (auto simp: apply_command_event_def lookup_by_sql_update split: if_splits sum.splits)
      then show ?thesis
        using that(1) that(2) that(3) [OF True _ _ _ bnd] Some True eb by auto
    qed
  qed
qed

lemma order_type_member: "ty \<in> {''send_order'', ''cancel_order''} \<Longrightarrow> is_order_command_type ty"
proof -
  have "is_order_command_type ''send_order''" "is_order_command_type ''cancel_order''" by code_simp+
  then show "ty \<in> {''send_order'', ''cancel_order''} \<Longrightarrow> is_order_command_type ty" by auto
qed

lemma stale_orders_marked:
  assumes "expire_stale_gateway_commands rp now tmo s = Inr (cnt, s')"
    and "command_at cid s = Some r" "unconfirmed_order (after_sec now (- max tmo 1)) r" "cid \<noteq> []"
  shows "\<exists>b. boundary_state_at cid (s_boundaries s') = Some b \<and> BS_UNCONFIRMED \<le> b"
  using assms(1)
proof (cases rule: expire_stale_cases)
  case clean
  then show ?thesis using assms(3) no_match_lookup [OF clean(4) assms(2)] by blast
next
  case (swept bs)
  have r: "r_command_id r = cid" "r \<in> set (s_commands s)" using assms(2) by (auto dest: lookup_by_SomeD)
  have at': "lookup_by r_command_id cid (s_commands s') = Some (sweep_row now (after_sec now (- max tmo 1)) r)"
    using expire_stale_at [OF assms(1), of cid] assms(2) by simp
  have ord: "is_order_command_type (r_command_type (sweep_row now (after_sec now (- max tmo 1)) r))"
    using assms(3) order_type_member by (auto simp: unconfirmed_order_def sweep_row_def)
  have mem: "cid \<in> set (dedupe (filter (\<lambda>c. c \<noteq> []) (map r_command_id (filter (unconfirmed_order (after_sec now (- max tmo 1)))
      (sweep_dispatched now (after_sec now (- max tmo 1)) (s_commands s))))))"
    using r assms(3,4) unfolding stale_order_ids by auto
  show ?thesis
    using mark_each_unconfirmed_state [OF swept(1) [unfolded mark_order_commands_unconfirmed_def] mem] swept(2) at' ord
    by simp
qed

lemma identity_ok_at:
  assumes "store_ok rp s" "command_at cid s = Some r"
  shows "identity_ok rp (row_identity r)" "cid \<noteq> []"
  using assms lookup_by_SomeD [OF assms(2)] by (auto simp: store_ok_def identities_def row_identity_def)

lemma store_backedD: "store_backed s \<Longrightarrow> command_at cid s = Some r \<Longrightarrow> row_backed (s_boundaries s) r"
  by (auto simp: store_backed_def)

lemma row_backed_other_status:
  "(\<And>b. st \<noteq> command_status_of b) \<Longrightarrow> r_status r = st \<Longrightarrow> row_backed t r"
  by (auto simp: row_backed_def)

lemma row_backed_terminal [simp]:
  "row_backed t (expire_row now r)" "row_backed t (fail_row now r)" "row_backed t (requeue_row av r)"
  by (simp_all add: row_backed_def)

lemma expire_stale_backed:
  assumes ok: "store_ok rp s" and bk: "store_backed s"
    and st: "expire_stale_gateway_commands rp now tmo s = Inr (cnt, s')"
  shows "store_backed s'"
  unfolding store_backed_def
proof (intro allI impI)
  fix cid r'
  let ?cut = "after_sec now (- max tmo 1)"
  assume "command_at cid s' = Some r'"
  then obtain r where r: "command_at cid s = Some r" "r' = sweep_row now ?cut r"
    using expire_stale_at [OF st, of cid] by auto
  have id: "r_command_id r = cid" using r(1) by (auto dest: lookup_by_SomeD)
  have old: "row_backed (s_boundaries s') r"
    using row_backed_extends [OF store_backedD [OF bk r(1)]] ledger_steps_extend expire_stale_frame [OF st] by blast
  show "row_backed (s_boundaries s') r'"
  proof (cases "\<not> expired_queued now r \<and> \<not> timed_out_dispatched ?cut r \<and> unconfirmed_order ?cut r")
    case True
    then have "r' = unconfirm_row r" using r(2) by (simp add: sweep_row_def)
    then show ?thesis
      using stale_orders_marked [OF st r(1) _ identity_ok_at(2) [OF ok r(1)]] True id
      by (auto simp: row_backed_def)
  next
    case False
    then show ?thesis
      using old r(2) by (auto simp: sweep_row_def)
  qed
qed

lemma expire_queued_backed: "store_backed s \<Longrightarrow> store_backed (expire_queued_commands now s)"
  unfolding store_backed_def expire_queued_at
  by (auto simp: expire_queued_commands_def)

lemma expire_queued_unique:
  "unique_key r_command_id (s_commands s) \<Longrightarrow> unique_key r_command_id (s_commands (expire_queued_commands now s))"
  by (simp add: expire_queued_commands_def unique_key_sql_update)

lemma find_in_rows: "find (\<lambda>r. r_command_id r = cid) rows = Some row \<Longrightarrow> row \<in> set rows \<and> r_command_id row = cid"
  by (auto simp: find_Some_iff)

lemma dispatch_rows_backed:
  assumes bk: "store_backed s" and uk: "unique_key r_command_id (s_commands s)"
    and rows: "rows = select_ready now blocked lmt (s_commands s)"
    and d: "dispatch_rows rp now rows s = Inr s'"
  shows "store_backed s'"
  unfolding store_backed_def
proof (intro allI impI)
  fix cid r'
  assume r': "command_at cid s' = Some r'"
  have at': "command_at cid s' = (case find (\<lambda>r. r_command_id r = cid) rows of None \<Rightarrow> command_at cid s
      | Some row \<Rightarrow> map_option (\<lambda>r. if r_status r = QUEUED then dispatch_row now (dispatch_status row) r else r) (command_at cid s))"
    using select_ready_props(3) [OF uk] rows by (intro dispatch_rows_at [OF d]) simp
  have "command_at cid s \<noteq> None" using at' r' by (cases "command_at cid s") (simp_all split: option.splits)
  then obtain r where r: "command_at cid s = Some r" by blast
  have id: "r_command_id r = cid" using r by (auto dest: lookup_by_SomeD)
  have old: "row_backed (s_boundaries s') r"
    using row_backed_extends [OF store_backedD [OF bk r]] ledger_steps_extend dispatch_rows_frame [OF d] by blast
  show "row_backed (s_boundaries s') r'"
  proof (cases "r' = r")
    case False
    then obtain row where f: "find (\<lambda>r. r_command_id r = cid) rows = Some row" "r' = dispatch_row now (dispatch_status row) r"
      using at' r' r by (auto split: option.splits if_splits)
    have row: "row \<in> set rows" "row = r"
      using find_in_rows [OF f(1)] select_ready_props(1) [of row] rows lookup_by_unique [OF uk] r by force+
    show ?thesis
    proof (cases "is_order_command_type (r_command_type r)")
      case True
      then show ?thesis
        using dispatch_rows_claimed [OF d row(1)] row(2) f(2) claimed_least id
        by (auto simp: row_backed_def dispatch_status_def)
    qed (simp add: f(2) row_backed_def)
  qed (use old in simp)
qed

lemma dispatch_ready_backed:
  assumes "store_backed s" "unique_key r_command_id (s_commands s)"
    and "dispatch_ready_commands rp wire now0 st0 now st lmt s = Inr (cmds, s')"
  shows "store_backed s'"
  using assms(3)
proof (cases rule: dispatch_ready_cases)
  case (dispatched rows)
  show ?thesis
    by (rule dispatch_rows_backed [OF expire_queued_backed [OF assms(1)] expire_queued_unique [OF assms(2)] dispatched(1,2)])
qed (use assms(1) in simp)

lemma record_command_event_backed:
  assumes bk: "store_backed s" and ev: "record_command_event rp clock cid ty pl e oc s = Inr (res, s')"
  shows "store_backed s'"
  unfolding store_backed_def
proof (intro allI impI)
  fix c r'
  assume "command_at c s' = Some r'"
  have ext: "ledger_extends (s_boundaries s) (s_boundaries s')"
    by (rule ledger_steps_extend [OF record_command_event_frame(3) [OF ev]])
  from ev \<open>command_at c s' = Some r'\<close> show "row_backed (s_boundaries s') r'"
  proof (cases rule: record_command_event_at)
    case (1 r)
    then show ?thesis using row_backed_extends [OF store_backedD [OF bk 1(1)] ext] by simp
  next
    case (requeued r av)
    then show ?thesis by simp
  next
    case (moved r st boundary bs now le)
    show ?thesis
    proof (cases "is_order_command_type (r_command_type r)")
      case True
      then have "record_order_broker_event rp r ty pl e now (s_boundaries s) = Inr (boundary, s_boundaries s')"
        using moved(4,5) by (simp add: event_boundary_def)
      from next_event_status_backed [OF True this moved(6) _ store_backedD [OF bk moved(2)]]
      show ?thesis by (simp add: row_backed_def moved(3))
    qed (simp add: row_backed_def moved(3))
  qed
qed

lemma enqueue_backed:
  assumes "store_backed s" "enqueue_command rp hsh now c ex s = (res, s')"
  shows "store_backed s'"
proof (cases rule: enqueue_command_cases [where rp = rp and c = c and hsh = hsh and now = now and ex = ex and s = s])
  case (accepted res' s'')
  with assms(2) have s': "insert_queued hsh c ex now (s\<lparr>s_dedupe := dedupe_after c now (s_dedupe s)\<rparr>) = Inr s'" by simp
  from s' show ?thesis
  proof (cases rule: insert_queued_cases)
    case 1
    have "r_status (queued_row hsh c ex) = QUEUED" by (simp add: queued_row_def)
    then have "row_backed t (queued_row hsh c ex)" for t by (rule row_backed_other_status [rotated]) simp
    with assms(1) show ?thesis
      by (auto simp: store_backed_def 1 lookup_by_append split: option.splits if_splits)
  qed
qed (use assms in auto)

lemma store_step_backed: "store_step rp s s' \<Longrightarrow> store_ok rp s \<Longrightarrow> store_backed s \<Longrightarrow> store_backed s'"
  by (erule store_stepE)
    (auto simp: store_ok_def
      intro: enqueue_backed expire_queued_backed expire_stale_backed dispatch_ready_backed record_command_event_backed)

lemma reachable_backed: "(store_step rp)\<^sup>*\<^sup>* s s' \<Longrightarrow> store_ok rp s \<Longrightarrow> store_backed s \<Longrightarrow> store_ok rp s' \<and> store_backed s'"
  by (induction rule: rtranclp_induct) (auto intro: store_step_ok store_step_backed)

lemma empty_store_backed: "store_backed empty_store"
  by (simp add: store_backed_def empty_store_def)

section \<open>Polling as steps\<close>

definition dispatched_from ::
  "repr \<Rightarrow> (instant \<Rightarrow> string) \<Rightarrow> nat \<Rightarrow> command_store \<Rightarrow> gateway_command list \<Rightarrow> command_store \<Rightarrow> bool" where
  "dispatched_from rp wire lmt s cmds s' \<longleftrightarrow>
     (\<exists>s1 now0 st0 now st. (store_step rp)\<^sup>*\<^sup>* s s1
        \<and> dispatch_ready_commands rp wire now0 st0 now st lmt s1 = Inr (cmds, s'))"

lemma dispatched_fromI:
  "(store_step rp)\<^sup>*\<^sup>* s s1 \<Longrightarrow> dispatch_ready_commands rp wire now0 st0 now st lmt s1 = Inr (cmds, s') \<Longrightarrow>
     dispatched_from rp wire lmt s cmds s'"
  unfolding dispatched_from_def by blast

lemma dispatched_from_trans:
  "(store_step rp)\<^sup>*\<^sup>* s s1 \<Longrightarrow> dispatched_from rp wire lmt s1 cmds s' \<Longrightarrow> dispatched_from rp wire lmt s cmds s'"
  unfolding dispatched_from_def by (meson rtranclp_trans)

lemma poll_body_steps:
  assumes "poll_body rp wire lmt rd s = (out, s')"
  shows "(store_step rp)\<^sup>*\<^sup>* s s' \<and> (\<forall>cmds. out = Some (Inr cmds) \<longrightarrow> dispatched_from rp wire lmt s cmds s')"
proof (cases "expire_stale_gateway_commands rp (rd_now_expire rd) 120 s")
  case (Inr p)
  obtain cnt s1 where p: "p = (cnt, s1)" by (cases p)
  have step: "(store_step rp)\<^sup>*\<^sup>* s s1" using store_step.stale [of rp] Inr p by blast
  show ?thesis
  proof (cases "dispatch_ready_commands rp wire (rd_now0 rd) (rd_status0 rd) (rd_now rd) (rd_status rd) lmt s1")
    case d: (Inr q)
    obtain cmds s2 where q: "q = (cmds, s2)" by (cases q)
    have "(store_step rp)\<^sup>*\<^sup>* s s2"
      using step store_step.dispatch d q by (metis rtranclp.rtrancl_into_rtrancl)
    moreover have "dispatched_from rp wire lmt s cmds s2" using dispatched_fromI [OF step] d q by blast
    ultimately show ?thesis
      using assms step d by (auto simp: poll_body_def Inr p q split: io_outcome.splits)
  next
    case (Inl e)
    then show ?thesis using assms step by (auto simp: poll_body_def Inr p split: io_outcome.splits)
  qed
next
  case (Inl e)
  then show ?thesis using assms by (auto simp: poll_body_def split: io_outcome.splits)
qed

lemma poll_loop_steps:
  assumes "poll_loop rp wire lmt rds s = (out, s')"
  shows "(store_step rp)\<^sup>*\<^sup>* s s' \<and>
     (\<forall>cmds. out = Some (Inr cmds) \<longrightarrow> cmds \<noteq> [] \<longrightarrow> dispatched_from rp wire lmt s cmds s')"
  using assms
proof (induction rds arbitrary: s)
  case (Cons rd rds)
  obtain o1 s1 where b: "poll_body rp wire lmt rd s = (o1, s1)" by (cases "poll_body rp wire lmt rd s")
  note st = poll_body_steps [OF b]
  consider "s' = s1" "o1 = out" | "s' = s1" "out = Some (Inr [])" | "poll_loop rp wire lmt rds s1 = (out, s')"
  proof (cases o1)
    case None
    then show ?thesis using Cons.prems b that(2,3) by (cases "rd_deadline rd") simp_all
  next
    case (Some res)
    show ?thesis
    proof (cases res)
      case (Inl e)
      then show ?thesis using Cons.prems b Some that(1) by simp
    next
      case (Inr cmds)
      then show ?thesis using Cons.prems b Some that(1,3) by (cases "cmds \<noteq> [] \<or> rd_deadline rd") simp_all
    qed
  qed
  then show ?case
  proof cases
    case 3
    from Cons.IH [OF this] have "(store_step rp)\<^sup>*\<^sup>* s1 s'"
      "\<forall>cmds. out = Some (Inr cmds) \<longrightarrow> cmds \<noteq> [] \<longrightarrow> dispatched_from rp wire lmt s1 cmds s'" by blast+
    then show ?thesis using st dispatched_from_trans rtranclp_trans by metis
  qed (use st in auto)
qed simp

section \<open>What leaves the queue\<close>

lemma dget_or_dset_other: "k \<noteq> j \<Longrightarrow> dget_or (dset k v d) j w = dget_or d j w"
proof -
  assume "k \<noteq> j"
  moreover have "map_of d k = None" if "k \<notin> set (map fst d)" using that by (simp add: map_of_eq_None_iff)
  ultimately show ?thesis by (auto simp: dget_or_def dset_def map_of_map_value map_add_def split: option.splits)
qed

lemma simulation_order_expiry:
  "simulation_order rp src key (dset ''_gateway_command_expires_at'' v p) = simulation_order rp src key p"
  by (simp add: simulation_order_def mapping_value_def dget_or_dset_other)

lemma row_to_gateway_command_scope:
  assumes "identity_ok rp (row_identity r)" "c = row_to_gateway_command wire r"
  shows "g_command_type c \<in> set ALLOWED_COMMAND_TYPES \<union> set ORDER_COMMAND_TYPES"
    and "is_order_command_type (g_command_type c) \<Longrightarrow> simulation_order rp (g_source c) (g_idempotency_key c) (g_payload c)"
  using assms by (auto simp: row_identity_def row_to_gateway_command_def simulation_order_expiry split: option.split)

lemma dispatched_rows_from_store:
  assumes "rows = select_ready now blocked lmt (s_commands (expire_queued_commands now s))" "r \<in> set rows"
    and "unique_key r_command_id (s_commands s)"
  shows "command_at (r_command_id r) s = Some r" "ready_queued now blocked r"
proof -
  have r: "r \<in> set (s_commands (expire_queued_commands now s))" "ready_queued now blocked r"
    using select_ready_props(1) assms(1,2) by blast+
  have "r \<in> set (s_commands s)"
    using r by (auto simp: expire_queued_commands_def set_sql_update ready_queued_def split: if_splits)
  then show "command_at (r_command_id r) s = Some r" using lookup_by_unique [OF assms(3)] by blast
  show "ready_queued now blocked r" by (rule r(2))
qed

lemma row_to_gateway_command_id [simp]:
  "g_command_id (row_to_gateway_command wire r) = r_command_id r"
  "g_command_type (row_to_gateway_command wire r) = r_command_type r"
  by (simp_all add: row_to_gateway_command_def)

lemma dispatch_scope:
  assumes ok: "store_ok rp s" and d: "dispatch_ready_commands rp wire now0 st0 now st lmt s = Inr (cmds, s')"
    and c: "c \<in> set cmds"
  shows "g_command_type c \<in> set ALLOWED_COMMAND_TYPES \<union> set ORDER_COMMAND_TYPES
     \<and> (is_order_command_type (g_command_type c) \<longrightarrow> simulation_order rp (g_source c) (g_idempotency_key c) (g_payload c))"
  using d
proof (cases rule: dispatch_ready_cases)
  case (dispatched rows)
  then obtain r where r: "r \<in> set rows" "c = row_to_gateway_command wire r" using c by auto
  have "command_at (r_command_id r) s = Some r"
    using dispatched_rows_from_store(1) [OF dispatched(1) r(1)] ok by (simp add: store_ok_def)
  from row_to_gateway_command_scope [OF identity_ok_at(1) [OF ok this] r(2)] show ?thesis by blast
qed (use c in simp)

section \<open>Progress of order commands\<close>

abbreviation broker_final :: "command_status \<Rightarrow> bool" where
  "broker_final st \<equiv> st \<in> {BROKER_ACCEPTED, CHEJAN_CONFIRMED}"

lemma next_event_status_final:
  assumes order: "is_order_command_type (r_command_type cmd)" and fin: "broker_final (r_status cmd)"
    and ev: "record_order_broker_event rp cmd ty pl e tm t = Inr (boundary, t')"
    and old: "row_backed t cmd" and nxt: "next_event_status (Some cmd) ty boundary = Some st"
  shows "broker_final st \<and> (r_status cmd = CHEJAN_CONFIRMED \<longrightarrow> st = CHEJAN_CONFIRMED)"
proof -
  obtain b where b: "r_status cmd = command_status_of b" "BS_BROKER_ACCEPTED \<le> b"
  proof (cases "r_status cmd = BROKER_ACCEPTED")
    case True
    then show ?thesis using that [of BS_BROKER_ACCEPTED] by simp
  next
    case False
    then show ?thesis using fin that [of BS_CHEJAN_CONFIRMED] by (simp add: less_eq_boundary_state_def)
  qed
  have bkd: "row_backed t' cmd" by (rule row_backed_extends [OF old ledger_step_extends [OF ledger_step.event [OF ev]]])
  obtain b' where b': "boundary = Some b'" "b \<le> b'"
    using bkd order b record_order_broker_event_state(2) [OF ev order] by (auto simp: row_backed_def)
  have fin': "broker_final (command_status_of b')"
      "r_status cmd = CHEJAN_CONFIRMED \<Longrightarrow> command_status_of b' = CHEJAN_CONFIRMED"
    using b b'(2) by (cases b; cases b'; simp add: less_eq_boundary_state_def)+
  obtain p where p: "status_for_command_event ty True = Some p"
    using nxt order by (auto simp: next_event_status_def split: option.splits)
  have "st = (if p \<in> {GATEWAY_STARTED, PRE_ACK_RECORDED, BROKER_ACCEPTED, CHEJAN_CONFIRMED} then command_status_of b'
      else effective_order_command_status (r_status cmd) p)"
    using nxt order p b'(1) by (auto simp: next_event_status_def)
  moreover have "broker_final (effective_order_command_status (r_status cmd) p)"
      "r_status cmd = CHEJAN_CONFIRMED \<Longrightarrow> effective_order_command_status (r_status cmd) p = CHEJAN_CONFIRMED"
    using fin by (auto simp: effective_order_command_status_def)
  ultimately show ?thesis using fin' by simp
qed

lemma final_kept:
  assumes step: "store_step rp s s'" and ok: "store_ok rp s" and bk: "store_backed s"
    and r: "command_at cid s = Some r" "is_order_command_type (r_command_type r)" "broker_final (r_status r)"
  shows "\<exists>r'. command_at cid s' = Some r' \<and> is_order_command_type (r_command_type r') \<and> broker_final (r_status r')
     \<and> (r_status r = CHEJAN_CONFIRMED \<longrightarrow> r_status r' = CHEJAN_CONFIRMED)"
  using step
proof (cases rule: store_step.cases)
  case (enqueue c hsh now ex res)
  have "command_at cid s' = Some r"
  proof (cases rule: enqueue_command_cases [where rp = rp and c = c and hsh = hsh and now = now and ex = ex and s = s])
    case (accepted res' s'')
    with enqueue(2) have "insert_queued hsh c ex now (s\<lparr>s_dedupe := dedupe_after c now (s_dedupe s)\<rparr>) = Inr s'" by simp
    then show ?thesis using r(1) by (cases rule: insert_queued_cases) (simp add: lookup_by_append)
  qed (use enqueue(2) r(1) in auto)
  then show ?thesis using r by blast
next
  case (expire now)
  then show ?thesis using r by (auto simp: expire_queued_at expired_queued_def)
next
  case (stale now tmo cnt)
  then show ?thesis
    using r expire_stale_at [OF stale]
    by (auto simp: sweep_row_def expired_queued_def timed_out_dispatched_def unconfirmed_order_def)
next
  case (dispatch wire now0 st0 now st lmt cmds)
  then show ?thesis
  proof (cases rule: dispatch_ready_cases)
    case (dispatched rows)
    have uk: "unique_key r_command_id (s_commands s)" using ok by (simp add: store_ok_def)
    have e: "command_at cid (expire_queued_commands now s) = Some r"
      using r by (auto simp: expire_queued_at expired_queued_def)
    have "command_at cid s' = Some r"
      using dispatch_rows_at [OF dispatched(2)] select_ready_props(3) [OF expire_queued_unique [OF uk]] dispatched(1) e r(3)
      by (auto split: option.split)
    then show ?thesis using r by blast
  qed (use r in auto)
next
  case (event clock c ty pl e oc res)
  have "command_at cid s' \<noteq> None"
    using identity_of_lookup [OF record_command_event_frame(1) [OF event], of cid] r(1) by (cases "command_at cid s'") auto
  then obtain r' where r': "command_at cid s' = Some r'" by blast
  from event r' show ?thesis
  proof (cases rule: record_command_event_at)
    case (moved q st boundary bs now le)
    then have "q = r" using r(1) by simp
    moreover have "record_order_broker_event rp r ty pl e now (s_boundaries s) = Inr (boundary, bs)"
      using moved(4) \<open>q = r\<close> r(2) by (simp add: event_boundary_def)
    ultimately show ?thesis
      using next_event_status_final [OF r(2,3) _ store_backedD [OF bk r(1)]] moved(3,6) r' r(2) by fastforce
  qed (use r r' in auto)
qed

lemma final_kept_star:
  assumes "(store_step rp)\<^sup>*\<^sup>* s s'" "store_ok rp s" "store_backed s"
    and "command_at cid s = Some r" "is_order_command_type (r_command_type r)" "broker_final (r_status r)"
  shows "\<exists>r'. command_at cid s' = Some r' \<and> is_order_command_type (r_command_type r') \<and> broker_final (r_status r')
     \<and> (r_status r = CHEJAN_CONFIRMED \<longrightarrow> r_status r' = CHEJAN_CONFIRMED)"
  using assms(1)
proof (induction rule: rtranclp_induct)
  case (step y z)
  then obtain r' where r': "command_at cid y = Some r'" "is_order_command_type (r_command_type r')" "broker_final (r_status r')"
    "r_status r = CHEJAN_CONFIRMED \<longrightarrow> r_status r' = CHEJAN_CONFIRMED" by blast
  have "store_ok rp y \<and> store_backed y" by (rule reachable_backed [OF step(1) assms(2,3)])
  with final_kept [OF step(2) _ _ r'(1-3)] r'(4) show ?case by blast
qed (use assms in blast)

section \<open>Retained idempotency keys\<close>

definition retains_forever :: "string \<Rightarrow> command_store \<Rightarrow> bool" where
  "retains_forever k s \<longleftrightarrow> (\<exists>d. lookup_by d_key k (s_dedupe s) = Some d \<and> d_retained_until d = None)"

lemma retains_forever_retained: "retains_forever k s \<Longrightarrow> key_retained (Some k) now (s_dedupe s)"
  by (auto simp: retains_forever_def key_retained_def)

lemma retains_forever_enqueue:
  assumes "retains_forever k s" "enqueue_command rp hsh now c ex s = (res, s')"
  shows "retains_forever k s'"
proof (cases rule: enqueue_command_cases [where rp = rp and c = c and hsh = hsh and now = now and ex = ex and s = s])
  case (accepted res' s'')
  with assms(2) have i: "insert_queued hsh c ex now (s\<lparr>s_dedupe := dedupe_after c now (s_dedupe s)\<rparr>) = Inr s'" by simp
  have "g_idempotency_key c \<noteq> Some k" using accepted(2) retains_forever_retained [OF assms(1)] by metis
  then have "lookup_by d_key k (dedupe_after c now (s_dedupe s)) = lookup_by d_key k (s_dedupe s)"
    by (auto simp: dedupe_after_def sql_delete_other split: option.split)
  with i assms(1) show ?thesis
    by (cases rule: insert_queued_cases) (auto simp: retains_forever_def lookup_by_append)
qed (use assms in auto)

lemma retains_forever_step: "store_step rp s s' \<Longrightarrow> retains_forever k s \<Longrightarrow> retains_forever k s'"
proof (erule store_stepE)
  assume k: "retains_forever k s"
  have frame: "s_dedupe s' = s_dedupe s \<Longrightarrow> retains_forever k s'" using k by (simp add: retains_forever_def)
  show "retains_forever k s'" if "enqueue_command rp hsh now c ex s = (res, s')" for hsh now c ex res
    by (rule retains_forever_enqueue [OF k that])
  show "retains_forever k s'" if "s' = expire_queued_commands now s" for now
    using frame that by (simp add: expire_queued_commands_def)
  show "retains_forever k s'" if "expire_stale_gateway_commands rp now tmo s = Inr (cnt, s')" for now tmo cnt
    using frame expire_stale_frame [OF that] by blast
  show "retains_forever k s'" if "dispatch_ready_commands rp wire now0 st0 now st lmt s = Inr (cmds, s')"
    for wire now0 st0 now st lmt cmds
    using frame dispatch_ready_frame [OF that] by blast
  show "retains_forever k s'" if "record_command_event rp clock cid ty pl e oc s = Inr (res, s')" for clock cid ty pl e oc res
    using frame record_command_event_frame(2) [OF that] by blast
qed

lemma retains_forever_star: "(store_step rp)\<^sup>*\<^sup>* s s' \<Longrightarrow> retains_forever k s \<Longrightarrow> retains_forever k s'"
  by (induction rule: rtranclp_induct) (auto intro: retains_forever_step)

end
