(* ===== verification/Command_Queue.thy ===== *)
theory Command_Queue
  imports Command_Store
begin

text \<open>
  Properties of the command queue as a whole, over the step relation of the store: what a poll may
  hand out, what dispatch, enqueue and the stale sweep do, and how queue and boundary ledger agree.
\<close>

section \<open>A sample run\<close>

abbreviation sample_rp :: repr where "sample_rp \<equiv> (\<lambda>_. [])"

definition sample_store :: command_store where
  "sample_store = snd (enqueue_command sample_rp (\<lambda>_. ''h'') 0 sample_buy None empty_store)"

definition sample_round :: poll_round where
  "sample_round = \<lparr> rd_expire_io = Io_ok, rd_dispatch_io = Io_ok, rd_now_expire = 10, rd_now0 = 20, rd_status0 = [],
     rd_now = 30, rd_status = [], rd_deadline = True \<rparr>"

definition sample_dispatch :: "db_error + (gateway_command list \<times> command_store)" where
  "sample_dispatch = dispatch_ready_commands sample_rp (\<lambda>_. []) 20 [] 30 [] 20 sample_store"

definition sample_claimed :: command_store where
  "sample_claimed = (case sample_dispatch of Inr (_, s) \<Rightarrow> s | Inl _ \<Rightarrow> empty_store)"

definition after_event :: "string \<Rightarrow> instant \<Rightarrow> command_store \<Rightarrow> command_store" where
  "after_event ty tm s = (case record_command_event sample_rp tm ''c1'' ty [] None None s of Inr (_, u) \<Rightarrow> u | Inl _ \<Rightarrow> s)"

lemma sample_wf: "command_wf sample_buy"
  by (simp add: command_wf_def sample_buy_def)

lemma sample_store_row: "command_at ''c1'' sample_store = Some (queued_row (\<lambda>_. ''h'') sample_buy None)"
  by code_simp

lemma sample_store_reachable: "(store_step sample_rp)\<^sup>*\<^sup>* empty_store sample_store"
  by (rule r_into_rtranclp, rule store_step.enqueue [OF sample_wf, where hsh = "\<lambda>_. ''h''" and now = 0 and ex = None])
    (unfold sample_store_def, rule prod.collapse [symmetric])

lemma sample_dispatch_result:
  "sample_dispatch = Inr ([row_to_gateway_command (\<lambda>_. []) (queued_row (\<lambda>_. ''h'') sample_buy None)], sample_claimed)"
  by code_simp

lemma sample_claimed_reachable: "(store_step sample_rp)\<^sup>*\<^sup>* empty_store sample_claimed"
  using sample_store_reachable store_step.dispatch [OF sample_dispatch_result [unfolded sample_dispatch_def]]
  by (rule rtranclp.rtrancl_into_rtrancl)

lemma after_event_reachable: "(store_step sample_rp)\<^sup>*\<^sup>* s (after_event ty tm s)"
proof (cases "record_command_event sample_rp tm ''c1'' ty [] None None s")
  case (Inr p)
  obtain res u where "p = (res, u)" by (cases p)
  then show ?thesis using Inr store_step.event [of sample_rp] by (auto simp: after_event_def)
qed (simp add: after_event_def)

lemma sample_accepted:
  "map_option (\<lambda>r. (r_status r, r_command_type r)) (command_at ''c1'' (after_event ''command_ack'' 40 sample_claimed))
   = Some (BROKER_ACCEPTED, ''send_order'')"
  by code_simp

lemma sample_failed:
  "map_option (\<lambda>r. (r_status r, r_command_type r))
     (command_at ''c1'' (after_event ''command_failed'' 50 (after_event ''order_pre_ack'' 40 sample_claimed)))
   = Some (FAILED, ''send_order'')"
  by code_simp

section \<open>Properties\<close>

text \<open>
  C6: End to end, from an empty store and through any interleaving of enqueues, sweeps, polls and
  events: every command a poll hands to the gateway has an allowed type, and every order command
  among them is bound to the simulation.
\<close>

theorem polled_orders_are_simulated:
  assumes "(store_step rp)\<^sup>*\<^sup>* empty_store s"
    and "poll_commands rp wire lmt rds s = (Some (Inr cmds), s')" and "c \<in> set cmds"
  shows "g_command_type c \<in> set ALLOWED_COMMAND_TYPES \<union> set ORDER_COMMAND_TYPES
     \<and> (is_order_command_type (g_command_type c) \<longrightarrow> simulation_order rp (g_source c) (g_idempotency_key c) (g_payload c))"
proof -
  have "dispatched_from rp wire (nat (clamp_int 1 100 lmt)) s cmds s'"
    using poll_loop_steps assms(2,3) unfolding poll_commands_def by (metis empty_iff list.set(1))
  then obtain s1 now0 st0 now st where s1: "(store_step rp)\<^sup>*\<^sup>* s s1"
    "dispatch_ready_commands rp wire now0 st0 now st (nat (clamp_int 1 100 lmt)) s1 = Inr (cmds, s')"
    unfolding dispatched_from_def by blast
  have "store_ok rp s1" using reachable_store_ok rtranclp_trans [OF assms(1) s1(1)] by blast
  from dispatch_scope [OF this s1(2) assms(3)] show ?thesis .
qed

theorem polled_orders_are_simulated_witness:
  "\<exists>c :: gateway_command. g_command_type c = ''send_order'' \<and> simulation_order sample_rp (g_source c) (g_idempotency_key c) (g_payload c)"
proof -
  let ?c = "row_to_gateway_command (\<lambda>_. []) (queued_row (\<lambda>_. ''h'') sample_buy None)"
  have p: "poll_commands sample_rp (\<lambda>_. []) 20 [sample_round] sample_store = (Some (Inr [?c]), sample_claimed)"
    by code_simp
  have c: "is_order_command_type (g_command_type ?c)" "g_command_type ?c = ''send_order''" by code_simp+
  have "?c \<in> set [?c]" by simp
  from polled_orders_are_simulated [OF sample_store_reachable p this]
  have "simulation_order sample_rp (g_source ?c) (g_idempotency_key ?c) (g_payload ?c)" using c(1) by blast
  with c(2) show ?thesis by (intro exI [of _ ?c] conjI)
qed

text \<open>
  C25: What a dispatch transaction does to a consistent store. It returns at most \<open>limit\<close> commands, no
  command twice; each was queued, available, not expired, and no \<open>send_order\<close> while the boundary
  blocks routing. Each returned command is marked \<open>CLAIMED\<close> or \<open>DISPATCHED\<close> with one more attempt, an
  order command has a boundary row before it leaves, and every other row is untouched or expired.
\<close>

theorem dispatch_contract:
  assumes ok: "store_ok rp s"
    and d: "dispatch_ready_commands rp wire now0 st0 now st lmt s = Inr (cmds, s')"
  shows "length cmds \<le> lmt \<and> distinct (map g_command_id cmds)
    \<and> (\<forall>c \<in> set cmds. \<exists>r. command_at (g_command_id c) s = Some r \<and> c = row_to_gateway_command wire r
         \<and> ready_queued now (boundary_blocks_routing st) r
         \<and> command_at (g_command_id c) s' = Some (dispatch_row now (dispatch_status r) r)
         \<and> (is_order_command_type (g_command_type c) \<longrightarrow> boundary_state_at (g_command_id c) (s_boundaries s') \<noteq> None))
    \<and> (\<forall>cid r. cid \<notin> g_command_id ` set cmds \<longrightarrow> command_at cid s = Some r \<longrightarrow>
         command_at cid s' \<in> {Some r, Some (expire_row now r)})"
  using d
proof (cases rule: dispatch_ready_cases)
  case (dispatched rows)
  have uk: "unique_key r_command_id (s_commands s)" using ok by (simp add: store_ok_def)
  have dist: "distinct (map r_command_id rows)"
    unfolding dispatched(1) by (rule select_ready_props(3) [OF expire_queued_unique [OF uk]])
  note at' = dispatch_rows_at [OF dispatched(2) dist]
  have row: "\<exists>r. command_at (g_command_id c) s = Some r \<and> c = row_to_gateway_command wire r
         \<and> ready_queued now (boundary_blocks_routing st) r
         \<and> command_at (g_command_id c) s' = Some (dispatch_row now (dispatch_status r) r)
         \<and> (is_order_command_type (g_command_type c) \<longrightarrow> boundary_state_at (g_command_id c) (s_boundaries s') \<noteq> None)"
    if c: "c \<in> set cmds" for c
  proof -
    obtain r where r: "r \<in> set rows" "c = row_to_gateway_command wire r" using c dispatched(3) by auto
    note src = dispatched_rows_from_store [OF dispatched(1) r(1) uk]
    have f: "find (\<lambda>x. r_command_id x = r_command_id r) rows = Some r"
      using lookup_by_unique [of r_command_id rows r] dist r(1) by (simp add: unique_key_def lookup_by_def sql_find_def)
    have "command_at (r_command_id r) s' = Some (dispatch_row now (dispatch_status r) r)"
      using src by (simp add: at' f expire_queued_at) (auto simp: ready_queued_def expired_queued_def split: option.splits)
    then show ?thesis using r src dispatch_rows_claimed [OF dispatched(2) r(1)] by auto
  qed
  have other: "command_at cid s' \<in> {Some r, Some (expire_row now r)}"
    if "cid \<notin> g_command_id ` set cmds" "command_at cid s = Some r" for cid r
  proof -
    have "find (\<lambda>x. r_command_id x = cid) rows = None"
      using that(1) dispatched(3) by (auto simp: find_None_iff image_iff)
    then show ?thesis using that(2) by (simp add: at' expire_queued_at)
  qed
  have "length cmds \<le> lmt" "distinct (map g_command_id cmds)"
    using dispatched select_ready_props(2) dist by (simp_all add: o_def)
  then show ?thesis using row other by blast
qed simp

theorem dispatch_contract_witness:
  "command_at ''c1'' sample_claimed = Some (dispatch_row 30 CLAIMED (queued_row (\<lambda>_. ''h'') sample_buy None))"
proof -
  let ?c = "row_to_gateway_command (\<lambda>_. []) (queued_row (\<lambda>_. ''h'') sample_buy None)"
  have "dispatch_status (queued_row (\<lambda>_. ''h'') sample_buy None) = CLAIMED" "g_command_id ?c = ''c1''" by code_simp+
  then show ?thesis
    using dispatch_contract [OF reachable_store_ok [OF sample_store_reachable] sample_dispatch_result [unfolded sample_dispatch_def]]
      sample_store_row by (auto simp del: row_to_gateway_command_id)
qed

text \<open>
  Dispatch order. A command that is ready but left behind by a dispatch that returned something
  was left because the batch is full, and no returned command comes after it in the order
  (order commands first, then by creation time).
\<close>

theorem dispatch_priority:
  assumes ok: "store_ok rp s"
    and d: "dispatch_ready_commands rp wire now0 st0 now st lmt s = Inr (cmds, s')" and ne: "cmds \<noteq> []"
    and r: "command_at cid s = Some r" "ready_queued now (boundary_blocks_routing st) r" "cid \<notin> g_command_id ` set cmds"
  shows "length cmds = lmt \<and> (\<forall>c \<in> set cmds. \<exists>q. command_at (g_command_id c) s = Some q \<and> dispatch_key q \<le> dispatch_key r)"
  using d
proof (cases rule: dispatch_ready_cases)
  case (dispatched rows)
  let ?all = "sort_key dispatch_key (filter (ready_queued now (boundary_blocks_routing st)) (s_commands (expire_queued_commands now s)))"
  have uk: "unique_key r_command_id (s_commands s)" using ok by (simp add: store_ok_def)
  have id: "r_command_id r = cid" "r \<in> set (s_commands s)" using r(1) by (auto dest: lookup_by_SomeD)
  have "\<not> expired_queued now r" using r(2) by (auto simp: ready_queued_def expired_queued_def split: option.splits)
  then have "r \<in> set ?all"
    using id(2) r(2) by (force simp: expire_queued_commands_def set_sql_update)
  moreover have "r \<notin> set (take lmt ?all)"
  proof
    assume "r \<in> set (take lmt ?all)"
    then have "row_to_gateway_command wire r \<in> set cmds" using dispatched(1,3) by (simp add: select_ready_def)
    then show False using r(3) id(1) by (metis image_eqI row_to_gateway_command_id(1))
  qed
  ultimately have "r \<in> set (drop lmt ?all)"
    by (metis Un_iff append_take_drop_id set_append)
  then obtain k where k: "k < length ?all - lmt" "?all ! (lmt + k) = r"
    by (auto simp: in_set_conv_nth)
  define i where "i = lmt + k"
  have i: "i < length ?all" "?all ! i = r" "lmt \<le> i" using k by (simp_all add: i_def)
  have len: "length cmds = lmt" using i dispatched(1,3) by (simp add: select_ready_def)
  have "dispatch_key q \<le> dispatch_key r" if "q \<in> set rows" for q
  proof -
    obtain j where j: "j < lmt" "j < length ?all" "?all ! j = q"
      using \<open>q \<in> set rows\<close> dispatched(1) by (auto simp: select_ready_def in_set_conv_nth)
    have "sorted (map dispatch_key ?all)" by simp
    then show ?thesis using sorted_nth_mono [of "map dispatch_key ?all" j i] i j by simp
  qed
  then show ?thesis
    using len dispatched_rows_from_store(1) [OF dispatched(1) _ uk] dispatched(3) by auto
qed (use ne in simp)

theorem dispatch_priority_witness:
  "\<exists>s cmds s'. dispatch_ready_commands sample_rp (\<lambda>_. []) 20 [] 30 [] 1 s = Inr (cmds, s') \<and> length cmds = 1
     \<and> command_at ''hb'' s \<noteq> None \<and> ''hb'' \<notin> g_command_id ` set cmds"
proof -
  define hb where "hb = \<lparr> g_command_id = ''hb'', g_command_type = ''heartbeat_request'', g_source = ''core'', g_ts = -5,
     g_payload = [], g_idempotency_key = None \<rparr>"
  define s where "s = snd (enqueue_command sample_rp (\<lambda>_. ''h'') 0 hb None sample_store)"
  define row where "row = queued_row (\<lambda>_. ''h'') hb None"
  define out where "out = dispatch_ready_commands sample_rp (\<lambda>_. []) 20 [] 30 [] 1 s"
  let ?c = "row_to_gateway_command (\<lambda>_. []) (queued_row (\<lambda>_. ''h'') sample_buy None)"
  have wf: "command_wf hb" by (simp add: command_wf_def hb_def)
  have step: "store_step sample_rp sample_store s"
    by (rule store_step.enqueue [OF wf, where hsh = "\<lambda>_. ''h''" and now = 0 and ex = None])
      (unfold s_def, rule prod.collapse [symmetric])
  have ok: "store_ok sample_rp s"
    by (rule store_step_ok [OF step reachable_store_ok [OF sample_store_reachable]])
  have res: "(case out of Inr (cmds, _) \<Rightarrow> cmds = [?c] | Inl _ \<Rightarrow> False)"
    unfolding out_def s_def hb_def by code_simp
  have r: "command_at ''hb'' s = Some row" "ready_queued 30 (boundary_blocks_routing []) row"
    "''hb'' \<notin> g_command_id ` set [?c]"
    unfolding s_def hb_def row_def by code_simp+
  obtain s' where d: "dispatch_ready_commands sample_rp (\<lambda>_. []) 20 [] 30 [] 1 s = Inr ([?c], s')"
    using res unfolding out_def by (auto split: sum.splits)
  show ?thesis using dispatch_priority [OF ok d _ r] d r(1,3) by blast
qed

text \<open>
  C7: An order the broker has accepted is final in the queue: whatever happens afterwards, its row
  stays \<open>BROKER_ACCEPTED\<close> or becomes \<open>CHEJAN_CONFIRMED\<close>, a confirmed one stays confirmed, so it is never
  queued, and therefore never dispatched, again.
\<close>

theorem accepted_order_never_requeued:
  assumes "(store_step rp)\<^sup>*\<^sup>* empty_store s" "(store_step rp)\<^sup>*\<^sup>* s s'"
    and "command_at cid s = Some r" "is_order_command_type (r_command_type r)"
    and "r_status r \<in> {BROKER_ACCEPTED, CHEJAN_CONFIRMED}"
  shows "\<exists>r'. command_at cid s' = Some r' \<and> r_status r' \<in> {BROKER_ACCEPTED, CHEJAN_CONFIRMED}
     \<and> (r_status r = CHEJAN_CONFIRMED \<longrightarrow> r_status r' = CHEJAN_CONFIRMED)"
proof -
  have "store_ok rp s \<and> store_backed s"
    using reachable_backed [OF assms(1)] reachable_store_ok [of rp empty_store] empty_store_backed by blast
  then show ?thesis using final_kept_star [OF assms(2) _ _ assms(3-5)] by blast
qed

theorem accepted_order_never_requeued_witness:
  "\<exists>r'. command_at ''c1'' (after_event ''rate_limited'' 60 (after_event ''command_ack'' 40 sample_claimed)) = Some r'
     \<and> r_status r' \<in> {BROKER_ACCEPTED, CHEJAN_CONFIRMED}"
proof -
  obtain r where r: "command_at ''c1'' (after_event ''command_ack'' 40 sample_claimed) = Some r"
    "r_status r = BROKER_ACCEPTED" "r_command_type r = ''send_order''" using sample_accepted by auto
  have "is_order_command_type (r_command_type r)" "r_status r \<in> {BROKER_ACCEPTED, CHEJAN_CONFIRMED}"
    using order_type_member r by simp_all
  from accepted_order_never_requeued [OF rtranclp_trans [OF sample_claimed_reachable after_event_reachable]
      after_event_reachable r(1) this]
  show ?thesis by blast
qed

text \<open>
  The stale sweep treats an order command that has left for the gateway as unknown, never as
  failed: past the time-out it becomes \<open>UNCONFIRMED\<close> in the queue and at least \<open>UNCONFIRMED\<close> in the
  ledger, and no order row becomes \<open>FAILED\<close> by the sweep.
\<close>

theorem stale_order_is_unconfirmed:
  assumes ok: "store_ok rp s" and st: "expire_stale_gateway_commands rp now tmo s = Inr (cnt, s')"
    and r: "command_at cid s = Some r" "r_command_type r \<in> {''send_order'', ''cancel_order''}"
  shows "(unconfirmed_order (after_sec now (- max tmo 1)) r \<longrightarrow>
            command_at cid s' = Some (unconfirm_row r)
          \<and> (\<exists>b. boundary_state_at cid (s_boundaries s') = Some b \<and> BS_UNCONFIRMED \<le> b))
     \<and> (\<exists>r'. command_at cid s' = Some r' \<and> (r_status r' = FAILED \<longrightarrow> r_status r = FAILED))"
proof -
  let ?cut = "after_sec now (- max tmo 1)"
  have at': "command_at cid s' = Some (sweep_row now ?cut r)" using expire_stale_at [OF st, of cid] r(1) by simp
  have un: "sweep_row now ?cut r = unconfirm_row r" if "unconfirmed_order ?cut r"
    using that by (auto simp: sweep_row_def expired_queued_def timed_out_dispatched_def unconfirmed_order_def)
  have "r_status (sweep_row now ?cut r) = FAILED \<longrightarrow> r_status r = FAILED"
    using r(2) by (auto simp: sweep_row_def timed_out_dispatched_def)
  then show ?thesis
    using at' un stale_orders_marked [OF st r(1) _ identity_ok_at(2) [OF ok r(1)]] by simp
qed

theorem stale_order_is_unconfirmed_witness:
  "\<exists>cnt s'. expire_stale_gateway_commands sample_rp 300000000 120 sample_claimed = Inr (cnt, s')
     \<and> (\<exists>b. boundary_state_at ''c1'' (s_boundaries s') = Some b \<and> BS_UNCONFIRMED \<le> b)"
proof -
  let ?r = "dispatch_row 30 CLAIMED (queued_row (\<lambda>_. ''h'') sample_buy None)"
  have r: "command_at ''c1'' sample_claimed = Some ?r" "r_command_type ?r \<in> {''send_order'', ''cancel_order''}"
    "unconfirmed_order (after_sec 300000000 (- max 120 1)) ?r" by code_simp+
  have "(case expire_stale_gateway_commands sample_rp 300000000 120 sample_claimed of Inr _ \<Rightarrow> True | Inl _ \<Rightarrow> False)"
    by code_simp
  then obtain cnt s' where s': "expire_stale_gateway_commands sample_rp 300000000 120 sample_claimed = Inr (cnt, s')"
    by (auto split: sum.splits)
  from stale_order_is_unconfirmed [OF reachable_store_ok [OF sample_claimed_reachable] s' r(1,2)] s' r(3)
  show ?thesis by blast
qed

text \<open>
  Enqueueing decides exactly as documented: a command is accepted if and only if the policy has
  no objection, its id is new and its idempotency key is not retained. An accepted command is stored
  as a queued row and no other row changes; a rejected one changes nothing.
\<close>

theorem enqueue_outcome:
  assumes "enqueue_command rp hsh now c ex s = (res, s')"
  shows "(q_accepted res \<longleftrightarrow>
            validate_command_type_allowed rp (normalize_command_type (g_command_type c)) (Some c) = None
          \<and> command_at (g_command_id c) s = None \<and> \<not> key_retained (g_idempotency_key c) now (s_dedupe s))
    \<and> (q_accepted res \<longrightarrow> (\<forall>cid. command_at cid s' =
          (if cid = g_command_id c then Some (queued_row hsh c ex) else command_at cid s))
        \<and> s_boundaries s' = s_boundaries s)
    \<and> (\<not> q_accepted res \<longrightarrow> s' = s)"
proof (cases rule: enqueue_command_cases [where rp = rp and c = c and hsh = hsh and now = now and ex = ex and s = s])
  case (accepted res' u)
  have u: "u = s'" "res' = res" using accepted(3) assms by simp_all
  from accepted(5) show ?thesis
  proof (cases rule: insert_queued_cases)
    case 1
    have id: "r_command_id (queued_row hsh c ex) = g_command_id c" by (simp add: queued_row_def)
    have "command_at cid s' = (if cid = g_command_id c then Some (queued_row hsh c ex) else command_at cid s)" for cid
      using 1(1,2) id u by (auto simp: lookup_by_append split: option.split)
    then show ?thesis using accepted 1(1,3) u by simp
  qed
qed (use assms in \<open>auto simp: rejection_def\<close>)

theorem enqueue_outcome_witness:
  "command_at ''c1'' sample_store = Some (queued_row (\<lambda>_. ''h'') sample_buy None)"
proof -
  have "q_accepted (fst (enqueue_command sample_rp (\<lambda>_. ''h'') 0 sample_buy None empty_store))"
    "g_command_id sample_buy = ''c1''" by code_simp+
  moreover have "enqueue_command sample_rp (\<lambda>_. ''h'') 0 sample_buy None empty_store =
      (fst (enqueue_command sample_rp (\<lambda>_. ''h'') 0 sample_buy None empty_store), sample_store)"
    unfolding sample_store_def by (rule prod.collapse [symmetric])
  from enqueue_outcome [OF this] calculation show ?thesis by metis
qed

text \<open>
  At most one command per idempotency key. Once a command with a key and no expiry is accepted,
  every later attempt to enqueue a command with the same key is rejected, whatever happened between.
\<close>

theorem idempotency_key_used_once:
  assumes "enqueue_command rp hsh now c None s = (res, s1)" "q_accepted res" "g_idempotency_key c = Some k"
    and "(store_step rp)\<^sup>*\<^sup>* s1 s2"
    and "enqueue_command rp hsh' now' c' ex' s2 = (res', s3)" "g_idempotency_key c' = Some k"
  shows "\<not> q_accepted res' \<and> s3 = s2"
proof -
  have "retains_forever k s1"
  proof (cases rule: enqueue_command_cases [where rp = rp and c = c and hsh = hsh and now = now and ex = None and s = s])
    case (accepted r u)
    then have "insert_queued hsh c None now (s\<lparr>s_dedupe := dedupe_after c now (s_dedupe s)\<rparr>) = Inr s1" using assms(1) by simp
    then show ?thesis
      using assms(3) dedupe_after_free [OF assms(3)]
      by (cases rule: insert_queued_cases) (auto simp: retains_forever_def lookup_by_append)
  qed (use assms(1,2) in \<open>auto simp: rejection_def\<close>)
  then have "key_retained (g_idempotency_key c') now' (s_dedupe s2)"
    using retains_forever_retained retains_forever_star [OF assms(4)] assms(6) by metis
  then show ?thesis
    using assms(5)
    by (cases rule: enqueue_command_cases [where rp = rp and c = c' and hsh = hsh' and now = now' and ex = ex' and s = s2])
      (auto simp: rejection_def)
qed

theorem idempotency_key_used_once_witness:
  "\<not> q_accepted (fst (enqueue_command sample_rp (\<lambda>_. ''h'') 99 (sample_buy\<lparr>g_command_id := ''c2''\<rparr>) None sample_claimed))"
proof -
  have a: "q_accepted (fst (enqueue_command sample_rp (\<lambda>_. ''h'') 0 sample_buy None empty_store))" by code_simp
  have e: "enqueue_command sample_rp (\<lambda>_. ''h'') 0 sample_buy None empty_store =
      (fst (enqueue_command sample_rp (\<lambda>_. ''h'') 0 sample_buy None empty_store), sample_store)"
    unfolding sample_store_def by (rule prod.collapse [symmetric])
  have k: "g_idempotency_key sample_buy = Some ''k1''" "g_idempotency_key (sample_buy\<lparr>g_command_id := ''c2''\<rparr>) = Some ''k1''"
    by (simp_all add: sample_buy_def)
  have st: "(store_step sample_rp)\<^sup>*\<^sup>* sample_store sample_claimed"
    using store_step.dispatch [OF sample_dispatch_result [unfolded sample_dispatch_def]] by (rule r_into_rtranclp)
  show ?thesis
    using idempotency_key_used_once [OF e a k(1) st surjective_pairing k(2)] by blast
qed

text \<open>
  C26: The queue never claims more than the ledger has recorded: in every reachable store an order
  row whose status is a boundary state has a ledger row in that state or a higher one.
\<close>

theorem queue_backed_by_ledger:
  assumes "(store_step rp)\<^sup>*\<^sup>* empty_store s" "command_at cid s = Some r"
    and "is_order_command_type (r_command_type r)" "r_status r = command_status_of b"
  shows "\<exists>b'. boundary_state_at cid (s_boundaries s) = Some b' \<and> b \<le> b'"
proof -
  have "store_backed s"
    using reachable_backed [OF assms(1)] reachable_store_ok [of rp empty_store] empty_store_backed by blast
  then show ?thesis
    using store_backedD assms(2-4) lookup_by_SomeD [OF assms(2)] by (fastforce simp: row_backed_def)
qed

theorem queue_backed_by_ledger_witness:
  "\<exists>b'. boundary_state_at ''c1'' (s_boundaries sample_claimed) = Some b' \<and> BS_CLAIMED \<le> b'"
proof -
  let ?r = "dispatch_row 30 CLAIMED (queued_row (\<lambda>_. ''h'') sample_buy None)"
  have r: "command_at ''c1'' sample_claimed = Some ?r" "is_order_command_type (r_command_type ?r)"
    "r_status ?r = command_status_of BS_CLAIMED" by code_simp+
  show ?thesis by (rule queue_backed_by_ledger [OF sample_claimed_reachable r])
qed

text \<open>
  The back-off a \<open>rate_limited\<close> event asks for is bounded: it lies between a millisecond and five
  minutes unless the payload holds a NaN, which the time arithmetic then refuses.
\<close>

theorem wait_time_bounded:
  "case extract_wait_time_sec pl of
     Finite w \<Rightarrow> 1 / 1000 \<le> w \<and> w \<le> 300
   | NaN \<Rightarrow> timedelta_seconds (extract_wait_time_sec pl) = Inl (ValueError ''cannot convert float NaN to integer'')
   | _ \<Rightarrow> False"
proof -
  have clamp: "case pyfloat_min (pyfloat_max w (Finite (1 / 1000))) (Finite 300) of
      Finite x \<Rightarrow> 1 / 1000 \<le> x \<and> x \<le> 300 | NaN \<Rightarrow> True | _ \<Rightarrow> False" for w
    by (cases w) (auto simp: pyfloat_min_def pyfloat_max_def)
  have "case extract_first_wait pl ks of Finite x \<Rightarrow> 1 / 1000 \<le> x \<and> x \<le> 300 | NaN \<Rightarrow> True | _ \<Rightarrow> False" for ks
    by (induction ks) (use clamp in \<open>auto split: sum.split\<close>)
  from this [of "[''next_available_in_sec'', ''wait_time_sec'', ''retry_after_sec'']"] show ?thesis
    by (auto simp: extract_wait_time_sec_def split: pyfloat.splits)
qed

text \<open>
  A \<open>rate_limited\<close> event puts a command back into the queue, with its ledger row as it was, unless
  it is an order whose status shows that the broker may hold it. The check is on the status alone: an
  order that was pre-acknowledged and then reported failed is queued again.
\<close>

theorem rate_limited_requeues:
  assumes "command_at cid s = Some r"
    and "\<not> (is_order_command_type (r_command_type r)
            \<and> r_status r \<in> {PRE_ACK_RECORDED, BROKER_ACCEPTED, CHEJAN_CONFIRMED, UNCONFIRMED})"
  shows "\<exists>s'. record_command_event rp clock cid ''rate_limited'' [] e oc s = Inr (Some QUEUED, s')
     \<and> command_at cid s' = Some (requeue_row (clock + microseconds) r)
     \<and> boundary_state_at cid (s_boundaries s') = boundary_state_at cid (s_boundaries s)"
proof -
  have ty: "py_lower (py_strip ''rate_limited'') = ''rate_limited''" by code_simp
  have none: "state_for_event rp ''rate_limited'' [] = None" "timedelta_seconds (extract_wait_time_sec []) = Inr microseconds"
    by (simp_all add: state_for_event_def ty extract_wait_time_sec_def)
  define tm where "tm = (case oc of None \<Rightarrow> clock | Some t \<Rightarrow> t)"
  obtain b bs where eb: "event_boundary rp (Some r) ''rate_limited'' [] e tm (s_boundaries s) = Inr (b, bs)"
    and same: "boundary_state_at cid bs = boundary_state_at cid (s_boundaries s)"
  proof (cases "is_order_command_type (r_command_type r)")
    case True
    obtain b bs where u: "update_latest_boundary_payload r [] e tm (s_boundaries s) = (b, bs)" by fastforce
    then show ?thesis
      using that [of b bs] True none(1) update_latest_state [of cid r "[]" e tm "s_boundaries s"]
      by (simp add: event_boundary_def record_order_broker_event_def)
  next
    case False
    then show ?thesis using that [of None "s_boundaries s"] by (simp add: event_boundary_def)
  qed
  have id: "r_command_id r = cid" using assms(1) by (auto dest: lookup_by_SomeD)
  then show ?thesis
    using assms eb same none(2)
    by (auto simp: record_command_event_def tm_def [symmetric] apply_command_event_def ty Let_def lookup_by_sql_update)
qed

theorem rate_limited_requeues_witness:
  "\<exists>s s'. boundary_state_at ''c1'' (s_boundaries s) = Some BS_PRE_ACK_RECORDED
     \<and> record_command_event sample_rp 60 ''c1'' ''rate_limited'' [] None None s = Inr (Some QUEUED, s')"
proof -
  define s where "s = after_event ''command_failed'' 50 (after_event ''order_pre_ack'' 40 sample_claimed)"
  obtain r where r: "command_at ''c1'' s = Some r" "r_status r = FAILED" using sample_failed by (auto simp: s_def)
  then have g: "\<not> (is_order_command_type (r_command_type r)
      \<and> r_status r \<in> {PRE_ACK_RECORDED, BROKER_ACCEPTED, CHEJAN_CONFIRMED, UNCONFIRMED})" by simp
  have "boundary_state_at ''c1'' (s_boundaries s) = Some BS_PRE_ACK_RECORDED" unfolding s_def by code_simp
  with rate_limited_requeues [OF r(1) g, of sample_rp 60 None None] show ?thesis by blast
qed

text \<open>
  A queued command outlives its expiry by less than a second: from one second after \<open>expires_at\<close>
  on, the sweep marks it expired and no dispatch returns it. Inside that second the text comparison
  of time stamps may still see a whole-second expiry as later than the present.
\<close>

theorem expiry_within_a_second:
  assumes "r_status r = QUEUED" "r_expires_at r = Some x" "after_sec x 1 \<le> now"
  shows "expired_queued now r \<and> \<not> ready_queued now blocked r
     \<and> (\<exists>q. r_status q = QUEUED \<and> r_expires_at q = Some 5000000 \<and> ready_queued 5000001 False q)"
proof -
  have "wire_le x now" by (rule wire_le_after_second [OF assms(3)])
  moreover have "ready_queued 5000001 False (r\<lparr>r_available_at := None, r_expires_at := Some 5000000\<rparr>)"
    using assms(1) by (simp add: ready_queued_def wire_le_def wire_key_def microseconds_def)
  ultimately show ?thesis
    using assms(1,2) by (auto simp: expired_queued_def ready_queued_def intro!: exI [of _ "r\<lparr>r_available_at := None, r_expires_at := Some 5000000\<rparr>"])
qed

theorem expiry_within_a_second_witness:
  "expired_queued 8000000 (queued_row (\<lambda>_. ''h'') sample_buy (Some 7000000))"
  using expiry_within_a_second [of "queued_row (\<lambda>_. ''h'') sample_buy (Some 7000000)" 7000000 8000000]
  by (simp add: queued_row_def after_sec_def microseconds_def)

end
