(* ===== verification/Projection_Watermarks.thy ===== *)
theory Projection_Watermarks
  imports Py_Prelude
begin

text \<open>
  How far each projection has read the event log, and the result of every projected event
  (storage/projection_watermarks.py). Time stamp columns are instants, JSON columns are objects, and
  the event log is the table of the positions \<open>_resolve_event_position\<close> looks up.
\<close>

section \<open>State\<close>

record watermark =
  w_projection_name :: string
  w_last_event_rowid :: int
  w_last_event_id :: "string option"
  w_last_event_received_at :: "instant option"
  w_last_processed_at :: "instant option"
  w_updated_at :: "instant option"
  w_metadata :: pydict
  w_last_success_event_rowid :: int
  w_last_success_event_id :: "string option"
  w_last_success_event_received_at :: "instant option"
  w_last_success_processed_at :: "instant option"
  w_last_error_event_rowid :: int
  w_last_error_event_id :: "string option"
  w_last_error_event_received_at :: "instant option"
  w_last_error_processed_at :: "instant option"
  w_last_error_message :: "string option"

datatype result_status = RS_SUCCESS | RS_ERROR

record event_result =
  er_projection_name :: string
  er_event_id :: string
  er_event_rowid :: int
  er_event_type :: string
  er_status :: result_status
  er_outcome :: string
  er_error_message :: "string option"
  er_first_processed_at :: instant
  er_processed_at :: instant
  er_attempt_count :: int
  er_metadata :: pydict

record logged_event =
  l_rowid :: int
  l_event_id :: string
  l_event_type :: string
  l_received_at :: instant

record event_position =
  p_event_rowid :: int
  p_event_type :: string
  p_received_at :: instant

record projection_state =
  ps_watermarks :: "watermark list"
  ps_results :: "event_result list"

section \<open>Names\<close>

definition normalize_projection_name :: "string \<Rightarrow> string result" where
  "normalize_projection_name name =
     (let n = py_lower (py_strip name) in
      if n = [] then Inl (ValueError ''projection_name must not be empty'') else Inr n)"

definition require_non_empty :: "string \<Rightarrow> string \<Rightarrow> string result" where
  "require_non_empty v field =
     (let n = py_strip v in if n = [] then Inl (ValueError (field @ '' must not be empty'')) else Inr n)"

definition parse_result_status :: "string \<Rightarrow> result_status result" where
  "parse_result_status st =
     (let n = py_upper (py_strip st) in
      if n = ''SUCCESS'' then Inr RS_SUCCESS
      else if n = ''ERROR'' then Inr RS_ERROR
      else Inl (ValueError ''status must be SUCCESS or ERROR''))"

section \<open>Watermarks\<close>

definition fresh_watermark :: "string \<Rightarrow> watermark" where
  "fresh_watermark n =
     \<lparr> w_projection_name = n, w_last_event_rowid = 0, w_last_event_id = None, w_last_event_received_at = None,
       w_last_processed_at = None, w_updated_at = None, w_metadata = [],
       w_last_success_event_rowid = 0, w_last_success_event_id = None, w_last_success_event_received_at = None,
       w_last_success_processed_at = None, w_last_error_event_rowid = 0, w_last_error_event_id = None,
       w_last_error_event_received_at = None, w_last_error_processed_at = None, w_last_error_message = None \<rparr>"

definition get_projection_watermark :: "string \<Rightarrow> projection_state \<Rightarrow> watermark result" where
  "get_projection_watermark name s =
     rbind (normalize_projection_name name) (\<lambda>n.
       Inr (case lookup_by w_projection_name n (ps_watermarks s) of
              None \<Rightarrow> fresh_watermark n | Some w \<Rightarrow> w))"

definition list_projection_watermarks :: "projection_state \<Rightarrow> watermark list" where
  "list_projection_watermarks s = sort_key w_projection_name (ps_watermarks s)"

definition ensure_watermark_row :: "string \<Rightarrow> instant \<Rightarrow> projection_state \<Rightarrow> projection_state" where
  "ensure_watermark_row n now s =
     (case lookup_by w_projection_name n (ps_watermarks s) of
        Some _ \<Rightarrow> s
      | None \<Rightarrow> s\<lparr>ps_watermarks := ps_watermarks s @
                 [(fresh_watermark n)\<lparr>w_last_processed_at := Some now, w_updated_at := Some now\<rparr>]\<rparr>)"

definition advance_row ::
  "int \<Rightarrow> string option \<Rightarrow> instant option \<Rightarrow> pydict \<Rightarrow> instant \<Rightarrow> watermark \<Rightarrow> watermark" where
  "advance_row rowid eid received_at meta now w =
     (let newer = w_last_event_rowid w < rowid; newer_success = w_last_success_event_rowid w < rowid in
      w\<lparr>w_last_event_rowid := (if newer then rowid else w_last_event_rowid w),
        w_last_event_id := (if newer then eid else w_last_event_id w),
        w_last_event_received_at := (if newer then received_at else w_last_event_received_at w),
        w_last_success_event_rowid := (if newer_success then rowid else w_last_success_event_rowid w),
        w_last_success_event_id := (if newer_success then eid else w_last_success_event_id w),
        w_last_success_event_received_at :=
          (if newer_success then received_at else w_last_success_event_received_at w),
        w_last_success_processed_at := (if newer_success then Some now else w_last_success_processed_at w),
        w_last_processed_at := Some now,
        w_updated_at := Some now,
        w_metadata := (if newer then meta else w_metadata w)\<rparr>)"

definition advance_projection_watermark ::
  "instant \<Rightarrow> string \<Rightarrow> int \<Rightarrow> string option \<Rightarrow> instant option \<Rightarrow> pydict \<Rightarrow> projection_state
   \<Rightarrow> (watermark \<times> projection_state) result" where
  "advance_projection_watermark now name last_event_rowid eid received_at meta s =
     rbind (normalize_projection_name name) (\<lambda>n.
       let rowid = max last_event_rowid 0;
           s1 = ensure_watermark_row n now s;
           s2 = s1\<lparr>ps_watermarks := sql_update (\<lambda>w. w_projection_name w = n)
                     (advance_row rowid eid received_at meta now) (ps_watermarks s1)\<rparr> in
       rbind (get_projection_watermark n s2) (\<lambda>w. Inr (w, s2)))"

definition advance_error_row ::
  "int \<Rightarrow> string option \<Rightarrow> instant option \<Rightarrow> string \<Rightarrow> instant \<Rightarrow> watermark \<Rightarrow> watermark" where
  "advance_error_row rowid eid received_at msg now w =
     (let newer = w_last_error_event_rowid w \<le> rowid in
      w\<lparr>w_last_error_event_rowid := (if newer then rowid else w_last_error_event_rowid w),
        w_last_error_event_id := (if newer then eid else w_last_error_event_id w),
        w_last_error_event_received_at := (if newer then received_at else w_last_error_event_received_at w),
        w_last_error_processed_at := (if newer then Some now else w_last_error_processed_at w),
        w_last_error_message := (if newer then Some msg else w_last_error_message w),
        w_last_processed_at := Some now,
        w_updated_at := Some now\<rparr>)"

definition advance_projection_error_watermark ::
  "instant \<Rightarrow> string \<Rightarrow> int \<Rightarrow> string option \<Rightarrow> instant option \<Rightarrow> string \<Rightarrow> projection_state
   \<Rightarrow> (watermark \<times> projection_state) result" where
  "advance_projection_error_watermark now name last_event_rowid eid received_at msg s =
     rbind (normalize_projection_name name) (\<lambda>n.
       let rowid = max last_event_rowid 0;
           s1 = ensure_watermark_row n now s;
           s2 = s1\<lparr>ps_watermarks := sql_update (\<lambda>w. w_projection_name w = n)
                     (advance_error_row rowid eid received_at msg now) (ps_watermarks s1)\<rparr> in
       rbind (get_projection_watermark n s2) (\<lambda>w. Inr (w, s2)))"

section \<open>Results\<close>

definition text_given :: "string option \<Rightarrow> bool" where
  \<comment> \<open>truthiness of an optional text\<close>
  "text_given v \<longleftrightarrow> v \<notin> {None, Some []}"

definition resolve_event_position ::
  "logged_event list \<Rightarrow> string \<Rightarrow> int option \<Rightarrow> string option \<Rightarrow> instant option \<Rightarrow> event_position option" where
  "resolve_event_position evlog eid event_rowid event_type received_at =
     (if event_rowid \<noteq> None \<and> text_given event_type \<and> received_at \<noteq> None
      then Some \<lparr> p_event_rowid = the event_rowid, p_event_type = py_lower (py_strip (the event_type)),
                  p_received_at = the received_at \<rparr>
      else case lookup_by l_event_id eid evlog of
             None \<Rightarrow> None
           | Some row \<Rightarrow>
               Some \<lparr> p_event_rowid = (case event_rowid of None \<Rightarrow> l_rowid row
                                       | Some n \<Rightarrow> (if n = 0 then l_rowid row else n)),
                      p_event_type = py_lower (py_strip (if text_given event_type then the event_type
                                                         else l_event_type row)),
                      p_received_at = (case received_at of None \<Rightarrow> l_received_at row | Some t \<Rightarrow> t) \<rparr>)"

definition result_key :: "event_result \<Rightarrow> string \<times> string" where
  "result_key r = (er_projection_name r, er_event_id r)"

definition upsert_result :: "event_result \<Rightarrow> event_result list \<Rightarrow> event_result list" where
  "upsert_result new rs =
     (case lookup_by result_key (result_key new) rs of
        None \<Rightarrow> rs @ [new]
      | Some _ \<Rightarrow> sql_update (\<lambda>r. result_key r = result_key new)
          (\<lambda>r. r\<lparr>er_event_rowid := er_event_rowid new, er_event_type := er_event_type new,
                 er_status := er_status new, er_outcome := er_outcome new,
                 er_error_message := er_error_message new, er_processed_at := er_processed_at new,
                 er_attempt_count := er_attempt_count r + 1, er_metadata := er_metadata new\<rparr>) rs)"

definition get_projection_event_result :: "string \<Rightarrow> string \<Rightarrow> projection_state \<Rightarrow> event_result option result" where
  "get_projection_event_result name eid s =
     rbind (normalize_projection_name name) (\<lambda>n.
     rbind (require_non_empty eid ''event_id'') (\<lambda>e.
       Inr (lookup_by result_key (n, e) (ps_results s))))"

definition record_at_position ::
  "instant \<Rightarrow> string \<Rightarrow> string \<Rightarrow> result_status \<Rightarrow> string \<Rightarrow> event_position \<Rightarrow> string option \<Rightarrow> pydict
   \<Rightarrow> projection_state \<Rightarrow> projection_state result" where
  \<comment> \<open>the writes of \<open>record_projection_event_result\<close>, once every argument is validated\<close>
  "record_at_position now n e st oc pos msg meta s =
     (let s1 = s\<lparr>ps_results := upsert_result
           \<lparr> er_projection_name = n, er_event_id = e, er_event_rowid = p_event_rowid pos,
             er_event_type = p_event_type pos, er_status = st, er_outcome = oc, er_error_message = msg,
             er_first_processed_at = now, er_processed_at = now, er_attempt_count = 1, er_metadata = meta \<rparr>
           (ps_results s)\<rparr> in
      if st = RS_SUCCESS
      then rbind (advance_projection_watermark now n (p_event_rowid pos) (Some e) (Some (p_received_at pos))
                    [(''event_type'', PStr (p_event_type pos)), (''outcome'', PStr oc)] s1) (\<lambda>(_, s2). Inr s2)
      else rbind (advance_projection_error_watermark now n (p_event_rowid pos) (Some e) (Some (p_received_at pos))
                    (case msg of None \<Rightarrow> ''None'' | Some m \<Rightarrow> m) s1) (\<lambda>(_, s2). Inr s2))"

definition record_projection_event_result ::
  "logged_event list \<Rightarrow> instant \<Rightarrow> string \<Rightarrow> string \<Rightarrow> string \<Rightarrow> string \<Rightarrow> int option \<Rightarrow> string option
   \<Rightarrow> instant option \<Rightarrow> string option \<Rightarrow> pydict \<Rightarrow> projection_state
   \<Rightarrow> (event_result option \<times> projection_state) result" where
  "record_projection_event_result evlog now name eid st outcome event_rowid event_type received_at msg meta s =
     rbind (normalize_projection_name name) (\<lambda>n.
     rbind (require_non_empty eid ''event_id'') (\<lambda>e.
     rbind (parse_result_status st) (\<lambda>rs.
     rbind (require_non_empty outcome ''outcome'') (\<lambda>oc.
       case resolve_event_position evlog e event_rowid event_type received_at of
         None \<Rightarrow> Inr (None, s)
       | Some pos \<Rightarrow>
           (if rs = RS_ERROR \<and> py_strip (case msg of None \<Rightarrow> [] | Some m \<Rightarrow> m) = []
            then Inl (ValueError ''error_message is required for ERROR projection result'')
            else rbind (record_at_position now n e rs (py_upper oc) pos msg meta s) (\<lambda>s2.
                   rbind (get_projection_event_result n e s2) (\<lambda>r. Inr (r, s2))))))))"

definition list_projection_event_results ::
  "string option \<Rightarrow> string option \<Rightarrow> string option \<Rightarrow> int \<Rightarrow> projection_state \<Rightarrow> event_result list result" where
  "list_projection_event_results name st eid limit s =
     rbind (case name of None \<Rightarrow> Inr None | Some n \<Rightarrow> rbind (normalize_projection_name n) (\<lambda>x. Inr (Some x))) (\<lambda>n.
     rbind (case st of None \<Rightarrow> Inr None | Some t \<Rightarrow> rbind (parse_result_status t) (\<lambda>x. Inr (Some x))) (\<lambda>t.
     rbind (case eid of None \<Rightarrow> Inr None | Some e \<Rightarrow> rbind (require_non_empty e ''event_id'') (\<lambda>x. Inr (Some x))) (\<lambda>e.
       Inr (take (nat (clamp_int 1 500 limit))
         (sort_key (\<lambda>r. (- er_event_rowid r, er_projection_name r))
           (filter (\<lambda>r. (n = None \<or> n = Some (er_projection_name r)) \<and> (t = None \<or> t = Some (er_status r))
                      \<and> (e = None \<or> e = Some (er_event_id r))) (ps_results s)))))))"

definition unresolved_error_count :: "projection_state \<Rightarrow> nat" where
  "unresolved_error_count s = sql_count (\<lambda>r. er_status r = RS_ERROR) (ps_results s)"

definition projection_count :: "projection_state \<Rightarrow> nat" where
  "projection_count s =
     length (remdups (map w_projection_name (ps_watermarks s) @ map er_projection_name (ps_results s)))"

definition watermark_status :: "projection_state \<Rightarrow> string" where
  "watermark_status s = (if unresolved_error_count s \<noteq> 0 then ''WARN'' else ''PASS'')"

definition reset_projection_watermark :: "string \<Rightarrow> projection_state \<Rightarrow> (watermark \<times> projection_state) result" where
  "reset_projection_watermark name s =
     rbind (normalize_projection_name name) (\<lambda>n.
       let s1 = s\<lparr>ps_results := sql_delete (\<lambda>r. er_projection_name r = n) (ps_results s),
                  ps_watermarks := sql_delete (\<lambda>w. w_projection_name w = n) (ps_watermarks s)\<rparr> in
       rbind (get_projection_watermark n s1) (\<lambda>w. Inr (w, s1)))"

section \<open>Watermarks as a function of the projection\<close>

definition wm_at :: "string \<Rightarrow> projection_state \<Rightarrow> watermark" where
  "wm_at n s = (case lookup_by w_projection_name n (ps_watermarks s) of None \<Rightarrow> fresh_watermark n | Some w \<Rightarrow> w)"

lemma wm_at_results [simp]: "wm_at n (s\<lparr>ps_results := X\<rparr>) = wm_at n s"
  by (simp add: wm_at_def)

lemma row_names [simp]:
  "w_projection_name (advance_row rowid eid rc meta now w) = w_projection_name w"
  "w_projection_name (advance_error_row rowid eid rc msg now w) = w_projection_name w"
  "w_projection_name (fresh_watermark n) = n"
  by (simp_all add: advance_row_def advance_error_row_def fresh_watermark_def Let_def)

interpretation advance_upd: row_update w_projection_name "advance_row rowid eid rc meta now" for rowid eid rc meta now
  by unfold_locales simp

interpretation advance_error_upd: row_update w_projection_name "advance_error_row rowid eid rc msg now" for rowid eid rc msg now
  by unfold_locales simp

lemma stamped_rows [simp]:
  "advance_row rowid eid rc meta now (w\<lparr>w_last_processed_at := a, w_updated_at := b\<rparr>) = advance_row rowid eid rc meta now w"
  "advance_error_row rowid eid rc msg now (w\<lparr>w_last_processed_at := a, w_updated_at := b\<rparr>) = advance_error_row rowid eid rc msg now w"
  by (simp_all add: advance_row_def advance_error_row_def Let_def)

lemma lookup_ensure:
  "lookup_by w_projection_name m (ps_watermarks (ensure_watermark_row n now s)) =
     (if m = n then Some (case lookup_by w_projection_name n (ps_watermarks s) of
          None \<Rightarrow> (fresh_watermark n)\<lparr>w_last_processed_at := Some now, w_updated_at := Some now\<rparr> | Some w \<Rightarrow> w)
      else lookup_by w_projection_name m (ps_watermarks s))"
proof (cases "lookup_by w_projection_name n (ps_watermarks s)")
  case None
  have "w_projection_name ((fresh_watermark n)\<lparr>w_last_processed_at := Some now, w_updated_at := Some now\<rparr>) = n"
    by (simp add: fresh_watermark_def)
  then show ?thesis using None
    by (auto simp: ensure_watermark_row_def lookup_by_append split: option.split)
qed (simp add: ensure_watermark_row_def)

lemma ensure_results [simp]: "ps_results (ensure_watermark_row n now s) = ps_results s"
  by (simp add: ensure_watermark_row_def split: option.split)

lemma wm_at_update:
  assumes "\<And>w. w_projection_name (f w) = w_projection_name w"
    and "\<And>w. f (w\<lparr>w_last_processed_at := Some now, w_updated_at := Some now\<rparr>) = f w"
  shows "wm_at m ((ensure_watermark_row n now s)\<lparr>ps_watermarks := sql_update (\<lambda>w. w_projection_name w = n) f
       (ps_watermarks (ensure_watermark_row n now s))\<rparr>) = (if m = n then f (wm_at n s) else wm_at m s)"
proof -
  have name: "w_projection_name w = m" if "lookup_by w_projection_name m t = Some w" for t w
    using that by (auto dest: lookup_by_SomeD)
  show ?thesis
    using name [of "ps_watermarks s"] by (auto simp: wm_at_def lookup_by_sql_update assms lookup_ensure split: option.split)
qed

text \<open>What a successful call of either advance does, on a normalised name.\<close>

lemma advance_projection_watermark_effect:
  assumes "advance_projection_watermark now n rowid eid rc meta s = Inr (w, s')" "normalize_projection_name n = Inr n"
  shows "wm_at m s' = (if m = n then advance_row (max rowid 0) eid rc meta now (wm_at n s) else wm_at m s)"
    and "ps_results s' = ps_results s"
proof -
  have s': "s' = (ensure_watermark_row n now s)\<lparr>ps_watermarks := sql_update (\<lambda>w. w_projection_name w = n)
      (advance_row (max rowid 0) eid rc meta now) (ps_watermarks (ensure_watermark_row n now s))\<rparr>"
    using assms by (auto simp: advance_projection_watermark_def Let_def rbind_Inr_iff)
  show "wm_at m s' = (if m = n then advance_row (max rowid 0) eid rc meta now (wm_at n s) else wm_at m s)"
    unfolding s' by (rule wm_at_update) simp_all
  show "ps_results s' = ps_results s" by (simp add: s')
qed

lemma advance_projection_error_watermark_effect:
  assumes "advance_projection_error_watermark now n rowid eid rc msg s = Inr (w, s')" "normalize_projection_name n = Inr n"
  shows "wm_at m s' = (if m = n then advance_error_row (max rowid 0) eid rc msg now (wm_at n s) else wm_at m s)"
    and "ps_results s' = ps_results s"
proof -
  have s': "s' = (ensure_watermark_row n now s)\<lparr>ps_watermarks := sql_update (\<lambda>w. w_projection_name w = n)
      (advance_error_row (max rowid 0) eid rc msg now) (ps_watermarks (ensure_watermark_row n now s))\<rparr>"
    using assms by (auto simp: advance_projection_error_watermark_def Let_def rbind_Inr_iff)
  show "wm_at m s' = (if m = n then advance_error_row (max rowid 0) eid rc msg now (wm_at n s) else wm_at m s)"
    unfolding s' by (rule wm_at_update) simp_all
  show "ps_results s' = ps_results s" by (simp add: s')
qed

lemma normalize_projection_name_idem: "normalize_projection_name n = Inr m \<Longrightarrow> normalize_projection_name m = Inr m"
  by (auto simp: normalize_projection_name_def Let_def py_strip_lower split: if_splits)

lemma advance_succeeds:
  assumes "normalize_projection_name n = Inr n"
  shows "\<exists>w s'. advance_projection_watermark now n rowid eid rc meta s = Inr (w, s')"
    and "\<exists>w s'. advance_projection_error_watermark now n rowid eid rc msg s = Inr (w, s')"
  using assms by (auto simp: advance_projection_watermark_def advance_projection_error_watermark_def
      get_projection_watermark_def Let_def)

section \<open>The contract of the result log\<close>

definition result_at :: "string \<Rightarrow> string \<Rightarrow> projection_state \<Rightarrow> event_result option" where
  "result_at n e s = lookup_by result_key (n, e) (ps_results s)"

lemma upsert_result_at:
  "lookup_by result_key k (upsert_result new rs) =
     (if k = result_key new
      then Some (case lookup_by result_key k rs of None \<Rightarrow> new
        | Some r \<Rightarrow> new\<lparr>er_first_processed_at := er_first_processed_at r, er_attempt_count := er_attempt_count r + 1\<rparr>)
      else lookup_by result_key k rs)"
proof (cases "lookup_by result_key (result_key new) rs")
  case None
  then show ?thesis by (auto simp: upsert_result_def lookup_by_append split: option.split)
next
  case (Some r)
  define f where "f = (\<lambda>r :: event_result. r\<lparr>er_event_rowid := er_event_rowid new, er_event_type := er_event_type new,
                 er_status := er_status new, er_outcome := er_outcome new,
                 er_error_message := er_error_message new, er_processed_at := er_processed_at new,
                 er_attempt_count := er_attempt_count r + 1, er_metadata := er_metadata (new :: event_result)\<rparr>)"
  have f: "result_key (f r) = result_key r" for r by (simp add: f_def result_key_def)
  have k: "result_key r = result_key new" using Some by (auto dest: lookup_by_SomeD)
  have "f r = new\<lparr>er_first_processed_at := er_first_processed_at r, er_attempt_count := er_attempt_count r + 1\<rparr>"
    using k by (simp add: f_def result_key_def)
  moreover have "upsert_result new rs = sql_update (\<lambda>r. result_key r = result_key new) f rs"
    using Some by (simp add: upsert_result_def f_def)
  moreover have "map_option (\<lambda>r. if result_key r = result_key new then f r else r) (lookup_by result_key k rs) =
      lookup_by result_key k rs" if "k \<noteq> result_key new"
    using that by (cases "lookup_by result_key k rs") (auto dest: lookup_by_SomeD)
  ultimately show ?thesis
    using Some k by (cases "k = result_key new") (simp_all add: lookup_by_sql_update f)
qed

definition recorded ::
  "instant \<Rightarrow> string \<Rightarrow> string \<Rightarrow> result_status \<Rightarrow> string \<Rightarrow> event_position \<Rightarrow> string option \<Rightarrow> pydict \<Rightarrow> event_result" where
  "recorded now n e st oc pos msg meta =
     \<lparr> er_projection_name = n, er_event_id = e, er_event_rowid = p_event_rowid pos, er_event_type = p_event_type pos,
       er_status = st, er_outcome = oc, er_error_message = msg, er_first_processed_at = now, er_processed_at = now,
       er_attempt_count = 1, er_metadata = meta \<rparr>"

lemma result_key_recorded [simp]: "result_key (recorded now n e st oc pos msg meta) = (n, e)"
  by (simp add: recorded_def result_key_def)

lemma record_at_position_effect:
  assumes n: "normalize_projection_name n = Inr n"
    and r: "record_at_position now n e st oc pos msg meta s = Inr s'"
  shows "wm_at m s' = (if m = n then
       (if st = RS_SUCCESS
        then advance_row (max (p_event_rowid pos) 0) (Some e) (Some (p_received_at pos))
               [(''event_type'', PStr (p_event_type pos)), (''outcome'', PStr oc)] now (wm_at n s)
        else advance_error_row (max (p_event_rowid pos) 0) (Some e) (Some (p_received_at pos))
               (case msg of None \<Rightarrow> ''None'' | Some x \<Rightarrow> x) now (wm_at n s)) else wm_at m s)"
    and "ps_results s' = upsert_result (recorded now n e st oc pos msg meta) (ps_results s)"
proof -
  let ?s1 = "s\<lparr>ps_results := upsert_result (recorded now n e st oc pos msg meta) (ps_results s)\<rparr>"
  obtain w where w: "(if st = RS_SUCCESS
      then advance_projection_watermark now n (p_event_rowid pos) (Some e) (Some (p_received_at pos))
             [(''event_type'', PStr (p_event_type pos)), (''outcome'', PStr oc)] ?s1
      else advance_projection_error_watermark now n (p_event_rowid pos) (Some e) (Some (p_received_at pos))
             (case msg of None \<Rightarrow> ''None'' | Some x \<Rightarrow> x) ?s1) = Inr (w, s')"
    using r by (auto simp: record_at_position_def Let_def recorded_def rbind_Inr_iff split: if_splits)
  show "wm_at m s' = (if m = n then
       (if st = RS_SUCCESS
        then advance_row (max (p_event_rowid pos) 0) (Some e) (Some (p_received_at pos))
               [(''event_type'', PStr (p_event_type pos)), (''outcome'', PStr oc)] now (wm_at n s)
        else advance_error_row (max (p_event_rowid pos) 0) (Some e) (Some (p_received_at pos))
               (case msg of None \<Rightarrow> ''None'' | Some x \<Rightarrow> x) now (wm_at n s)) else wm_at m s)"
  proof (cases "st = RS_SUCCESS")
    case True
    then have "advance_projection_watermark now n (p_event_rowid pos) (Some e) (Some (p_received_at pos))
             [(''event_type'', PStr (p_event_type pos)), (''outcome'', PStr oc)] ?s1 = Inr (w, s')" using w by simp
    from advance_projection_watermark_effect(1) [OF this n, of m] True show ?thesis by simp
  next
    case False
    then have "advance_projection_error_watermark now n (p_event_rowid pos) (Some e) (Some (p_received_at pos))
             (case msg of None \<Rightarrow> ''None'' | Some x \<Rightarrow> x) ?s1 = Inr (w, s')" using w by simp
    from advance_projection_error_watermark_effect(1) [OF this n, of m] False show ?thesis by simp
  qed
  have "ps_results s' = ps_results ?s1"
    using w advance_projection_watermark_effect(2) [OF _ n] advance_projection_error_watermark_effect(2) [OF _ n]
    by (metis (no_types, lifting))
  then show "ps_results s' = upsert_result (recorded now n e st oc pos msg meta) (ps_results s)" by simp
qed

lemma record_projection_event_result_cases:
  assumes "record_projection_event_result evs now name eid st outcome rid ty rc msg meta s = Inr (res, s')"
  obtains (unknown) e where "res = None" "s' = s" "require_non_empty eid ''event_id'' = Inr e"
      "resolve_event_position evs e rid ty rc = None"
  | (written) n e rs oc pos where "normalize_projection_name name = Inr n" "normalize_projection_name n = Inr n"
      "require_non_empty eid ''event_id'' = Inr e" "parse_result_status st = Inr rs"
      "resolve_event_position evs e rid ty rc = Some pos" "record_at_position now n e rs oc pos msg meta s = Inr s'"
      "res = result_at n e s'"
proof -
  obtain n e rs oc where n: "normalize_projection_name name = Inr n" and e: "require_non_empty eid ''event_id'' = Inr e"
    and rs: "parse_result_status st = Inr rs"
    and rest: "(case resolve_event_position evs e rid ty rc of
         None \<Rightarrow> Inr (None, s)
       | Some pos \<Rightarrow>
           (if rs = RS_ERROR \<and> py_strip (case msg of None \<Rightarrow> [] | Some m \<Rightarrow> m) = []
            then Inl (ValueError ''error_message is required for ERROR projection result'')
            else rbind (record_at_position now n e rs (py_upper oc) pos msg meta s) (\<lambda>s2.
                   rbind (get_projection_event_result n e s2) (\<lambda>r. Inr (r, s2))))) = Inr (res, s')"
    using assms unfolding record_projection_event_result_def rbind_Inr_iff by blast
  show ?thesis
  proof (cases "resolve_event_position evs e rid ty rc")
    case None
    then show ?thesis using rest unknown e by simp
  next
    case (Some pos)
    have nn: "normalize_projection_name n = Inr n" by (rule normalize_projection_name_idem [OF n])
    have ee: "require_non_empty e ''event_id'' = Inr e"
      using e by (auto simp: require_non_empty_def Let_def split: if_splits)
    from rest Some have "record_at_position now n e rs (py_upper oc) pos msg meta s = Inr s'" "res = result_at n e s'"
      by (auto simp: rbind_Inr_iff get_projection_event_result_def nn ee result_at_def split: if_splits)
    then show ?thesis using written [OF n nn e rs Some] by blast
  qed
qed

section \<open>Sinks with a level that never falls\<close>

locale level_sink =
  fixes sink :: "'s \<Rightarrow> 's \<Rightarrow> bool"
    and level :: "'n \<Rightarrow> 's \<Rightarrow> int"
  assumes level_mono: "sink s s' \<Longrightarrow> level n s \<le> level n s'"
begin

lemma level_star: "sink\<^sup>*\<^sup>* s s' \<Longrightarrow> level n s \<le> level n s'"
  by (induction rule: rtranclp_induct) (auto dest: level_mono [of _ _ n])

lemma level_reached: "level n s = k \<Longrightarrow> sink\<^sup>*\<^sup>* s s' \<Longrightarrow> k \<le> level n s'"
  using level_star by blast

end

inductive projection_step :: "projection_state \<Rightarrow> projection_state \<Rightarrow> bool" where
  result: "record_projection_event_result evs now name eid st outcome rid ty rc msg meta s = Inr (res, s')
     \<Longrightarrow> projection_step s s'"

lemma projection_step_rows:
  assumes "projection_step s s'"
  shows "(\<exists>rowid eid rc meta now. wm_at n s' = advance_row rowid eid rc meta now (wm_at n s))
     \<or> (\<exists>rowid eid rc msg now. wm_at n s' = advance_error_row rowid eid rc msg now (wm_at n s)) \<or> wm_at n s' = wm_at n s"
  using assms
proof (cases rule: projection_step.cases)
  case (result evs now name eid st outcome rid ty rc msg meta res)
  then show ?thesis
  proof (cases rule: record_projection_event_result_cases)
    case (written n' e rs oc pos)
    note eff = record_at_position_effect(1) [OF written(2,6), of n]
    show ?thesis
    proof (cases "n = n'")
      case True
      then show ?thesis using eff by (cases "rs = RS_SUCCESS") (simp_all, blast+)
    qed (simp add: eff)
  qed simp
qed

lemma row_levels:
  "w_last_event_rowid w \<le> w_last_event_rowid (advance_row rowid eid rc meta now w)"
  "w_last_success_event_rowid w \<le> w_last_success_event_rowid (advance_row rowid eid rc meta now w)"
  "w_last_error_event_rowid (advance_row rowid eid rc meta now w) = w_last_error_event_rowid w"
  "w_last_event_rowid (advance_error_row rowid eid rc msg now w) = w_last_event_rowid w"
  "w_last_success_event_rowid (advance_error_row rowid eid rc msg now w) = w_last_success_event_rowid w"
  "w_last_error_event_rowid w \<le> w_last_error_event_rowid (advance_error_row rowid eid rc msg now w)"
  by (simp_all add: advance_row_def advance_error_row_def Let_def)

interpretation last_event: level_sink projection_step "\<lambda>n s. w_last_event_rowid (wm_at n s)"
proof
  fix s s' n assume "projection_step s s'"
  from projection_step_rows [OF this, of n] show "w_last_event_rowid (wm_at n s) \<le> w_last_event_rowid (wm_at n s')"
    by (auto simp: row_levels)
qed

interpretation last_success: level_sink projection_step "\<lambda>n s. w_last_success_event_rowid (wm_at n s)"
proof
  fix s s' n assume "projection_step s s'"
  from projection_step_rows [OF this, of n]
  show "w_last_success_event_rowid (wm_at n s) \<le> w_last_success_event_rowid (wm_at n s')" by (auto simp: row_levels)
qed

interpretation last_error: level_sink projection_step "\<lambda>n s. w_last_error_event_rowid (wm_at n s)"
proof
  fix s s' n assume "projection_step s s'"
  from projection_step_rows [OF this, of n]
  show "w_last_error_event_rowid (wm_at n s) \<le> w_last_error_event_rowid (wm_at n s')" by (auto simp: row_levels)
qed
section \<open>Replaying successes\<close>

fun record_successes ::
  "instant \<Rightarrow> string \<Rightarrow> (string \<times> int \<times> string \<times> instant) list \<Rightarrow> projection_state \<Rightarrow> projection_state result" where
  "record_successes now n [] s = Inr s"
| "record_successes now n ((eid, rowid, ty, rc) # evs) s =
     rbind (record_projection_event_result [] now n eid ''SUCCESS'' ''APPLIED'' (Some rowid) (Some ty) (Some rc) None [] s)
       (\<lambda>(_, s1). record_successes now n evs s1)"

lemma record_at_position_succeeds:
  assumes "normalize_projection_name n = Inr n"
  shows "\<exists>s'. record_at_position now n e st oc pos msg meta s = Inr s'"
proof (cases "st = RS_SUCCESS")
  case True
  then show ?thesis
    using advance_succeeds(1) [OF assms, of now "p_event_rowid pos" "Some e" "Some (p_received_at pos)"
        "[(''event_type'', PStr (p_event_type pos)), (''outcome'', PStr oc)]"]
    by (fastforce simp: record_at_position_def Let_def rbind_Inr_iff)
next
  case False
  then show ?thesis
    using advance_succeeds(2) [OF assms, of now "p_event_rowid pos" "Some e" "Some (p_received_at pos)"
        "case msg of None \<Rightarrow> ''None'' | Some m \<Rightarrow> m"]
    by (fastforce simp: record_at_position_def Let_def rbind_Inr_iff)
qed

lemma record_success_effect:
  assumes n: "normalize_projection_name n = Inr n" and eid: "py_strip eid \<noteq> []" and ty: "ty \<noteq> []"
  shows "\<exists>res s'. record_projection_event_result evs now n eid ''SUCCESS'' ''APPLIED'' (Some rowid) (Some ty) (Some rc) None meta s
       = Inr (res, s')
     \<and> w_last_success_event_rowid (wm_at n s') = max (w_last_success_event_rowid (wm_at n s)) (max rowid 0)
     \<and> w_last_event_rowid (wm_at n s') = max (w_last_event_rowid (wm_at n s)) (max rowid 0)"
proof -
  have st: "parse_result_status ''SUCCESS'' = Inr RS_SUCCESS" "require_non_empty ''APPLIED'' ''outcome'' = Inr ''APPLIED''"
    by code_simp+
  define e where "e = py_strip eid"
  have e: "require_non_empty eid ''event_id'' = Inr e" "require_non_empty e ''event_id'' = Inr e"
    using eid by (simp_all add: require_non_empty_def e_def)
  define pos where "pos = \<lparr> p_event_rowid = rowid, p_event_type = py_lower (py_strip ty), p_received_at = rc \<rparr>"
  have pos: "resolve_event_position evs e (Some rowid) (Some ty) (Some rc) = Some pos"
    using ty by (simp add: resolve_event_position_def pos_def text_given_def)
  obtain s' where s': "record_at_position now n e RS_SUCCESS (py_upper ''APPLIED'') pos None meta s = Inr s'"
    using record_at_position_succeeds [OF n] by blast
  have "record_projection_event_result evs now n eid ''SUCCESS'' ''APPLIED'' (Some rowid) (Some ty) (Some rc) None meta s
      = Inr (result_at n e s', s')"
    by (simp add: record_projection_event_result_def n e st pos s' get_projection_event_result_def result_at_def)
  moreover have "wm_at n s' = advance_row (max rowid 0) (Some e) (Some rc)
      [(''event_type'', PStr (p_event_type pos)), (''outcome'', PStr (py_upper ''APPLIED''))] now (wm_at n s)"
    using record_at_position_effect(1) [OF n s', of n] by (simp add: pos_def)
  ultimately show ?thesis by (auto simp: advance_row_def Let_def)
qed

section \<open>Properties\<close>

definition empty_projections :: projection_state where
  "empty_projections = \<lparr> ps_watermarks = [], ps_results = [] \<rparr>"

text \<open>
  C34: Watermarks never move backwards. Along any sequence of recorded results, successes and errors,
  in any order and for any projections, the last-event, last-success and last-error positions of every
  projection only grow.
\<close>

theorem watermarks_never_regress:
  assumes "projection_step\<^sup>*\<^sup>* s s'"
  shows "w_last_event_rowid (wm_at n s) \<le> w_last_event_rowid (wm_at n s')
     \<and> w_last_success_event_rowid (wm_at n s) \<le> w_last_success_event_rowid (wm_at n s')
     \<and> w_last_error_event_rowid (wm_at n s) \<le> w_last_error_event_rowid (wm_at n s')"
  using last_event.level_star [OF assms] last_success.level_star [OF assms] last_error.level_star [OF assms] by blast

theorem watermarks_never_regress_witness:
  "\<exists>s'. projection_step\<^sup>*\<^sup>* empty_projections s'
     \<and> w_last_success_event_rowid (wm_at ''market_data'' empty_projections) \<le> w_last_success_event_rowid (wm_at ''market_data'' s')
     \<and> w_last_success_event_rowid (wm_at ''market_data'' s') = 7"
proof -
  have n: "normalize_projection_name ''market_data'' = Inr ''market_data''" by code_simp
  have e: "py_strip ''e1'' \<noteq> []" by code_simp
  obtain res s' where r: "record_projection_event_result [] 5 ''market_data'' ''e1'' ''SUCCESS'' ''APPLIED'' (Some 7)
      (Some ''price_tick'') (Some 3) None [] empty_projections = Inr (res, s')"
    and l: "w_last_success_event_rowid (wm_at ''market_data'' s') =
       max (w_last_success_event_rowid (wm_at ''market_data'' empty_projections)) (max 7 0)"
    using record_success_effect [OF n e, of "''price_tick''" "[]" 5 7 3 "[]" empty_projections] by auto
  have st: "projection_step\<^sup>*\<^sup>* empty_projections s'" using projection_step.result [OF r] by (rule r_into_rtranclp)
  have "w_last_success_event_rowid (wm_at ''market_data'' s') = 7"
    using l by (simp add: wm_at_def empty_projections_def fresh_watermark_def)
  with watermarks_never_regress [OF st, of "''market_data''"] st show ?thesis by blast
qed

text \<open>
  The success watermark after a batch does not depend on the order in which the events were
  projected: recording them always succeeds, and the watermark ends at the largest position among
  the events and where it stood before.
\<close>

theorem success_watermark_is_maximum:
  assumes "normalize_projection_name n = Inr n"
    and "\<forall>ev \<in> set evs. py_strip (fst ev) \<noteq> [] \<and> fst (snd (snd ev)) \<noteq> []"
  shows "\<exists>s'. record_successes now n evs s = Inr s'
     \<and> w_last_success_event_rowid (wm_at n s') =
         Max (insert (w_last_success_event_rowid (wm_at n s)) ((\<lambda>ev. max (fst (snd ev)) 0) ` set evs))"
  using assms(2)
proof (induction evs arbitrary: s)
  case (Cons ev evs)
  obtain eid rowid ty rc where ev: "ev = (eid, rowid, ty, rc)" by (cases ev) auto
  with Cons.prems have "py_strip eid \<noteq> []" "ty \<noteq> []" by auto
  from record_success_effect [OF assms(1) this, of "[]" now rowid rc "[]" s]
  obtain res s1 where r: "record_projection_event_result [] now n eid ''SUCCESS'' ''APPLIED'' (Some rowid) (Some ty) (Some rc) None [] s = Inr (res, s1)"
    and l: "w_last_success_event_rowid (wm_at n s1) = max (w_last_success_event_rowid (wm_at n s)) (max rowid 0)" by blast
  obtain s' where s': "record_successes now n evs s1 = Inr s'"
    "w_last_success_event_rowid (wm_at n s') =
       Max (insert (w_last_success_event_rowid (wm_at n s1)) ((\<lambda>ev. max (fst (snd ev)) 0) ` set evs))"
    using Cons.IH [of s1] Cons.prems by auto
  define A where "A = (\<lambda>ev :: string \<times> int \<times> string \<times> instant. max (fst (snd ev)) 0) ` set evs"
  define k where "k = w_last_success_event_rowid (wm_at n s)"
  have "Max (insert (max k (max rowid 0)) A) = Max (insert k (insert (max rowid 0) A))"
    by (cases "A = {}") (simp_all add: A_def max.assoc)
  then show ?case using r l s' ev by (simp add: A_def k_def)
qed simp

theorem success_watermark_is_maximum_witness:
  "\<exists>s'. record_successes 5 ''market_data'' [(''e2'', 9, ''price_tick'', 2), (''e1'', 4, ''price_tick'', 1)] empty_projections = Inr s'
     \<and> w_last_success_event_rowid (wm_at ''market_data'' s') = 9"
proof -
  have n: "normalize_projection_name ''market_data'' = Inr ''market_data''" by code_simp
  have "\<forall>ev \<in> set [(''e2'', 9 :: int, ''price_tick'', 2 :: instant), (''e1'', 4, ''price_tick'', 1)].
      py_strip (fst ev) \<noteq> [] \<and> fst (snd (snd ev)) \<noteq> []" by code_simp
  from success_watermark_is_maximum [OF n this, of 5 empty_projections] show ?thesis
    by (simp add: wm_at_def empty_projections_def fresh_watermark_def)
qed

text \<open>
  One result row per projection and event: recording a result again keeps the time of the first
  processing, counts the attempt, takes over the new status, and touches no other row.
\<close>

theorem result_recorded_again:
  assumes "record_projection_event_result evs now name eid st outcome rid ty rc msg meta s = Inr (Some r', s')"
    and "result_at (er_projection_name r') (er_event_id r') s = Some r"
  shows "er_first_processed_at r' = er_first_processed_at r \<and> er_attempt_count r' = er_attempt_count r + 1
     \<and> er_processed_at r' = now \<and> parse_result_status st = Inr (er_status r')
     \<and> (\<forall>m e. (m, e) \<noteq> result_key r' \<longrightarrow> result_at m e s' = result_at m e s)"
  using assms(1)
proof (cases rule: record_projection_event_result_cases)
  case (written n e rs oc pos)
  have res: "ps_results s' = upsert_result (recorded now n e rs oc pos msg meta) (ps_results s)"
    by (rule record_at_position_effect(2) [OF written(2,6)])
  have at': "result_at m x s' = (if (m, x) = (n, e)
      then Some (case result_at n e s of None \<Rightarrow> recorded now n e rs oc pos msg meta
        | Some r \<Rightarrow> (recorded now n e rs oc pos msg meta)\<lparr>er_first_processed_at := er_first_processed_at r,
                     er_attempt_count := er_attempt_count r + 1\<rparr>)
      else result_at m x s)" for m x
    unfolding result_at_def res upsert_result_at by auto
  from written(7) have r': "result_at n e s' = Some r'" by simp
  then have key: "er_projection_name r' = n" "er_event_id r' = e"
    unfolding result_at_def using lookup_by_SomeD by (force simp: result_key_def)+
  then have "r' = (recorded now n e rs oc pos msg meta)\<lparr>er_first_processed_at := er_first_processed_at r,
      er_attempt_count := er_attempt_count r + 1\<rparr>"
    using assms(2) r' at' [of n e] by simp
  then show ?thesis using at' written(4) key by (auto simp: recorded_def result_key_def)
qed simp


theorem result_recorded_again_witness:
  "\<exists>s1 s2 r1 r2.
     record_projection_event_result [] 5 ''market_data'' ''e1'' ''error'' ''retry'' (Some 7) (Some ''price_tick'') (Some 3) (Some ''boom'') [] empty_projections = Inr (Some r1, s1)
   \<and> record_projection_event_result [] 8 ''market_data'' ''e1'' ''success'' ''applied'' (Some 7) (Some ''price_tick'') (Some 3) None [] s1 = Inr (Some r2, s2)
   \<and> er_first_processed_at r2 = 5 \<and> er_attempt_count r2 = 2"
proof -
  define a where "a = record_projection_event_result [] 5 ''market_data'' ''e1'' ''error'' ''retry'' (Some 7) (Some ''price_tick'') (Some 3) (Some ''boom'') [] empty_projections"
  define s1 where "s1 = (case a of Inr (_, s) \<Rightarrow> s | Inl _ \<Rightarrow> empty_projections)"
  define r1 where "r1 = the (result_at ''market_data'' ''e1'' s1)"
  define b where "b = record_projection_event_result [] 8 ''market_data'' ''e1'' ''success'' ''applied'' (Some 7) (Some ''price_tick'') (Some 3) None [] s1"
  define s2 where "s2 = (case b of Inr (_, s) \<Rightarrow> s | Inl _ \<Rightarrow> s1)"
  define r2 where "r2 = the (result_at ''market_data'' ''e1'' s2)"
  have a: "a = Inr (Some r1, s1)" unfolding r1_def s1_def a_def by code_simp
  have b: "b = Inr (Some r2, s2)" unfolding r2_def s2_def b_def s1_def a_def by code_simp
  have r1: "result_at (er_projection_name r2) (er_event_id r2) s1 = Some r1" "er_first_processed_at r1 = 5" "er_attempt_count r1 = 1"
    unfolding r1_def r2_def s2_def b_def s1_def a_def by code_simp+
  from result_recorded_again [OF b [unfolded b_def] r1(1)] a b r1 show ?thesis unfolding a_def b_def by auto
qed

end
