(* ===== verification/Projection_Outbox.thy ===== *)
theory Projection_Outbox
  imports Projection_Watermarks Command_Row
begin

text \<open>
  The projection outbox (storage/projection_outbox.py): one job per projection and event, claimed by
  workers under a lock and marked applied, skipped, failed or dead. The results a worker reports go
  to the watermark component. \<open>wire\<close> renders an instant inside a job's metadata.
\<close>

section \<open>State\<close>

datatype outbox_status = PENDING | PROCESSING | APPLIED | SKIPPED | OB_ERROR | DEAD_LETTER

fun status_text :: "outbox_status \<Rightarrow> string" where
  "status_text PENDING = ''PENDING''"
| "status_text PROCESSING = ''PROCESSING''"
| "status_text APPLIED = ''APPLIED''"
| "status_text SKIPPED = ''SKIPPED''"
| "status_text OB_ERROR = ''ERROR''"
| "status_text DEAD_LETTER = ''DEAD_LETTER''"

record outbox_row =
  o_outbox_id :: string
  o_projection_name :: string
  o_event_id :: string
  o_event_type :: string
  o_event_rowid :: "int option"
  o_source :: string
  o_status :: outbox_status
  o_priority :: int
  o_attempts :: int
  o_last_error :: "string option"
  o_available_at :: "instant option"
  o_locked_by :: "string option"
  o_locked_at :: "instant option"
  o_created_at :: instant
  o_updated_at :: instant
  o_processed_at :: "instant option"
  o_metadata :: pydict

record outbox_state =
  x_jobs :: "outbox_row list"
  x_projections :: projection_state

datatype outbox_error = Outbox_Integrity string | Outbox_Value py_error

section \<open>Which projections an event feeds\<close>

definition EXCLUDED_EVENT_TYPES :: "string list" where
  "EXCLUDED_EVENT_TYPES =
     [''heartbeat'', ''gateway_log'', ''command_started'', ''command_ack'', ''command_failed'', ''rate_limited'',
      ''order_pre_ack'', ''execution_event'', ''kiwoom_order_chejan'', ''kiwoom_balance_chejan'',
      ''kiwoom_special_chejan'']"

definition DIRECT_EVENT_PROJECTIONS :: "(string \<times> string list) list" where
  "DIRECT_EVENT_PROJECTIONS =
     [(''price_tick'', [''market_data'']), (''condition_event'', [''market_data'', ''condition_fusion'']),
      (''tr_response'', [''market_data'']), (''market_symbols'', [''market_reference'']),
      (''market_index_tick'', [''market_index'', ''market_regime''])]"

definition normalize_event_type :: "string \<Rightarrow> string" where
  "normalize_event_type ty = py_lower (py_strip ty)"

definition is_scan_event_type :: "string \<Rightarrow> bool" where
  "is_scan_event_type ty \<longleftrightarrow> ty = ''market_scan'' \<or> py_startswith ty ''market_scan_''"

definition projection_jobs_for_gateway_event :: "string \<Rightarrow> string list" where
  "projection_jobs_for_gateway_event event_type =
     (let n = normalize_event_type event_type in
      if n \<in> set EXCLUDED_EVENT_TYPES then []
      else case map_of DIRECT_EVENT_PROJECTIONS n of
             Some ps \<Rightarrow> ps
           | None \<Rightarrow> (if is_scan_event_type n then [''market_scan''] else []))"

definition append_projection_job :: "string list \<Rightarrow> string \<Rightarrow> string list" where
  "append_projection_job specs name = (if name \<in> set specs then specs else specs @ [name])"

definition lower_text :: "repr \<Rightarrow> pyval \<Rightarrow> string" where
  \<comment> \<open>\<open>str(v or "").strip().lower()\<close>\<close>
  "lower_text rp v = py_lower (py_strip (py_str rp (py_or v (PStr []))))"

definition is_scan_related_tr_response :: "repr \<Rightarrow> gateway_event \<Rightarrow> bool" where
  "is_scan_related_tr_response rp ev \<longleftrightarrow>
     normalize_event_type (v_event_type ev) = ''tr_response''
   \<and> (py_startswith (lower_text rp (dget (v_payload ev) ''request_id'')) ''market_scan:''
      \<or> py_startswith (lower_text rp (dget (v_payload ev) ''request_name'')) ''market_scan_''
      \<or> (case dget (v_payload ev) ''metadata'' of
           PDict m \<Rightarrow> py_str rp (py_or (dget m ''source'') (PStr [])) = ''market_scan''
         | _ \<Rightarrow> False))"

definition is_market_index_bootstrap_tr_response :: "repr \<Rightarrow> gateway_event \<Rightarrow> bool" where
  "is_market_index_bootstrap_tr_response rp ev \<longleftrightarrow>
     normalize_event_type (v_event_type ev) = ''tr_response''
   \<and> py_startswith (lower_text rp (dget (v_payload ev) ''request_id'')) ''market_index_tr_bootstrap:''
   \<and> (case dget (v_payload ev) ''metadata'' of
        PDict m \<Rightarrow>
          py_upper (py_strip (py_str rp (py_or (dget m ''projection_source'') (py_or (dget m ''source'') (PStr [])))))
            = ''KIWOOM_TR_BOOTSTRAP_MARKET_INDEX''
          \<and> lower_text rp (dget m ''tr_bootstrap_contract_version'') = ''v1''
      | _ \<Rightarrow> False)"

definition projection_jobs_for_event :: "repr \<Rightarrow> gateway_event \<Rightarrow> string list" where
  "projection_jobs_for_event rp ev =
     (let specs = projection_jobs_for_gateway_event (v_event_type ev);
          specs1 = (if is_scan_related_tr_response rp ev then append_projection_job specs ''market_scan'' else specs) in
      if is_market_index_bootstrap_tr_response rp ev
      then append_projection_job (append_projection_job specs1 ''market_index'') ''market_regime''
      else specs1)"

section \<open>Enqueueing\<close>

definition outbox_id_of :: "string \<Rightarrow> string \<Rightarrow> string" where
  "outbox_id_of projection_name event_id = projection_name @ '':'' @ event_id"

definition opt_pstr :: "string option \<Rightarrow> pyval" where
  "opt_pstr v = (case v of None \<Rightarrow> PNone | Some s \<Rightarrow> PStr s)"

definition job_metadata :: "gateway_event \<Rightarrow> pydict" where
  "job_metadata ev =
     [(''shadow_mode'', PBool True), (''worker_enabled'', PBool False), (''source_event_id'', PStr (v_event_id ev)),
      (''source_event_type'', PStr (normalize_event_type (v_event_type ev))),
      (''source_command_id'', opt_pstr (v_command_id ev)),
      (''source_idempotency_key'', opt_pstr (v_idempotency_key ev))]"

definition job_key :: "outbox_row \<Rightarrow> string \<times> string" where
  "job_key r = (o_projection_name r, o_event_id r)"

definition new_job :: "gateway_event \<Rightarrow> int option \<Rightarrow> instant \<Rightarrow> string \<Rightarrow> outbox_row" where
  "new_job ev rowid now p =
     \<lparr> o_outbox_id = outbox_id_of p (v_event_id ev), o_projection_name = p, o_event_id = v_event_id ev,
       o_event_type = normalize_event_type (v_event_type ev), o_event_rowid = rowid, o_source = v_source ev,
       o_status = PENDING, o_priority = 0, o_attempts = 0, o_last_error = None, o_available_at = Some now,
       o_locked_by = None, o_locked_at = None, o_created_at = now, o_updated_at = now, o_processed_at = None,
       o_metadata = job_metadata ev \<rparr>"

definition insert_job :: "outbox_row \<Rightarrow> outbox_row list \<Rightarrow> outbox_error + (bool \<times> outbox_row list)" where
  \<comment> \<open>\<open>INSERT ... ON CONFLICT(projection_name, event_id) DO NOTHING\<close>, with the row count as a flag\<close>
  "insert_job j js =
     (if lookup_by job_key (job_key j) js \<noteq> None then Inr (False, js)
      else if lookup_by o_outbox_id (o_outbox_id j) js \<noteq> None
      then Inl (Outbox_Integrity ''UNIQUE constraint failed: projection_outbox.outbox_id'')
      else Inr (True, js @ [j]))"

record enqueue_outcome =
  n_status :: string
  n_event_id :: string
  n_event_type :: string
  n_job_count :: nat
  n_created_count :: nat
  n_duplicate_count :: nat
  n_jobs :: "(string \<times> string \<times> bool) list"

fun insert_jobs ::
  "gateway_event \<Rightarrow> int option \<Rightarrow> instant \<Rightarrow> string list \<Rightarrow> outbox_row list
   \<Rightarrow> outbox_error + ((string \<times> string \<times> bool) list \<times> outbox_row list)" where
  "insert_jobs ev rowid now [] js = Inr ([], js)"
| "insert_jobs ev rowid now (p # ps) js =
     rbind (insert_job (new_job ev rowid now p) js) (\<lambda>(created, js1).
     rbind (insert_jobs ev rowid now ps js1) (\<lambda>(report, js2).
       Inr ((outbox_id_of p (v_event_id ev), p, created) # report, js2)))"

definition enqueue_projection_jobs_for_gateway_event ::
  "repr \<Rightarrow> logged_event list \<Rightarrow> instant \<Rightarrow> gateway_event \<Rightarrow> int option \<Rightarrow> outbox_state
   \<Rightarrow> outbox_error + (enqueue_outcome \<times> outbox_state)" where
  "enqueue_projection_jobs_for_gateway_event rp evlog now ev event_rowid s =
     (let event_type = normalize_event_type (v_event_type ev);
          specs = projection_jobs_for_event rp ev;
          rowid = (case event_rowid of Some n \<Rightarrow> Some n
                   | None \<Rightarrow> map_option l_rowid (lookup_by l_event_id (v_event_id ev) evlog)) in
      if specs = []
      then Inr (\<lparr> n_status = ''NOOP'', n_event_id = v_event_id ev, n_event_type = event_type, n_job_count = 0,
                  n_created_count = 0, n_duplicate_count = 0, n_jobs = [] \<rparr>, s)
      else rbind (insert_jobs ev rowid now specs (x_jobs s)) (\<lambda>(report, js).
             let created = length (filter (\<lambda>(_, _, c). c) report) in
             Inr (\<lparr> n_status = (if created \<noteq> 0 then ''ENQUEUED'' else ''DUPLICATE''), n_event_id = v_event_id ev,
                    n_event_type = event_type, n_job_count = length specs, n_created_count = created,
                    n_duplicate_count = length report - created, n_jobs = report \<rparr>,
                  s\<lparr>x_jobs := js\<rparr>)))"

section \<open>Metadata\<close>

definition last_n :: "nat \<Rightarrow> 'a list \<Rightarrow> 'a list" where
  \<comment> \<open>\<open>xs[-n:]\<close> for positive \<open>n\<close>\<close>
  "last_n n xs = drop (length xs - n) xs"

definition history_of :: "pydict \<Rightarrow> pyval list" where
  "history_of m = (case dget m ''worker_history'' of PList h \<Rightarrow> h | _ \<Rightarrow> [])"

definition merge_metadata ::
  "(instant \<Rightarrow> string) \<Rightarrow> pydict \<Rightarrow> outbox_status \<Rightarrow> pydict \<Rightarrow> instant \<Rightarrow> string option \<Rightarrow> pydict" where
  "merge_metadata wire metadata status evidence marked_at error_message =
     (let entry = [(''status'', PStr (status_text status)), (''marked_at'', PStr (wire marked_at)),
                   (''evidence'', PDict evidence)]
                  @ (case error_message of None \<Rightarrow> [] | Some e \<Rightarrow> [(''error_message'', PStr e)]);
          m1 = dset ''worker_history'' (PList (last_n 20 (history_of metadata @ [PDict entry]))) metadata;
          m2 = dset ''last_worker_status'' (PStr (status_text status)) m1;
          m3 = dset ''last_worker_evidence'' (PDict evidence) m2 in
      case error_message of None \<Rightarrow> m3 | Some e \<Rightarrow> dset ''last_worker_error'' (PStr e) m3)"

section \<open>Inline retirement\<close>

definition retire_row :: "(instant \<Rightarrow> string) \<Rightarrow> outbox_status \<Rightarrow> pydict \<Rightarrow> instant \<Rightarrow> outbox_row \<Rightarrow> outbox_row" where
  "retire_row wire st evidence now r =
     r\<lparr>o_status := st, o_updated_at := now, o_processed_at := Some now, o_locked_by := None, o_locked_at := None,
       o_last_error := None, o_metadata := merge_metadata wire (o_metadata r) st evidence now None\<rparr>"

definition dict_update :: "pydict \<Rightarrow> pydict \<Rightarrow> pydict" where
  \<comment> \<open>\<open>{**a, **b}\<close>\<close>
  "dict_update a b = foldl (\<lambda>d (k, v). dset k v d) a b"

definition retire_inline_projection_outbox_job ::
  "(instant \<Rightarrow> string) \<Rightarrow> (string \<Rightarrow> bool) \<Rightarrow> instant \<Rightarrow> string \<Rightarrow> string \<Rightarrow> string \<Rightarrow> pydict \<Rightarrow> outbox_state
   \<Rightarrow> (bool \<times> outbox_state) result" where
  \<comment> \<open>\<open>skip_inline\<close> tells for which events a routing decision skips the inline projection\<close>
  "retire_inline_projection_outbox_job wire skip_inline now event_id projection_name terminal_status evidence s =
     rbind (require_non_empty event_id ''event_id'') (\<lambda>e.
     rbind (require_non_empty projection_name ''projection_name'') (\<lambda>p.
     rbind (require_non_empty terminal_status ''terminal_status'') (\<lambda>t.
       if py_upper t \<notin> {''APPLIED'', ''SKIPPED''}
       then Inl (ValueError ''terminal_status must be APPLIED or SKIPPED'')
       else
         let st = (if py_upper t = ''APPLIED'' then APPLIED else SKIPPED) in
         case sql_find (\<lambda>r. o_event_id r = e \<and> o_projection_name r = py_lower p \<and> o_status r = PENDING) (x_jobs s) of
           None \<Rightarrow> Inr (False, s)
         | Some row \<Rightarrow>
             (if skip_inline e then Inr (False, s)
              else
                let inline = dict_update [(''source'', PStr ''gateway_batch_inline_projection''),
                       (''inline_projection_terminal'', PBool True), (''no_trading_side_effects'', PBool True)] evidence in
                Inr (True, s\<lparr>x_jobs := sql_update (\<lambda>r. o_outbox_id r = o_outbox_id row \<and> o_status r = PENDING)
                                         (retire_row wire st inline now) (x_jobs s)\<rparr>)))))"

section \<open>Claiming\<close>

definition julianday_ms :: "instant \<Rightarrow> int" where
  \<comment> \<open>SQLite keeps \<open>julianday\<close> values at a resolution of a millisecond\<close>
  "julianday_ms t = (t + 500) div 1000"

definition claimable :: "instant \<Rightarrow> instant \<Rightarrow> outbox_row \<Rightarrow> bool" where
  "claimable now min_created_at r \<longleftrightarrow>
     o_status r = PENDING
   \<and> (case o_available_at r of None \<Rightarrow> True | Some a \<Rightarrow> julianday_ms a \<le> julianday_ms now)
   \<and> julianday_ms (o_created_at r) \<le> julianday_ms min_created_at"

definition claim_key :: "outbox_row \<Rightarrow> int \<times> (nat \<times> int) \<times> nat \<times> int \<times> string" where
  "claim_key r =
     (- o_priority r,
      (case o_event_rowid r of None \<Rightarrow> (0, 0) | Some n \<Rightarrow> (1, n)),
      (if o_projection_name r \<in> {''condition_fusion'', ''market_regime'', ''market_scan''} then 1 else 0),
      wire_key (o_created_at r), o_outbox_id r)"

definition claim_row :: "string \<Rightarrow> instant \<Rightarrow> outbox_row \<Rightarrow> outbox_row" where
  "claim_row owner now r =
     r\<lparr>o_status := PROCESSING, o_locked_by := Some owner, o_locked_at := Some now, o_updated_at := now\<rparr>"

fun claim_each ::
  "string \<Rightarrow> instant \<Rightarrow> instant \<Rightarrow> string list \<Rightarrow> outbox_row list \<Rightarrow> outbox_row list \<times> outbox_row list" where
  "claim_each owner now min_created_at [] js = ([], js)"
| "claim_each owner now min_created_at (oid # oids) js =
     (let hit = (\<lambda>r. o_outbox_id r = oid \<and> claimable now min_created_at r) in
      if sql_count hit js = 0 then claim_each owner now min_created_at oids js
      else let js1 = sql_update hit (claim_row owner now) js;
               (claimed, js2) = claim_each owner now min_created_at oids js1 in
           ((case lookup_by o_outbox_id oid js1 of None \<Rightarrow> claimed | Some r \<Rightarrow> r # claimed), js2))"

definition claim_candidates :: "instant \<Rightarrow> instant \<Rightarrow> string option \<Rightarrow> nat \<Rightarrow> outbox_row list \<Rightarrow> outbox_row list" where
  "claim_candidates now min_created_at projection limit js =
     take limit (sort_key claim_key
       (filter (\<lambda>r. claimable now min_created_at r
                  \<and> (case projection of None \<Rightarrow> True | Some p \<Rightarrow> o_projection_name r = p)) js))"

definition claim_projection_outbox_jobs ::
  "instant \<Rightarrow> string \<Rightarrow> int \<Rightarrow> rat \<Rightarrow> string option \<Rightarrow> outbox_state \<Rightarrow> (outbox_row list \<times> outbox_state) result" where
  "claim_projection_outbox_jobs now owner_id limit min_age_sec projection_name s =
     rbind (require_non_empty owner_id ''owner_id'') (\<lambda>owner.
     rbind (case projection_name of None \<Rightarrow> Inr None
            | Some p \<Rightarrow> rbind (require_non_empty p ''projection_name'') (\<lambda>q. Inr (Some (py_lower q)))) (\<lambda>projection.
       let min_created_at = now - round_half_even (max min_age_sec 0 * of_int microseconds);
           candidates = claim_candidates now min_created_at projection (nat (clamp_int 1 500 limit)) (x_jobs s);
           (claimed, js) = claim_each owner now min_created_at (map o_outbox_id candidates) (x_jobs s) in
       Inr (claimed, s\<lparr>x_jobs := js\<rparr>)))"

section \<open>Marking\<close>

definition locked_job :: "string \<Rightarrow> string \<Rightarrow> outbox_row \<Rightarrow> bool" where
  "locked_job oid owner r \<longleftrightarrow> o_outbox_id r = oid \<and> o_locked_by r = Some owner"

definition finish_row :: "(instant \<Rightarrow> string) \<Rightarrow> outbox_status \<Rightarrow> pydict \<Rightarrow> instant \<Rightarrow> outbox_row \<Rightarrow> outbox_row" where
  "finish_row wire st evidence now r =
     r\<lparr>o_status := st, o_locked_by := None, o_locked_at := None, o_updated_at := now, o_processed_at := Some now,
       o_last_error := None, o_metadata := merge_metadata wire (o_metadata r) st evidence now None\<rparr>"

definition mark_projection_outbox_terminal ::
  "(instant \<Rightarrow> string) \<Rightarrow> logged_event list \<Rightarrow> instant \<Rightarrow> string \<Rightarrow> string \<Rightarrow> outbox_status \<Rightarrow> pydict \<Rightarrow> outbox_state
   \<Rightarrow> outbox_state result" where
  "mark_projection_outbox_terminal wire evlog now outbox_id owner_id status evidence s =
     rbind (require_non_empty outbox_id ''outbox_id'') (\<lambda>oid.
     rbind (require_non_empty owner_id ''owner_id'') (\<lambda>owner.
       case sql_find (locked_job oid owner) (x_jobs s) of
         None \<Rightarrow> Inr s
       | Some row \<Rightarrow>
           rbind (if status = APPLIED
                  then rbind (record_projection_event_result evlog now (o_projection_name row) (o_event_id row)
                                ''SUCCESS'' ''OUTBOX_APPLIED'' (o_event_rowid row) (Some (o_event_type row)) None None
                                [(''source'', PStr ''projection_outbox''), (''evidence'', PDict evidence)]
                                (x_projections s)) (\<lambda>(_, ps). Inr ps)
                  else Inr (x_projections s)) (\<lambda>ps.
             Inr \<lparr> x_jobs = sql_update (locked_job oid owner) (finish_row wire status evidence now) (x_jobs s),
                   x_projections = ps \<rparr>)))"

definition mark_projection_outbox_applied ::
  "(instant \<Rightarrow> string) \<Rightarrow> logged_event list \<Rightarrow> instant \<Rightarrow> string \<Rightarrow> string \<Rightarrow> pydict \<Rightarrow> outbox_state \<Rightarrow> outbox_state result" where
  "mark_projection_outbox_applied wire evlog now outbox_id owner_id evidence s =
     mark_projection_outbox_terminal wire evlog now outbox_id owner_id APPLIED evidence s"

definition mark_projection_outbox_skipped ::
  "(instant \<Rightarrow> string) \<Rightarrow> logged_event list \<Rightarrow> instant \<Rightarrow> string \<Rightarrow> string \<Rightarrow> string \<Rightarrow> pydict \<Rightarrow> outbox_state
   \<Rightarrow> outbox_state result" where
  "mark_projection_outbox_skipped wire evlog now outbox_id owner_id reason evidence s =
     rbind (require_non_empty reason ''reason'') (\<lambda>r.
       mark_projection_outbox_terminal wire evlog now outbox_id owner_id SKIPPED (dset ''reason'' (PStr r) evidence) s)"

definition error_row ::
  "(instant \<Rightarrow> string) \<Rightarrow> outbox_status \<Rightarrow> int \<Rightarrow> string \<Rightarrow> pydict \<Rightarrow> instant \<Rightarrow> outbox_row \<Rightarrow> outbox_row" where
  "error_row wire st attempts err evidence now r =
     r\<lparr>o_status := st, o_attempts := attempts, o_last_error := Some err, o_locked_by := None, o_locked_at := None,
       o_updated_at := now,
       o_processed_at := (if st = DEAD_LETTER then Some now else o_processed_at r),
       o_metadata := merge_metadata wire (o_metadata r) st evidence now (Some err)\<rparr>"

definition retry_row ::
  "(instant \<Rightarrow> string) \<Rightarrow> outbox_status \<Rightarrow> int \<Rightarrow> string \<Rightarrow> pydict \<Rightarrow> instant \<Rightarrow> outbox_row \<Rightarrow> outbox_row" where
  "retry_row wire st attempts err evidence now r =
     r\<lparr>o_status := st, o_attempts := attempts, o_last_error := Some err, o_available_at := Some now,
       o_locked_by := None, o_locked_at := None, o_updated_at := now,
       o_processed_at := (if st = DEAD_LETTER then Some now else None),
       o_metadata := merge_metadata wire (o_metadata r) st evidence now (Some err)\<rparr>"

definition mark_failed ::
  "bool \<Rightarrow> (instant \<Rightarrow> string) \<Rightarrow> logged_event list \<Rightarrow> instant \<Rightarrow> string \<Rightarrow> string \<Rightarrow> string \<Rightarrow> int \<Rightarrow> pydict \<Rightarrow> outbox_state
   \<Rightarrow> outbox_state result" where
  \<comment> \<open>the common body of the two error marks; \<open>retryable\<close> says whether the job goes back to \<open>PENDING\<close>\<close>
  "mark_failed retryable wire evlog now outbox_id owner_id error_message retry_limit evidence s =
     rbind (require_non_empty outbox_id ''outbox_id'') (\<lambda>oid.
     rbind (require_non_empty owner_id ''owner_id'') (\<lambda>owner.
     rbind (require_non_empty error_message ''error_message'') (\<lambda>err.
       case sql_find (locked_job oid owner) (x_jobs s) of
         None \<Rightarrow> Inr s
       | Some row \<Rightarrow>
           (let attempts = o_attempts row + 1;
                st = (if attempts \<ge> retry_limit then DEAD_LETTER else if retryable then PENDING else OB_ERROR);
                outcome = (if st = DEAD_LETTER then ''DEAD_LETTER'' else if retryable then ''RETRY_PENDING'' else ''ERROR'') in
            rbind (record_projection_event_result evlog now (o_projection_name row) (o_event_id row)
                     ''ERROR'' outcome (o_event_rowid row) (Some (o_event_type row)) None (Some err)
                     [(''source'', PStr ''projection_outbox''), (''evidence'', PDict evidence)] (x_projections s)) (\<lambda>(_, ps).
              Inr \<lparr> x_jobs = sql_update (locked_job oid owner)
                       ((if retryable then retry_row else error_row) wire st attempts err evidence now) (x_jobs s),
                    x_projections = ps \<rparr>)))))"

definition mark_projection_outbox_error ::
  "(instant \<Rightarrow> string) \<Rightarrow> logged_event list \<Rightarrow> instant \<Rightarrow> string \<Rightarrow> string \<Rightarrow> string \<Rightarrow> int \<Rightarrow> pydict \<Rightarrow> outbox_state
   \<Rightarrow> outbox_state result" where
  "mark_projection_outbox_error = mark_failed False"

definition mark_projection_outbox_retryable_error ::
  "(instant \<Rightarrow> string) \<Rightarrow> logged_event list \<Rightarrow> instant \<Rightarrow> string \<Rightarrow> string \<Rightarrow> string \<Rightarrow> int \<Rightarrow> pydict \<Rightarrow> outbox_state
   \<Rightarrow> outbox_state result" where
  "mark_projection_outbox_retryable_error = mark_failed True"

definition release_row :: "instant \<Rightarrow> outbox_row \<Rightarrow> outbox_row" where
  "release_row now r = r\<lparr>o_status := PENDING, o_locked_by := None, o_locked_at := None, o_updated_at := now\<rparr>"

definition stale_processing :: "instant \<Rightarrow> outbox_row \<Rightarrow> bool" where
  "stale_processing cutoff r \<longleftrightarrow>
     o_status r = PROCESSING \<and> (case o_locked_at r of None \<Rightarrow> False | Some l \<Rightarrow> julianday_ms l \<le> julianday_ms cutoff)"

definition reset_stale_projection_outbox_processing :: "instant \<Rightarrow> int \<Rightarrow> outbox_state \<Rightarrow> nat \<times> outbox_state" where
  "reset_stale_projection_outbox_processing now stale_sec s =
     (let cutoff = after_sec now (- max stale_sec 0) in
      (sql_count (stale_processing cutoff) (x_jobs s),
       s\<lparr>x_jobs := sql_update (stale_processing cutoff) (release_row now) (x_jobs s)\<rparr>))"

section \<open>Reports\<close>

definition outbox_status_count :: "outbox_state \<Rightarrow> outbox_status \<Rightarrow> nat" where
  "outbox_status_count s st = sql_count (\<lambda>r. o_status r = st) (x_jobs s)"

definition outbox_counts_by_projection_name :: "outbox_state \<Rightarrow> (string \<times> nat \<times> (outbox_status \<Rightarrow> nat)) list" where
  "outbox_counts_by_projection_name s =
     map (\<lambda>p. (p, sql_count (\<lambda>r. o_projection_name r = p) (x_jobs s),
               \<lambda>st. sql_count (\<lambda>r. o_projection_name r = p \<and> o_status r = st) (x_jobs s)))
       (sort (remdups (map o_projection_name (x_jobs s))))"

fun parse_outbox_status :: "string \<Rightarrow> outbox_status result" where
  "parse_outbox_status t =
     (let n = py_upper (py_strip t) in
      case find (\<lambda>st. status_text st = n) [PENDING, PROCESSING, APPLIED, SKIPPED, OB_ERROR, DEAD_LETTER] of
        Some st \<Rightarrow> Inr st
      | None \<Rightarrow> Inl (ValueError (''unsupported projection_outbox status: '' @ t)))"

definition list_projection_outbox_jobs :: "string option \<Rightarrow> int \<Rightarrow> outbox_state \<Rightarrow> outbox_row list result" where
  "list_projection_outbox_jobs status limit s =
     rbind (case status of None \<Rightarrow> Inr None | Some t \<Rightarrow> rbind (parse_outbox_status t) (\<lambda>st. Inr (Some st))) (\<lambda>st.
       Inr (take (nat (clamp_int 1 500 limit))
         (sort_key (\<lambda>r. (- wire_key (o_created_at r), o_outbox_id r))
           (filter (\<lambda>r. st = None \<or> st = Some (o_status r)) (x_jobs s)))))"

section \<open>Invariant\<close>

definition PROJECTIONS :: "string list" where
  "PROJECTIONS = [''market_data'', ''condition_fusion'', ''market_reference'', ''market_index'', ''market_regime'', ''market_scan'']"

definition job_identity :: "outbox_row \<Rightarrow> string \<times> string \<times> string \<times> string \<times> int option \<times> string \<times> int \<times> instant" where
  "job_identity r = (o_outbox_id r, o_projection_name r, o_event_id r, o_event_type r, o_event_rowid r, o_source r,
     o_priority r, o_created_at r)"

definition job_ok :: "outbox_row \<Rightarrow> bool" where
  "job_ok r \<longleftrightarrow> o_projection_name r \<in> set PROJECTIONS
     \<and> o_outbox_id r = outbox_id_of (o_projection_name r) (o_event_id r)
     \<and> (o_locked_by r \<noteq> None \<longleftrightarrow> o_status r = PROCESSING) \<and> (o_status r = PROCESSING \<longrightarrow> o_locked_at r \<noteq> None)
     \<and> length (history_of (o_metadata r)) \<le> 20"

definition jobs_ok :: "outbox_row list \<Rightarrow> bool" where
  "jobs_ok js \<longleftrightarrow> unique_key o_outbox_id js \<and> unique_key job_key js \<and> (\<forall>r \<in> set js. job_ok r)"

lemma length_last_n [simp]: "length (last_n n xs) \<le> n"
  by (simp add: last_n_def)

lemma history_bounded: "length (history_of (merge_metadata wire m st ev now err)) \<le> 20"
  by (simp add: merge_metadata_def history_of_def [of "dset k v d" for k v d] Let_def split: option.split)

text \<open>
  The contract of a statement that moves a job: it keeps what identifies the job and the row
  invariant. From it, such a statement keeps the table invariant whatever rows it selects.
\<close>

locale job_move = row_update job_identity f for f :: "outbox_row \<Rightarrow> outbox_row" +
  assumes ok_kept: "job_ok r \<Longrightarrow> job_ok (f r)"
begin

lemma id_kept: "o_outbox_id (f r) = o_outbox_id r" "job_key (f r) = job_key r"
  using key_kept [of r] by (simp_all add: job_identity_def job_key_def)

lemma jobs_ok_move: "jobs_ok js \<Longrightarrow> jobs_ok (sql_update p f js)"
  unfolding jobs_ok_def by (auto simp: unique_key_sql_update id_kept set_sql_update ok_kept)

lemma job_at_move:
  "lookup_by o_outbox_id oid (sql_update p f js) =
     map_option (\<lambda>r. if p r then f r else r) (lookup_by o_outbox_id oid js)"
  by (rule lookup_by_sql_update) (rule id_kept)

end

lemmas job_rows = claim_row_def finish_row_def error_row_def retry_row_def release_row_def retire_row_def

interpretation claim_move: job_move "claim_row owner now" for owner now
  by unfold_locales (simp_all add: job_identity_def job_rows job_ok_def)

interpretation release_move: job_move "release_row now" for now
  by unfold_locales (simp_all add: job_identity_def job_rows job_ok_def)

interpretation applied_move: job_move "finish_row wire APPLIED ev now" for wire ev now
  by unfold_locales (simp_all add: job_identity_def job_rows job_ok_def history_bounded)

interpretation skipped_move: job_move "finish_row wire SKIPPED ev now" for wire ev now
  by unfold_locales (simp_all add: job_identity_def job_rows job_ok_def history_bounded)

interpretation retire_applied_move: job_move "retire_row wire APPLIED ev now" for wire ev now
  by unfold_locales (simp_all add: job_identity_def job_rows job_ok_def history_bounded)

interpretation retire_skipped_move: job_move "retire_row wire SKIPPED ev now" for wire ev now
  by unfold_locales (simp_all add: job_identity_def job_rows job_ok_def history_bounded)

interpretation retry_pending_move: job_move "retry_row wire PENDING n err ev now" for wire n err ev now
  by unfold_locales (simp_all add: job_identity_def job_rows job_ok_def history_bounded)

interpretation retry_dead_move: job_move "retry_row wire DEAD_LETTER n err ev now" for wire n err ev now
  by unfold_locales (simp_all add: job_identity_def job_rows job_ok_def history_bounded)

interpretation error_move: job_move "error_row wire OB_ERROR n err ev now" for wire n err ev now
  by unfold_locales (simp_all add: job_identity_def job_rows job_ok_def history_bounded)

interpretation error_dead_move: job_move "error_row wire DEAD_LETTER n err ev now" for wire n err ev now
  by unfold_locales (simp_all add: job_identity_def job_rows job_ok_def history_bounded)

lemmas moves_ok = claim_move.jobs_ok_move release_move.jobs_ok_move applied_move.jobs_ok_move skipped_move.jobs_ok_move
  retire_applied_move.jobs_ok_move retire_skipped_move.jobs_ok_move retry_pending_move.jobs_ok_move
  retry_dead_move.jobs_ok_move error_move.jobs_ok_move error_dead_move.jobs_ok_move

section \<open>Enqueueing\<close>

lemma projection_jobs_known: "set (projection_jobs_for_event rp ev) \<subseteq> set PROJECTIONS"
proof -
  have "set (projection_jobs_for_gateway_event ty) \<subseteq> set PROJECTIONS" for ty
    by (auto simp: projection_jobs_for_gateway_event_def DIRECT_EVENT_PROJECTIONS_def PROJECTIONS_def Let_def split: if_splits)
  then show ?thesis
    by (auto simp: projection_jobs_for_event_def append_projection_job_def PROJECTIONS_def Let_def)
qed

lemma colon_free: "p \<in> set PROJECTIONS \<Longrightarrow> CHR '':'' \<notin> set p"
  by (auto simp: PROJECTIONS_def)

lemma append_sep_inj: "c \<notin> set xs \<Longrightarrow> c \<notin> set ys \<Longrightarrow> xs @ c # us = ys @ c # vs \<Longrightarrow> xs = ys \<and> us = vs"
proof (induction xs arbitrary: ys)
  case Nil
  then show ?case by (cases ys) auto
next
  case (Cons x xs)
  then show ?case by (cases ys) auto
qed

lemma outbox_id_inj:
  assumes "p \<in> set PROJECTIONS" "q \<in> set PROJECTIONS" "outbox_id_of p e = outbox_id_of q d"
  shows "p = q \<and> e = d"
  using append_sep_inj [OF colon_free [OF assms(1)] colon_free [OF assms(2)]] assms(3) by (simp add: outbox_id_of_def)

lemma new_job_ok: "p \<in> set PROJECTIONS \<Longrightarrow> job_ok (new_job ev rowid now p)"
  by (simp add: job_ok_def new_job_def history_of_def job_metadata_def)

lemma fresh_outbox_id:
  assumes "jobs_ok js" "job_ok j" "lookup_by job_key (job_key j) js = None"
  shows "lookup_by o_outbox_id (o_outbox_id j) js = None"
proof (rule ccontr)
  assume "lookup_by o_outbox_id (o_outbox_id j) js \<noteq> None"
  then obtain r where r: "r \<in> set js" "o_outbox_id r = o_outbox_id j" by (auto dest: lookup_by_SomeD)
  then have "job_ok r" using assms(1) by (simp add: jobs_ok_def)
  then have "job_key r = job_key j"
    using r(2) assms(2) outbox_id_inj by (auto simp: job_ok_def job_key_def)
  then show False using assms(3) r(1) unfolding lookup_by_None_iff by (metis imageI)
qed

lemma insert_job_succeeds:
  assumes "jobs_ok js" "job_ok j"
  shows "insert_job j js = Inr (lookup_by job_key (job_key j) js = None,
      if lookup_by job_key (job_key j) js = None then js @ [j] else js)"
  using fresh_outbox_id [OF assms] by (simp add: insert_job_def)

lemma jobs_ok_snoc:
  assumes "jobs_ok js" "job_ok j" "lookup_by job_key (job_key j) js = None"
  shows "jobs_ok (js @ [j])"
  using assms fresh_outbox_id [OF assms] by (auto simp: jobs_ok_def unique_key_snoc)

definition jobs_added :: "gateway_event \<Rightarrow> int option \<Rightarrow> instant \<Rightarrow> string list \<Rightarrow> outbox_row list \<Rightarrow> outbox_row list \<Rightarrow> bool" where
  \<comment> \<open>exactly the missing jobs of the event were added, and no job changed\<close>
  "jobs_added ev rowid now ps js js' \<longleftrightarrow>
     (\<forall>k. lookup_by job_key k js' =
        (case lookup_by job_key k js of
           Some r \<Rightarrow> Some r
         | None \<Rightarrow> if k \<in> (\<lambda>p. (p, v_event_id ev)) ` set ps then Some (new_job ev rowid now (fst k)) else None))"

lemma insert_jobs_succeeds:
  assumes "jobs_ok js" "set ps \<subseteq> set PROJECTIONS"
  shows "\<exists>report js'. insert_jobs ev rowid now ps js = Inr (report, js') \<and> jobs_ok js' \<and> length report = length ps
     \<and> jobs_added ev rowid now ps js js'"
  using assms
proof (induction ps arbitrary: js)
  case Nil
  then show ?case by (simp add: jobs_added_def split: option.split)
next
  case (Cons p ps)
  let ?j = "new_job ev rowid now p"
  have j: "job_ok ?j" "job_key ?j = (p, v_event_id ev)"
    using Cons.prems(2) by (simp_all add: new_job_ok) (simp add: new_job_def job_key_def)
  define js1 where "js1 = (if lookup_by job_key (job_key ?j) js = None then js @ [?j] else js)"
  have ok1: "jobs_ok js1" using jobs_ok_snoc [OF Cons.prems(1) j(1)] Cons.prems(1) by (simp add: js1_def)
  have ins: "insert_job ?j js = Inr (lookup_by job_key (job_key ?j) js = None, js1)"
    using insert_job_succeeds [OF Cons.prems(1) j(1)] by (simp add: js1_def)
  have sub: "set ps \<subseteq> set PROJECTIONS" using Cons.prems(2) by simp
  obtain report js' where rest: "insert_jobs ev rowid now ps js1 = Inr (report, js')" "jobs_ok js'" "length report = length ps"
    "jobs_added ev rowid now ps js1 js'"
    using Cons.IH [OF ok1 sub] by blast
  have at1: "lookup_by job_key k js1 = (case lookup_by job_key k js of Some r \<Rightarrow> Some r
      | None \<Rightarrow> if k = (p, v_event_id ev) then Some ?j else None)" for k
    using j(2) by (auto simp: js1_def lookup_by_append split: option.split)
  have "jobs_added ev rowid now (p # ps) js js'"
    unfolding jobs_added_def
  proof (intro allI)
    fix k
    show "lookup_by job_key k js' = (case lookup_by job_key k js of Some r \<Rightarrow> Some r
        | None \<Rightarrow> if k \<in> (\<lambda>p. (p, v_event_id ev)) ` set (p # ps) then Some (new_job ev rowid now (fst k)) else None)"
      using rest(4) [unfolded jobs_added_def, rule_format, of k] at1 [of k]
      by (cases "lookup_by job_key k js"; cases "k = (p, v_event_id ev)") simp_all
  qed
  then show ?case using ins rest(1-3) by simp
qed

section \<open>Claiming\<close>

abbreviation job_at :: "string \<Rightarrow> outbox_row list \<Rightarrow> outbox_row option" where
  "job_at oid js \<equiv> lookup_by o_outbox_id oid js"

lemma claim_row_fields [simp]:
  "o_outbox_id (claim_row owner now r) = o_outbox_id r" "o_status (claim_row owner now r) = PROCESSING"
  "o_locked_by (claim_row owner now r) = Some owner"
  by (simp_all add: claim_row_def)

lemma no_hit_iff:
  assumes "unique_key o_outbox_id js"
  shows "sql_count (\<lambda>r. o_outbox_id r = oid \<and> q r) js = 0 \<longleftrightarrow> (\<forall>r. job_at oid js = Some r \<longrightarrow> \<not> q r)"
  using lookup_by_unique [OF assms] lookup_by_SomeD [of o_outbox_id oid js]
  by (auto simp: sql_count_def filter_empty_conv)

lemma job_at_hit:
  assumes "\<And>r. o_outbox_id (f r) = o_outbox_id r"
  shows "job_at oid (sql_update (\<lambda>r. o_outbox_id r = k \<and> q r) f js) =
     map_option (\<lambda>r. if oid = k \<and> q r then f r else r) (job_at oid js)"
  by (cases "job_at oid js") (auto simp: lookup_by_sql_update assms dest: lookup_by_SomeD)

lemma claim_each_spec:
  assumes "jobs_ok js" "distinct oids" "claim_each owner now mc oids js = (claimed, js')"
  shows "jobs_ok js'
    \<and> (\<forall>oid. job_at oid js' = map_option (\<lambda>r. if oid \<in> set oids \<and> claimable now mc r then claim_row owner now r else r) (job_at oid js))
    \<and> (\<forall>c \<in> set claimed. \<exists>r. job_at (o_outbox_id c) js = Some r \<and> claimable now mc r \<and> c = claim_row owner now r \<and> o_outbox_id c \<in> set oids)
    \<and> map o_outbox_id claimed = filter (\<lambda>oid. \<exists>r. job_at oid js = Some r \<and> claimable now mc r) oids"
  using assms
proof (induction oids arbitrary: js claimed js')
  case Nil
  then show ?case by (auto simp: option.map_ident)
next
  case (Cons k oids)
  let ?hit = "\<lambda>r. o_outbox_id r = k \<and> claimable now mc r"
  have uk: "unique_key o_outbox_id js" using Cons.prems(1) by (simp add: jobs_ok_def)
  have k: "k \<notin> set oids" "distinct oids" using Cons.prems(2) by simp_all
  show ?case
  proof (cases "sql_count ?hit js = 0")
    case True
    then have no: "\<forall>r. job_at k js = Some r \<longrightarrow> \<not> claimable now mc r" using no_hit_iff [OF uk] by blast
    have "claim_each owner now mc oids js = (claimed, js')" using Cons.prems(3) True by simp
    from Cons.IH [OF Cons.prems(1) k(2) this] no show ?thesis
      by (cases "job_at k js") (auto simp: fun_eq_iff intro!: option.map_cong)
  next
    case False
    then obtain r where r: "job_at k js = Some r" "claimable now mc r"
      unfolding no_hit_iff [OF uk] by auto
    define js1 where "js1 = sql_update ?hit (claim_row owner now) js"
    have at1: "job_at oid js1 = map_option (\<lambda>r. if oid = k \<and> claimable now mc r then claim_row owner now r else r) (job_at oid js)" for oid
      unfolding js1_def by (rule job_at_hit) simp
    have ok1: "jobs_ok js1" unfolding js1_def by (rule claim_move.jobs_ok_move [OF Cons.prems(1)])
    obtain cl where cl: "claim_each owner now mc oids js1 = (cl, js')" "claimed = claim_row owner now r # cl"
      using Cons.prems(3) False r at1 [of k] by (auto simp: Let_def js1_def [symmetric] split: prod.splits)
    note IH = Cons.IH [OF ok1 k(2) cl(1)]
    have id: "o_outbox_id r = k" using r(1) by (auto dest: lookup_by_SomeD)
    have same: "job_at oid js1 = job_at oid js" if "oid \<in> set oids" for oid
      using at1 [of oid] that k(1) by (cases "job_at oid js") auto
    have "map o_outbox_id claimed = filter (\<lambda>oid. \<exists>r. job_at oid js = Some r \<and> claimable now mc r) (k # oids)"
    proof -
      have "filter (\<lambda>oid. \<exists>r. job_at oid js1 = Some r \<and> claimable now mc r) oids =
          filter (\<lambda>oid. \<exists>r. job_at oid js = Some r \<and> claimable now mc r) oids"
        using same by (intro filter_cong) auto
      then show ?thesis using IH r cl(2) id by simp
    qed
    moreover have "\<forall>oid. job_at oid js' = map_option (\<lambda>r. if oid \<in> set (k # oids) \<and> claimable now mc r then claim_row owner now r else r) (job_at oid js)"
    proof
      fix oid
      show "job_at oid js' = map_option (\<lambda>r. if oid \<in> set (k # oids) \<and> claimable now mc r then claim_row owner now r else r) (job_at oid js)"
        using IH at1 [of oid] k(1) r by (cases "job_at oid js"; cases "oid = k") auto
    qed
    moreover have "\<forall>c \<in> set claimed. \<exists>r. job_at (o_outbox_id c) js = Some r \<and> claimable now mc r \<and> c = claim_row owner now r \<and> o_outbox_id c \<in> set (k # oids)"
    proof
      fix c assume c: "c \<in> set claimed"
      show "\<exists>r. job_at (o_outbox_id c) js = Some r \<and> claimable now mc r \<and> c = claim_row owner now r \<and> o_outbox_id c \<in> set (k # oids)"
      proof (cases "c = claim_row owner now r")
        case True
        then show ?thesis using r id by auto
      next
        case False
        then have "c \<in> set cl" using c cl(2) by simp
        then obtain q where q: "job_at (o_outbox_id c) js1 = Some q" "claimable now mc q" "c = claim_row owner now q" "o_outbox_id c \<in> set oids"
          using IH by blast
        then show ?thesis using same by auto
      qed
    qed
    ultimately show ?thesis using IH by blast
  qed
qed

section \<open>Job life cycle\<close>

text \<open>The moves of one job. A failure counts an attempt and is dead at the limit.\<close>

inductive job_trans :: "outbox_row \<Rightarrow> outbox_row \<Rightarrow> bool" where
  stay: "job_trans r r"
| claim: "o_status r = PENDING \<Longrightarrow> job_trans r (claim_row owner now r)"
| retire: "o_status r = PENDING \<Longrightarrow> st \<in> {APPLIED, SKIPPED} \<Longrightarrow> job_trans r (retire_row wire st ev now r)"
| finish: "o_locked_by r = Some owner \<Longrightarrow> st \<in> {APPLIED, SKIPPED} \<Longrightarrow> job_trans r (finish_row wire st ev now r)"
| fail: "o_locked_by r = Some owner \<Longrightarrow> st = (if n \<ge> lmt then DEAD_LETTER else OB_ERROR) \<Longrightarrow> n = o_attempts r + 1 \<Longrightarrow>
     job_trans r (error_row wire st n err ev now r)"
| retry: "o_locked_by r = Some owner \<Longrightarrow> st = (if n \<ge> lmt then DEAD_LETTER else PENDING) \<Longrightarrow> n = o_attempts r + 1 \<Longrightarrow>
     job_trans r (retry_row wire st n err ev now r)"
| release: "o_status r = PROCESSING \<Longrightarrow> job_trans r (release_row now r)"

inductive_cases job_transE: "job_trans r r'"

definition jobs_evolve :: "outbox_row list \<Rightarrow> outbox_row list \<Rightarrow> bool" where
  "jobs_evolve js js' \<longleftrightarrow> (\<forall>oid r. job_at oid js = Some r \<longrightarrow> (\<exists>r'. job_at oid js' = Some r' \<and> job_trans r r'))"

lemma jobs_evolve_refl [simp]: "jobs_evolve js js"
  by (auto simp: jobs_evolve_def intro: job_trans.stay)

lemma jobs_evolve_update:
  assumes "\<And>r. o_outbox_id (f r) = o_outbox_id r" "\<And>r. p r \<Longrightarrow> job_trans r (f r)"
  shows "jobs_evolve js (sql_update p f js)"
  using assms by (auto simp: jobs_evolve_def lookup_by_sql_update intro: job_trans.stay)

lemma job_at_insert:
  assumes "jobs_added ev rowid now ps js js'" "jobs_ok js" "jobs_ok js'" "job_at oid js = Some r"
  shows "job_at oid js' = Some r"
proof -
  have uk: "unique_key job_key js" "unique_key o_outbox_id js'" using assms(2,3) by (simp_all add: jobs_ok_def)
  have r: "r \<in> set js" "o_outbox_id r = oid" using assms(4) by (auto dest: lookup_by_SomeD)
  have "lookup_by job_key (job_key r) js = Some r" by (rule lookup_by_unique [OF uk(1) r(1)])
  then have "lookup_by job_key (job_key r) js' = Some r"
    using assms(1) [unfolded jobs_added_def, rule_format, of "job_key r"] by simp
  then have "r \<in> set js'" by (auto dest: lookup_by_SomeD)
  from lookup_by_unique [OF uk(2) this] r(2) show ?thesis by simp
qed

lemma row_ids [simp]:
  "o_outbox_id (finish_row wire st ev now r) = o_outbox_id r" "o_outbox_id (error_row wire st n err ev now r) = o_outbox_id r"
  "o_outbox_id (retry_row wire st n err ev now r) = o_outbox_id r" "o_outbox_id (release_row now r) = o_outbox_id r"
  "o_outbox_id (retire_row wire st ev now r) = o_outbox_id r"
  by (simp_all add: job_rows)

inductive outbox_step :: "outbox_state \<Rightarrow> outbox_state \<Rightarrow> bool" where
  enqueue: "enqueue_projection_jobs_for_gateway_event rp evlog now ev rowid s = Inr (res, s') \<Longrightarrow> outbox_step s s'"
| retire: "retire_inline_projection_outbox_job wire skip now eid p t ev s = Inr (res, s') \<Longrightarrow> outbox_step s s'"
| claim: "claim_projection_outbox_jobs now owner lmt age p s = Inr (claimed, s') \<Longrightarrow> outbox_step s s'"
| applied: "mark_projection_outbox_applied wire evlog now oid owner ev s = Inr s' \<Longrightarrow> outbox_step s s'"
| skipped: "mark_projection_outbox_skipped wire evlog now oid owner reason ev s = Inr s' \<Longrightarrow> outbox_step s s'"
| error: "mark_projection_outbox_error wire evlog now oid owner err lmt ev s = Inr s' \<Longrightarrow> outbox_step s s'"
| retryable: "mark_projection_outbox_retryable_error wire evlog now oid owner err lmt ev s = Inr s' \<Longrightarrow> outbox_step s s'"
| reset: "reset_stale_projection_outbox_processing now stale s = (cnt, s') \<Longrightarrow> outbox_step s s'"

inductive_cases outbox_stepE: "outbox_step s s'"

lemma terminal_cases:
  assumes "mark_projection_outbox_terminal wire evlog now oid owner st ev s = Inr s'"
  obtains (unowned) "s' = s"
  | (marked) i w row where "x_jobs s' = sql_update (locked_job i w) (finish_row wire st ev now) (x_jobs s)"
      "require_non_empty oid ''outbox_id'' = Inr i" "require_non_empty owner ''owner_id'' = Inr w"
      "sql_find (locked_job i w) (x_jobs s) = Some row"
      "st = APPLIED \<Longrightarrow> \<exists>res. record_projection_event_result evlog now (o_projection_name row) (o_event_id row)
           ''SUCCESS'' ''OUTBOX_APPLIED'' (o_event_rowid row) (Some (o_event_type row)) None None
           [(''source'', PStr ''projection_outbox''), (''evidence'', PDict ev)] (x_projections s) = Inr (res, x_projections s')"
      "st \<noteq> APPLIED \<Longrightarrow> x_projections s' = x_projections s"
proof -
  obtain i w where iw: "require_non_empty oid ''outbox_id'' = Inr i" "require_non_empty owner ''owner_id'' = Inr w"
    using assms unfolding mark_projection_outbox_terminal_def rbind_Inr_iff by blast
  show ?thesis
  proof (cases "sql_find (locked_job i w) (x_jobs s)")
    case None
    then show ?thesis using assms iw unowned by (simp add: mark_projection_outbox_terminal_def)
  next
    case (Some row)
    show ?thesis
    proof (cases "st = APPLIED")
      case True
      then show ?thesis
        using assms iw Some by (intro marked [OF _ iw Some]) (auto simp: mark_projection_outbox_terminal_def rbind_Inr_iff)
    next
      case False
      then show ?thesis
        using assms iw Some by (intro marked [OF _ iw Some]) (auto simp: mark_projection_outbox_terminal_def)
    qed
  qed
qed

lemma failed_cases:
  assumes "mark_failed retryable wire evlog now oid owner err lmt ev s = Inr s'"
  obtains (unowned) "s' = s"
  | (marked) i w e row st where "sql_find (locked_job i w) (x_jobs s) = Some row"
      "st = (if o_attempts row + 1 \<ge> lmt then DEAD_LETTER else if retryable then PENDING else OB_ERROR)"
      "x_jobs s' = sql_update (locked_job i w)
         ((if retryable then retry_row else error_row) wire st (o_attempts row + 1) e ev now) (x_jobs s)"
proof -
  obtain i w e where iw: "require_non_empty oid ''outbox_id'' = Inr i" "require_non_empty owner ''owner_id'' = Inr w"
    "require_non_empty err ''error_message'' = Inr e"
    using assms unfolding mark_failed_def rbind_Inr_iff by blast
  show ?thesis
  proof (cases "sql_find (locked_job i w) (x_jobs s)")
    case None
    then show ?thesis using assms iw unowned by (simp add: mark_failed_def)
  next
    case (Some row)
    show ?thesis
      using assms by (intro marked [OF Some refl, of e]) (auto simp: mark_failed_def iw Some rbind_Inr_iff Let_def)
  qed
qed

lemma find_unique_job:
  assumes "unique_key o_outbox_id js" "sql_find (locked_job i w) js = Some row" "locked_job i w r" "r \<in> set js"
  shows "r = row"
proof -
  have "row \<in> set js" "o_outbox_id row = i" using assms(2) by (auto simp: sql_find_def find_Some_iff locked_job_def)
  moreover have "o_outbox_id r = i" using assms(3) by (simp add: locked_job_def)
  ultimately show ?thesis using lookup_by_unique [OF assms(1)] assms(4) by (metis option.inject)
qed

lemma sql_update_cong: "(\<And>r. r \<in> set t \<Longrightarrow> p r \<Longrightarrow> f r = g r) \<Longrightarrow> sql_update p f t = sql_update p g t"
  by (simp add: sql_update_def)

lemma failed_ok:
  assumes ok: "jobs_ok (x_jobs s)" and m: "mark_failed retryable wire evlog now oid owner err lmt ev s = Inr s'"
  shows "jobs_ok (x_jobs s') \<and> jobs_evolve (x_jobs s) (x_jobs s')"
  using m
proof (cases rule: failed_cases)
  case (marked i w e row st)
  have uk: "unique_key o_outbox_id (x_jobs s)" using ok by (simp add: jobs_ok_def)
  let ?f = "(if retryable then retry_row else error_row) wire st (o_attempts row + 1) e ev now"
  have "jobs_evolve (x_jobs s) (x_jobs s')"
    unfolding jobs_evolve_def
  proof (intro allI impI)
    fix k r assume r: "job_at k (x_jobs s) = Some r"
    have at': "job_at k (x_jobs s') = Some (if locked_job i w r then ?f r else r)"
      using r by (simp add: marked(3) lookup_by_sql_update)
    have "job_trans r (?f r)" if l: "locked_job i w r"
    proof -
      have "r = row" using find_unique_job [OF uk marked(1) l] r by (auto dest: lookup_by_SomeD)
      then show ?thesis
        using l marked(2) by (auto simp: locked_job_def intro: job_trans.fail [where lmt = lmt] job_trans.retry [where lmt = lmt])
    qed
    then show "\<exists>r'. job_at k (x_jobs s') = Some r' \<and> job_trans r r'" using at' job_trans.stay by auto
  qed
  moreover have "jobs_ok (x_jobs s')"
    unfolding marked(3) using marked(2) moves_ok [OF ok] by (auto split: if_splits)
  ultimately show ?thesis by blast
qed (use ok in simp)

lemma terminal_ok:
  assumes ok: "jobs_ok (x_jobs s)" and m: "mark_projection_outbox_terminal wire evlog now oid owner st ev s = Inr s'"
    and st: "st \<in> {APPLIED, SKIPPED}"
  shows "jobs_ok (x_jobs s') \<and> jobs_evolve (x_jobs s) (x_jobs s')"
  using m
proof (cases rule: terminal_cases)
  case (marked i w row)
  have "jobs_evolve (x_jobs s) (x_jobs s')"
    unfolding marked(1) using st by (intro jobs_evolve_update) (auto simp: locked_job_def intro: job_trans.finish)
  moreover have "jobs_ok (x_jobs s')" unfolding marked(1) using st moves_ok [OF ok] by auto
  ultimately show ?thesis by blast
qed (use ok in simp)

lemma claim_ok:
  assumes ok: "jobs_ok (x_jobs s)" and c: "claim_projection_outbox_jobs now owner lmt age p s = Inr (claimed, s')"
  obtains w mc pr where "require_non_empty owner ''owner_id'' = Inr w" "jobs_ok (x_jobs s')"
    "x_projections s' = x_projections s" "length claimed \<le> nat (clamp_int 1 500 lmt)" "distinct (map o_outbox_id claimed)"
    "\<forall>oid. job_at oid (x_jobs s') = map_option (\<lambda>r. if oid \<in> o_outbox_id ` set claimed then claim_row w now r else r) (job_at oid (x_jobs s))"
    "\<forall>c \<in> set claimed. \<exists>r. job_at (o_outbox_id c) (x_jobs s) = Some r \<and> claimable now mc r \<and> c = claim_row w now r"
proof -
  obtain w pr where w: "require_non_empty owner ''owner_id'' = Inr w"
    and p: "(case p of None \<Rightarrow> Inr None | Some p \<Rightarrow> rbind (require_non_empty p ''projection_name'') (\<lambda>q. Inr (Some (py_lower q)))) = Inr pr"
    using c unfolding claim_projection_outbox_jobs_def rbind_Inr_iff by blast
  define mc where "mc = now - round_half_even (max age 0 * of_int microseconds)"
  define cand where "cand = claim_candidates now mc pr (nat (clamp_int 1 500 lmt)) (x_jobs s)"
  obtain js where each: "claim_each w now mc (map o_outbox_id cand) (x_jobs s) = (claimed, js)" and s': "s' = s\<lparr>x_jobs := js\<rparr>"
    using c w p by (auto simp: claim_projection_outbox_jobs_def Let_def mc_def cand_def split: prod.splits)
  have dist: "distinct (map o_outbox_id cand)"
  proof -
    have "distinct (map o_outbox_id (filter q (x_jobs s)))" for q
      using ok by (simp add: jobs_ok_def unique_key_def distinct_map_filter)
    then have "distinct (map o_outbox_id (sort_key claim_key (filter q (x_jobs s))))" for q by (simp add: distinct_map)
    then show ?thesis by (simp add: cand_def claim_candidates_def take_map [symmetric])
  qed
  note spec = claim_each_spec [OF ok dist each]
  have "length claimed \<le> length cand"
  proof -
    have "length claimed = length (map o_outbox_id claimed)" by simp
    also have "\<dots> \<le> length (map o_outbox_id cand)" using spec by (simp only: length_filter_le)
    finally show ?thesis by simp
  qed
  also have "\<dots> \<le> nat (clamp_int 1 500 lmt)" by (simp add: cand_def claim_candidates_def)
  finally have len: "length claimed \<le> nat (clamp_int 1 500 lmt)" .
  have ids: "distinct (map o_outbox_id claimed)" using spec dist by simp
  have mem: "oid \<in> o_outbox_id ` set claimed \<longleftrightarrow> oid \<in> set (map o_outbox_id cand) \<and> (\<exists>r. job_at oid (x_jobs s) = Some r \<and> claimable now mc r)" for oid
  proof -
    have "o_outbox_id ` set claimed = set (map o_outbox_id claimed)" by simp
    also have "\<dots> = {oid \<in> set (map o_outbox_id cand). \<exists>r. job_at oid (x_jobs s) = Some r \<and> claimable now mc r}"
      using spec by (simp only: set_filter)
    finally show ?thesis by simp
  qed
  have "job_at oid (x_jobs s') = map_option (\<lambda>r. if oid \<in> o_outbox_id ` set claimed then claim_row w now r else r) (job_at oid (x_jobs s))" for oid
    using spec mem [of oid] by (cases "job_at oid (x_jobs s)") (auto simp: s')
  moreover have "jobs_ok (x_jobs s')" "x_projections s' = x_projections s" using spec by (simp_all add: s')
  moreover have "\<forall>c \<in> set claimed. \<exists>r. job_at (o_outbox_id c) (x_jobs s) = Some r \<and> claimable now mc r \<and> c = claim_row w now r"
    using spec by blast
  ultimately show ?thesis using that [OF w _ _ len ids] by blast
qed


lemma enqueue_ok:
  assumes ok: "jobs_ok (x_jobs s)"
  obtains res s' rid where "enqueue_projection_jobs_for_gateway_event rp evlog now ev rowid s = Inr (res, s')"
    "jobs_ok (x_jobs s')" "x_projections s' = x_projections s"
    "jobs_added ev rid now (projection_jobs_for_event rp ev) (x_jobs s) (x_jobs s')"
proof (cases "projection_jobs_for_event rp ev = []")
  case True
  then show ?thesis
    using that [of _ s] ok by (simp add: enqueue_projection_jobs_for_gateway_event_def jobs_added_def option.case_eq_if)
next
  case False
  define rid where "rid = (case rowid of Some n \<Rightarrow> Some n | None \<Rightarrow> map_option l_rowid (lookup_by l_event_id (v_event_id ev) evlog))"
  obtain report js' where r: "insert_jobs ev rid now (projection_jobs_for_event rp ev) (x_jobs s) = Inr (report, js')"
    "jobs_ok js'" "jobs_added ev rid now (projection_jobs_for_event rp ev) (x_jobs s) js'"
    using insert_jobs_succeeds [OF ok projection_jobs_known] by blast
  show ?thesis
    by (rule that [of _ "s\<lparr>x_jobs := js'\<rparr>" rid])
      (use False r in \<open>simp_all add: enqueue_projection_jobs_for_gateway_event_def Let_def rid_def [symmetric]\<close>)
qed

lemma jobs_added_evolve:
  "jobs_added ev rid now ps js js' \<Longrightarrow> jobs_ok js \<Longrightarrow> jobs_ok js' \<Longrightarrow> jobs_evolve js js'"
  using job_at_insert by (auto simp: jobs_evolve_def intro: job_trans.stay)

lemma retire_cases:
  assumes "retire_inline_projection_outbox_job wire skip now eid p t ev s = Inr (res, s')"
  obtains (none) "s' = s"
  | (retired) st oid evd where "st \<in> {APPLIED, SKIPPED}" "x_projections s' = x_projections s"
      "x_jobs s' = sql_update (\<lambda>r. o_outbox_id r = oid \<and> o_status r = PENDING) (retire_row wire st evd now) (x_jobs s)"
proof -
  obtain e q u where equ: "require_non_empty eid ''event_id'' = Inr e" "require_non_empty p ''projection_name'' = Inr q"
    "require_non_empty t ''terminal_status'' = Inr u"
    using assms unfolding retire_inline_projection_outbox_job_def rbind_Inr_iff by blast
  let ?st = "if py_upper u = ''APPLIED'' then APPLIED else SKIPPED"
  have final: "py_upper u \<in> {''APPLIED'', ''SKIPPED''}"
    using assms by (auto simp: retire_inline_projection_outbox_job_def equ split: if_splits)
  show ?thesis
  proof (cases "sql_find (\<lambda>r. o_event_id r = e \<and> o_projection_name r = py_lower q \<and> o_status r = PENDING) (x_jobs s)")
    case None
    then show ?thesis using assms final none by (auto simp: retire_inline_projection_outbox_job_def equ Let_def)
  next
    case (Some row)
    show ?thesis
    proof (cases "skip e")
      case True
      then show ?thesis using assms final Some none by (auto simp: retire_inline_projection_outbox_job_def equ Let_def)
    next
      case False
      then show ?thesis
        using assms final Some by (intro retired [of ?st "o_outbox_id row"]) (auto simp: retire_inline_projection_outbox_job_def equ Let_def)
    qed
  qed
qed

lemma outbox_step_ok:
  assumes step: "outbox_step s s'" and ok: "jobs_ok (x_jobs s)"
  shows "jobs_ok (x_jobs s') \<and> jobs_evolve (x_jobs s) (x_jobs s')"
  using step
proof (cases rule: outbox_step.cases)
  case (enqueue rp evlog now ev rowid res)
  obtain res' u rid where u: "enqueue_projection_jobs_for_gateway_event rp evlog now ev rowid s = Inr (res', u)"
    "jobs_ok (x_jobs u)" "jobs_added ev rid now (projection_jobs_for_event rp ev) (x_jobs s) (x_jobs u)"
    using enqueue_ok [OF ok, of rp evlog now ev rowid] by metis
  then have "u = s'" using enqueue by simp
  then show ?thesis using u jobs_added_evolve ok by blast
next
  case (retire wire skip now eid p t ev res)
  then show ?thesis
  proof (cases rule: retire_cases)
    case (retired st oid evd)
    have "jobs_evolve (x_jobs s) (x_jobs s')"
      unfolding retired(3) using retired(1) by (intro jobs_evolve_update) (auto intro: job_trans.retire)
    then show ?thesis using retired(1) moves_ok [OF ok] unfolding retired(3) by auto
  qed (use ok in simp)
next
  case (claim now owner lmt age p claimed)
  then show ?thesis
  proof (rule claim_ok [OF ok])
    fix w mc
    assume a: "jobs_ok (x_jobs s')"
      "\<forall>oid. job_at oid (x_jobs s') = map_option (\<lambda>r. if oid \<in> o_outbox_id ` set claimed then claim_row w now r else r) (job_at oid (x_jobs s))"
      "\<forall>c \<in> set claimed. \<exists>r. job_at (o_outbox_id c) (x_jobs s) = Some r \<and> claimable now mc r \<and> c = claim_row w now r"
    have "job_trans r (claim_row w now r)" if r: "job_at oid (x_jobs s) = Some r" "oid \<in> o_outbox_id ` set claimed" for oid r
    proof -
      obtain q where "job_at oid (x_jobs s) = Some q" "claimable now mc q" using r(2) a(3) by blast
      then show ?thesis using r(1) by (auto simp: claimable_def intro: job_trans.claim)
    qed
    then show ?thesis using a(1,2) by (auto simp: jobs_evolve_def intro: job_trans.stay)
  qed
next
  case (applied wire evlog now oid owner ev)
  then show ?thesis using terminal_ok [OF ok] by (auto simp: mark_projection_outbox_applied_def)
next
  case (skipped wire evlog now oid owner reason ev)
  then show ?thesis using terminal_ok [OF ok] by (auto simp: mark_projection_outbox_skipped_def rbind_Inr_iff)
next
  case (error wire evlog now oid owner err lmt ev)
  then show ?thesis using failed_ok [OF ok] by (auto simp: mark_projection_outbox_error_def)
next
  case (retryable wire evlog now oid owner err lmt ev)
  then show ?thesis using failed_ok [OF ok] by (auto simp: mark_projection_outbox_retryable_error_def)
next
  case (reset now stale cnt)
  then have "x_jobs s' = sql_update (stale_processing (after_sec now (- max stale 0))) (release_row now) (x_jobs s)"
    by (auto simp: reset_stale_projection_outbox_processing_def Let_def)
  moreover have "jobs_evolve (x_jobs s) (sql_update (stale_processing (after_sec now (- max stale 0))) (release_row now) (x_jobs s))"
    by (intro jobs_evolve_update) (auto simp: stale_processing_def intro: job_trans.release)
  ultimately show ?thesis using moves_ok [OF ok] by simp
qed

lemma outbox_steps_ok: "outbox_step\<^sup>*\<^sup>* s s' \<Longrightarrow> jobs_ok (x_jobs s) \<Longrightarrow> jobs_ok (x_jobs s')"
  by (induction rule: rtranclp_induct) (auto dest: outbox_step_ok)

abbreviation closed_status :: "outbox_status \<Rightarrow> bool" where
  "closed_status st \<equiv> st \<in> {APPLIED, SKIPPED, OB_ERROR, DEAD_LETTER}"

lemma closed_job_fixed:
  assumes "job_ok r" "closed_status (o_status r)" "job_trans r r'"
  shows "r' = r"
  using assms(3,1,2) by (cases rule: job_transE) (auto simp: job_ok_def)

lemma closed_job_kept:
  assumes "outbox_step\<^sup>*\<^sup>* s s'" "jobs_ok (x_jobs s)" "job_at oid (x_jobs s) = Some r" "closed_status (o_status r)"
  shows "job_at oid (x_jobs s') = Some r"
  using assms(1)
proof (induction rule: rtranclp_induct)
  case (step y z)
  have "jobs_ok (x_jobs y)" by (rule outbox_steps_ok [OF step(1) assms(2)])
  then have "job_ok r" "jobs_evolve (x_jobs y) (x_jobs z)"
    using step(3) outbox_step_ok [OF step(2)] by (auto simp: jobs_ok_def dest: lookup_by_SomeD)
  then show ?case using step(3) closed_job_fixed [OF _ assms(4)] unfolding jobs_evolve_def by blast
qed (use assms in simp)
section \<open>Properties\<close>

definition empty_outbox :: outbox_state where
  "empty_outbox = \<lparr> x_jobs = [], x_projections = empty_projections \<rparr>"

definition sample_tick :: gateway_event where
  "sample_tick = \<lparr> v_event_id = ''e1'', v_event_type = ''Condition_Event'', v_source = ''gw'', v_ts = 0, v_payload = [],
     v_command_id = None, v_idempotency_key = None \<rparr>"

definition sample_outbox :: outbox_state where
  "sample_outbox =
     (case enqueue_projection_jobs_for_gateway_event (\<lambda>_. []) [] 0 sample_tick (Some 7) empty_outbox of
        Inr (_, s) \<Rightarrow> s | Inl _ \<Rightarrow> empty_outbox)"

definition sample_claim_result :: "(outbox_row list \<times> outbox_state) result" where
  "sample_claim_result = claim_projection_outbox_jobs 5000000 ''w1'' 10 1 None sample_outbox"

definition sample_claimed_outbox :: outbox_state where
  "sample_claimed_outbox = (case sample_claim_result of Inr (_, s) \<Rightarrow> s | Inl _ \<Rightarrow> empty_outbox)"

lemma empty_outbox_ok [simp]: "jobs_ok (x_jobs empty_outbox)"
  by (simp add: empty_outbox_def jobs_ok_def)

lemma sample_outbox_step: "outbox_step empty_outbox sample_outbox"
proof -
  obtain res s' where e: "enqueue_projection_jobs_for_gateway_event (\<lambda>_. []) [] 0 sample_tick (Some 7) empty_outbox = Inr (res, s')"
    using enqueue_ok [OF empty_outbox_ok] by metis
  then have "sample_outbox = s'" by (simp add: sample_outbox_def)
  then show ?thesis using outbox_step.enqueue [OF e] by simp
qed

lemma sample_claimed_ids:
  "(case sample_claim_result of Inr (c, _) \<Rightarrow> map o_outbox_id c = [''market_data:e1'', ''condition_fusion:e1''] | Inl _ \<Rightarrow> False)"
  by code_simp

lemma sample_claim_eq: "\<exists>c. sample_claim_result = Inr (c, sample_claimed_outbox) \<and> map o_outbox_id c = [''market_data:e1'', ''condition_fusion:e1'']"
proof (cases sample_claim_result)
  case (Inr p)
  obtain c s where "p = (c, s)" by (cases p)
  with Inr have eq: "sample_claim_result = Inr (c, s)" by simp
  show ?thesis using sample_claimed_ids by (simp add: sample_claimed_outbox_def eq)
next
  case (Inl e)
  then show ?thesis using sample_claimed_ids by (simp add: Inl)
qed

text \<open>
  C29: Every outbox reachable from the empty one is consistent: one job per projection and event, ids
  that name exactly their job, a lock exactly on the jobs being processed, and a worker history of at
  most twenty entries. Enqueueing an event never violates a uniqueness constraint.
\<close>

theorem reachable_outbox_ok:
  assumes "outbox_step\<^sup>*\<^sup>* empty_outbox s"
  shows "jobs_ok (x_jobs s)
     \<and> (\<exists>res s'. enqueue_projection_jobs_for_gateway_event rp evlog now ev rowid s = Inr (res, s'))"
proof -
  have "jobs_ok (x_jobs s)" by (rule outbox_steps_ok [OF assms empty_outbox_ok])
  then show ?thesis using enqueue_ok by metis
qed

theorem reachable_outbox_ok_witness: "jobs_ok (x_jobs sample_outbox)"
  using reachable_outbox_ok [OF r_into_rtranclp [of outbox_step, OF sample_outbox_step]] by blast

text \<open>
  Claims are exclusive. A claim returns at most the bounded limit of distinct jobs, each pending
  before and now locked by the claiming owner, and it changes no other job: a job another worker
  holds is neither returned nor touched.
\<close>

theorem claim_exclusive:
  assumes "jobs_ok (x_jobs s)" "claim_projection_outbox_jobs now owner lmt age p s = Inr (claimed, s')"
  shows "length claimed \<le> 500 \<and> distinct (map o_outbox_id claimed)
    \<and> (\<forall>c \<in> set claimed. \<exists>r. job_at (o_outbox_id c) (x_jobs s) = Some r \<and> o_status r = PENDING \<and> o_locked_by r = None
         \<and> job_at (o_outbox_id c) (x_jobs s') = Some c \<and> o_locked_by c = Some (py_strip owner))
    \<and> (\<forall>oid. oid \<notin> o_outbox_id ` set claimed \<longrightarrow> job_at oid (x_jobs s') = job_at oid (x_jobs s))"
  using assms(2)
proof (rule claim_ok [OF assms(1)])
  fix w mc
  assume w: "require_non_empty owner ''owner_id'' = Inr w" and len: "length claimed \<le> nat (clamp_int 1 500 lmt)"
    and dist: "distinct (map o_outbox_id claimed)"
    and at': "\<forall>oid. job_at oid (x_jobs s') = map_option (\<lambda>r. if oid \<in> o_outbox_id ` set claimed then claim_row w now r else r) (job_at oid (x_jobs s))"
    and cl: "\<forall>c \<in> set claimed. \<exists>r. job_at (o_outbox_id c) (x_jobs s) = Some r \<and> claimable now mc r \<and> c = claim_row w now r"
  have w': "w = py_strip owner" using w by (auto simp: require_non_empty_def Let_def split: if_splits)
  have "length claimed \<le> 500" using len clamp_int_bounds [of 1 500 lmt] by linarith
  moreover have "\<exists>r. job_at (o_outbox_id c) (x_jobs s) = Some r \<and> o_status r = PENDING \<and> o_locked_by r = None
         \<and> job_at (o_outbox_id c) (x_jobs s') = Some c \<and> o_locked_by c = Some (py_strip owner)" if c: "c \<in> set claimed" for c
  proof -
    obtain r where r: "job_at (o_outbox_id c) (x_jobs s) = Some r" "claimable now mc r" "c = claim_row w now r" using cl c by blast
    have "job_ok r" using assms(1) r(1) by (auto simp: jobs_ok_def dest: lookup_by_SomeD)
    moreover have "job_at (o_outbox_id c) (x_jobs s') = Some c"
    proof -
      have "o_outbox_id c \<in> o_outbox_id ` set claimed" using c by (rule imageI)
      then show ?thesis using at' [rule_format, of "o_outbox_id c"] r(1,3) by simp
    qed
    ultimately show ?thesis using r w' by (auto simp: claimable_def job_ok_def)
  qed
  moreover have "job_at oid (x_jobs s') = job_at oid (x_jobs s)" if "oid \<notin> o_outbox_id ` set claimed" for oid
    using at' that by (cases "job_at oid (x_jobs s)") auto
  ultimately show ?thesis using dist by blast
qed

theorem claim_exclusive_witness:
  "\<exists>c. job_at ''market_data:e1'' (x_jobs sample_claimed_outbox) = Some c \<and> o_locked_by c = Some (py_strip ''w1'')"
proof -
  from sample_claim_eq obtain c where
    c: "sample_claim_result = Inr (c, sample_claimed_outbox)" "map o_outbox_id c = [''market_data:e1'', ''condition_fusion:e1'']"
    by (elim exE conjE) (rule that)
  from c(2) obtain j cs where c': "c = j # cs" and j2: "o_outbox_id j = ''market_data:e1''"
    unfolding map_eq_Cons_conv by (elim exE conjE) (rule that)
  have j: "j \<in> set c" "o_outbox_id j = ''market_data:e1''" using j2 by (simp_all only: c' list.set_intros)
  have ok: "jobs_ok (x_jobs sample_outbox)" using outbox_step_ok [OF sample_outbox_step] by simp
  from claim_exclusive [OF ok c(1) [unfolded sample_claim_result_def], THEN conjunct2, THEN conjunct2, THEN conjunct1, rule_format, OF j(1)]
  show ?thesis unfolding j(2) by blast
qed

text \<open>
  A closed job is final: once applied, skipped, failed or dead, its row is never changed again by
  any operation of the outbox.
\<close>

theorem closed_job_is_final:
  assumes "outbox_step\<^sup>*\<^sup>* empty_outbox s" "outbox_step\<^sup>*\<^sup>* s s'"
    and "job_at oid (x_jobs s) = Some r" "o_status r \<in> {APPLIED, SKIPPED, OB_ERROR, DEAD_LETTER}"
  shows "job_at oid (x_jobs s') = Some r"
  by (rule closed_job_kept [OF assms(2) outbox_steps_ok [OF assms(1) empty_outbox_ok] assms(3,4)])

theorem closed_job_is_final_witness:
  "\<exists>s r. mark_projection_outbox_skipped (\<lambda>_. []) [] 6000000 ''market_data:e1'' ''w1'' ''not needed'' [] sample_claimed_outbox = Inr s
     \<and> job_at ''market_data:e1'' (x_jobs (snd (reset_stale_projection_outbox_processing 9000000 0 s))) = Some r \<and> o_status r = SKIPPED"
proof -
  define out where "out = mark_projection_outbox_skipped (\<lambda>_. []) [] 6000000 ''market_data:e1'' ''w1'' ''not needed'' [] sample_claimed_outbox"
  have "(case out of Inr s \<Rightarrow> map_option o_status (job_at ''market_data:e1'' (x_jobs s)) = Some SKIPPED | Inl _ \<Rightarrow> False)"
    unfolding out_def by code_simp
  then obtain s r where s: "out = Inr s" "job_at ''market_data:e1'' (x_jobs s) = Some r" "o_status r = SKIPPED"
    by (cases out) auto
  obtain c where "sample_claim_result = Inr (c, sample_claimed_outbox)" using sample_claim_eq by blast
  then have "outbox_step sample_outbox sample_claimed_outbox" unfolding sample_claim_result_def by (rule outbox_step.claim)
  moreover have "outbox_step sample_claimed_outbox s" using s(1) unfolding out_def by (rule outbox_step.skipped)
  ultimately have r1: "outbox_step\<^sup>*\<^sup>* empty_outbox s"
    using sample_outbox_step by (meson rtranclp.rtrancl_into_rtrancl r_into_rtranclp)
  have "outbox_step s (snd (reset_stale_projection_outbox_processing 9000000 0 s))"
    by (rule outbox_step.reset) (rule prod.collapse [symmetric])
  from closed_job_is_final [OF r1 r_into_rtranclp [of outbox_step, OF this] s(2)] s show ?thesis unfolding out_def by auto
qed

text \<open>
  Retries are bounded. When the worker that holds a job reports a failure, the job counts one
  more attempt and is unlocked; it goes back to the queue only while the attempts stay below the limit
  and the failure is retryable, and is a dead letter from the limit on. A worker that does not hold
  the job changes nothing.
\<close>

theorem failure_counts_towards_limit:
  assumes ok: "jobs_ok (x_jobs s)" and m: "mark_failed retryable wire evlog now oid owner err lmt ev s = Inr s'"
    and r: "job_at (py_strip oid) (x_jobs s) = Some r"
  shows "if o_locked_by r = Some (py_strip owner)
     then (\<exists>r'. job_at (py_strip oid) (x_jobs s') = Some r' \<and> o_attempts r' = o_attempts r + 1 \<and> o_locked_by r' = None
        \<and> o_status r' = (if o_attempts r' \<ge> lmt then DEAD_LETTER else if retryable then PENDING else OB_ERROR))
     else s' = s"
proof -
  have ne: "require_non_empty oid ''outbox_id'' = Inr (py_strip oid)" "require_non_empty owner ''owner_id'' = Inr (py_strip owner)"
    using m by (auto simp: mark_failed_def rbind_Inr_iff require_non_empty_def Let_def split: if_splits)
  obtain e where e: "require_non_empty err ''error_message'' = Inr e" using m by (auto simp: mark_failed_def rbind_Inr_iff)
  have uk: "unique_key o_outbox_id (x_jobs s)" using ok by (simp add: jobs_ok_def)
  have mem: "r \<in> set (x_jobs s)" "o_outbox_id r = py_strip oid" using r by (auto dest: lookup_by_SomeD)
  show ?thesis
  proof (cases "o_locked_by r = Some (py_strip owner)")
    case True
    then have lk: "locked_job (py_strip oid) (py_strip owner) r" using mem by (simp add: locked_job_def)
    then obtain row where row: "sql_find (locked_job (py_strip oid) (py_strip owner)) (x_jobs s) = Some row"
      using mem(1) by (cases "sql_find (locked_job (py_strip oid) (py_strip owner)) (x_jobs s)") (auto simp: sql_find_def find_None_iff)
    then have "row = r" using find_unique_job [OF uk row lk mem(1)] by simp
    then have s': "x_jobs s' = sql_update (locked_job (py_strip oid) (py_strip owner))
        ((if retryable then retry_row else error_row) wire
           (if o_attempts r + 1 \<ge> lmt then DEAD_LETTER else if retryable then PENDING else OB_ERROR) (o_attempts r + 1) e ev now) (x_jobs s)"
      using m row by (auto simp: mark_failed_def ne e rbind_Inr_iff Let_def)
    have "job_at (py_strip oid) (x_jobs s') = Some ((if retryable then retry_row else error_row) wire
           (if o_attempts r + 1 \<ge> lmt then DEAD_LETTER else if retryable then PENDING else OB_ERROR) (o_attempts r + 1) e ev now r)"
      unfolding s' using r lk by (subst lookup_by_sql_update) auto
    then show ?thesis using True by (auto simp: job_rows)
  next
    case False
    have "sql_find (locked_job (py_strip oid) (py_strip owner)) (x_jobs s) = None"
      using False lookup_by_unique [OF uk] r unfolding sql_find_def find_None_iff locked_job_def by (metis option.inject)
    then show ?thesis using m False by (simp add: mark_failed_def ne e)
  qed
qed

theorem failure_counts_towards_limit_witness:
  "\<exists>r r' s'. job_at ''market_data:e1'' (x_jobs sample_claimed_outbox) = Some r
     \<and> mark_failed True (\<lambda>_. []) [] 6000000 ''market_data:e1'' ''w1'' ''boom'' 1 [] sample_claimed_outbox = Inr s'
     \<and> job_at ''market_data:e1'' (x_jobs s') = Some r' \<and> o_status r' = DEAD_LETTER"
proof -
  define out where "out = mark_failed True (\<lambda>_. []) [] 6000000 ''market_data:e1'' ''w1'' ''boom'' 1 [] sample_claimed_outbox"
  have strip: "py_strip ''market_data:e1'' = ''market_data:e1''" "py_strip ''w1'' = ''w1''" by code_simp+
  have "map_option (\<lambda>r. (o_locked_by r, o_attempts r)) (job_at ''market_data:e1'' (x_jobs sample_claimed_outbox)) = Some (Some ''w1'', 0)"
    "(case out of Inr _ \<Rightarrow> True | Inl _ \<Rightarrow> False)" unfolding out_def by code_simp+
  then obtain r s' where r: "job_at ''market_data:e1'' (x_jobs sample_claimed_outbox) = Some r" "o_locked_by r = Some ''w1''" "o_attempts r = 0"
    and s': "out = Inr s'" by (cases out) auto
  obtain c where "sample_claim_result = Inr (c, sample_claimed_outbox)" using sample_claim_eq by blast
  then have "outbox_step sample_outbox sample_claimed_outbox" unfolding sample_claim_result_def by (rule outbox_step.claim)
  then have ok: "jobs_ok (x_jobs sample_claimed_outbox)"
    using outbox_step_ok outbox_step_ok [OF sample_outbox_step empty_outbox_ok] by blast
  from failure_counts_towards_limit [OF ok s' [unfolded out_def], unfolded strip, OF r(1)] r s'
  show ?thesis unfolding out_def by auto
qed

text \<open>
  Order and account events are never projected: an event of an excluded type creates no job. Any
  other event creates exactly the jobs its type calls for, and enqueueing it again creates none.
\<close>

theorem enqueue_jobs_idempotent:
  assumes "jobs_ok (x_jobs s)"
    and "enqueue_projection_jobs_for_gateway_event rp evlog now ev rowid s = Inr (res, s')"
    and "enqueue_projection_jobs_for_gateway_event rp evlog now2 ev rowid2 s' = Inr (res2, s2)"
  shows "(\<forall>p. lookup_by job_key (p, v_event_id ev) (x_jobs s) = None \<longrightarrow>
            (lookup_by job_key (p, v_event_id ev) (x_jobs s') \<noteq> None \<longleftrightarrow> p \<in> set (projection_jobs_for_event rp ev)))
     \<and> (\<forall>k. lookup_by job_key k (x_jobs s2) = lookup_by job_key k (x_jobs s'))
     \<and> (normalize_event_type (v_event_type ev) \<in> set EXCLUDED_EVENT_TYPES \<longrightarrow> s' = s)"
proof -
  obtain rid where a: "jobs_added ev rid now (projection_jobs_for_event rp ev) (x_jobs s) (x_jobs s')" "jobs_ok (x_jobs s')"
    using enqueue_ok [OF assms(1), of rp evlog now ev rowid] assms(2) by (metis Inr_inject prod.inject)
  obtain rid2 where b: "jobs_added ev rid2 now2 (projection_jobs_for_event rp ev) (x_jobs s') (x_jobs s2)"
    using enqueue_ok [OF a(2), of rp evlog now2 ev rowid2] assms(3) by (metis Inr_inject prod.inject)
  have "lookup_by job_key k (x_jobs s2) = lookup_by job_key k (x_jobs s')" for k
    using a(1) [unfolded jobs_added_def, rule_format, of k] b [unfolded jobs_added_def, rule_format, of k]
    by (auto split: option.splits if_splits)
  moreover have "lookup_by job_key (p, v_event_id ev) (x_jobs s') \<noteq> None \<longleftrightarrow> p \<in> set (projection_jobs_for_event rp ev)"
    if "lookup_by job_key (p, v_event_id ev) (x_jobs s) = None" for p
    using a(1) [unfolded jobs_added_def, rule_format, of "(p, v_event_id ev)"] that by auto
  moreover have "s' = s" if "normalize_event_type (v_event_type ev) \<in> set EXCLUDED_EVENT_TYPES"
  proof -
    have "normalize_event_type (v_event_type ev) \<noteq> ''tr_response''" using that by (auto simp: EXCLUDED_EVENT_TYPES_def)
    then have "projection_jobs_for_event rp ev = []"
      using that by (simp add: projection_jobs_for_event_def projection_jobs_for_gateway_event_def
          is_scan_related_tr_response_def is_market_index_bootstrap_tr_response_def Let_def)
    then show ?thesis using assms(2) by (simp add: enqueue_projection_jobs_for_gateway_event_def)
  qed
  ultimately show ?thesis by blast
qed

theorem enqueue_jobs_idempotent_witness:
  "\<exists>res s2. enqueue_projection_jobs_for_gateway_event (\<lambda>_. []) [] 9 sample_tick (Some 7) sample_outbox = Inr (res, s2)
     \<and> (\<forall>k. lookup_by job_key k (x_jobs s2) = lookup_by job_key k (x_jobs sample_outbox))"
proof -
  obtain res s' where e: "enqueue_projection_jobs_for_gateway_event (\<lambda>_. []) [] 0 sample_tick (Some 7) empty_outbox = Inr (res, s')"
    using enqueue_ok [OF empty_outbox_ok] by metis
  then have s': "sample_outbox = s'" by (simp add: sample_outbox_def)
  have ok: "jobs_ok (x_jobs sample_outbox)" using outbox_step_ok [OF sample_outbox_step] by simp
  obtain res2 s2 where e2: "enqueue_projection_jobs_for_gateway_event (\<lambda>_. []) [] 9 sample_tick (Some 7) sample_outbox = Inr (res2, s2)"
    using enqueue_ok [OF ok] by metis
  from enqueue_jobs_idempotent [OF empty_outbox_ok e e2 [unfolded s']] e2 s' show ?thesis by auto
qed


lemma projection_names_normal: "p \<in> set PROJECTIONS \<Longrightarrow> normalize_projection_name p = Inr p"
proof -
  have "\<forall>p \<in> set PROJECTIONS. normalize_projection_name p = Inr p" by code_simp
  then show "p \<in> set PROJECTIONS \<Longrightarrow> normalize_projection_name p = Inr p" by blast
qed

text \<open>
  The watermark follows the outbox. When the worker that holds a job marks it applied and the
  event is in the log, the success watermark of the job's projection reaches the event's position.
\<close>

theorem applied_job_reaches_watermark:
  assumes ok: "jobs_ok (x_jobs s)" and m: "mark_projection_outbox_applied wire evlog now oid owner ev s = Inr s'"
    and r: "job_at (py_strip oid) (x_jobs s) = Some r" "o_locked_by r = Some (py_strip owner)" "o_event_rowid r = Some n" "0 < n"
    and l: "lookup_by l_event_id (py_strip (o_event_id r)) evlog \<noteq> None"
  shows "n \<le> w_last_success_event_rowid (wm_at (o_projection_name r) (x_projections s'))"
proof -
  have uk: "unique_key o_outbox_id (x_jobs s)" using ok by (simp add: jobs_ok_def)
  have mem: "r \<in> set (x_jobs s)" "o_outbox_id r = py_strip oid" using r(1) by (auto dest: lookup_by_SomeD)
  have "job_ok r" using ok mem by (simp add: jobs_ok_def)
  then have nn: "normalize_projection_name (o_projection_name r) = Inr (o_projection_name r)"
    by (simp add: job_ok_def projection_names_normal)
  have ne: "require_non_empty oid ''outbox_id'' = Inr (py_strip oid)" "require_non_empty owner ''owner_id'' = Inr (py_strip owner)"
    using m by (auto simp: mark_projection_outbox_applied_def mark_projection_outbox_terminal_def rbind_Inr_iff require_non_empty_def Let_def split: if_splits)
  have lk: "locked_job (py_strip oid) (py_strip owner) r" using mem r(2) by (simp add: locked_job_def)
  then obtain row where row: "sql_find (locked_job (py_strip oid) (py_strip owner)) (x_jobs s) = Some row"
    using mem(1) by (cases "sql_find (locked_job (py_strip oid) (py_strip owner)) (x_jobs s)") (auto simp: sql_find_def find_None_iff)
  then have "row = r" using find_unique_job [OF uk row lk mem(1)] by simp
  then obtain res where rec: "record_projection_event_result evlog now (o_projection_name r) (o_event_id r)
           ''SUCCESS'' ''OUTBOX_APPLIED'' (Some n) (Some (o_event_type r)) None None
           [(''source'', PStr ''projection_outbox''), (''evidence'', PDict ev)] (x_projections s) = Inr (res, x_projections s')"
    using m row r(3) by (auto simp: mark_projection_outbox_applied_def mark_projection_outbox_terminal_def ne rbind_Inr_iff)
  have suc: "parse_result_status ''SUCCESS'' = Inr RS_SUCCESS" by code_simp
  from rec show ?thesis
  proof (cases rule: record_projection_event_result_cases)
    case (unknown e)
    then have "e = py_strip (o_event_id r)" by (auto simp: require_non_empty_def Let_def split: if_splits)
    then show ?thesis using unknown(4) l by (auto simp: resolve_event_position_def split: option.splits)
  next
    case (written m e rs oc pos)
    have "p_event_rowid pos = n" using written(5) r(4) by (auto simp: resolve_event_position_def split: option.splits)
    moreover have "rs = RS_SUCCESS" "m = o_projection_name r" using written(1,4) suc nn by simp_all
    ultimately show ?thesis
      using record_at_position_effect(1) [OF written(2,6), of m] r(4) by (simp add: advance_row_def Let_def)
  qed
qed

theorem applied_job_reaches_watermark_witness:
  "\<exists>s'. mark_projection_outbox_applied (\<lambda>_. []) [\<lparr> l_rowid = 7, l_event_id = ''e1'', l_event_type = ''condition_event'', l_received_at = 0 \<rparr>]
        6000000 ''market_data:e1'' ''w1'' [] sample_claimed_outbox = Inr s'
     \<and> 7 \<le> w_last_success_event_rowid (wm_at ''market_data'' (x_projections s'))"
proof -
  define evlog where "evlog = [\<lparr> l_rowid = 7, l_event_id = ''e1'', l_event_type = ''condition_event'', l_received_at = 0 \<rparr>]"
  define out where "out = mark_projection_outbox_applied (\<lambda>_. []) evlog 6000000 ''market_data:e1'' ''w1'' [] sample_claimed_outbox"
  have strip: "py_strip ''market_data:e1'' = ''market_data:e1''" "py_strip ''w1'' = ''w1''" "py_strip ''e1'' = ''e1''" by code_simp+
  have "map_option (\<lambda>r. (o_locked_by r, o_event_rowid r, o_event_id r, o_projection_name r)) (job_at ''market_data:e1'' (x_jobs sample_claimed_outbox))
      = Some (Some ''w1'', Some 7, ''e1'', ''market_data'')"
    "(case out of Inr _ \<Rightarrow> True | Inl _ \<Rightarrow> False)" unfolding out_def evlog_def by code_simp+
  then obtain r s' where r: "job_at ''market_data:e1'' (x_jobs sample_claimed_outbox) = Some r" "o_locked_by r = Some ''w1''"
      "o_event_rowid r = Some 7" "o_event_id r = ''e1''" "o_projection_name r = ''market_data''"
    and s': "out = Inr s'" by (cases out) auto
  obtain c where "sample_claim_result = Inr (c, sample_claimed_outbox)" using sample_claim_eq by blast
  then have "outbox_step sample_outbox sample_claimed_outbox" unfolding sample_claim_result_def by (rule outbox_step.claim)
  then have ok: "jobs_ok (x_jobs sample_claimed_outbox)"
    using outbox_step_ok outbox_step_ok [OF sample_outbox_step empty_outbox_ok] by blast
  have l: "lookup_by l_event_id (py_strip (o_event_id r)) evlog \<noteq> None" by (simp add: r(4) strip evlog_def)
  from applied_job_reaches_watermark [OF ok s' [unfolded out_def], unfolded strip, OF r(1-3) _ l] s'
  show ?thesis unfolding out_def evlog_def r(5) by auto
qed

end
