(* ===== verification/Core_IO_Worker.thy ===== *)
theory Core_IO_Worker
  imports Command_Row
begin

text \<open>
  The worker that moves events from the broker thread to Core and commands back
  (gateway/core_io_worker.py). A queued event carries the identity of its object, a number, because
  the code removes posted events by identity. Seconds are rational numbers; clock readings and the
  answers of the HTTP client are arguments. Posting is split at the points where the lock is released,
  so that other threads may enqueue while a batch is in flight.
\<close>

section \<open>Event classes\<close>

type_synonym entry = "nat \<times> gateway_event"

definition event_kind :: "gateway_event \<Rightarrow> string" where
  "event_kind ev = py_lower (py_strip (v_event_type ev))"

definition COMMAND_CRITICAL_EVENT_TYPES :: "string list" where
  "COMMAND_CRITICAL_EVENT_TYPES =
     [''command_started'', ''command_ack'', ''command_failed'', ''rate_limited'', ''execution_event'',
      ''order_pre_ack'', ''order_broker_unconfirmed'', ''kiwoom_order_chejan'', ''kiwoom_balance_chejan'',
      ''kiwoom_special_chejan'']"

definition DROPPABLE_EVENT_TYPES :: "string list" where
  "DROPPABLE_EVENT_TYPES = [''heartbeat'', ''price_tick'', ''quote_tick'', ''market_index_tick'', ''gateway_log'']"

definition DROP_PROTECTED_EVENT_TYPES :: "string list" where
  "DROP_PROTECTED_EVENT_TYPES =
     [''command_started'', ''command_ack'', ''command_failed'', ''rate_limited'', ''tr_response'', ''execution_event'',
      ''order_pre_ack'', ''order_broker_unconfirmed'', ''kiwoom_order_chejan'', ''kiwoom_balance_chejan'',
      ''kiwoom_special_chejan'']"

definition is_command_critical_event :: "gateway_event \<Rightarrow> bool" where
  "is_command_critical_event ev \<longleftrightarrow> event_kind ev \<in> set COMMAND_CRITICAL_EVENT_TYPES"

definition is_droppable_event :: "gateway_event \<Rightarrow> bool" where
  "is_droppable_event ev \<longleftrightarrow> event_kind ev \<in> set DROPPABLE_EVENT_TYPES"

definition is_drop_protected_event :: "gateway_event \<Rightarrow> bool" where
  "is_drop_protected_event ev \<longleftrightarrow> event_kind ev \<in> set DROP_PROTECTED_EVENT_TYPES"

definition is_core_fast_batch_event :: "gateway_event \<Rightarrow> bool" where
  "is_core_fast_batch_event ev \<longleftrightarrow> event_kind ev \<in> {''price_tick'', ''condition_event''}"

definition is_priority_event :: "gateway_event \<Rightarrow> bool" where
  "is_priority_event ev \<longleftrightarrow> event_kind ev \<in> {''heartbeat'', ''market_index_tick'', ''tr_response''}"

definition is_market_refresh_event :: "gateway_event \<Rightarrow> bool" where
  "is_market_refresh_event ev \<longleftrightarrow> event_kind ev \<in> {''price_tick'', ''quote_tick'', ''market_index_tick''}"

definition text_of :: "repr \<Rightarrow> pyval \<Rightarrow> string" where
  \<comment> \<open>\<open>str(v or "").strip()\<close>\<close>
  "text_of rp v = py_strip (py_str rp (py_or v (PStr [])))"

definition coalescing_key :: "repr \<Rightarrow> gateway_event \<Rightarrow> (string \<times> string) option" where
  "coalescing_key rp ev =
     (let ty = event_kind ev; p = v_payload ev in
      if ty = ''heartbeat'' then Some (ty, v_source ev)
      else if ty \<in> {''price_tick'', ''quote_tick''}
      then (let code = text_of rp (dget p ''code'') in if code \<noteq> [] then Some (ty, code) else None)
      else if ty = ''market_index_tick''
      then (let code = text_of rp (py_or (dget p ''index_code'') (dget p ''code'')) in
            if code \<noteq> [] then Some (ty, code) else None)
      else None)"

section \<open>State\<close>

record worker_config =
  c_command_limit :: int
  c_command_wait_sec :: rat
  c_command_polling_enabled :: bool
  c_event_posting_enabled :: bool
  c_retry_sleep_sec :: rat
  c_coalesce_after_size :: nat
  c_command_poll_interval_sec :: rat
  c_max_buffer_size :: nat
  c_event_batch_size :: nat
  c_market_batch_share :: nat

definition make_config ::
  "int \<Rightarrow> rat \<Rightarrow> bool \<Rightarrow> bool \<Rightarrow> rat \<Rightarrow> int \<Rightarrow> rat \<Rightarrow> int \<Rightarrow> int \<Rightarrow> int \<Rightarrow> worker_config" where
  "make_config command_limit command_wait polling posting retry_sleep coalesce_after poll_interval max_buffer batch_size market_share =
     (let batch = min (max batch_size 1) 200 in
      \<lparr> c_command_limit = max command_limit 1, c_command_wait_sec = max command_wait 0,
        c_command_polling_enabled = polling, c_event_posting_enabled = posting,
        c_retry_sleep_sec = max retry_sleep (1 / 20), c_coalesce_after_size = nat (max coalesce_after 1),
        c_command_poll_interval_sec = max poll_interval (1 / 20), c_max_buffer_size = nat (max max_buffer 1),
        c_event_batch_size = nat batch, c_market_batch_share = nat (min (max market_share 1) batch) \<rparr>)"

record worker =
  k_events :: "entry list"
  k_commands :: "gateway_command list"
  k_posted_count :: nat
  k_poll_count :: nat
  k_coalesced_count :: nat
  k_dropped_count :: nat
  k_last_error :: string
  k_latest_poll_at :: "rat option"
  k_latest_poll_error_at :: "rat option"
  k_latest_post_at :: "rat option"
  k_next_post_retry_at :: rat
  k_next_command_poll_at :: rat
  k_consecutive_poll_error_count :: nat
  k_batch_post_count :: nat
  k_latest_batch_size :: nat
  k_last_successful_batch_fast :: "bool option"
  k_rejected_event_count :: int
  k_consecutive_post_error_count :: nat

definition initial_worker :: worker where
  "initial_worker =
     \<lparr> k_events = [], k_commands = [], k_posted_count = 0, k_poll_count = 0, k_coalesced_count = 0, k_dropped_count = 0,
       k_last_error = [], k_latest_poll_at = None, k_latest_poll_error_at = None, k_latest_post_at = None,
       k_next_post_retry_at = 0, k_next_command_poll_at = 0, k_consecutive_poll_error_count = 0, k_batch_post_count = 0,
       k_latest_batch_size = 0, k_last_successful_batch_fast = None, k_rejected_event_count = 0,
       k_consecutive_post_error_count = 0 \<rparr>"

section \<open>Buffer operations\<close>

fun drop_first :: "('a \<Rightarrow> bool) \<Rightarrow> 'a list \<Rightarrow> 'a list" where
  \<comment> \<open>\<open>del xs[i]\<close> for the first \<open>i\<close> with \<open>p xs[i]\<close>\<close>
  "drop_first p [] = []"
| "drop_first p (x # xs) = (if p x then xs else x # drop_first p xs)"

fun replace_first :: "('a \<Rightarrow> bool) \<Rightarrow> 'a \<Rightarrow> 'a list \<Rightarrow> 'a list" where
  "replace_first p y [] = []"
| "replace_first p y (x # xs) = (if p x then y # xs else x # replace_first p y xs)"

fun insert_at_of :: "nat \<Rightarrow> nat \<Rightarrow> entry list \<Rightarrow> nat" where
  \<comment> \<open>one past the last command-critical index, else the initial value\<close>
  "insert_at_of i acc [] = acc"
| "insert_at_of i acc (e # es) =
     insert_at_of (Suc i) (if is_command_critical_event (snd e) then Suc i else acc) es"

definition insert_after_command_critical :: "entry \<Rightarrow> entry list \<Rightarrow> entry list" where
  "insert_after_command_critical e es = (let i = insert_at_of 0 0 es in take i es @ e # drop i es)"

definition same_key :: "repr \<Rightarrow> (string \<times> string) \<Rightarrow> entry \<Rightarrow> bool" where
  "same_key rp k e \<longleftrightarrow> coalescing_key rp (snd e) = Some k"

lemma length_drop_first: "\<exists>x \<in> set xs. p x \<Longrightarrow> Suc (length (drop_first p xs)) = length xs"
  by (induction xs) auto

lemma length_drop_first_less: "\<exists>x \<in> set xs. p x \<Longrightarrow> length (drop_first p xs) < length xs"
  using length_drop_first [of xs p] by simp

function drop_excess :: "nat \<Rightarrow> entry list \<Rightarrow> nat \<Rightarrow> entry list \<times> nat" where
  \<comment> \<open>the loop of \<open>_enforce_buffer_limit_locked\<close>, counting what it drops\<close>
  "drop_excess cap es dropped =
     (if length es \<le> cap then (es, dropped)
      else if \<exists>e \<in> set es. is_droppable_event (snd e)
      then drop_excess cap (drop_first (\<lambda>e. is_droppable_event (snd e)) es) (Suc dropped)
      else if \<exists>e \<in> set es. \<not> is_drop_protected_event (snd e)
      then drop_excess cap (drop_first (\<lambda>e. \<not> is_drop_protected_event (snd e)) es) (Suc dropped)
      else (es, dropped))"
  by pat_completeness auto

termination
  by (relation "measure (\<lambda>(cap, es, dropped). length es)")
     (rule wf_measure, simp_all only: in_measure prod.case length_drop_first_less)

declare drop_excess.simps [simp del]

definition enforce_buffer_limit :: "worker_config \<Rightarrow> worker \<Rightarrow> worker" where
  "enforce_buffer_limit cfg w =
     (case drop_excess (c_max_buffer_size cfg) (k_events w) (k_dropped_count w) of
        (es, d) \<Rightarrow> w\<lparr>k_events := es, k_dropped_count := d\<rparr>)"

definition enqueue_priority_event :: "repr \<Rightarrow> entry \<Rightarrow> worker \<Rightarrow> worker" where
  "enqueue_priority_event rp e w =
     (let w1 = (case coalescing_key rp (snd e) of
                  None \<Rightarrow> w
                | Some k \<Rightarrow>
                    (if \<exists>q \<in> set (k_events w). same_key rp k q
                     then w\<lparr>k_events := drop_first (same_key rp k) (k_events w), k_coalesced_count := Suc (k_coalesced_count w)\<rparr>
                     else w)) in
      w1\<lparr>k_events := insert_after_command_critical e (k_events w1)\<rparr>)"

definition coalesce_event :: "repr \<Rightarrow> entry \<Rightarrow> worker \<Rightarrow> bool \<times> worker" where
  "coalesce_event rp e w =
     (case coalescing_key rp (snd e) of
        None \<Rightarrow> (False, w)
      | Some k \<Rightarrow>
          (if \<exists>q \<in> set (k_events w). same_key rp k q
           then (True, w\<lparr>k_events := replace_first (same_key rp k) e (k_events w), k_coalesced_count := Suc (k_coalesced_count w)\<rparr>)
           else (False, w)))"

definition enqueue_event :: "repr \<Rightarrow> worker_config \<Rightarrow> entry \<Rightarrow> worker \<Rightarrow> worker" where
  "enqueue_event rp cfg e w =
     (if \<not> c_event_posting_enabled cfg then w
      else if is_command_critical_event (snd e)
      then enforce_buffer_limit cfg (w\<lparr>k_events := insert_after_command_critical e (k_events w)\<rparr>)
      else if is_priority_event (snd e)
      then enforce_buffer_limit cfg (enqueue_priority_event rp e w)
      else
        let (coalesced, w1) = (if c_coalesce_after_size cfg \<le> length (k_events w) then coalesce_event rp e w else (False, w)) in
        if coalesced then w1
        else enforce_buffer_limit cfg (w1\<lparr>k_events := k_events w1 @ [e]\<rparr>))"

definition drain_commands :: "int \<Rightarrow> worker \<Rightarrow> gateway_command list \<times> worker" where
  "drain_commands limit w =
     (let n = nat (max limit 1) in (take n (k_commands w), w\<lparr>k_commands := drop n (k_commands w)\<rparr>))"

section \<open>Selecting a batch\<close>

fun add_matching ::
  "bool \<Rightarrow> nat \<Rightarrow> (gateway_event \<Rightarrow> bool) \<Rightarrow> nat \<Rightarrow> entry list \<Rightarrow> entry list \<Rightarrow> entry list" where
  \<comment> \<open>the loop over the buffer; \<open>selected\<close> grows, \<open>item_limit\<close> shrinks\<close>
  "add_matching target_fast limit pred item_limit [] selected = selected"
| "add_matching target_fast limit pred item_limit (e # es) selected =
     (if length selected \<ge> limit \<or> item_limit = 0 then selected
      else if fst e \<in> fst ` set selected \<or> is_core_fast_batch_event (snd e) \<noteq> target_fast \<or> \<not> pred (snd e)
      then add_matching target_fast limit pred item_limit es selected
      else add_matching target_fast limit pred (item_limit - 1) es (selected @ [e]))"

definition first_entry :: "(gateway_event \<Rightarrow> bool) \<Rightarrow> entry list \<Rightarrow> gateway_event option" where
  "first_entry p es = map_option snd (find (\<lambda>e. p (snd e)) es)"

definition select_batch_fast_group :: "worker \<Rightarrow> bool" where
  "select_batch_fast_group w =
     (let es = k_events w in
      if \<not> (\<exists>e \<in> set es. is_core_fast_batch_event (snd e)) then False
      else if \<not> (\<exists>e \<in> set es. \<not> is_core_fast_batch_event (snd e)) then True
      else case first_entry is_command_critical_event es of
             Some ev \<Rightarrow> is_core_fast_batch_event ev
           | None \<Rightarrow>
               (case k_last_successful_batch_fast w of
                  Some fast \<Rightarrow> \<not> fast
                | None \<Rightarrow>
                    is_core_fast_batch_event
                      (case first_entry is_priority_event es of
                         Some ev \<Rightarrow> ev
                       | None \<Rightarrow> (case first_entry is_market_refresh_event es of
                                   Some ev \<Rightarrow> ev | None \<Rightarrow> snd (hd es)))))"

definition select_event_batch :: "worker_config \<Rightarrow> worker \<Rightarrow> entry list" where
  "select_event_batch cfg w =
     (let es = k_events w; limit = min (c_event_batch_size cfg) (length es) in
      if limit = 0 then []
      else
        let fast = select_batch_fast_group w;
            s1 = add_matching fast limit is_command_critical_event limit es [];
            s2 = add_matching fast limit (\<lambda>ev. is_priority_event ev \<and> \<not> is_command_critical_event ev)
                   (min 16 (limit - length s1)) es s1;
            s3 = add_matching fast limit is_market_refresh_event (min (c_market_batch_share cfg) (limit - length s2)) es s2 in
        add_matching fast limit (\<lambda>_. True) (limit - length s3) es s3)"

section \<open>Posting\<close>

definition post_retry_delay_sec :: "worker_config \<Rightarrow> worker \<Rightarrow> rat" where
  "post_retry_delay_sec cfg w =
     (let exponent = min (k_consecutive_post_error_count w - 1) 10 in
      min (c_retry_sleep_sec cfg * 2 ^ exponent) 5)"

definition post_failed :: "worker_config \<Rightarrow> string \<Rightarrow> rat \<Rightarrow> worker \<Rightarrow> worker" where
  \<comment> \<open>the exception handler shared by both ways of posting\<close>
  "post_failed cfg err now w =
     (let w1 = w\<lparr>k_last_error := err, k_consecutive_post_error_count := Suc (k_consecutive_post_error_count w)\<rparr> in
      w1\<lparr>k_next_post_retry_at := now + post_retry_delay_sec cfg w1\<rparr>)"

definition remove_event_by_identity :: "entry \<Rightarrow> entry list \<Rightarrow> entry list" where
  "remove_event_by_identity e es = drop_first (\<lambda>q. fst q = fst e) es"

definition batch_posted :: "entry list \<Rightarrow> int \<Rightarrow> rat \<Rightarrow> worker \<Rightarrow> worker" where
  \<comment> \<open>the block that takes a batch out of the buffer after Core has answered\<close>
  "batch_posted events rejected now w =
     w\<lparr>k_events := fold remove_event_by_identity events (k_events w),
       k_posted_count := k_posted_count w + length events,
       k_batch_post_count := Suc (k_batch_post_count w),
       k_latest_batch_size := length events,
       k_last_successful_batch_fast := Some (is_core_fast_batch_event (snd (hd events))),
       k_rejected_event_count := k_rejected_event_count w + rejected,
       k_consecutive_post_error_count := 0,
       k_latest_post_at := Some now,
       k_last_error := (if rejected \<noteq> 0 then ''Core rejected '' @ int_text rejected @ '' event(s) from latest batch'' else [])\<rparr>"

definition post_next_event_batch ::
  "worker_config \<Rightarrow> rat \<Rightarrow> (entry list \<Rightarrow> string + int) \<Rightarrow> rat \<Rightarrow> worker \<Rightarrow> bool \<times> worker" where
  \<comment> \<open>\<open>post\<close> gives the text of the exception, or \<open>failed_count\<close> of the response\<close>
  "post_next_event_batch cfg now post after w =
     (if now < k_next_post_retry_at w then (False, w)
      else
        let events = select_event_batch cfg w in
        if events = [] then (False, w)
        else case post events of
               Inl err \<Rightarrow> (False, post_failed cfg err after w)
             | Inr rejected \<Rightarrow> (True, batch_posted events rejected after w))"

definition event_posted :: "entry \<Rightarrow> rat \<Rightarrow> worker \<Rightarrow> worker" where
  "event_posted e now w =
     w\<lparr>k_events :=
         (case k_events w of
            q # qs \<Rightarrow> (if fst q = fst e then qs else drop_first (\<lambda>x. snd x = snd e) (q # qs))
          | [] \<Rightarrow> []),
       k_posted_count := Suc (k_posted_count w), k_consecutive_post_error_count := 0, k_latest_post_at := Some now,
       k_last_error := []\<rparr>"

definition post_next_event :: "worker_config \<Rightarrow> rat \<Rightarrow> (gateway_event \<Rightarrow> string option) \<Rightarrow> rat \<Rightarrow> worker \<Rightarrow> bool \<times> worker" where
  "post_next_event cfg now post after w =
     (if \<not> c_event_posting_enabled cfg \<or> now < k_next_post_retry_at w then (False, w)
      else case k_events w of
             [] \<Rightarrow> (False, w)
           | e # _ \<Rightarrow> (case post (snd e) of
                        Some err \<Rightarrow> (False, post_failed cfg err after w)
                      | None \<Rightarrow> (True, event_posted e after w)))"

section \<open>Polling and waiting\<close>

definition poll_commands_into :: "(string + gateway_command list) \<Rightarrow> rat \<Rightarrow> worker \<Rightarrow> worker" where
  "poll_commands_into answer now w =
     (case answer of
        Inl err \<Rightarrow> w\<lparr>k_last_error := err, k_latest_poll_error_at := Some now,
                     k_consecutive_poll_error_count := Suc (k_consecutive_poll_error_count w)\<rparr>
      | Inr cmds \<Rightarrow> w\<lparr>k_poll_count := Suc (k_poll_count w), k_latest_poll_at := Some now,
                      k_consecutive_poll_error_count := 0, k_last_error := [], k_commands := k_commands w @ cmds\<rparr>)"

definition wait_for_work :: "worker_config \<Rightarrow> rat \<Rightarrow> rat \<Rightarrow> worker \<Rightarrow> rat option" where
  \<comment> \<open>\<open>None\<close>: return at once; otherwise the time-out of the condition wait\<close>
  "wait_for_work cfg now timeout_sec w =
     (if k_events w \<noteq> [] \<and> k_next_post_retry_at w \<le> now then None
      else if c_command_polling_enabled cfg \<and> k_next_command_poll_at w \<le> now then None
      else
        let deadlines = (if k_events w \<noteq> [] then [k_next_post_retry_at w] else [])
                        @ (if c_command_polling_enabled cfg then [k_next_command_poll_at w] else []);
            wait = (case deadlines of [] \<Rightarrow> max timeout_sec (1 / 100) | d # ds \<Rightarrow> fold min ds d - now) in
        Some (max wait (1 / 100)))"

definition run_once ::
  "worker_config \<Rightarrow> rat \<Rightarrow> (rat \<times> (string + gateway_command list)) \<Rightarrow> (entry list \<Rightarrow> string + int) \<Rightarrow> rat \<Rightarrow> worker
   \<Rightarrow> worker \<times> rat option" where
  \<comment> \<open>one turn of the loop in \<open>_run\<close> with a client that posts batches: what \<open>poll_commands\<close> and \<open>post_events\<close> would
      answer, the clock at the start of the turn and after the call; the second result is how long the turn ends waiting\<close>
  "run_once cfg now polled post after w =
     (if c_command_polling_enabled cfg \<and> k_next_command_poll_at w \<le> now
      then ((poll_commands_into (snd polled) (fst polled) w)\<lparr>k_next_command_poll_at := after + c_command_poll_interval_sec cfg\<rparr>, None)
      else
        let (posted, w1) = post_next_event_batch cfg now post after w in
        if posted then (w1, None) else (w1, wait_for_work cfg after (1 / 10) w1))"

section \<open>Snapshot\<close>

definition market_event_queue_size :: "worker \<Rightarrow> nat" where
  "market_event_queue_size w = length (filter (\<lambda>e. is_market_refresh_event (snd e)) (k_events w))"

definition durable_event_queue_size :: "worker \<Rightarrow> nat" where
  "durable_event_queue_size w = length (filter (\<lambda>e. \<not> is_droppable_event (snd e)) (k_events w))"

definition oldest_event_age :: "instant \<Rightarrow> entry list \<Rightarrow> int option" where
  "oldest_event_age now es =
     (if es = [] then None else Some (Max (set (map (\<lambda>e. max (now - v_ts (snd e)) 0) es))))"

declare split_paired_All [simp del] split_paired_Ex [simp del]

section \<open>How the event classes relate\<close>

abbreviation critical :: "entry \<Rightarrow> bool" where "critical e \<equiv> is_command_critical_event (snd e)"
abbreviation protected :: "entry \<Rightarrow> bool" where "protected e \<equiv> is_drop_protected_event (snd e)"

lemma critical_protected: "is_command_critical_event ev \<Longrightarrow> is_drop_protected_event ev"
  unfolding is_command_critical_event_def is_drop_protected_event_def COMMAND_CRITICAL_EVENT_TYPES_def
    DROP_PROTECTED_EVENT_TYPES_def by auto

lemma protected_not_droppable: "is_drop_protected_event ev \<Longrightarrow> \<not> is_droppable_event ev"
  unfolding is_droppable_event_def is_drop_protected_event_def DROPPABLE_EVENT_TYPES_def
    DROP_PROTECTED_EVENT_TYPES_def by auto

lemma critical_not_fast: "is_command_critical_event ev \<Longrightarrow> \<not> is_core_fast_batch_event ev"
  unfolding is_command_critical_event_def is_core_fast_batch_event_def COMMAND_CRITICAL_EVENT_TYPES_def by auto

lemma critical_not_market: "is_command_critical_event ev \<Longrightarrow> \<not> is_market_refresh_event ev"
  unfolding is_command_critical_event_def is_market_refresh_event_def COMMAND_CRITICAL_EVENT_TYPES_def by auto

lemma keyed_kind: "coalescing_key rp ev = Some k \<Longrightarrow>
    event_kind ev \<in> {''heartbeat'', ''price_tick'', ''quote_tick'', ''market_index_tick''}"
  unfolding coalescing_key_def by (auto simp: Let_def split: if_splits)

lemma keyed_not_protected: "coalescing_key rp ev = Some k \<Longrightarrow> \<not> is_drop_protected_event ev"
  unfolding is_drop_protected_event_def DROP_PROTECTED_EVENT_TYPES_def by (drule keyed_kind) auto

lemma keyed_not_critical: "coalescing_key rp ev = Some k \<Longrightarrow> \<not> is_command_critical_event ev"
  using keyed_not_protected critical_protected by blast

lemma keyed_droppable: "coalescing_key rp ev = Some k \<Longrightarrow> is_droppable_event ev"
  using keyed_kind [of rp ev k] unfolding is_droppable_event_def DROPPABLE_EVENT_TYPES_def by simp blast

lemma same_key_not_protected: "same_key rp k e \<Longrightarrow> \<not> protected e"
  unfolding same_key_def by (rule keyed_not_protected)

section \<open>Operations that only remove what they may\<close>

lemma set_drop_first: "set (drop_first p xs) \<subseteq> set xs" by (induction xs) auto
lemma drop_first_subset: "x \<in> set (drop_first p xs) \<Longrightarrow> x \<in> set xs" by (rule subsetD [OF set_drop_first])
lemma set_replace_first: "x \<in> set (replace_first p y xs) \<Longrightarrow> x = y \<or> x \<in> set xs" by (induction xs) (auto split: if_splits)
lemma length_replace_first [simp]: "length (replace_first p y xs) = length xs" by (induction xs) auto

lemma distinct_drop_first: "distinct (map f xs) \<Longrightarrow> distinct (map f (drop_first p xs))"
  by (induction xs) (auto dest: drop_first_subset)

lemma distinct_replace_first:
  "distinct (map f xs) \<Longrightarrow> f y \<notin> f ` set xs \<Longrightarrow> distinct (map f (replace_first p y xs))"
  by (induction xs) (auto dest: set_replace_first)

lemma filter_drop_first: "(\<And>x. p x \<Longrightarrow> \<not> keep x) \<Longrightarrow> filter keep (drop_first p xs) = filter keep xs"
  by (induction xs) auto

lemma filter_replace_first:
  "(\<And>x. p x \<Longrightarrow> \<not> keep x) \<Longrightarrow> \<not> keep y \<Longrightarrow> filter keep (replace_first p y xs) = filter keep xs"
  by (induction xs) auto

lemma sorted_wrt_drop_first: "sorted_wrt R xs \<Longrightarrow> sorted_wrt R (drop_first p xs)"
  by (induction xs) (auto dest: drop_first_subset)

lemma drop_first_by_key:
  "distinct (map f xs) \<Longrightarrow> drop_first (\<lambda>q. f q = k) xs = filter (\<lambda>q. f q \<noteq> k) xs"
proof (induction xs)
  case (Cons x xs)
  have "filter (\<lambda>q. f q \<noteq> f x) xs = xs" using Cons.prems by (auto intro!: filter_True simp: image_iff)
  then show ?case using Cons by (cases "f x = k") auto
qed simp

text \<open>An operation on the buffer is lossless for a class of events when the events of that class stay, in their order.\<close>

locale lossless =
  fixes keep :: "entry \<Rightarrow> bool" and f :: "entry list \<Rightarrow> entry list"
  assumes kept: "filter keep (f es) = filter keep es"
begin

lemma stays: "e \<in> set es \<Longrightarrow> keep e \<Longrightarrow> e \<in> set (f es)"
proof -
  assume "e \<in> set es" "keep e"
  then have "e \<in> set (filter keep (f es))" unfolding kept by simp
  then show "e \<in> set (f es)" by simp
qed

lemma count_kept: "length (filter keep es) \<le> length (f es)"
  using kept [of es] by (metis length_filter_le)

lemma twice: "filter keep (f (f es)) = filter keep es"
  by (simp add: kept)

end

definition drop_loop :: "nat \<Rightarrow> entry list \<Rightarrow> entry list" where
  "drop_loop cap es = fst (drop_excess cap es 0)"

lemma drop_excess_counts: "drop_excess cap es d = (es', d') \<Longrightarrow> length es' + d' = length es + d"
proof (induction cap es d rule: drop_excess.induct)
  case (1 cap es d)
  consider (fits) "length es \<le> cap"
    | (low) "\<not> length es \<le> cap" "\<exists>e \<in> set es. is_droppable_event (snd e)"
    | (mid) "\<not> length es \<le> cap" "\<not> (\<exists>e \<in> set es. is_droppable_event (snd e))" "\<exists>e \<in> set es. \<not> protected e"
    | (none) "\<not> length es \<le> cap" "\<not> (\<exists>e \<in> set es. is_droppable_event (snd e))" "\<not> (\<exists>e \<in> set es. \<not> protected e)"
    by blast
  then show ?case
  proof cases
    case low
    then show ?thesis using 1 length_drop_first [OF low(2)] drop_excess.simps [of cap es d] by simp
  next
    case mid
    then show ?thesis using 1 length_drop_first [OF mid(3)] drop_excess.simps [of cap es d] by simp
  qed (use 1 drop_excess.simps [of cap es d] in simp_all)
qed

lemma drop_excess_induct [consumes 1, case_names drop stop]:
  assumes "P es"
    and step: "\<And>xs p. P xs \<Longrightarrow> (\<forall>e. p e \<longrightarrow> \<not> protected e) \<Longrightarrow> P (drop_first p xs)"
  shows "P (fst (drop_excess cap es d))"
  using assms(1)
proof (induction cap es d rule: drop_excess.induct)
  case (1 cap es d)
  have "P (drop_first (\<lambda>e. is_droppable_event (snd e)) es)" "P (drop_first (\<lambda>e. \<not> protected e) es)"
    using 1(3) by (auto intro!: step dest: protected_not_droppable)
  then show ?case using 1 drop_excess.simps [of cap es d] by simp
qed

lemma drop_excess_bound:
  "length (fst (drop_excess cap es d)) \<le> cap \<or> (\<forall>e \<in> set (fst (drop_excess cap es d)). protected e)"
proof (induction cap es d rule: drop_excess.induct)
  case (1 cap es d)
  then show ?case using drop_excess.simps [of cap es d] by auto
qed

lemma drop_excess_filter:
  "(\<And>e. keep e \<Longrightarrow> protected e) \<Longrightarrow> filter keep (fst (drop_excess cap es d)) = filter keep es"
  by (rule drop_excess_induct [where P = "\<lambda>xs. filter keep xs = filter keep es"], simp)
     (metis filter_drop_first)

interpretation drop_protected: lossless protected "drop_loop cap" for cap
  by unfold_locales (simp add: drop_loop_def drop_excess_filter)

interpretation drop_critical: lossless critical "drop_loop cap" for cap
  by unfold_locales (simp add: drop_loop_def drop_excess_filter critical_protected)

lemma same_key_not_critical: "same_key rp k e \<Longrightarrow> \<not> critical e"
  using same_key_not_protected critical_protected by blast

interpretation coalesce_protected: lossless protected "drop_first (same_key rp k)" for rp k
  by unfold_locales (simp add: filter_drop_first same_key_not_protected)

interpretation coalesce_critical: lossless critical "drop_first (same_key rp k)" for rp k
  by unfold_locales (simp add: filter_drop_first same_key_not_critical)

section \<open>Command-critical events come first\<close>

definition critical_first :: "entry list \<Rightarrow> bool" where
  "critical_first es \<longleftrightarrow> sorted_wrt (\<lambda>a b. critical b \<longrightarrow> critical a) es"

lemma critical_first_split: "critical_first es \<Longrightarrow> es = filter critical es @ filter (\<lambda>e. \<not> critical e) es"
  unfolding critical_first_def
proof (induction es)
  case (Cons e es)
  have "filter critical es = [] \<and> filter (\<lambda>e. \<not> critical e) es = es" if "\<not> critical e"
    using Cons.prems that by (auto simp: filter_empty_conv intro!: filter_True)
  then show ?case using Cons by (cases "critical e") auto
qed simp

lemma critical_first_append:
  "(\<forall>a \<in> set xs. critical a) \<or> (\<forall>b \<in> set ys. \<not> critical b) \<Longrightarrow> critical_first xs \<Longrightarrow> critical_first ys
   \<Longrightarrow> critical_first (xs @ ys)"
  unfolding critical_first_def sorted_wrt_append by auto

lemma critical_first_filter: "critical_first es \<Longrightarrow> critical_first (filter p es)"
  unfolding critical_first_def by (rule sorted_wrt_filter)

lemma critical_first_drop_first: "critical_first es \<Longrightarrow> critical_first (drop_first p es)"
  unfolding critical_first_def by (rule sorted_wrt_drop_first)

lemma critical_first_replace_first:
  "critical_first es \<Longrightarrow> (\<And>x. p x \<Longrightarrow> \<not> critical x) \<Longrightarrow> \<not> critical y \<Longrightarrow> critical_first (replace_first p y es)"
  unfolding critical_first_def by (induction es) (auto dest: set_replace_first)

lemma critical_first_parts: "critical_first (filter critical es)" "critical_first (filter (\<lambda>e. \<not> critical e) es)"
  unfolding critical_first_def by (induction es) auto

lemma insert_at_of_split:
  "\<forall>e \<in> set cs. critical e \<Longrightarrow> \<forall>e \<in> set ns. \<not> critical e \<Longrightarrow>
   insert_at_of i acc (cs @ ns) = (if cs = [] then acc else i + length cs)"
proof (induction cs arbitrary: i acc)
  case Nil
  then show ?case by (induction ns arbitrary: i) auto
next
  case (Cons c cs)
  then show ?case by (cases cs) auto
qed

lemma insert_after_command_critical_split:
  assumes "critical_first es"
  shows "insert_after_command_critical e es = filter critical es @ e # filter (\<lambda>e. \<not> critical e) es"
proof -
  have "insert_at_of 0 0 (filter critical es @ filter (\<lambda>e. \<not> critical e) es) = length (filter critical es)"
    by (subst insert_at_of_split) auto
  then have "insert_at_of 0 0 es = length (filter critical es)" using critical_first_split [OF assms] by simp
  moreover have "take (length (filter critical es)) es = filter critical es"
    "drop (length (filter critical es)) es = filter (\<lambda>e. \<not> critical e) es"
    using critical_first_split [OF assms] by (metis append_eq_conv_conj)+
  ultimately show ?thesis by (simp add: insert_after_command_critical_def Let_def)
qed

lemma set_insert_after: "set (insert_after_command_critical e es) = insert e (set es)"
  unfolding insert_after_command_critical_def Let_def
  by (metis Un_insert_right append_take_drop_id list.simps(15) set_append)

lemma length_insert_after: "length (insert_after_command_critical e es) = Suc (length es)"
  unfolding insert_after_command_critical_def Let_def by simp

lemma distinct_insert_middle:
  "distinct (map f (xs @ ys)) \<Longrightarrow> f e \<notin> f ` set (xs @ ys) \<Longrightarrow> distinct (map f (xs @ e # ys))"
  by auto

lemma distinct_insert_after:
  "distinct (map f es) \<Longrightarrow> f e \<notin> f ` set es \<Longrightarrow> distinct (map f (insert_after_command_critical e es))"
  using distinct_insert_middle [of f "take (insert_at_of 0 0 es) es" "drop (insert_at_of 0 0 es) es" e]
  unfolding insert_after_command_critical_def Let_def by (simp only: append_take_drop_id not_False_eq_True True_implies_equals)

lemma critical_first_insert_after:
  "critical_first es \<Longrightarrow> critical_first (insert_after_command_critical e es)"
  using critical_first_parts [of es] by (auto simp: insert_after_command_critical_split critical_first_def sorted_wrt_append)

lemma filter_insert_after_critical:
  "critical_first es \<Longrightarrow> critical e \<Longrightarrow> filter critical (insert_after_command_critical e es) = filter critical es @ [e]"
  by (simp add: insert_after_command_critical_split)

lemma filter_insert_after_other:
  "critical_first es \<Longrightarrow> \<not> critical e \<Longrightarrow> filter critical (insert_after_command_critical e es) = filter critical es"
  by (simp add: insert_after_command_critical_split)

section \<open>What a batch selects\<close>

definition wanted :: "bool \<Rightarrow> (gateway_event \<Rightarrow> bool) \<Rightarrow> entry list \<Rightarrow> entry \<Rightarrow> bool" where
  "wanted fast pred selected e \<longleftrightarrow>
     fst e \<notin> fst ` set selected \<and> is_core_fast_batch_event (snd e) = fast \<and> pred (snd e)"

lemma add_matching_spec:
  "distinct (map fst es) \<Longrightarrow>
   add_matching fast limit pred n es sel = sel @ take (min n (limit - length sel)) (filter (wanted fast pred sel) es)"
proof (induction es arbitrary: n sel)
  case (Cons e es)
  show ?case
  proof (cases "length sel \<ge> limit \<or> n = 0 \<or> \<not> wanted fast pred sel e")
    case True
    then show ?thesis using Cons by (auto simp: wanted_def)
  next
    case False
    have same: "filter (wanted fast pred (sel @ [e])) es = filter (wanted fast pred sel) es"
      using Cons.prems by (intro filter_cong) (auto simp: wanted_def image_iff)
    obtain m where m: "min n (limit - length sel) = Suc m" "min (n - 1) (limit - Suc (length sel)) = m"
      using False by (cases n; cases "limit - length sel") auto
    have "add_matching fast limit pred n (e # es) sel = add_matching fast limit pred (n - 1) es (sel @ [e])"
      using False by (auto simp: wanted_def)
    also have "\<dots> = (sel @ [e]) @ take m (filter (wanted fast pred sel) es)"
      using Cons same m(2) by simp
    finally show ?thesis using False m(1) by simp
  qed
qed simp

text \<open>What every round of the selection keeps: chosen events are queued, each at most once, within the limit and all
  of the same group.\<close>

definition good_batch :: "bool \<Rightarrow> nat \<Rightarrow> entry list \<Rightarrow> entry list \<Rightarrow> bool" where
  "good_batch fast limit es sel \<longleftrightarrow>
     set sel \<subseteq> set es \<and> distinct (map fst sel) \<and> length sel \<le> limit
     \<and> (\<forall>e \<in> set sel. is_core_fast_batch_event (snd e) = fast)"

lemma good_batch_add:
  assumes "distinct (map fst es)" "good_batch fast limit es sel"
  shows "good_batch fast limit es (add_matching fast limit pred n es sel)"
proof -
  let ?new = "take (min n (limit - length sel)) (filter (wanted fast pred sel) es)"
  have new: "e \<in> set es \<and> wanted fast pred sel e" if "e \<in> set ?new" for e
    using in_set_takeD [OF that] by simp
  then have apart: "\<forall>e \<in> set ?new. fst e \<notin> fst ` set sel" unfolding wanted_def by blast
  have inside: "set ?new \<subseteq> set es" "\<forall>e \<in> set ?new. is_core_fast_batch_event (snd e) = fast"
    using new unfolding wanted_def by blast+
  have "distinct (map fst (filter (wanted fast pred sel) es))" using assms(1) by (rule distinct_map_filter)
  then have "distinct (map fst ?new)" unfolding take_map [symmetric] by (rule distinct_take)
  moreover have "fst ` set sel \<inter> fst ` set ?new = {}"
    unfolding disjoint_iff using apart by (metis imageE)
  moreover have "length ?new \<le> limit - length sel" by simp
  ultimately show ?thesis using assms(2) inside
    unfolding add_matching_spec [OF assms(1)] good_batch_def by (simp only: set_append map_append distinct_append set_map length_append) auto
qed

lemma add_matching_keeps: "distinct (map fst es) \<Longrightarrow> set sel \<subseteq> set (add_matching fast limit pred n es sel)"
  by (simp add: add_matching_spec)

lemma group_available:
  assumes "k_events w \<noteq> []"
  shows "\<exists>e \<in> set (k_events w). is_core_fast_batch_event (snd e) = select_batch_fast_group w"
proof -
  consider "\<not> (\<exists>e \<in> set (k_events w). is_core_fast_batch_event (snd e))"
    | "\<not> (\<exists>e \<in> set (k_events w). \<not> is_core_fast_batch_event (snd e))"
    | a b where "a \<in> set (k_events w)" "is_core_fast_batch_event (snd a)"
        "b \<in> set (k_events w)" "\<not> is_core_fast_batch_event (snd b)" by blast
  then show ?thesis
  proof cases
    case 1
    then show ?thesis using assms by (auto simp: select_batch_fast_group_def neq_Nil_conv)
  next
    case 2
    then have "select_batch_fast_group w" using assms by (auto simp: select_batch_fast_group_def neq_Nil_conv)
    then show ?thesis using 2 assms by (auto simp: neq_Nil_conv)
  next
    case 3
    then show ?thesis by (metis (full_types))
  qed
qed

lemma group_of_critical:
  assumes "e \<in> set (k_events w)" "critical e"
  shows "\<not> select_batch_fast_group w"
proof -
  have "find critical (k_events w) \<noteq> None" using assms by (auto simp: find_None_iff)
  then obtain q where q: "find critical (k_events w) = Some q" by blast
  then have "critical q" by (auto simp: find_Some_iff)
  have "first_entry is_command_critical_event (k_events w) = Some (snd q)" by (simp add: first_entry_def q)
  then show ?thesis using \<open>critical q\<close> assms critical_not_fast
    unfolding select_batch_fast_group_def Let_def by auto
qed

lemma select_event_batch_shape:
  assumes "0 < c_event_batch_size cfg" "k_events w \<noteq> []" "limit = min (c_event_batch_size cfg) (length (k_events w))"
    "fast = select_batch_fast_group w"
  obtains s1 s2 s3 where
    "s1 = add_matching fast limit is_command_critical_event limit (k_events w) []"
    "s2 = add_matching fast limit (\<lambda>ev. is_priority_event ev \<and> \<not> is_command_critical_event ev)
            (min 16 (limit - length s1)) (k_events w) s1"
    "s3 = add_matching fast limit is_market_refresh_event (min (c_market_batch_share cfg) (limit - length s2)) (k_events w) s2"
    "select_event_batch cfg w = add_matching fast limit (\<lambda>_. True) (limit - length s3) (k_events w) s3"
proof -
  have nz: "limit = 0 \<longleftrightarrow> False" using assms(1-3) by simp
  show thesis
    by (rule that [OF refl refl refl])
       (simp only: select_event_batch_def Let_def assms(3) [symmetric] assms(4) [symmetric] nz if_False)
qed

lemma select_nothing: "k_events w = [] \<Longrightarrow> select_event_batch cfg w = []"
  by (simp add: select_event_batch_def)

lemma select_good:
  assumes "distinct (map fst (k_events w))" "0 < c_event_batch_size cfg"
  shows "good_batch (select_batch_fast_group w) (min (c_event_batch_size cfg) (length (k_events w))) (k_events w)
           (select_event_batch cfg w)"
proof (cases "k_events w = []")
  case True
  then show ?thesis by (simp add: good_batch_def select_nothing)
next
  case False
  have start: "good_batch fast limit es []" for fast limit es by (simp add: good_batch_def)
  show ?thesis
    by (rule select_event_batch_shape [OF assms(2) False refl refl]) (simp only: good_batch_add [OF assms(1)] start)
qed

lemma select_nonempty:
  assumes "distinct (map fst (k_events w))" "k_events w \<noteq> []" "0 < c_event_batch_size cfg"
  shows "select_event_batch cfg w \<noteq> []"
proof -
  let ?limit = "min (c_event_batch_size cfg) (length (k_events w))"
  let ?fast = "select_batch_fast_group w"
  obtain s3 where s4: "select_event_batch cfg w = add_matching ?fast ?limit (\<lambda>_. True) (?limit - length s3) (k_events w) s3"
    by (rule select_event_batch_shape [OF assms(3,2) refl refl])
  obtain e where e: "e \<in> set (k_events w)" "is_core_fast_batch_event (snd e) = ?fast"
    using group_available assms(2) by blast
  show ?thesis
  proof (cases "s3 = []")
    case True
    have "e \<in> set (filter (wanted ?fast (\<lambda>_. True) s3) (k_events w))"
      using e True by (simp add: wanted_def)
    then have "filter (wanted ?fast (\<lambda>_. True) s3) (k_events w) \<noteq> []" by (metis empty_iff list.set(1))
    moreover have "0 < ?limit" using assms(2,3) by simp
    ultimately show ?thesis unfolding s4 add_matching_spec [OF assms(1)] True
      by (simp only: append_Nil take_eq_Nil) simp
  qed (simp add: s4 add_matching_spec assms(1))
qed

lemma filter_critical_wanted:
  assumes "\<And>ev. is_command_critical_event ev \<Longrightarrow> \<not> pred ev"
  shows "filter critical (take n (filter (wanted fast pred sel) es)) = []"
  using assms by (auto simp: filter_empty_conv wanted_def dest!: in_set_takeD)

lemma take_filter_critical: "filter p (take n (filter p xs)) = take n (filter p xs)"
  by (auto intro!: filter_True dest!: in_set_takeD)

lemma select_critical_prefix:
  assumes "distinct (map fst (k_events w))" "0 < c_event_batch_size cfg"
  shows "filter critical (select_event_batch cfg w) = take (c_event_batch_size cfg) (filter critical (k_events w))"
proof (cases "filter critical (k_events w) = []")
  case True
  have "set (select_event_batch cfg w) \<subseteq> set (k_events w)" using select_good [OF assms] by (simp add: good_batch_def)
  then show ?thesis using True by (auto simp: filter_empty_conv)
next
  case False
  define es limit fast where "es = k_events w" and "limit = min (c_event_batch_size cfg) (length (k_events w))"
    and "fast = select_batch_fast_group w"
  have nonempty: "k_events w \<noteq> []" and slow: "\<not> fast"
    using False group_of_critical by (auto simp: fast_def filter_empty_conv)
  let ?cs = "filter critical es"
  obtain s1 s2 s3 where
    s1: "s1 = add_matching fast limit is_command_critical_event limit es []"
    and s2: "s2 = add_matching fast limit (\<lambda>ev. is_priority_event ev \<and> \<not> is_command_critical_event ev)
               (min 16 (limit - length s1)) es s1"
    and s3: "s3 = add_matching fast limit is_market_refresh_event (min (c_market_batch_share cfg) (limit - length s2)) es s2"
    and s4: "select_event_batch cfg w = add_matching fast limit (\<lambda>_. True) (limit - length s3) es s3"
    unfolding es_def by (rule select_event_batch_shape [OF assms(2) nonempty limit_def fast_def])
  note spec = add_matching_spec [OF assms(1) [folded es_def]]
  have first: "filter (wanted fast is_command_critical_event []) es = ?cs"
    using slow critical_not_fast by (intro filter_cong) (auto simp: wanted_def)
  have c1: "s1 = take limit ?cs" by (simp add: s1 spec first)
  have f1: "filter critical s1 = s1" unfolding c1 by (rule take_filter_critical)
  have f2: "filter critical s2 = s1"
    unfolding s2 spec filter_append f1 by (subst filter_critical_wanted) simp_all
  have c3: "filter critical s3 = s1"
    unfolding s3 spec filter_append f2 by (subst filter_critical_wanted) (simp_all add: critical_not_market)
  have rest: "filter critical (take n (filter (wanted fast (\<lambda>_. True) s3) es)) = []" if "0 < n" "n \<le> limit - length s3" for n
  proof -
    have "length s1 \<le> length s3" using c3 by (metis length_filter_le)
    then have "s1 = ?cs" using that c1 by (cases "length ?cs \<le> limit") auto
    moreover have "set s1 \<subseteq> set s3" using c3 filter_is_subset by metis
    ultimately have "fst e \<in> fst ` set s3" if "e \<in> set es" "critical e" for e
      using that by auto
    then show ?thesis by (auto simp: filter_empty_conv wanted_def dest!: in_set_takeD)
  qed
  have "filter critical (select_event_batch cfg w) = s1"
    unfolding s4 spec filter_append c3 using rest [of "limit - length s3"] by (cases "limit - length s3 = 0") simp_all
  also have "\<dots> = take (c_event_batch_size cfg) ?cs"
    using c1 by (cases "c_event_batch_size cfg \<le> length es")
      (simp_all add: limit_def es_def min_def order_trans [OF length_filter_le])
  finally show ?thesis by (simp add: es_def)
qed

end
