(* ===== verification/Core_IO_Delivery.thy ===== *)
theory Core_IO_Delivery
  imports Core_IO_Worker
begin

text \<open>
  What the worker of Core_IO_Worker guarantees while other threads enqueue and drain: a step relation over the
  points where the lock is released, its invariant, and the delivery, accounting, progress and back-off properties.
\<close>

section \<open>The worker beside the threads that call it\<close>

text \<open>
  The worker thread selects a batch under the lock, posts it with the lock released and takes it out of the buffer
  under the lock again; the broker thread may enqueue in between. \<open>q_flight\<close> is what the client is posting. The
  remaining fields are the history: what was enqueued, what Core has answered for, what was polled and drained.
\<close>

record io_state =
  q_worker :: worker
  q_flight :: "entry list option"
  q_received :: "entry list"
  q_sent :: "entry list"
  q_polled :: "gateway_command list"
  q_drained :: "gateway_command list"

definition initial_io :: io_state where
  "initial_io = \<lparr> q_worker = initial_worker, q_flight = None, q_received = [], q_sent = [], q_polled = [], q_drained = [] \<rparr>"

definition answered_commands :: "string + gateway_command list \<Rightarrow> gateway_command list" where
  "answered_commands answer = (case answer of Inl _ \<Rightarrow> [] | Inr cmds \<Rightarrow> cmds)"

inductive io_step :: "repr \<Rightarrow> worker_config \<Rightarrow> io_state \<Rightarrow> io_state \<Rightarrow> bool" for rp cfg where
  enqueue: "c_event_posting_enabled cfg \<Longrightarrow> fst e \<notin> fst ` set (q_received s) \<Longrightarrow>
    io_step rp cfg s (s\<lparr>q_worker := enqueue_event rp cfg e (q_worker s), q_received := q_received s @ [e]\<rparr>)"
| drain: "drain_commands n (q_worker s) = (cmds, w) \<Longrightarrow>
    io_step rp cfg s (s\<lparr>q_worker := w, q_drained := q_drained s @ cmds\<rparr>)"
| poll: "q_flight s = None \<Longrightarrow>
    io_step rp cfg s (s\<lparr>q_worker := (poll_commands_into answer t (q_worker s))\<lparr>k_next_command_poll_at := u\<rparr>,
                        q_polled := q_polled s @ answered_commands answer\<rparr>)"
| select_batch: "q_flight s = None \<Longrightarrow> k_next_post_retry_at (q_worker s) \<le> now \<Longrightarrow> select_event_batch cfg (q_worker s) \<noteq> [] \<Longrightarrow>
    io_step rp cfg s (s\<lparr>q_flight := Some (select_event_batch cfg (q_worker s))\<rparr>)"
| post_failed: "q_flight s = Some es \<Longrightarrow>
    io_step rp cfg s (s\<lparr>q_worker := post_failed cfg err t (q_worker s), q_flight := None\<rparr>)"
| batch_posted: "q_flight s = Some es \<Longrightarrow>
    io_step rp cfg s (s\<lparr>q_worker := batch_posted es rejected t (q_worker s), q_flight := None, q_sent := q_sent s @ es\<rparr>)"
| select_one: "q_flight s = None \<Longrightarrow> c_event_posting_enabled cfg \<Longrightarrow> k_next_post_retry_at (q_worker s) \<le> now \<Longrightarrow>
    k_events (q_worker s) = e # es \<Longrightarrow> io_step rp cfg s (s\<lparr>q_flight := Some [e]\<rparr>)"
| one_posted: "q_flight s = Some [e] \<Longrightarrow>
    io_step rp cfg s (s\<lparr>q_worker := event_posted e t (q_worker s), q_flight := None, q_sent := q_sent s @ [e]\<rparr>)"

text \<open>Order-critical events reach Core in the order they were enqueued, each once, and wait at the front of the buffer
  until then; protected ones are never lost; the buffer exceeds its limit only when it holds nothing else.\<close>

definition buffer_ok :: "worker_config \<Rightarrow> entry list \<Rightarrow> entry list \<Rightarrow> entry list \<Rightarrow> bool" where
  "buffer_ok cfg received sent es \<longleftrightarrow>
     distinct (map fst received) \<and> distinct (map fst es) \<and> set es \<subseteq> set received \<and> critical_first es
     \<and> filter critical received = filter critical sent @ filter critical es
     \<and> (\<forall>e \<in> set received. protected e \<longrightarrow> e \<in> set es \<or> snd e \<in> snd ` set sent)
     \<and> (length es \<le> c_max_buffer_size cfg \<or> (\<forall>e \<in> set es. protected e))"

definition flight_ok :: "entry list \<Rightarrow> entry list \<Rightarrow> entry list option \<Rightarrow> bool" where
  "flight_ok received es flight \<longleftrightarrow>
     (\<forall>xs. flight = Some xs \<longrightarrow> set xs \<subseteq> set received \<and> (\<exists>n. filter critical xs = take n (filter critical es)))"

definition io_inv :: "worker_config \<Rightarrow> io_state \<Rightarrow> bool" where
  "io_inv cfg s \<longleftrightarrow>
     buffer_ok cfg (q_received s) (q_sent s) (k_events (q_worker s))
     \<and> flight_ok (q_received s) (k_events (q_worker s)) (q_flight s)
     \<and> q_polled s = q_drained s @ k_commands (q_worker s)"

lemma io_inv_initial: "io_inv cfg initial_io"
  by (simp add: io_inv_def buffer_ok_def flight_ok_def initial_io_def initial_worker_def critical_first_def)

lemma buffer_okI:
  assumes "distinct (map fst received)" "distinct (map fst es)" "set es \<subseteq> set received" "critical_first es"
    "filter critical received = filter critical sent @ filter critical es"
    "\<And>e. e \<in> set received \<Longrightarrow> protected e \<Longrightarrow> e \<in> set es \<or> snd e \<in> snd ` set sent"
    "length es \<le> c_max_buffer_size cfg \<or> (\<forall>e \<in> set es. protected e)"
  shows "buffer_ok cfg received sent es"
  using assms unfolding buffer_ok_def by blast

lemma buffer_okD:
  assumes "buffer_ok cfg received sent es"
  shows "distinct (map fst received)" "distinct (map fst es)" "set es \<subseteq> set received" "critical_first es"
    "filter critical received = filter critical sent @ filter critical es"
    "e \<in> set received \<Longrightarrow> protected e \<Longrightarrow> e \<in> set es \<or> snd e \<in> snd ` set sent"
    "length es \<le> c_max_buffer_size cfg \<or> (\<forall>e \<in> set es. protected e)"
  using assms unfolding buffer_ok_def by blast+

text \<open>What \<open>enqueue_event\<close> does to the buffer, over all its branches.\<close>

definition buffer_after :: "worker_config \<Rightarrow> entry \<Rightarrow> entry list \<Rightarrow> entry list \<Rightarrow> bool" where
  "buffer_after cfg e es es' \<longleftrightarrow>
     distinct (map fst es') \<and> set es' \<subseteq> insert e (set es) \<and> critical_first es'
     \<and> filter critical es' = filter critical es @ filter critical [e]
     \<and> (\<forall>q \<in> insert e (set es). protected q \<longrightarrow> q \<in> set es')
     \<and> (length es' \<le> c_max_buffer_size cfg \<or> (\<forall>q \<in> set es'. protected q))"

lemma drop_excess_fst: "fst (drop_excess cap es d) = fst (drop_excess cap es d')"
proof (induction cap es d arbitrary: d' rule: drop_excess.induct)
  case (1 cap es d)
  show ?case
    by (subst (1 2) drop_excess.simps) (simp add: 1(1) [of "Suc d'"] 1(2) [of "Suc d'"])
qed

lemma drop_loop_shrinks:
  assumes "distinct (map fst es)" "critical_first es"
  shows "distinct (map fst (drop_loop cap es))" "critical_first (drop_loop cap es)" "set (drop_loop cap es) \<subseteq> set es"
    "length (drop_loop cap es) \<le> cap \<or> (\<forall>e \<in> set (drop_loop cap es). protected e)"
proof -
  have "distinct (map fst (drop_loop cap es)) \<and> critical_first (drop_loop cap es) \<and> set (drop_loop cap es) \<subseteq> set es"
    unfolding drop_loop_def
    by (rule drop_excess_induct [where P = "\<lambda>xs. distinct (map fst xs) \<and> critical_first xs \<and> set xs \<subseteq> set es"])
       (auto simp: assms distinct_drop_first critical_first_drop_first dest: drop_first_subset)
  then show "distinct (map fst (drop_loop cap es))" "critical_first (drop_loop cap es)" "set (drop_loop cap es) \<subseteq> set es"
    by simp_all
  show "length (drop_loop cap es) \<le> cap \<or> (\<forall>e \<in> set (drop_loop cap es). protected e)"
    unfolding drop_loop_def by (rule drop_excess_bound)
qed

lemma enforce_buffer_limit_events:
  "k_events (enforce_buffer_limit cfg w) = drop_loop (c_max_buffer_size cfg) (k_events w)"
  "k_commands (enforce_buffer_limit cfg w) = k_commands w"
  "k_coalesced_count (enforce_buffer_limit cfg w) = k_coalesced_count w"
  "length (k_events (enforce_buffer_limit cfg w)) + k_dropped_count (enforce_buffer_limit cfg w)
     = length (k_events w) + k_dropped_count w"
  using drop_excess_fst [of "c_max_buffer_size cfg" "k_events w" "k_dropped_count w" 0]
  by (auto simp: enforce_buffer_limit_def drop_loop_def split: prod.splits dest: drop_excess_counts)

lemma enforce_after:
  assumes "distinct (map fst (k_events w))" "critical_first (k_events w)" "set (k_events w) \<subseteq> insert e (set es)"
    "filter critical (k_events w) = filter critical es @ filter critical [e]"
    "\<forall>q \<in> insert e (set es). protected q \<longrightarrow> q \<in> set (k_events w)"
  shows "buffer_after cfg e es (k_events (enforce_buffer_limit cfg w))"
proof -
  let ?es = "drop_loop (c_max_buffer_size cfg) (k_events w)"
  have kept: "\<forall>q \<in> insert e (set es). protected q \<longrightarrow> q \<in> set ?es"
    using assms(5) drop_protected.stays by blast
  show ?thesis
    unfolding buffer_after_def enforce_buffer_limit_events drop_critical.kept
    using drop_loop_shrinks(1,2,4) [OF assms(1,2)] subset_trans [OF drop_loop_shrinks(3) [OF assms(1,2)] assms(3)] assms(4) kept
    by blast
qed

lemma enqueue_event_other:
  assumes "c_event_posting_enabled cfg" "\<not> critical e" "\<not> is_priority_event (snd e)"
  shows "enqueue_event rp cfg e w = enforce_buffer_limit cfg (w\<lparr>k_events := k_events w @ [e]\<rparr>)
    \<or> (c_coalesce_after_size cfg \<le> length (k_events w)
       \<and> (\<exists>k. coalescing_key rp (snd e) = Some k \<and> (\<exists>q \<in> set (k_events w). same_key rp k q)))"
proof (cases "c_coalesce_after_size cfg \<le> length (k_events w)")
  case True
  then show ?thesis using assms
    by (cases "coalescing_key rp (snd e)") (auto simp: enqueue_event_def coalesce_event_def)
qed (simp add: enqueue_event_def assms)

lemma enqueue_event_posting:
  assumes "c_event_posting_enabled cfg" "distinct (map fst (k_events w))" "critical_first (k_events w)"
    "fst e \<notin> fst ` set (k_events w)"
    "length (k_events w) \<le> c_max_buffer_size cfg \<or> (\<forall>q \<in> set (k_events w). protected q)"
  shows "buffer_after cfg e (k_events w) (k_events (enqueue_event rp cfg e w))"
proof -
  let ?es = "k_events w"
  let ?drop = "\<lambda>k. drop_first (same_key rp k) ?es"
  have inserted: "buffer_after cfg e ?es (k_events (enforce_buffer_limit cfg v))"
    if "k_events v = insert_after_command_critical e xs" "distinct (map fst xs)" "critical_first xs" "set xs \<subseteq> set ?es"
      "filter critical xs = filter critical ?es" "\<forall>q \<in> set ?es. protected q \<longrightarrow> q \<in> set xs" for v xs
  proof (rule enforce_after)
    have "fst e \<notin> fst ` set xs" using that(4) assms(4) by blast
    then show "distinct (map fst (k_events v))" using that(2) by (simp add: that(1) distinct_insert_after)
    show "critical_first (k_events v)" using that(1,3) by (simp add: critical_first_insert_after)
    show "filter critical (k_events v) = filter critical ?es @ filter critical [e]"
      using that(1,3,5) by (simp add: insert_after_command_critical_split)
  qed (use that(1,4,6) in \<open>auto simp: set_insert_after\<close>)
  consider (critical) "critical e" | (priority) "\<not> critical e" "is_priority_event (snd e)"
    | (coalesced) k where "\<not> critical e" "\<not> is_priority_event (snd e)" "c_coalesce_after_size cfg \<le> length ?es"
        "coalescing_key rp (snd e) = Some k" "\<exists>q \<in> set ?es. same_key rp k q"
    | (appended) "\<not> critical e" "\<not> is_priority_event (snd e)"
        "enqueue_event rp cfg e w = enforce_buffer_limit cfg (w\<lparr>k_events := ?es @ [e]\<rparr>)"
    using enqueue_event_other [OF assms(1), of e rp w] by metis
  then show ?thesis
  proof cases
    case critical
    then show ?thesis using assms inserted [of "w\<lparr>k_events := insert_after_command_critical e ?es\<rparr>" ?es]
      by (simp add: enqueue_event_def)
  next
    case priority
    have "buffer_after cfg e ?es (k_events (enforce_buffer_limit cfg (enqueue_priority_event rp e w)))"
    proof (cases "\<exists>k. coalescing_key rp (snd e) = Some k \<and> (\<exists>q \<in> set ?es. same_key rp k q)")
      case True
      then obtain k where k: "coalescing_key rp (snd e) = Some k" "\<exists>q \<in> set ?es. same_key rp k q" by blast
      show ?thesis
        by (rule inserted [where xs = "?drop k"])
           (use assms coalesce_protected.stays set_drop_first k in
             \<open>simp_all add: enqueue_priority_event_def distinct_drop_first critical_first_drop_first coalesce_critical.kept\<close>)
    next
      case False
      then have "k_events (enqueue_priority_event rp e w) = insert_after_command_critical e ?es"
        by (auto simp: enqueue_priority_event_def Let_def split: option.splits)
      then show ?thesis using assms by (intro inserted [where xs = ?es]) simp_all
    qed
    then show ?thesis using priority assms(1) by (simp add: enqueue_event_def)
  next
    case coalesced
    note c = keyed_not_critical [OF coalesced(4)] keyed_not_protected [OF coalesced(4)]
    have s: "\<not> critical q \<and> \<not> protected q" if "same_key rp k q" for q
      using that keyed_not_critical keyed_not_protected unfolding same_key_def by blast
    have ev: "k_events (enqueue_event rp cfg e w) = replace_first (same_key rp k) e ?es"
      using coalesced assms(1) by (simp add: enqueue_event_def coalesce_event_def)
    have all: "filter P (replace_first (same_key rp k) e ?es) = filter P ?es" if "\<And>q. P q \<Longrightarrow> critical q \<or> protected q" for P
      using that c s by (intro filter_replace_first) blast+
    have kept: "filter protected (replace_first (same_key rp k) e ?es) = filter protected ?es" by (rule all) simp
    have "set (filter protected (replace_first (same_key rp k) e ?es)) = set (filter protected ?es)" by (simp only: kept)
    then have mem: "q \<in> set ?es \<Longrightarrow> protected q \<Longrightarrow> q \<in> set (replace_first (same_key rp k) e ?es)" for q by auto
    have small: "length ?es \<le> c_max_buffer_size cfg" using assms(5) coalesced(5) s by blast
    have crit: "filter critical (replace_first (same_key rp k) e ?es) = filter critical ?es" by (rule all) simp
    show ?thesis
      unfolding buffer_after_def ev crit
      using assms(2-4) c s small mem coalesced(1)
      by (auto simp: distinct_replace_first critical_first_replace_first dest: set_replace_first)
  next
    case appended
    have "critical_first (?es @ [e])" using assms(3) appended(1)
      by (intro critical_first_append) (auto simp: critical_first_def)
    then show ?thesis unfolding appended(3) using assms appended(1) by (intro enforce_after) auto
  qed
qed

section \<open>Every step keeps the invariant\<close>

lemma remove_by_identity:
  "distinct (map fst es) \<Longrightarrow> fold remove_event_by_identity xs es = filter (\<lambda>q. fst q \<notin> fst ` set xs) es"
proof (induction xs arbitrary: es)
  case (Cons x xs)
  have "remove_event_by_identity x es = filter (\<lambda>q. fst q \<noteq> fst x) es"
    using Cons.prems by (simp add: remove_event_by_identity_def drop_first_by_key)
  then show ?case using Cons distinct_map_filter [OF Cons.prems] by (auto simp: conj_commute intro!: filter_cong)
qed simp

lemma filter_outside_prefix:
  "distinct (map f cs) \<Longrightarrow> filter (\<lambda>q. f q \<notin> f ` set (take n cs)) cs = drop n cs"
proof (induction cs arbitrary: n)
  case (Cons c cs)
  show ?case
  proof (cases n)
    case 0
    then show ?thesis by simp
  next
    case (Suc m)
    have "filter (\<lambda>q. f q \<notin> f ` set (take n (c # cs))) (c # cs) = filter (\<lambda>q. f q \<notin> f ` set (take m cs)) cs"
      using Cons.prems Suc by (auto intro!: filter_cong simp: image_iff)
    then show ?thesis using Cons Suc by simp
  qed
qed simp

lemma take_of_prefix: "take n cs = take (min n (length cs)) (cs @ ys)"
  by (cases "n \<le> length cs") simp_all

lemma enforce_commands [simp]: "k_commands (enforce_buffer_limit cfg w) = k_commands w"
  by (simp add: enforce_buffer_limit_events)

lemma priority_commands [simp]: "k_commands (enqueue_priority_event rp e w) = k_commands w"
  by (simp add: enqueue_priority_event_def Let_def split: option.splits)

lemma coalesce_commands: "coalesce_event rp e w = (b, w') \<Longrightarrow> k_commands w' = k_commands w"
  by (auto simp: coalesce_event_def split: option.splits if_splits)

lemma enqueue_commands [simp]: "k_commands (enqueue_event rp cfg e w) = k_commands w"
  by (auto simp: enqueue_event_def split: prod.splits if_splits dest: coalesce_commands)

lemma buffer_ok_enqueue:
  assumes ok: "buffer_ok cfg received sent es" and fresh: "fst e \<notin> fst ` set received" and after: "buffer_after cfg e es es'"
  shows "buffer_ok cfg (received @ [e]) sent es'"
proof (rule buffer_okI)
  note a = after [unfolded buffer_after_def]
  show "distinct (map fst (received @ [e]))" using buffer_okD(1) [OF ok] fresh by auto
  show "set es' \<subseteq> set (received @ [e])" using a buffer_okD(3) [OF ok] by auto
  show "filter critical (received @ [e]) = filter critical sent @ filter critical es'"
    using a buffer_okD(5) [OF ok] by simp
  show "q \<in> set es' \<or> snd q \<in> snd ` set sent" if "q \<in> set (received @ [e])" "protected q" for q
    using a that buffer_okD(6) [OF ok, of q] by auto
qed (use after in \<open>simp_all add: buffer_after_def\<close>)

lemma flight_ok_enqueue:
  assumes ok: "flight_ok received es flight" and after: "buffer_after cfg e es es'"
  shows "flight_ok (received @ [e]) es' flight"
proof -
  have es': "filter critical es' = filter critical es @ filter critical [e]" using after by (simp add: buffer_after_def)
  show ?thesis unfolding flight_ok_def
  proof (intro allI impI conjI)
    fix xs assume f: "flight = Some xs"
    then show "set xs \<subseteq> set (received @ [e])" using ok by (auto simp: flight_ok_def)
    obtain n where "filter critical xs = take n (filter critical es)" using ok f by (auto simp: flight_ok_def)
    then have "filter critical xs = take (min n (length (filter critical es))) (filter critical es')"
      unfolding es' by (metis take_of_prefix)
    then show "\<exists>n. filter critical xs = take n (filter critical es')" ..
  qed
qed

lemma enqueue_keeps:
  assumes inv: "io_inv cfg s" and on: "c_event_posting_enabled cfg" and fresh: "fst e \<notin> fst ` set (q_received s)"
  shows "io_inv cfg (s\<lparr>q_worker := enqueue_event rp cfg e (q_worker s), q_received := q_received s @ [e]\<rparr>)"
proof -
  let ?es = "k_events (q_worker s)" and ?es' = "k_events (enqueue_event rp cfg e (q_worker s))"
  have ok: "buffer_ok cfg (q_received s) (q_sent s) ?es" using inv by (simp add: io_inv_def)
  have "fst e \<notin> fst ` set ?es" using fresh buffer_okD(3) [OF ok] by blast
  then have after: "buffer_after cfg e ?es ?es'"
    by (rule enqueue_event_posting [OF on buffer_okD(2,4) [OF ok] _ buffer_okD(7) [OF ok]])
  then show ?thesis
    using inv buffer_ok_enqueue [OF ok fresh after] flight_ok_enqueue [OF _ after] by (simp add: io_inv_def)
qed

lemma buffer_ok_remove:
  assumes ok: "buffer_ok cfg received sent es" and xs: "set xs \<subseteq> set received"
    and n: "filter critical xs = take n (filter critical es)"
  shows "buffer_ok cfg received (sent @ xs) (filter (\<lambda>q. fst q \<notin> fst ` set xs) es)"
proof (rule buffer_okI)
  let ?rest = "filter (\<lambda>q. fst q \<notin> fst ` set xs) es"
  note d = buffer_okD [OF ok]
  have inj: "a = b" if "a \<in> set received" "b \<in> set received" "fst a = fst b" for a b
    using d(1) that by (simp add: distinct_map inj_on_def)
  have same: "fst q \<in> fst ` set ys \<longleftrightarrow> q \<in> set ys" if "q \<in> set es" "set ys \<subseteq> set received" for q ys
  proof
    assume "fst q \<in> fst ` set ys"
    then obtain y where "y \<in> set ys" "fst y = fst q" by (metis imageE)
    then show "q \<in> set ys" using inj [of y q] that d(3) by blast
  qed (rule imageI)
  have sub: "set (filter critical xs) \<subseteq> set received" using xs by auto
  have "filter critical ?rest = filter (\<lambda>q. fst q \<notin> fst ` set (filter critical xs)) (filter critical es)"
    unfolding filter_filter by (rule filter_cong) (use same [OF _ xs] same [OF _ sub] in auto)
  also have "\<dots> = drop n (filter critical es)"
    unfolding n by (rule filter_outside_prefix) (rule distinct_map_filter [OF d(2)])
  finally show "filter critical received = filter critical (sent @ xs) @ filter critical ?rest"
    by (simp add: d(5) n)
  show "e \<in> set ?rest \<or> snd e \<in> snd ` set (sent @ xs)" if "e \<in> set received" "protected e" for e
    using d(6) [OF that] same [OF _ xs, of e] by auto
  show "length ?rest \<le> c_max_buffer_size cfg \<or> (\<forall>e \<in> set ?rest. protected e)"
    using d(7) order_trans [OF length_filter_le] by auto
qed (use buffer_okD [OF ok] in \<open>auto simp: distinct_map_filter critical_first_filter\<close>)

lemma buffer_ok_head:
  assumes ok: "buffer_ok cfg received sent (e # es)"
  shows "buffer_ok cfg received (sent @ [e]) es"
proof -
  note d = buffer_okD [OF ok]
  have "filter (\<lambda>q. fst q \<notin> fst ` set [e]) (e # es) = es" using d(2) by (auto intro!: filter_True simp: image_iff)
  moreover have "filter critical [e] = take (if critical e then 1 else 0) (filter critical (e # es))" by simp
  ultimately show ?thesis using buffer_ok_remove [OF ok, of "[e]"] d(3) by (metis list.simps(15) empty_set insert_subset empty_subsetI)
qed

lemma buffer_ok_elsewhere:
  assumes ok: "buffer_ok cfg received sent es" and e: "\<not> critical e"
  shows "buffer_ok cfg received (sent @ [e]) (drop_first (\<lambda>x. snd x = snd e) es)"
proof (rule buffer_okI)
  let ?es = "drop_first (\<lambda>x. snd x = snd e) es"
  note d = buffer_okD [OF ok]
  have "filter critical ?es = filter critical es" using e by (intro filter_drop_first) simp
  then show "filter critical received = filter critical (sent @ [e]) @ filter critical ?es" using d(5) e by simp
  have keep: "q \<in> set es \<Longrightarrow> snd q \<noteq> snd e \<Longrightarrow> q \<in> set ?es" for q
    by (induction es) auto
  show "q \<in> set ?es \<or> snd q \<in> snd ` set (sent @ [e])" if "q \<in> set received" "protected q" for q
    using d(6) [OF that] keep [of q] by auto
  have "length ?es \<le> length es" by (induction es) auto
  then show "length ?es \<le> c_max_buffer_size cfg \<or> (\<forall>q \<in> set ?es. protected q)"
    using d(7) set_drop_first by (meson order_trans subsetD)
  show "set ?es \<subseteq> set received" using d(3) set_drop_first by (rule subset_trans [rotated])
qed (use buffer_okD [OF ok] in \<open>simp_all add: distinct_drop_first critical_first_drop_first\<close>)

lemma event_posted_ok:
  assumes ok: "buffer_ok cfg received sent (k_events w)" and fl: "flight_ok received (k_events w) (Some [e])"
  shows "buffer_ok cfg received (sent @ [e]) (k_events (event_posted e t w))"
proof (cases "k_events w")
  case Nil
  then have "\<not> critical e" using fl by (auto simp: flight_ok_def split: if_splits)
  then show ?thesis using buffer_ok_elsewhere [OF ok] Nil by (simp add: event_posted_def)
next
  case (Cons q qs)
  note d = buffer_okD [OF ok]
  have "fst q = fst e \<Longrightarrow> q = e"
    using fl d(1,3) Cons by (auto simp: flight_ok_def distinct_map inj_on_def)
  moreover have head: "fst q = fst e" if "critical e"
  proof -
    obtain n where "filter critical [e] = take n (filter critical (k_events w))" using fl unfolding flight_ok_def by blast
    then have "[e] = take n (filter critical (q # qs))" using that Cons by simp
    then have "filter critical (q # qs) \<noteq> []" "hd (filter critical (q # qs)) = e"
      by (cases "filter critical (q # qs)"; cases n; auto)+
    then show ?thesis using critical_first_split [OF d(4)] Cons by (metis hd_append2 list.sel(1))
  qed
  ultimately show ?thesis
    using buffer_ok_head [of cfg received sent q qs] buffer_ok_elsewhere [OF ok, of e] ok Cons
    by (cases "fst q = fst e"; cases "critical e") (simp_all add: event_posted_def)
qed

lemma flight_ok_select:
  assumes "buffer_ok cfg received sent (k_events w)" "0 < c_event_batch_size cfg"
  shows "flight_ok received (k_events w) (Some (select_event_batch cfg w))"
proof -
  note d = buffer_okD [OF assms(1)]
  have "set (select_event_batch cfg w) \<subseteq> set (k_events w)"
    using select_good [OF d(2) assms(2)] by (simp add: good_batch_def)
  then show ?thesis using d(3) select_critical_prefix [OF d(2) assms(2)] by (auto simp: flight_ok_def)
qed

lemma flight_ok_head: "set es \<subseteq> set received \<Longrightarrow> es = e # es' \<Longrightarrow> flight_ok received es (Some [e])"
  by (auto simp: flight_ok_def intro: exI [of _ 1] exI [of _ 0])

lemma poll_commands_events [simp]:
  "k_events (poll_commands_into a t w) = k_events w"
  "k_commands (poll_commands_into a t w) = k_commands w @ answered_commands a"
  by (simp_all add: poll_commands_into_def answered_commands_def split: sum.splits)

lemma post_failed_keeps [simp]: "k_events (post_failed cfg err t w) = k_events w" "k_commands (post_failed cfg err t w) = k_commands w"
  by (simp_all add: post_failed_def Let_def)

lemma io_step_inv:
  assumes "io_step rp cfg s s'" "io_inv cfg s" "0 < c_event_batch_size cfg"
  shows "io_inv cfg s'"
  using assms(1)
proof cases
  case (enqueue e)
  then show ?thesis using enqueue_keeps [OF assms(2)] by simp
next
  case (drain n cmds w)
  then show ?thesis using assms(2) by (auto simp: io_inv_def drain_commands_def Let_def)
next
  case (poll answer t u)
  then show ?thesis using assms(2) by (simp add: io_inv_def)
next
  case (select_batch now)
  then show ?thesis
    using assms(2,3) flight_ok_select [of cfg "q_received s" "q_sent s" "q_worker s"] by (simp add: io_inv_def)
next
  case (post_failed es err t)
  then show ?thesis using assms(2) by (simp add: io_inv_def flight_ok_def)
next
  case (batch_posted es rejected t)
  then obtain n where "set es \<subseteq> set (q_received s)" "filter critical es = take n (filter critical (k_events (q_worker s)))"
    using assms(2) by (auto simp: io_inv_def flight_ok_def)
  then have "buffer_ok cfg (q_received s) (q_sent s @ es) (filter (\<lambda>q. fst q \<notin> fst ` set es) (k_events (q_worker s)))"
    using assms(2) buffer_ok_remove unfolding io_inv_def by blast
  moreover have "distinct (map fst (k_events (q_worker s)))" using assms(2) buffer_okD(2) unfolding io_inv_def by blast
  ultimately show ?thesis
    using assms(2) batch_posted(1)
    by (simp add: io_inv_def flight_ok_def Core_IO_Worker.batch_posted_def remove_by_identity)
next
  case (select_one now e es)
  have "set (k_events (q_worker s)) \<subseteq> set (q_received s)" using assms(2) buffer_okD(3) unfolding io_inv_def by blast
  then show ?thesis using assms(2) select_one flight_ok_head by (simp add: io_inv_def)
next
  case (one_posted e t)
  then have "buffer_ok cfg (q_received s) (q_sent s @ [e]) (k_events (event_posted e t (q_worker s)))"
    using assms(2) event_posted_ok unfolding io_inv_def by metis
  then show ?thesis using assms(2) one_posted(1) by (simp add: io_inv_def flight_ok_def) (simp add: event_posted_def)
qed

lemma io_steps_inv:
  assumes "(io_step rp cfg)\<^sup>*\<^sup>* s s'" "io_inv cfg s" "0 < c_event_batch_size cfg"
  shows "io_inv cfg s'"
  using assms(1,2) by (induction rule: rtranclp_induct) (auto intro: io_step_inv assms(3))

section \<open>A turn of the loop as steps\<close>

lemma post_next_event_batch_steps:
  assumes "q_flight s = None" "post_next_event_batch cfg now post after (q_worker s) = (posted, w')"
  shows "\<exists>s'. (io_step rp cfg)\<^sup>*\<^sup>* s s' \<and> q_worker s' = w' \<and> q_flight s' = None"
proof (cases "now < k_next_post_retry_at (q_worker s) \<or> select_event_batch cfg (q_worker s) = []")
  case True
  then have "w' = q_worker s" using assms(2) by (auto simp: post_next_event_batch_def Let_def split: if_splits)
  then show ?thesis using assms(1) by blast
next
  case False
  let ?es = "select_event_batch cfg (q_worker s)"
  let ?t = "s\<lparr>q_flight := Some ?es\<rparr>"
  have first: "io_step rp cfg s ?t" using False assms(1) by (intro io_step.select_batch [where now = now]) auto
  show ?thesis
  proof (cases "post ?es")
    case (Inl err)
    then have w': "w' = post_failed cfg err after (q_worker s)" using False assms(2) by (auto simp: post_next_event_batch_def)
    define u where "u = ?t\<lparr>q_worker := post_failed cfg err after (q_worker ?t), q_flight := None\<rparr>"
    have "io_step rp cfg ?t u" unfolding u_def by (rule io_step.post_failed) simp
    then have "(io_step rp cfg)\<^sup>*\<^sup>* s u" using first by (meson converse_rtranclp_into_rtranclp r_into_rtranclp)
    moreover have "q_worker u = w'" "q_flight u = None" by (simp_all add: u_def w')
    ultimately show ?thesis by blast
  next
    case (Inr rejected)
    then have w': "w' = batch_posted ?es rejected after (q_worker s)"
      using False assms(2) by (auto simp: post_next_event_batch_def)
    define u where "u = ?t\<lparr>q_worker := batch_posted ?es rejected after (q_worker ?t), q_flight := None,
        q_sent := q_sent ?t @ ?es\<rparr>"
    have "io_step rp cfg ?t u" unfolding u_def by (rule io_step.batch_posted) simp
    then have "(io_step rp cfg)\<^sup>*\<^sup>* s u" using first by (meson converse_rtranclp_into_rtranclp r_into_rtranclp)
    moreover have "q_worker u = w'" "q_flight u = None" by (simp_all add: u_def w')
    ultimately show ?thesis by blast
  qed
qed

section \<open>Accounting\<close>

abbreviation accounted :: "worker \<Rightarrow> nat" where
  "accounted w \<equiv> length (k_events w) + k_dropped_count w + k_coalesced_count w"

lemma accounted_enforce [simp]: "accounted (enforce_buffer_limit cfg w) = accounted w"
  using enforce_buffer_limit_events(3,4) [of cfg w] by simp

lemma accounted_priority: "accounted (enqueue_priority_event rp e w) = Suc (accounted w)"
proof (cases "coalescing_key rp (snd e)")
  case (Some k)
  then show ?thesis
    using length_drop_first [of "k_events w" "same_key rp k"]
    by (cases "\<exists>q \<in> set (k_events w). same_key rp k q") (simp_all add: enqueue_priority_event_def length_insert_after)
qed (simp add: enqueue_priority_event_def length_insert_after)

lemma accounted_coalesce: "coalesce_event rp e w = (b, w') \<Longrightarrow> accounted w' = accounted w + (if b then 1 else 0)"
  by (auto simp: coalesce_event_def split: option.splits if_splits)

section \<open>Waiting and progress\<close>

lemma wait_for_work_bounds:
  assumes "wait_for_work cfg now timeout_sec w = Some t"
  shows "1 / 100 \<le> t \<and> (k_events w \<noteq> [] \<longrightarrow> t \<le> max (k_next_post_retry_at w - now) (1 / 100))"
proof -
  have m: "1 / 100 \<le> max x (1 / 100 :: rat)" for x by (rule max.cobounded2)
  have "max (min a b - now) (1 / 100) \<le> max (b - now) (1 / 100)" for a b :: rat by (rule max.mono) simp_all
  then show ?thesis using assms m by (auto simp: wait_for_work_def Let_def split: if_splits simp del: divide_le_eq_numeral1)
qed

lemma post_shrinks:
  assumes "distinct (map fst (k_events w))" "0 < c_event_batch_size cfg" "k_next_post_retry_at w \<le> now" "k_events w \<noteq> []"
    and "\<forall>es. \<exists>r. post es = Inr r"
  shows "length (k_events (snd (post_next_event_batch cfg now post after w))) < length (k_events w)"
    "distinct (map fst (k_events (snd (post_next_event_batch cfg now post after w))))"
    "k_next_post_retry_at (snd (post_next_event_batch cfg now post after w)) \<le> now"
proof -
  let ?es = "select_event_batch cfg w"
  obtain r where r: "post ?es = Inr r" using assms(5) by blast
  have ne: "?es \<noteq> []" by (rule select_nonempty [OF assms(1,4,2)])
  have after: "snd (post_next_event_batch cfg now post after w) = batch_posted ?es r after w"
    using assms(3) ne r by (simp add: post_next_event_batch_def)
  have events: "k_events (batch_posted ?es r after w) = filter (\<lambda>q. fst q \<notin> fst ` set ?es) (k_events w)"
    by (simp add: batch_posted_def remove_by_identity assms(1))
  have "hd ?es \<in> set (k_events w)" "fst (hd ?es) \<in> fst ` set ?es"
    using select_good [OF assms(1,2)] hd_in_set [OF ne] by (auto simp: good_batch_def)
  then show "length (k_events (snd (post_next_event_batch cfg now post after w))) < length (k_events w)"
    unfolding after events by (intro length_filter_less [of "hd ?es"]) simp_all
  show "distinct (map fst (k_events (snd (post_next_event_batch cfg now post after w))))"
    unfolding after events by (rule distinct_map_filter [OF assms(1)])
  show "k_next_post_retry_at (snd (post_next_event_batch cfg now post after w)) \<le> now"
    unfolding after using assms(3) by (simp add: batch_posted_def)
qed

section \<open>Properties\<close>

definition sample_config :: worker_config where
  "sample_config = make_config 20 5 True True (1 / 5) 50 (1 / 5) 3 100 50"

definition sample_entry :: "nat \<Rightarrow> string \<Rightarrow> entry" where
  "sample_entry n ty = (n, \<lparr> v_event_id = ty, v_event_type = ty, v_source = ''gw'', v_ts = 0, v_payload = [],
     v_command_id = None, v_idempotency_key = None \<rparr>)"

definition io_enqueue :: "entry \<Rightarrow> io_state \<Rightarrow> io_state" where
  "io_enqueue e s = s\<lparr>q_worker := enqueue_event (\<lambda>_. []) sample_config e (q_worker s), q_received := q_received s @ [e]\<rparr>"

definition sample_io :: io_state where
  "sample_io =
     (let s = io_enqueue (sample_entry 2 ''command_ack'') (io_enqueue (sample_entry 1 ''price_tick'') initial_io);
          t = io_enqueue (sample_entry 3 ''command_failed'') (s\<lparr>q_flight := Some (select_event_batch sample_config (q_worker s))\<rparr>) in
      t\<lparr>q_worker := batch_posted [sample_entry 2 ''command_ack''] 0 7 (q_worker t), q_flight := None,
        q_sent := q_sent t @ [sample_entry 2 ''command_ack'']\<rparr>)"

lemma io_enqueue_step: "fst e \<notin> fst ` set (q_received s) \<Longrightarrow> io_step (\<lambda>_. []) sample_config s (io_enqueue e s)"
  unfolding io_enqueue_def by (rule io_step.enqueue) (simp_all add: sample_config_def make_config_def Let_def)

lemma sample_io_reachable: "(io_step (\<lambda>_. []) sample_config)\<^sup>*\<^sup>* initial_io sample_io"
proof -
  let ?step = "io_step (\<lambda>_. []) sample_config"
  define a where "a = io_enqueue (sample_entry 1 ''price_tick'') initial_io"
  define b where "b = io_enqueue (sample_entry 2 ''command_ack'') a"
  define c where "c = b\<lparr>q_flight := Some (select_event_batch sample_config (q_worker b))\<rparr>"
  define d where "d = io_enqueue (sample_entry 3 ''command_failed'') c"
  have ids: "fst ` set (q_received initial_io) = {}" "fst ` set (q_received a) = {1}" "fst ` set (q_received c) = {1, 2}"
    by (simp_all add: a_def b_def c_def io_enqueue_def initial_io_def sample_entry_def insert_commute)
  have sel: "select_event_batch sample_config (q_worker b) = [sample_entry 2 ''command_ack'']"
    unfolding b_def a_def by code_simp
  have retry: "k_next_post_retry_at (q_worker b) \<le> 0" unfolding b_def a_def by code_simp
  have 1: "?step initial_io a" unfolding a_def by (rule io_enqueue_step) (simp add: ids sample_entry_def)
  have 2: "?step a b" unfolding b_def by (rule io_enqueue_step) (simp add: ids sample_entry_def)
  have "q_flight b = None" by (simp add: b_def a_def io_enqueue_def initial_io_def)
  then have 3: "?step b c" unfolding c_def by (rule io_step.select_batch [OF _ retry]) (simp add: sel)
  have 4: "?step c d" unfolding d_def by (rule io_enqueue_step) (simp add: ids sample_entry_def)
  have "q_flight d = Some [sample_entry 2 ''command_ack'']" by (simp add: d_def c_def io_enqueue_def sel)
  then have "?step d (d\<lparr>q_worker := batch_posted [sample_entry 2 ''command_ack''] 0 7 (q_worker d), q_flight := None,
      q_sent := q_sent d @ [sample_entry 2 ''command_ack'']\<rparr>)"
    by (rule io_step.batch_posted)
  then have 5: "?step d sample_io" by (simp add: sample_io_def Let_def a_def b_def c_def d_def)
  show ?thesis using 1 2 3 4 5 by (meson converse_rtranclp_into_rtranclp r_into_rtranclp)
qed

lemma sample_io_events:
  "k_events (q_worker sample_io) = [sample_entry 3 ''command_failed'', sample_entry 1 ''price_tick'']
   \<and> q_sent sample_io = [sample_entry 2 ''command_ack''] \<and> k_dropped_count (q_worker sample_io) = 0
   \<and> k_coalesced_count (q_worker sample_io) = 0 \<and> k_next_post_retry_at (q_worker sample_io) = 0"
  by code_simp

lemma sample_entry_classes:
  "critical (sample_entry n ''command_failed'')" "critical (sample_entry n ''command_ack'')"
  "\<not> critical (sample_entry n ''price_tick'')" "protected (sample_entry n ''command_failed'')"
  "\<not> protected (sample_entry n ''price_tick'')" "fst (sample_entry n ty) = n"
  unfolding sample_entry_def by code_simp+

lemma sample_config_size: "c_event_batch_size sample_config = 100" "c_max_buffer_size sample_config = 3"
  "c_event_posting_enabled sample_config"
  by (simp_all add: sample_config_def make_config_def Let_def)

lemmas sample_simps = sample_io_events sample_entry_classes sample_config_size

text \<open>
  C8: Order-critical events reach Core in the order in which the broker thread enqueued them. However
  enqueues, batches, failed posts and polls interleave, what Core has answered for followed by what
  still waits is exactly the sequence enqueued: none is lost, dropped, coalesced, overtaken or removed
  before it was posted. Commands polled from Core are drained in order, each once.
\<close>

theorem critical_events_in_order:
  assumes "(io_step rp cfg)\<^sup>*\<^sup>* initial_io s" "0 < c_event_batch_size cfg"
  shows "filter critical (q_received s) = filter critical (q_sent s) @ filter critical (k_events (q_worker s))
     \<and> q_polled s = q_drained s @ k_commands (q_worker s)"
proof -
  have "io_inv cfg s" by (rule io_steps_inv [OF assms(1) io_inv_initial assms(2)])
  then show ?thesis using buffer_okD(5) unfolding io_inv_def by blast
qed

theorem critical_events_in_order_witness:
  "map fst (q_sent sample_io) = [2] \<and> map fst (k_events (q_worker sample_io)) = [3, 1]
   \<and> map fst (filter critical (q_received sample_io)) = [2] @ [3]"
proof -
  have "map fst (filter critical (q_received sample_io)) = [2] @ [3]"
    using critical_events_in_order [OF sample_io_reachable] by (simp add: sample_simps)
  then show ?thesis by (simp add: sample_simps)
qed

text \<open>
  C35: The buffer is bounded and never at the cost of a protected event: it exceeds the configured size
  only while every event in it is protected, and a protected event that was enqueued is waiting or has
  been answered for.
\<close>

theorem buffer_bounded_protected_kept:
  assumes "(io_step rp cfg)\<^sup>*\<^sup>* initial_io s" "0 < c_event_batch_size cfg"
  shows "(length (k_events (q_worker s)) \<le> c_max_buffer_size cfg \<or> (\<forall>e \<in> set (k_events (q_worker s)). protected e))
     \<and> (\<forall>e \<in> set (q_received s). protected e \<longrightarrow> e \<in> set (k_events (q_worker s)) \<or> snd e \<in> snd ` set (q_sent s))"
proof -
  have "io_inv cfg s" by (rule io_steps_inv [OF assms(1) io_inv_initial assms(2)])
  then show ?thesis using buffer_okD(6,7) unfolding io_inv_def by blast
qed

theorem buffer_bounded_protected_kept_witness:
  "length (k_events (q_worker sample_io)) \<le> 3 \<and> sample_entry 3 ''command_failed'' \<in> set (k_events (q_worker sample_io))"
proof -
  have "sample_entry 3 ''command_failed'' \<in> set (q_received sample_io)"
    by (simp add: sample_io_def io_enqueue_def Let_def)
  then show ?thesis
    using buffer_bounded_protected_kept [OF sample_io_reachable]
    by (simp add: sample_simps del: One_nat_def)
qed

text \<open>
  Every event is accounted for: while posting is enabled, enqueueing one raises by exactly one the
  sum of the events waiting, dropped and coalesced.
\<close>

theorem enqueue_accounts_for_event:
  assumes "c_event_posting_enabled cfg"
  shows "length (k_events (enqueue_event rp cfg e w)) + k_dropped_count (enqueue_event rp cfg e w)
       + k_coalesced_count (enqueue_event rp cfg e w)
     = Suc (length (k_events w) + k_dropped_count w + k_coalesced_count w)"
proof -
  consider "critical e" | "\<not> critical e" "is_priority_event (snd e)" | "\<not> critical e" "\<not> is_priority_event (snd e)" by blast
  then show ?thesis
  proof cases
    case 3
    obtain b v where v: "(if c_coalesce_after_size cfg \<le> length (k_events w) then coalesce_event rp e w else (False, w)) = (b, v)"
      by (metis surj_pair)
    have "accounted v = accounted w + (if b then 1 else 0)"
      using v accounted_coalesce by (auto split: if_splits)
    moreover have "enqueue_event rp cfg e w = (if b then v else enforce_buffer_limit cfg (v\<lparr>k_events := k_events v @ [e]\<rparr>))"
      using assms 3 v by (simp add: enqueue_event_def)
    ultimately show ?thesis by (cases b) simp_all
  qed (use assms in \<open>simp_all add: enqueue_event_def accounted_priority length_insert_after\<close>)
qed

theorem enqueue_accounts_for_event_witness:
  "length (k_events (enqueue_event (\<lambda>_. []) sample_config (sample_entry 4 ''heartbeat'') (q_worker sample_io)))
     + k_dropped_count (enqueue_event (\<lambda>_. []) sample_config (sample_entry 4 ''heartbeat'') (q_worker sample_io))
     + k_coalesced_count (enqueue_event (\<lambda>_. []) sample_config (sample_entry 4 ''heartbeat'') (q_worker sample_io)) = 3"
proof -
  show ?thesis
    using enqueue_accounts_for_event [of sample_config "\<lambda>_. []" "sample_entry 4 ''heartbeat''" "q_worker sample_io"]
    by (simp add: sample_simps)
qed

text \<open>
  What a batch is. When anything waits, the selection is not empty; it consists of distinct waiting
  events of one group, at most as many as configured, and it takes the order-critical events first: those
  in the batch are the oldest waiting ones, all of them if they fit.
\<close>

theorem batch_contract:
  assumes "distinct (map fst (k_events w))" "0 < c_event_batch_size cfg" "k_events w \<noteq> []"
  shows "select_event_batch cfg w \<noteq> [] \<and> set (select_event_batch cfg w) \<subseteq> set (k_events w)
     \<and> distinct (map fst (select_event_batch cfg w)) \<and> length (select_event_batch cfg w) \<le> c_event_batch_size cfg
     \<and> (\<exists>fast. \<forall>e \<in> set (select_event_batch cfg w). is_core_fast_batch_event (snd e) = fast)
     \<and> filter critical (select_event_batch cfg w) = take (c_event_batch_size cfg) (filter critical (k_events w))"
  using select_good [OF assms(1,2)] select_nonempty [OF assms(1,3,2)] select_critical_prefix [OF assms(1,2)]
  unfolding good_batch_def by auto

theorem batch_contract_witness:
  "select_event_batch sample_config (q_worker sample_io) \<noteq> []
   \<and> map fst (filter critical (select_event_batch sample_config (q_worker sample_io))) = [3]"
proof -
  show ?thesis using batch_contract [of "q_worker sample_io" sample_config] by (simp add: sample_simps)
qed

text \<open>
  Back-off. With a configuration made by the constructor, the delay after \<open>n + 1\<close> failed posts in a
  row is the plain exponential \<open>base * 2 ^ n\<close> cut at five seconds (the cap on the exponent never shows), so
  it lies between a twentieth of a second and five seconds.
\<close>

theorem retry_delay_exponential:
  assumes "cfg = make_config command_limit command_wait polling posting retry_sleep coalesce_after poll_interval max_buffer
             batch_size market_share"
    and "k_consecutive_post_error_count w = Suc n"
  shows "post_retry_delay_sec cfg w = min (c_retry_sleep_sec cfg * 2 ^ n) 5
     \<and> 1 / 20 \<le> post_retry_delay_sec cfg w \<and> post_retry_delay_sec cfg w \<le> 5"
proof -
  let ?b = "c_retry_sleep_sec cfg"
  have b: "1 / 20 \<le> ?b" by (simp add: assms(1) make_config_def Let_def)
  have one: "1 / 20 \<le> ?b * 2 ^ k" for k
    using mult_mono [OF b one_le_power [of "2 :: rat" k]] b by simp
  have big: "5 \<le> ?b * 2 ^ k" if "10 \<le> k" for k
  proof -
    have "(2::rat) ^ 10 \<le> 2 ^ k" using that by (intro power_increasing) simp_all
    then have "1 / 20 * 2 ^ 10 \<le> ?b * 2 ^ k" by (intro mult_mono) (use b in simp_all)
    then show ?thesis by simp
  qed
  have "post_retry_delay_sec cfg w = min (?b * 2 ^ min n 10) 5" by (simp add: post_retry_delay_sec_def assms(2))
  also have "\<dots> = min (?b * 2 ^ n) 5" using big [of n] big [of 10] by (cases "n \<le> 10") (simp_all add: min_def)
  finally show ?thesis using one [of n] by simp
qed

theorem retry_delay_exponential_witness:
  "post_retry_delay_sec sample_config (initial_worker\<lparr>k_consecutive_post_error_count := 4\<rparr>) = 8 / 5"
  using retry_delay_exponential [of sample_config 20 5 True True "1 / 5" 50 "1 / 5" 3 100 50
      "initial_worker\<lparr>k_consecutive_post_error_count := 4\<rparr>" 3]
  by (simp add: sample_config_def) (simp add: make_config_def Let_def)

text \<open>
  C36: A turn of the worker loop is a sequence of steps of the threaded model, whatever the client answers,
  so what holds along steps holds of the loop. A turn that ends waiting waits at least ten milliseconds
  and, with events in the buffer, not beyond the time of the next attempt to post, or just those ten milliseconds if that time
  is nearer than that.
\<close>

theorem loop_turn_refines_steps:
  assumes "q_flight s = None" "run_once cfg now polled post after (q_worker s) = (w', wait)"
  shows "(\<exists>s'. (io_step rp cfg)\<^sup>*\<^sup>* s s' \<and> q_worker s' = w' \<and> q_flight s' = None)
     \<and> (\<forall>t. wait = Some t \<longrightarrow> 1 / 100 \<le> t
          \<and> (k_events w' \<noteq> [] \<longrightarrow> t \<le> max (k_next_post_retry_at w' - after) (1 / 100)))"
proof (cases "c_command_polling_enabled cfg \<and> k_next_command_poll_at (q_worker s) \<le> now")
  case True
  define u where "u = s\<lparr>q_worker := (poll_commands_into (snd polled) (fst polled) (q_worker s))
      \<lparr>k_next_command_poll_at := after + c_command_poll_interval_sec cfg\<rparr>,
      q_polled := q_polled s @ answered_commands (snd polled)\<rparr>"
  have "io_step rp cfg s u" unfolding u_def by (rule io_step.poll [OF assms(1)])
  moreover have "q_worker u = w'" "q_flight u = None" "wait = None" using True assms by (simp_all add: u_def run_once_def)
  ultimately show ?thesis by blast
next
  case False
  obtain b v where v: "post_next_event_batch cfg now post after (q_worker s) = (b, v)" by (metis surj_pair)
  have "w' = v" "wait = (if b then None else wait_for_work cfg after (1 / 10) v)"
    using False assms(2) v by (auto simp: run_once_def split: if_splits)
  then show ?thesis
    using post_next_event_batch_steps [OF assms(1) v] wait_for_work_bounds by (metis option.distinct(1))
qed

theorem loop_turn_refines_steps_witness:
  "\<exists>s'. (io_step (\<lambda>_. []) sample_config)\<^sup>*\<^sup>* initial_io s' \<and> k_poll_count (q_worker s') = 1
     \<and> k_next_command_poll_at (q_worker s') = 41 / 5"
proof -
  define out where "out = run_once sample_config 7 (7, Inr []) (\<lambda>_. Inl ''down'') 8 (q_worker initial_io)"
  have "q_flight initial_io = None" by (simp add: initial_io_def)
  moreover have "run_once sample_config 7 (7, Inr []) (\<lambda>_. Inl ''down'') 8 (q_worker initial_io) = (fst out, snd out)"
    by (simp add: out_def)
  moreover have "k_poll_count (fst out) = 1" "k_next_command_poll_at (fst out) = 41 / 5" unfolding out_def by code_simp+
  ultimately show ?thesis using loop_turn_refines_steps by metis
qed

text \<open>
  The buffer drains. While Core answers every post, the retry time has passed and nothing is
  enqueued, at most as many posts as there are events leave the buffer empty.
\<close>

theorem buffer_drains:
  assumes "distinct (map fst (k_events w))" "0 < c_event_batch_size cfg" "k_next_post_retry_at w \<le> now"
    and "\<forall>es. \<exists>r. post es = Inr r"
  shows "\<exists>n \<le> length (k_events w). k_events (((\<lambda>v. snd (post_next_event_batch cfg now post after v)) ^^ n) w) = []"
  using assms(1,3)
proof (induction "length (k_events w)" arbitrary: w rule: less_induct)
  case less
  let ?f = "\<lambda>v. snd (post_next_event_batch cfg now post after v)"
  show ?case
  proof (cases "k_events w = []")
    case True
    then show ?thesis by (intro exI [of _ 0]) simp
  next
    case False
    note shrink = post_shrinks [OF less.prems(1) assms(2) less.prems(2) False assms(4), of after]
    obtain n where n: "n \<le> length (k_events (?f w))" "k_events ((?f ^^ n) (?f w)) = []"
      using less.hyps [OF shrink(1)] shrink(2,3) by auto
    have "(?f ^^ Suc n) w = (?f ^^ n) (?f w)" by (simp only: funpow_Suc_right o_apply)
    then show ?thesis using n shrink(1) by (intro exI [of _ "Suc n"]) simp
  qed
qed

theorem buffer_drains_witness:
  "\<exists>n \<le> 2. k_events (((\<lambda>v. snd (post_next_event_batch sample_config 9 (\<lambda>_. Inr 0) 9 v)) ^^ n) (q_worker sample_io)) = []"
proof -
  show ?thesis using buffer_drains [of "q_worker sample_io" sample_config 9 "\<lambda>_. Inr 0" 9]
    by (simp add: sample_simps numeral_2_eq_2)
qed

end
