(* ===== verification/Execution_Lock.thy ===== *)
theory Execution_Lock
  imports Command_Row
begin

text \<open>
  The lock that lets one evaluation pipeline run at a time (services/runtime/evaluation_run_guard.py): a
  row with an owner, a lease time and a fencing token per lock, and a counter per lock that outlives the
  row. The clock, the process table and the outcome of opening a transaction are arguments; a raised
  exception leaves the database as it was, which is what the rollback does.
\<close>

section \<open>State\<close>

record lock_row =
  lk_lock_name :: string
  lk_owner_id :: string
  lk_acquired_at :: instant
  lk_expires_at :: instant
  lk_process_id :: int
  lk_thread_id :: int
  lk_heartbeat_at :: "instant option"
  lk_fencing_token :: int
  lk_detail :: pydict

record fence_row =
  fn_lock_name :: string
  fn_last_fencing_token :: int
  fn_updated_at :: instant

record lock_db =
  db_locks :: "lock_row list"
  db_fences :: "fence_row list"

record lease =
  ls_lock_name :: string
  ls_owner_id :: string
  ls_fencing_token :: int
  ls_process_id :: int
  ls_thread_id :: int
  ls_acquired_at :: instant
  ls_heartbeat_at :: instant
  ls_expires_at :: instant
  ls_ttl_sec :: int
  ls_heartbeat_interval_sec :: rat

record fence_error =
  fe_lock_name :: string
  fe_owner_id :: string
  fe_fencing_token :: int
  fe_current_owner_id :: "string option"
  fe_current_fencing_token :: "int option"

record lock_error =
  le_lock_name :: string
  le_owner_id :: string
  le_expires_at :: instant
  le_process_id :: int
  le_thread_id :: int
  le_heartbeat_at :: "instant option"
  le_fencing_token :: int
  le_reason :: string

datatype guard_error = Lock_held lock_error | Fence_lost fence_error | Database_locked | Body_failed string

section \<open>Owners\<close>

datatype kill_probe = Probe_ok | Probe_no_process | Probe_denied | Probe_os_error

record process_view =
  pv_pid :: int
  pv_threads :: "(int \<times> bool) list"
  pv_probe :: "int \<Rightarrow> kill_probe"

definition lock_owner_is_alive :: "process_view \<Rightarrow> int \<Rightarrow> int \<Rightarrow> bool" where
  "lock_owner_is_alive pv process_id thread_id =
     (if process_id \<le> 0 then False
      else if process_id = pv_pid pv
      then (if thread_id \<le> 0 then True else \<exists>t \<in> set (pv_threads pv). fst t = thread_id \<and> snd t)
      else case pv_probe pv process_id of
             Probe_ok \<Rightarrow> True | Probe_no_process \<Rightarrow> False | Probe_denied \<Rightarrow> True | Probe_os_error \<Rightarrow> False)"

section \<open>Opening a transaction\<close>

datatype begin_outcome = Begun | Busy | Begin_failed

definition BEGIN_IMMEDIATE_RETRY_DELAYS_SEC :: "rat list" where
  "BEGIN_IMMEDIATE_RETRY_DELAYS_SEC = [5 / 100, 1 / 10, 2 / 10, 4 / 10]"

fun begin_attempts :: "rat option list \<Rightarrow> begin_outcome list \<Rightarrow> rat \<Rightarrow> bool \<times> rat" where
  \<comment> \<open>the loop over the delays, the last without one; whether the transaction opened, and the time slept\<close>
  "begin_attempts (d # ds) (out # outs) slept =
     (case out of
        Begun \<Rightarrow> (True, slept)
      | Begin_failed \<Rightarrow> (False, slept)
      | Busy \<Rightarrow> (case d of None \<Rightarrow> (False, slept) | Some delay \<Rightarrow> begin_attempts ds outs (slept + delay)))"
| "begin_attempts _ _ slept = (False, slept)"

definition begin_immediate_with_retry :: "begin_outcome list \<Rightarrow> bool \<times> rat" where
  "begin_immediate_with_retry outs = begin_attempts (map Some BEGIN_IMMEDIATE_RETRY_DELAYS_SEC @ [None]) outs 0"

section \<open>Acquiring\<close>

definition next_fencing_token :: "instant \<Rightarrow> string \<Rightarrow> lock_db \<Rightarrow> int \<times> lock_db" where
  "next_fencing_token now name db =
     (let fences = (case lookup_by fn_lock_name name (db_fences db) of
                      None \<Rightarrow> db_fences db @ [\<lparr> fn_lock_name = name, fn_last_fencing_token = 1, fn_updated_at = now \<rparr>]
                    | Some _ \<Rightarrow> sql_update (\<lambda>f. fn_lock_name f = name)
                        (\<lambda>f. f\<lparr>fn_last_fencing_token := fn_last_fencing_token f + 1, fn_updated_at := now\<rparr>) (db_fences db)) in
      ((case lookup_by fn_lock_name name fences of None \<Rightarrow> 0 | Some f \<Rightarrow> fn_last_fencing_token f), db\<lparr>db_fences := fences\<rparr>))"

definition held_error :: "bool \<Rightarrow> lock_row \<Rightarrow> lock_error" where
  "held_error expired row =
     \<lparr> le_lock_name = lk_lock_name row, le_owner_id = lk_owner_id row, le_expires_at = lk_expires_at row,
       le_process_id = lk_process_id row, le_thread_id = lk_thread_id row, le_heartbeat_at = lk_heartbeat_at row,
       le_fencing_token = lk_fencing_token row,
       le_reason = (if expired then ''OWNER_ALIVE_AFTER_TTL'' else ''LEASE_ACTIVE'') \<rparr>"

definition upsert_lock :: "lock_row \<Rightarrow> lock_row list \<Rightarrow> lock_row list" where
  "upsert_lock new locks =
     (if lookup_by lk_lock_name (lk_lock_name new) locks = None then locks @ [new]
      else sql_update (\<lambda>r. lk_lock_name r = lk_lock_name new) (\<lambda>_. new) locks)"

definition acquire_lock ::
  "process_view \<Rightarrow> instant \<Rightarrow> string \<Rightarrow> string \<Rightarrow> int \<Rightarrow> int \<Rightarrow> int \<Rightarrow> pydict \<Rightarrow> lock_db \<Rightarrow> lock_error + (lock_row \<times> lock_db)" where
  \<comment> \<open>the row written holds the four values the code returns\<close>
  "acquire_lock pv now name owner pid tid ttl details db =
     (case (case lookup_by lk_lock_name name (db_locks db) of
              None \<Rightarrow> None
            | Some row \<Rightarrow>
                (let expired = lk_expires_at row \<le> now;
                     owner_alive = lock_owner_is_alive pv (lk_process_id row) (lk_thread_id row) in
                 if \<not> expired \<or> owner_alive then Some (held_error expired row) else None)) of
        Some err \<Rightarrow> Inl err
      | None \<Rightarrow>
          (let (token, db1) = next_fencing_token now name db;
               new = \<lparr> lk_lock_name = name, lk_owner_id = owner, lk_acquired_at = now, lk_expires_at = after_sec now ttl,
                       lk_process_id = pid, lk_thread_id = tid, lk_heartbeat_at = Some now, lk_fencing_token = token,
                       lk_detail = details \<rparr> in
           Inr (new, db1\<lparr>db_locks := upsert_lock new (db_locks db1)\<rparr>)))"

section \<open>Holding and releasing\<close>

definition held_by :: "lease \<Rightarrow> lock_row \<Rightarrow> bool" where
  "held_by l r \<longleftrightarrow> lk_lock_name r = ls_lock_name l \<and> lk_owner_id r = ls_owner_id l \<and> lk_fencing_token r = ls_fencing_token l"

definition fence_error_of :: "lease \<Rightarrow> lock_db \<Rightarrow> fence_error" where
  "fence_error_of l db =
     (let current = lookup_by lk_lock_name (ls_lock_name l) (db_locks db) in
      \<lparr> fe_lock_name = ls_lock_name l, fe_owner_id = ls_owner_id l, fe_fencing_token = ls_fencing_token l,
        fe_current_owner_id = map_option lk_owner_id current, fe_current_fencing_token = map_option lk_fencing_token current \<rparr>)"

definition renew_row :: "instant \<Rightarrow> lease \<Rightarrow> lock_row \<Rightarrow> lock_row" where
  "renew_row now l r = r\<lparr>lk_heartbeat_at := Some now, lk_expires_at := after_sec now (ls_ttl_sec l)\<rparr>"

definition renew_lock :: "instant \<Rightarrow> lease \<Rightarrow> lock_db \<Rightarrow> fence_error + ((instant \<times> instant) \<times> lock_db)" where
  "renew_lock now l db =
     (if sql_count (held_by l) (db_locks db) \<noteq> 1 then Inl (fence_error_of l db)
      else Inr ((now, after_sec now (ls_ttl_sec l)), db\<lparr>db_locks := sql_update (held_by l) (renew_row now l) (db_locks db)\<rparr>))"

definition assert_lock_row_matches :: "lease \<Rightarrow> lock_db \<Rightarrow> fence_error + unit" where
  "assert_lock_row_matches l db =
     (case lookup_by lk_lock_name (ls_lock_name l) (db_locks db) of
        None \<Rightarrow> Inl (fence_error_of l db)
      | Some row \<Rightarrow>
          (if lk_owner_id row \<noteq> ls_owner_id l \<or> lk_fencing_token row \<noteq> ls_fencing_token l
           then Inl (fence_error_of l db) else Inr ()))"

definition release_lock :: "lease \<Rightarrow> lock_db \<Rightarrow> lock_db" where
  "release_lock l db = db\<lparr>db_locks := sql_delete (held_by l) (db_locks db)\<rparr>"

definition assert_current ::
  "instant \<Rightarrow> bool \<Rightarrow> fence_error option \<Rightarrow> lease \<Rightarrow> lock_db \<Rightarrow> fence_error + (lease \<times> lock_db)" where
  \<comment> \<open>\<open>lost\<close> is what the heartbeat thread has stored in \<open>_lost_error\<close>\<close>
  "assert_current now renew lost l db =
     (case lost of
        Some err \<Rightarrow> Inl err
      | None \<Rightarrow>
          (if renew
           then rbind (renew_lock now l db) (\<lambda>((hb, ex), db'). Inr (l\<lparr>ls_heartbeat_at := hb, ls_expires_at := ex\<rparr>, db'))
           else rbind (assert_lock_row_matches l db) (\<lambda>_. Inr (l, db))))"

definition heartbeat_tick ::
  "instant \<Rightarrow> lease \<Rightarrow> lock_db \<Rightarrow> (lease \<times> fence_error option) \<times> lock_db" where
  \<comment> \<open>one turn of \<open>heartbeat_loop\<close> on a database that is not locked\<close>
  "heartbeat_tick now l db =
     (case renew_lock now l db of
        Inl err \<Rightarrow> ((l, Some err), db)
      | Inr ((hb, ex), db') \<Rightarrow> ((l\<lparr>ls_heartbeat_at := hb, ls_expires_at := ex\<rparr>, None), db'))"

definition assert_runtime_execution_fence ::
  "instant \<Rightarrow> bool \<Rightarrow> (lease \<times> fence_error option) option \<Rightarrow> (lease \<times> fence_error option) option \<Rightarrow> lock_db
   \<Rightarrow> fence_error + (lease option \<times> lock_db)" where
  \<comment> \<open>the lease passed in, or else the active one of the context\<close>
  "assert_runtime_execution_fence now renew given active db =
     (case (case given of Some l \<Rightarrow> Some l | None \<Rightarrow> active) of
        None \<Rightarrow> Inr (None, db)
      | Some (l, lost) \<Rightarrow> rbind (assert_current now renew lost l db) (\<lambda>(l', db'). Inr (Some l', db')))"

definition immediate_transaction ::
  "begin_outcome list \<Rightarrow> instant \<Rightarrow> bool \<Rightarrow> (lease \<times> fence_error option) option \<Rightarrow> (lease \<times> fence_error option) option
   \<Rightarrow> ('s \<Rightarrow> string + 's) \<Rightarrow> lock_db \<times> 's \<Rightarrow> guard_error option \<times> (lock_db \<times> 's)" where
  \<comment> \<open>\<open>'s\<close> is the rest of the database, which the body works on; the second result is what stays stored\<close>
  "immediate_transaction outs now in_transaction given active body st =
     (if in_transaction
      then (case assert_runtime_execution_fence now True given active (fst st) of
              Inl e \<Rightarrow> (Some (Fence_lost e), st)
            | Inr (_, db) \<Rightarrow> (case body (snd st) of
                               Inl msg \<Rightarrow> (Some (Body_failed msg), (db, snd st))
                             | Inr s \<Rightarrow> (None, (db, s))))
      else if \<not> fst (begin_immediate_with_retry outs) then (Some Database_locked, st)
      else case assert_runtime_execution_fence now True given active (fst st) of
             Inl e \<Rightarrow> (Some (Fence_lost e), st)
           | Inr (_, db) \<Rightarrow> (case body (snd st) of
                              Inl msg \<Rightarrow> (Some (Body_failed msg), st)
                            | Inr s \<Rightarrow> (None, (db, s))))"

section \<open>The lock around a run\<close>

definition make_lease :: "lock_row \<Rightarrow> int \<Rightarrow> rat option \<Rightarrow> lease" where
  "make_lease row ttl_sec heartbeat_interval_sec =
     (let ttl = max ttl_sec 1 in
      \<lparr> ls_lock_name = lk_lock_name row, ls_owner_id = lk_owner_id row, ls_fencing_token = lk_fencing_token row,
        ls_process_id = lk_process_id row, ls_thread_id = lk_thread_id row, ls_acquired_at = lk_acquired_at row,
        ls_heartbeat_at = lk_acquired_at row, ls_expires_at = lk_expires_at row, ls_ttl_sec = ttl,
        ls_heartbeat_interval_sec = (case heartbeat_interval_sec of
           None \<Rightarrow> max (min (of_int ttl / 3) 30) (1 / 4) | Some h \<Rightarrow> max h 0) \<rparr>)"

definition acquire_lease ::
  "process_view \<Rightarrow> instant \<Rightarrow> string \<Rightarrow> string \<Rightarrow> int \<Rightarrow> int \<Rightarrow> int \<Rightarrow> rat option \<Rightarrow> pydict \<Rightarrow> lock_db \<Rightarrow> lock_error + (lease \<times> lock_db)" where
  \<comment> \<open>the first half of \<open>runtime_execution_lock\<close>\<close>
  "acquire_lease pv now name owner pid tid ttl_sec interval details db =
     rbind (acquire_lock pv now name owner pid tid (max ttl_sec 1) details db)
       (\<lambda>(row, db'). Inr (make_lease row ttl_sec interval, db'))"

definition finish_run :: "bool \<Rightarrow> fence_error option \<Rightarrow> lease \<Rightarrow> lock_db \<Rightarrow> fence_error option \<times> lock_db" where
  \<comment> \<open>the \<open>finally\<close> of \<open>runtime_execution_lock\<close>: the error that leaves it, if the body had none of its own\<close>
  "finish_run body_failed lost l db =
     (if body_failed then (None, release_lock l db)
      else case assert_current 0 False lost l db of
             Inl e \<Rightarrow> (Some e, db)
           | Inr _ \<Rightarrow> (None, release_lock l db))"

section \<open>Clean-up and status\<close>

definition clearable :: "process_view \<Rightarrow> instant \<Rightarrow> int \<Rightarrow> lock_row \<Rightarrow> bool" where
  "clearable pv now current_pid r \<longleftrightarrow>
     (let self_owned = lk_process_id r > 0 \<and> lk_process_id r = current_pid;
          expired = lk_expires_at r \<le> now;
          owner_alive = lock_owner_is_alive pv (lk_process_id r) (lk_thread_id r) in
      self_owned \<or> (expired \<and> \<not> owner_alive))"

fun clear_each :: "process_view \<Rightarrow> instant \<Rightarrow> int \<Rightarrow> lock_row list \<Rightarrow> lock_db \<Rightarrow> nat \<Rightarrow> nat \<times> lock_db" where
  "clear_each pv now pid [] db deleted = (deleted, db)"
| "clear_each pv now pid (row # rows) db deleted =
     (if \<not> clearable pv now pid row then clear_each pv now pid rows db deleted
      else
        let hit = (\<lambda>r. lk_lock_name r = lk_lock_name row \<and> lk_owner_id r = lk_owner_id row
                       \<and> lk_fencing_token r = lk_fencing_token row) in
        clear_each pv now pid rows (db\<lparr>db_locks := sql_delete hit (db_locks db)\<rparr>) (deleted + sql_count hit (db_locks db)))"

definition clear_runtime_execution_locks :: "process_view \<Rightarrow> instant \<Rightarrow> int option \<Rightarrow> lock_db \<Rightarrow> nat \<times> lock_db" where
  "clear_runtime_execution_locks pv now process_id db =
     clear_each pv now (case process_id of None \<Rightarrow> pv_pid pv | Some p \<Rightarrow> p) (db_locks db) db 0"

datatype lock_state = Active | Expired_owner_alive | Stale_expired

definition lock_state_of :: "process_view \<Rightarrow> instant \<Rightarrow> lock_row \<Rightarrow> lock_state" where
  "lock_state_of pv now r =
     (if \<not> lk_expires_at r \<le> now then Active
      else if lock_owner_is_alive pv (lk_process_id r) (lk_thread_id r) then Expired_owner_alive else Stale_expired)"

definition runtime_execution_lock_status :: "process_view \<Rightarrow> instant \<Rightarrow> lock_db \<Rightarrow> string" where
  "runtime_execution_lock_status pv now db =
     (let states = map (lock_state_of pv now) (db_locks db) in
      if Stale_expired \<in> set states then ''FAIL'' else if Expired_owner_alive \<in> set states then ''WARN'' else ''PASS'')"

section \<open>What the lock table keeps\<close>

definition same_holder :: "lock_row \<Rightarrow> lock_row \<Rightarrow> bool" where
  "same_holder r q \<longleftrightarrow> lk_lock_name r = lk_lock_name q \<and> lk_owner_id r = lk_owner_id q \<and> lk_fencing_token r = lk_fencing_token q"

definition last_token :: "string \<Rightarrow> lock_db \<Rightarrow> int" where
  "last_token name db = (case lookup_by fn_lock_name name (db_fences db) of None \<Rightarrow> 0 | Some f \<Rightarrow> fn_last_fencing_token f)"

text \<open>One row per lock, one counter per lock, and a row always carries the newest token of its lock.\<close>

definition lock_ok :: "lock_db \<Rightarrow> bool" where
  "lock_ok db \<longleftrightarrow> unique_key lk_lock_name (db_locks db) \<and> unique_key fn_lock_name (db_fences db)
     \<and> (\<forall>r \<in> set (db_locks db). lk_fencing_token r = last_token (lk_lock_name r) db)"

locale lock_upkeep =
  fixes f :: "lock_db \<Rightarrow> lock_db"
  assumes fences_kept: "db_fences (f db) = db_fences db"
    and no_new_holder: "r \<in> set (db_locks (f db)) \<Longrightarrow> \<exists>q \<in> set (db_locks db). same_holder r q"
    and names_unique: "unique_key lk_lock_name (db_locks db) \<Longrightarrow> unique_key lk_lock_name (db_locks (f db))"
begin

lemma token_kept: "last_token name (f db) = last_token name db"
  by (simp add: last_token_def fences_kept)

lemma upkeep_ok: "lock_ok db \<Longrightarrow> lock_ok (f db)"
  unfolding lock_ok_def token_kept fences_kept
  by (metis names_unique no_new_holder same_holder_def)

end

definition renewed :: "instant \<Rightarrow> lease \<Rightarrow> lock_db \<Rightarrow> lock_db" where
  "renewed now l db = db\<lparr>db_locks := sql_update (held_by l) (renew_row now l) (db_locks db)\<rparr>"

definition row_dropped :: "lock_row \<Rightarrow> lock_db \<Rightarrow> lock_db" where
  "row_dropped row db = db\<lparr>db_locks := sql_delete (\<lambda>r. lk_lock_name r = lk_lock_name row \<and> lk_owner_id r = lk_owner_id row
     \<and> lk_fencing_token r = lk_fencing_token row) (db_locks db)\<rparr>"

interpretation renew: lock_upkeep "renewed now l" for now l
  by unfold_locales
     (auto simp: renewed_def renew_row_def same_holder_def set_sql_update sql_simps split: if_splits)

interpretation release: lock_upkeep "release_lock l" for l
  by unfold_locales (auto simp: release_lock_def same_holder_def sql_delete_def unique_key_filter)

interpretation drop_row: lock_upkeep "row_dropped row" for row
  by unfold_locales (auto simp: row_dropped_def same_holder_def sql_delete_def unique_key_filter)

lemma clear_each_ok: "lock_ok db \<Longrightarrow> lock_ok (snd (clear_each pv now pid rows db n))"
  by (induction rows arbitrary: db n) (auto simp: Let_def drop_row.upkeep_ok [unfolded row_dropped_def])

lemma clear_each_fences: "db_fences (snd (clear_each pv now pid rows db n)) = db_fences db"
  by (induction rows arbitrary: db n) (auto simp: Let_def)

lemma clear_each_rows: "set (db_locks (snd (clear_each pv now pid rows db n))) \<subseteq> set (db_locks db)"
proof (induction rows arbitrary: db n)
  case (Cons row rows)
  show ?case
    using Cons.IH [of "row_dropped row db"] Cons.IH [of db n]
    by (auto simp: Let_def row_dropped_def sql_delete_def)
qed simp

lemma renew_lock_cases:
  assumes "renew_lock now l db = Inr (p, db')"
  shows "db' = renewed now l db" "\<exists>r \<in> set (db_locks db). held_by l r"
  using assms by (auto simp: renew_lock_def renewed_def sql_count_def split: if_splits)
     (metis One_nat_def filter_False length_0_conv zero_neq_one)

lemma next_fencing_token_spec:
  assumes "next_fencing_token now name db = (token, db')" "unique_key fn_lock_name (db_fences db)"
  shows "token = last_token name db + 1" "last_token n db' = (if n = name then token else last_token n db)"
    "db_locks db' = db_locks db" "unique_key fn_lock_name (db_fences db')"
  using assms
  by (auto simp: next_fencing_token_def last_token_def Let_def lookup_by_append unique_key_snoc sql_simps
      split: option.splits if_splits dest: lookup_by_SomeD)

lemma acquire_lock_cases:
  assumes "acquire_lock pv now name owner pid tid ttl details db = Inr (row, db')" "lock_ok db"
  shows "lk_lock_name row = name" "lk_owner_id row = owner" "lk_fencing_token row = last_token name db + 1"
    "last_token n db' = (if n = name then lk_fencing_token row else last_token n db)"
    "lookup_by lk_lock_name n (db_locks db') = (if n = name then Some row else lookup_by lk_lock_name n (db_locks db))"
    "lock_ok db'"
    "\<forall>r. lookup_by lk_lock_name name (db_locks db) = Some r \<longrightarrow>
       lk_expires_at r \<le> now \<and> \<not> lock_owner_is_alive pv (lk_process_id r) (lk_thread_id r)"
proof -
  have uq: "unique_key fn_lock_name (db_fences db)" "unique_key lk_lock_name (db_locks db)" using assms(2) by (simp_all add: lock_ok_def)
  obtain token db1 where t: "next_fencing_token now name db = (token, db1)" by (metis surj_pair)
  note spec = next_fencing_token_spec [OF t uq(1)]
  have row: "row = \<lparr> lk_lock_name = name, lk_owner_id = owner, lk_acquired_at = now, lk_expires_at = after_sec now ttl,
      lk_process_id = pid, lk_thread_id = tid, lk_heartbeat_at = Some now, lk_fencing_token = token, lk_detail = details \<rparr>"
    and db': "db' = db1\<lparr>db_locks := upsert_lock row (db_locks db)\<rparr>"
    using assms(1) t spec(3) by (auto simp: acquire_lock_def Let_def split: option.splits if_splits)
  show fields: "lk_lock_name row = name" "lk_owner_id row = owner" "lk_fencing_token row = last_token name db + 1"
    using row spec(1) by simp_all
  show last: "last_token n db' = (if n = name then lk_fencing_token row else last_token n db)" for n
    using spec(2) [of n] row db' by (simp add: last_token_def)
  show look: "lookup_by lk_lock_name n (db_locks db') = (if n = name then Some row else lookup_by lk_lock_name n (db_locks db))" for n
    using fields(1) by (auto simp: db' upsert_lock_def lookup_by_append sql_simps split: option.splits)
  have uq': "unique_key lk_lock_name (db_locks db')"
    using uq(2) fields(1) unfolding db' upsert_lock_def
    by (auto simp: unique_key_def keys_replace lookup_by_None_iff)
  have "lk_fencing_token r = last_token (lk_lock_name r) db'" if "r \<in> set (db_locks db')" for r
  proof -
    have "lookup_by lk_lock_name (lk_lock_name r) (db_locks db') = Some r" by (rule lookup_by_unique [OF uq' that])
    then show ?thesis using look [of "lk_lock_name r"] last [of "lk_lock_name r"] assms(2)
      by (auto simp: lock_ok_def split: if_splits dest: lookup_by_SomeD)
  qed
  then show "lock_ok db'" using uq' spec(4) by (simp add: lock_ok_def db')
  show "\<forall>r. lookup_by lk_lock_name name (db_locks db) = Some r \<longrightarrow>
       lk_expires_at r \<le> now \<and> \<not> lock_owner_is_alive pv (lk_process_id r) (lk_thread_id r)"
    using assms(1) by (auto simp: acquire_lock_def Let_def split: if_splits)
qed

section \<open>Histories\<close>

record lock_history =
  lh_db :: lock_db
  lh_issued :: "lease list"

definition empty_history :: lock_history where
  "empty_history = \<lparr> lh_db = \<lparr> db_locks = [], db_fences = [] \<rparr>, lh_issued = [] \<rparr>"

inductive lock_step :: "lock_history \<Rightarrow> lock_history \<Rightarrow> bool" where
  acquire: "acquire_lease pv now name owner pid tid ttl interval details (lh_db h) = Inr (l, db) \<Longrightarrow>
    lock_step h (h\<lparr>lh_db := db, lh_issued := lh_issued h @ [l]\<rparr>)"
| beat: "heartbeat_tick now l (lh_db h) = (res, db) \<Longrightarrow> lock_step h (h\<lparr>lh_db := db\<rparr>)"
| check: "assert_current now renew lost l (lh_db h) = Inr (l', db) \<Longrightarrow> lock_step h (h\<lparr>lh_db := db\<rparr>)"
| finish: "finish_run failed lost l (lh_db h) = (err, db) \<Longrightarrow> lock_step h (h\<lparr>lh_db := db\<rparr>)"
| clear: "clear_runtime_execution_locks pv now p (lh_db h) = (n, db) \<Longrightarrow> lock_step h (h\<lparr>lh_db := db\<rparr>)"

definition tokens_of :: "string \<Rightarrow> lease list \<Rightarrow> int list" where
  "tokens_of name ls = map ls_fencing_token (filter (\<lambda>l. ls_lock_name l = name) ls)"

definition history_ok :: "lock_history \<Rightarrow> bool" where
  "history_ok h \<longleftrightarrow> lock_ok (lh_db h)
     \<and> (\<forall>name. sorted_wrt (<) (tokens_of name (lh_issued h)) \<and> (\<forall>t \<in> set (tokens_of name (lh_issued h)). t \<le> last_token name (lh_db h)))"

lemma upkeep_history:
  assumes "history_ok h" "lock_ok db" "db_fences db = db_fences (lh_db h)"
  shows "history_ok (h\<lparr>lh_db := db\<rparr>)"
  using assms by (simp add: history_ok_def last_token_def)

lemma renew_lock_upkeep:
  assumes "renew_lock now l db = Inr (p, db')" "lock_ok db"
  shows "lock_ok db' \<and> db_fences db' = db_fences db"
  using renew_lock_cases(1) [OF assms(1)] renew.upkeep_ok [OF assms(2)] renew.fences_kept by simp

lemma assert_current_upkeep:
  assumes "assert_current now rn lost l db = Inr (l', db')" "lock_ok db"
  shows "lock_ok db' \<and> db_fences db' = db_fences db"
  using assms renew_lock_upkeep by (auto simp: assert_current_def rbind_Inr_iff split: option.splits if_splits)

lemma lock_step_ok:
  assumes "lock_step h h'" "history_ok h"
  shows "history_ok h'"
  using assms(1)
proof cases
  case (acquire pv now name owner pid tid ttl interval details l db)
  obtain row where row: "acquire_lock pv now name owner pid tid (max ttl 1) details (lh_db h) = Inr (row, db)"
    and l: "l = make_lease row ttl interval"
    using acquire(2) by (auto simp: acquire_lease_def rbind_Inr_iff)
  have ok: "lock_ok (lh_db h)" using assms(2) by (simp add: history_ok_def)
  note a = acquire_lock_cases [OF row ok]
  have lf: "ls_lock_name l = name" "ls_fencing_token l = last_token name (lh_db h) + 1"
    using a(1,3) by (simp_all add: l make_lease_def Let_def)
  show ?thesis
    using assms(2) a(6) unfolding acquire(1) history_ok_def
    by (auto simp: tokens_of_def sorted_wrt_append a(3,4) lf; fastforce)
next
  case (beat now l res db)
  then show ?thesis using assms(2) renew_lock_upkeep
    by (auto simp: heartbeat_tick_def history_ok_def last_token_def split: sum.splits)
next
  case (check now renew lost l l' db)
  then show ?thesis using assms(2) assert_current_upkeep upkeep_history by (auto simp: history_ok_def last_token_def)
next
  case (finish failed lost l err db)
  then show ?thesis using assms(2) release.upkeep_ok release.fences_kept
    by (auto simp: finish_run_def history_ok_def last_token_def split: sum.splits if_splits)
next
  case (clear pv now p n db)
  then have "db = snd (clear_each pv now (case p of None \<Rightarrow> pv_pid pv | Some p \<Rightarrow> p) (db_locks (lh_db h)) (lh_db h) 0)"
    by (metis clear_runtime_execution_locks_def snd_conv)
  then show ?thesis using assms(2) clear_each_ok clear_each_fences unfolding clear(1)
    by (intro upkeep_history) (auto simp: history_ok_def)
qed

lemma lock_steps_ok:
  assumes "lock_step\<^sup>*\<^sup>* empty_history h"
  shows "history_ok h"
  using assms
proof (induction rule: rtranclp_induct)
  case base
  then show ?case by (simp add: empty_history_def history_ok_def lock_ok_def tokens_of_def)
qed (rule lock_step_ok)

section \<open>Fencing\<close>

definition lease_current :: "lease \<Rightarrow> lock_db \<Rightarrow> bool" where
  "lease_current l db \<longleftrightarrow> (\<exists>r \<in> set (db_locks db). held_by l r)"

lemma lease_current_token:
  "lease_current l db \<Longrightarrow> lock_ok db \<Longrightarrow> ls_fencing_token l = last_token (ls_lock_name l) db"
  by (auto simp: lease_current_def held_by_def lock_ok_def)

lemma assert_matches_current:
  "assert_lock_row_matches l db = Inr u \<Longrightarrow> lease_current l db"
  by (auto simp: assert_lock_row_matches_def lease_current_def held_by_def split: option.splits if_splits dest!: lookup_by_SomeD)

lemma assert_current_needs_lease:
  assumes "assert_current now rn lost l db = Inr res"
  shows "lease_current l db"
  using assms renew_lock_cases(2) assert_matches_current
  by (auto simp: assert_current_def rbind_Inr_iff lease_current_def split: option.splits if_splits)

lemma fence_refuses:
  assumes "\<not> lease_current l db"
  shows "\<exists>e. assert_current now rn lost l db = Inl e"
  using assert_current_needs_lease assms by (metis old.sum.exhaust)

lemma transaction_refuses:
  assumes "\<not> lease_current l (fst st)"
  shows "\<exists>e. immediate_transaction outs now nested (Some (l, lost)) active body st = (Some e, st)"
proof -
  obtain e where "assert_runtime_execution_fence now True (Some (l, lost)) active (fst st) = Inl e"
    using fence_refuses [OF assms, of now True lost] by (auto simp: assert_runtime_execution_fence_def)
  then show ?thesis by (auto simp: immediate_transaction_def)
qed

lemma superseded_not_current:
  assumes "history_ok h" "l' \<in> set (lh_issued h)" "ls_lock_name l = ls_lock_name l'" "ls_fencing_token l < ls_fencing_token l'"
  shows "\<not> lease_current l (lh_db h)"
proof
  assume "lease_current l (lh_db h)"
  then have "ls_fencing_token l = last_token (ls_lock_name l) (lh_db h)"
    using lease_current_token assms(1) by (simp add: history_ok_def)
  moreover have "ls_fencing_token l' \<in> set (tokens_of (ls_lock_name l') (lh_issued h))"
    using assms(2) by (simp add: tokens_of_def)
  ultimately show False using assms(1,3,4) by (force simp: history_ok_def)
qed

section \<open>Properties\<close>

definition dead_view :: process_view where
  "dead_view = \<lparr> pv_pid = 7, pv_threads = [], pv_probe = (\<lambda>_. Probe_no_process) \<rparr>"

definition sample_acquire :: "instant \<Rightarrow> string \<Rightarrow> lock_history \<Rightarrow> lock_history" where
  "sample_acquire now owner h =
     (case acquire_lease dead_view now ''p'' owner 3 1 60 None [] (lh_db h) of
        Inr (l, db) \<Rightarrow> h\<lparr>lh_db := db, lh_issued := lh_issued h @ [l]\<rparr> | Inl _ \<Rightarrow> h)"

definition sample_history :: lock_history where
  "sample_history = sample_acquire 90000000 ''b'' (sample_acquire 0 ''a'' empty_history)"

lemma sample_acquire_step: "lock_step\<^sup>*\<^sup>* h (sample_acquire now owner h)"
  using lock_step.acquire [of dead_view now "''p''" owner 3 1 60 None "[]" h]
  by (auto simp: sample_acquire_def split: sum.splits)

lemma sample_history_reachable: "lock_step\<^sup>*\<^sup>* empty_history sample_history"
  unfolding sample_history_def by (rule rtranclp_trans [OF sample_acquire_step sample_acquire_step])

lemma sample_history_issued: "map (\<lambda>l. (ls_owner_id l, ls_fencing_token l)) (lh_issued sample_history) = [(''a'', 1), (''b'', 2)]"
  by code_simp

text \<open>
  Fencing tokens of a lock grow strictly, whatever runs, crashes, expires or is cleared in between:
  the leases issued for one lock have strictly increasing tokens in the order they were issued.
\<close>

theorem fencing_tokens_increase:
  assumes "lock_step\<^sup>*\<^sup>* empty_history h"
  shows "sorted_wrt (<) (map ls_fencing_token (filter (\<lambda>l. ls_lock_name l = name) (lh_issued h)))"
  using lock_steps_ok [OF assms] by (simp add: history_ok_def tokens_of_def)

theorem fencing_tokens_increase_witness:
  "sorted_wrt (<) (map ls_fencing_token (filter (\<lambda>l. ls_lock_name l = ''p'') (lh_issued sample_history)))
   \<and> length (lh_issued sample_history) = 2"
  using fencing_tokens_increase [OF sample_history_reachable] arg_cong [OF sample_history_issued, of length] by simp

text \<open>
  C21: A superseded run cannot write. Once a newer lease exists for the lock, every check of the older one
  fails and a guarded transaction that names it commits nothing, in every later state.
\<close>

theorem superseded_lease_is_fenced:
  assumes "lock_step\<^sup>*\<^sup>* empty_history h" "l' \<in> set (lh_issued h)" "ls_lock_name l = ls_lock_name l'"
    and "ls_fencing_token l < ls_fencing_token l'"
  shows "(\<exists>e. assert_current now renew lost l (lh_db h) = Inl e)
     \<and> (\<exists>e. immediate_transaction outs now nested (Some (l, lost)) active body (lh_db h, s) = (Some e, (lh_db h, s)))
     \<and> release_lock l (lh_db h) = lh_db h"
proof -
  have gone: "\<not> lease_current l (lh_db h)"
    by (rule superseded_not_current [OF lock_steps_ok [OF assms(1)] assms(2-4)])
  then have "release_lock l (lh_db h) = lh_db h"
    by (auto simp: release_lock_def sql_delete_def lease_current_def intro!: filter_True)
  then show ?thesis using gone fence_refuses transaction_refuses [of l "(lh_db h, s)"] by simp
qed

theorem superseded_lease_is_fenced_witness:
  "\<exists>e. immediate_transaction [Begun] 91000000 False (Some (hd (lh_issued sample_history), None)) None (\<lambda>n. Inr (n + 1))
       (lh_db sample_history, 0 :: nat) = (Some e, (lh_db sample_history, 0))"
proof -
  have facts: "last (lh_issued sample_history) \<in> set (lh_issued sample_history)"
    "ls_lock_name (hd (lh_issued sample_history)) = ls_lock_name (last (lh_issued sample_history))"
    "ls_fencing_token (hd (lh_issued sample_history)) < ls_fencing_token (last (lh_issued sample_history))" by code_simp+
  show ?thesis by (rule conjunct1 [OF conjunct2 [OF superseded_lease_is_fenced [OF sample_history_reachable facts]]])
qed

text \<open>
  Acquiring succeeds exactly when the lock is free or its lease has run out and its owner is gone.
  A lease that has run out is not taken from an owner that is alive.
\<close>

theorem acquire_only_if_abandoned:
  "(\<exists>res. acquire_lock pv now name owner pid tid ttl details db = Inr res) \<longleftrightarrow>
     (case lookup_by lk_lock_name name (db_locks db) of
        None \<Rightarrow> True
      | Some r \<Rightarrow> lk_expires_at r \<le> now \<and> \<not> lock_owner_is_alive pv (lk_process_id r) (lk_thread_id r))"
  by (auto simp: acquire_lock_def Let_def split: option.splits prod.splits)

end
