(* ===== verification/Candidate_FSM.thy ===== *)
theory Candidate_FSM
  imports Py_Prelude
begin

text \<open>
  The state machine of a trading candidate (domain/candidate/fsm.py, state.py, reasons.py). Snapshot and
  context are the mappings the service hands over; a source count that is not a number raises.
\<close>

section \<open>States and decisions\<close>

datatype candidate_state =
    DETECTED | HYDRATING | WATCHING | CONTEXT_READY | DATA_WAIT | BLOCKED_OBSERVATION | STALE | COOLDOWN | CLOSED

definition state_names :: "(string \<times> candidate_state) list" where
  "state_names =
     [(''DETECTED'', DETECTED), (''HYDRATING'', HYDRATING), (''WATCHING'', WATCHING), (''CONTEXT_READY'', CONTEXT_READY),
      (''DATA_WAIT'', DATA_WAIT), (''BLOCKED_OBSERVATION'', BLOCKED_OBSERVATION), (''STALE'', STALE), (''COOLDOWN'', COOLDOWN),
      (''CLOSED'', CLOSED)]"

definition candidate_state_of :: "repr \<Rightarrow> pydict \<Rightarrow> candidate_state result" where
  \<comment> \<open>\<open>CandidateState(str(current_snapshot["state"]))\<close>\<close>
  "candidate_state_of rp snapshot =
     (case map_of snapshot ''state'' of
        None \<Rightarrow> Inl (KeyError ''state'')
      | Some v \<Rightarrow> (case map_of state_names (py_str rp v) of
                    None \<Rightarrow> Inl (ValueError ''not a valid CandidateState'') | Some st \<Rightarrow> Inr st))"

record decision =
  next_state :: candidate_state
  reason_codes :: "string list"
  close_candidate :: bool
  stale_candidate :: bool

definition plain_decision :: "candidate_state \<Rightarrow> string list \<Rightarrow> decision" where
  "plain_decision st reasons = \<lparr> next_state = st, reason_codes = reasons, close_candidate = False, stale_candidate = False \<rparr>"

section \<open>Reason codes\<close>

fun group_items :: "repr \<Rightarrow> pyval \<Rightarrow> pyval list" where
  \<comment> \<open>what a group of \<open>merge_reason_codes\<close> contributes; a mapping iterates over its keys\<close>
  "group_items rp PNone = []"
| "group_items rp (PStr s) = [PStr s]"
| "group_items rp (PList xs) = xs"
| "group_items rp (PDict d) = map (\<lambda>(k, _). PStr k) d"
| "group_items rp v = [PStr (py_str rp v)]"

fun merge_items :: "repr \<Rightarrow> string list \<Rightarrow> pyval list \<Rightarrow> string list" where
  "merge_items rp merged [] = merged"
| "merge_items rp merged (item # items) =
     (let value = py_upper (py_strip (py_str rp item)) in
      if value \<noteq> [] \<and> value \<notin> set merged then merge_items rp (merged @ [value]) items
      else merge_items rp merged items)"

fun merge_groups :: "repr \<Rightarrow> string list \<Rightarrow> pyval list \<Rightarrow> string list" where
  "merge_groups rp merged [] = merged"
| "merge_groups rp merged (grp # grps) = merge_groups rp (merge_items rp merged (group_items rp grp)) grps"

definition merge_reason_codes :: "repr \<Rightarrow> pyval list \<Rightarrow> string list" where
  "merge_reason_codes rp groups = merge_groups rp [] groups"

abbreviation codes :: "string list \<Rightarrow> pyval" where
  "codes cs \<equiv> PList (map PStr cs)"

section \<open>Conditions\<close>

definition flag_or :: "bool \<Rightarrow> pyval \<Rightarrow> bool" where
  \<comment> \<open>\<open>_bool(value, default=...)\<close>\<close>
  "flag_or dflt v = (if v = PNone then dflt else py_truthy v)"

abbreviation flag :: "pydict \<Rightarrow> string \<Rightarrow> bool" where
  "flag ctx k \<equiv> flag_or False (dget ctx k)"

definition active_source_count :: "pydict \<Rightarrow> int result" where
  "active_source_count ctx = py_int (py_or (dget ctx ''active_source_count'') (PInt 0))"

definition upper_text :: "repr \<Rightarrow> pydict \<Rightarrow> string \<Rightarrow> string" where
  "upper_text rp ctx k = py_upper (py_str rp (py_or (dget ctx k) (PStr [])))"

definition should_close_candidate :: "repr \<Rightarrow> pydict \<Rightarrow> string list result" where
  "should_close_candidate rp ctx =
     rbind (active_source_count ctx) (\<lambda>n.
       Inr (merge_reason_codes rp [codes (
         (if flag ctx ''explicit_close'' then [''SOURCE_EXITED''] else [])
         @ (if n \<le> 0 then [''SOURCE_EXITED''] else [])
         @ (if flag ctx ''ttl_expired'' then [''EPISODE_TTL_EXPIRED''] else [])
         @ (if upper_text rp ctx ''theme_state'' = ''ROTATED_OUT'' then [''THEME_ROTATED_OUT''] else [])
         @ (if flag ctx ''only_condition_exit_sources'' then [''CONDITION_EXITED''] else []))]))"

definition should_mark_stale :: "repr \<Rightarrow> pydict \<Rightarrow> string list" where
  "should_mark_stale rp ctx =
     (let source_stale = flag ctx ''source_stale''; tick_stale = flag ctx ''tick_stale'';
          requires_tick_stale = flag_or True (dget ctx ''candidate_stale_requires_tick_stale'') in
      merge_reason_codes rp [codes (
        (if source_stale \<and> (tick_stale \<or> \<not> requires_tick_stale) then [''SOURCE_STALE''] else [])
        @ (if tick_stale then [''TICK_STALE''] else []))])"

definition hydration_ready :: "repr \<Rightarrow> pydict \<Rightarrow> int \<Rightarrow> bool" where
  "hydration_ready rp ctx n \<longleftrightarrow>
     flag ctx ''has_latest_tick''
     \<and> upper_text rp ctx ''market_readiness_status'' \<notin> {'''', ''MISSING'', ''INVALID''} \<and> n > 0"

definition context_ready :: "repr \<Rightarrow> pydict \<Rightarrow> int \<Rightarrow> bool" where
  "context_ready rp ctx n =
     (if upper_text rp ctx ''market_readiness_status'' \<in> {'''', ''MISSING'', ''STALE'', ''INVALID''} then False
      else if \<not> flag ctx ''has_latest_tick'' then False
      else if flag_or True (dget ctx ''require_1m_bar'') \<and> \<not> flag ctx ''bar_1m_ready'' then False
      else if flag ctx ''require_vwap'' \<and> \<not> flag ctx ''vwap_ready'' then False
      else if flag ctx ''theme_source'' \<and> \<not> flag ctx ''theme_context_present'' then False
      else if flag ctx ''condition_source'' \<and> \<not> flag ctx ''condition_signal_present'' then False
      else n > 0)"

definition data_wait_reasons :: "repr \<Rightarrow> pydict \<Rightarrow> int \<Rightarrow> string list" where
  "data_wait_reasons rp ctx n =
     merge_reason_codes rp [codes (
       (if \<not> flag ctx ''has_latest_tick'' \<or> upper_text rp ctx ''market_readiness_status'' = ''MISSING''
        then [''MARKET_READINESS_MISSING''] else [])
       @ (if flag_or True (dget ctx ''require_1m_bar'') \<and> \<not> flag ctx ''bar_1m_ready'' then [''BAR_MISSING''] else [])
       @ (if flag ctx ''require_vwap'' \<and> \<not> flag ctx ''vwap_ready'' then [''VWAP_MISSING''] else [])
       @ (if flag ctx ''theme_source'' \<and> \<not> flag ctx ''theme_context_present'' then [''THEME_MISSING''] else [])
       @ (if n \<le> 0 then [''SOURCE_MISSING''] else []))]"

section \<open>The decision\<close>

definition watching_decision :: "repr \<Rightarrow> pydict \<Rightarrow> decision" where
  "watching_decision rp ctx =
     plain_decision WATCHING (merge_reason_codes rp [dget_or ctx ''reason_codes'' (PList []), codes [''MARKET_READINESS_READY'']])"

definition data_wait_decision :: "repr \<Rightarrow> pydict \<Rightarrow> string list \<Rightarrow> decision" where
  "data_wait_decision rp ctx reasons =
     plain_decision DATA_WAIT (merge_reason_codes rp [dget_or ctx ''reason_codes'' (PList []), codes reasons])"

definition observed_decision :: "repr \<Rightarrow> pydict \<Rightarrow> int \<Rightarrow> candidate_state \<Rightarrow> decision" where
  \<comment> \<open>the part of \<open>determine_next_state\<close> for a candidate that is neither closing, stale, blocked nor new\<close>
  "observed_decision rp ctx n current =
     (let waits = data_wait_reasons rp ctx n in
      if current = HYDRATING \<and> waits \<noteq> [] then data_wait_decision rp ctx waits
      else if current = HYDRATING \<and> hydration_ready rp ctx n then watching_decision rp ctx
      else if current \<in> {DATA_WAIT, STALE} \<and> hydration_ready rp ctx n then watching_decision rp ctx
      else if context_ready rp ctx n
      then plain_decision CONTEXT_READY
             (merge_reason_codes rp [dget_or ctx ''reason_codes'' (PList []), codes [''CONTEXT_READY'', ''MARKET_READINESS_READY'']])
      else if waits \<noteq> [] then data_wait_decision rp ctx waits
      else if hydration_ready rp ctx n then watching_decision rp ctx
      else plain_decision current (merge_reason_codes rp [dget_or ctx ''reason_codes'' (PList []), PList []]))"

definition decide :: "repr \<Rightarrow> candidate_state \<Rightarrow> pydict \<Rightarrow> decision result" where
  "decide rp current ctx =
     (if current = CLOSED then Inr (plain_decision CLOSED [])
      else
        rbind (should_close_candidate rp ctx) (\<lambda>close_reasons.
          if close_reasons \<noteq> []
          then Inr \<lparr> next_state = CLOSED, reason_codes = close_reasons, close_candidate = True, stale_candidate = False \<rparr>
          else if should_mark_stale rp ctx \<noteq> []
          then Inr \<lparr> next_state = STALE, reason_codes = should_mark_stale rp ctx, close_candidate = False, stale_candidate = True \<rparr>
          else if flag ctx ''observation_blocked'' then Inr (plain_decision BLOCKED_OBSERVATION [''OBSERVATION_BLOCKED''])
          else if current = DETECTED then Inr (plain_decision HYDRATING [''SOURCE_DETECTED''])
          else rbind (active_source_count ctx) (\<lambda>n. Inr (observed_decision rp ctx n current))))"

definition determine_next_state :: "repr \<Rightarrow> pydict \<Rightarrow> pydict \<Rightarrow> decision result" where
  "determine_next_state rp snapshot ctx = rbind (candidate_state_of rp snapshot) (\<lambda>current. decide rp current ctx)"

section \<open>Merging reason codes\<close>

definition code_text :: "repr \<Rightarrow> pyval \<Rightarrow> string" where
  "code_text rp item = py_upper (py_strip (py_str rp item))"

lemma merge_items_onto: "merge_items rp merged items = dedupe_onto merged (filter (\<lambda>v. v \<noteq> []) (map (code_text rp) items))"
  by (induction items arbitrary: merged) (auto simp: code_text_def Let_def)

lemma merge_groups_onto:
  "merge_groups rp merged groups =
     dedupe_onto merged (filter (\<lambda>v. v \<noteq> []) (map (code_text rp) (concat (map (group_items rp) groups))))"
proof (induction groups arbitrary: merged)
  case (Cons g gs)
  have onto: "dedupe_onto (dedupe_onto m xs) ys = dedupe_onto m (xs @ ys)" for m :: "string list" and xs ys
    by (induction xs arbitrary: m) auto
  show ?case by (simp add: Cons.IH merge_items_onto onto)
qed simp

text \<open>The two loops are one pass: normalise every item of every group, skip the blank ones, keep first occurrences.\<close>

lemma merge_reason_codes_eq:
  "merge_reason_codes rp groups =
     dedupe (filter (\<lambda>v. v \<noteq> []) (map (code_text rp) (concat (map (group_items rp) groups))))"
  by (simp add: merge_reason_codes_def merge_groups_onto dedupe_def)

lemma merge_codes_Nil_iff:
  "\<forall>c \<in> set cs. code_text rp (PStr c) \<noteq> [] \<Longrightarrow> merge_reason_codes rp [codes cs] = [] \<longleftrightarrow> cs = []"
  by (auto simp: merge_reason_codes_eq dedupe_Nil_iff filter_empty_conv)

definition REASONS :: "string list" where
  "REASONS = [''SOURCE_EXITED'', ''EPISODE_TTL_EXPIRED'', ''THEME_ROTATED_OUT'', ''CONDITION_EXITED'', ''SOURCE_STALE'',
     ''TICK_STALE'', ''MARKET_READINESS_MISSING'', ''BAR_MISSING'', ''VWAP_MISSING'', ''THEME_MISSING'', ''SOURCE_MISSING'']"

lemma reasons_not_blank: "c \<in> set REASONS \<Longrightarrow> code_text rp (PStr c) \<noteq> []"
proof -
  have "\<forall>c \<in> set REASONS. py_upper (py_strip c) \<noteq> []" by code_simp
  then show "c \<in> set REASONS \<Longrightarrow> code_text rp (PStr c) \<noteq> []" by (simp add: code_text_def)
qed

lemma reasons_Nil_iff: "set cs \<subseteq> set REASONS \<Longrightarrow> merge_reason_codes rp [codes cs] = [] \<longleftrightarrow> cs = []"
  using reasons_not_blank by (intro merge_codes_Nil_iff) blast

lemma close_reasons_Nil_iff:
  "should_close_candidate rp ctx = Inr [] \<longleftrightarrow>
     (\<exists>n. active_source_count ctx = Inr n \<and> 0 < n) \<and> \<not> flag ctx ''explicit_close'' \<and> \<not> flag ctx ''ttl_expired''
     \<and> upper_text rp ctx ''theme_state'' \<noteq> ''ROTATED_OUT'' \<and> \<not> flag ctx ''only_condition_exit_sources''"
proof (cases "active_source_count ctx")
  case (Inr n)
  show ?thesis unfolding should_close_candidate_def Inr rbind.simps sum.inject
    by (subst reasons_Nil_iff) (auto simp: REASONS_def)
qed (simp add: should_close_candidate_def)

lemma stale_reasons_Nil_iff:
  "should_mark_stale rp ctx = [] \<longleftrightarrow>
     \<not> flag ctx ''tick_stale'' \<and> (\<not> flag ctx ''source_stale'' \<or> flag_or True (dget ctx ''candidate_stale_requires_tick_stale''))"
  unfolding should_mark_stale_def Let_def by (subst reasons_Nil_iff) (auto simp: REASONS_def)

lemma data_wait_Nil_iff:
  "data_wait_reasons rp ctx n = [] \<longleftrightarrow>
     flag ctx ''has_latest_tick'' \<and> upper_text rp ctx ''market_readiness_status'' \<noteq> ''MISSING''
     \<and> (flag_or True (dget ctx ''require_1m_bar'') \<longrightarrow> flag ctx ''bar_1m_ready'')
     \<and> (flag ctx ''require_vwap'' \<longrightarrow> flag ctx ''vwap_ready'') \<and> (flag ctx ''theme_source'' \<longrightarrow> flag ctx ''theme_context_present'')
     \<and> 0 < n"
  unfolding data_wait_reasons_def by (subst reasons_Nil_iff) (auto simp: REASONS_def)

lemma context_ready_iff:
  "context_ready rp ctx n \<longleftrightarrow>
     data_wait_reasons rp ctx n = [] \<and> upper_text rp ctx ''market_readiness_status'' \<notin> {'''', ''STALE'', ''INVALID''}
     \<and> (flag ctx ''condition_source'' \<longrightarrow> flag ctx ''condition_signal_present'')"
  unfolding context_ready_def data_wait_Nil_iff by auto

lemma context_ready_hydrated: "context_ready rp ctx n \<Longrightarrow> hydration_ready rp ctx n"
  unfolding context_ready_iff data_wait_Nil_iff hydration_ready_def by auto

section \<open>What the decision can be\<close>

definition undisturbed :: "repr \<Rightarrow> pydict \<Rightarrow> bool" where
  \<comment> \<open>nothing closes, outdates or blocks the candidate\<close>
  "undisturbed rp ctx \<longleftrightarrow> should_close_candidate rp ctx = Inr [] \<and> should_mark_stale rp ctx = [] \<and> \<not> flag ctx ''observation_blocked''"

lemma undisturbed_count: "undisturbed rp ctx \<Longrightarrow> \<exists>n > 0. active_source_count ctx = Inr n"
  by (auto simp: undisturbed_def close_reasons_Nil_iff)

lemma decide_undisturbed:
  assumes "undisturbed rp ctx" "active_source_count ctx = Inr n" "current \<notin> {CLOSED, DETECTED}"
  shows "decide rp current ctx = Inr (observed_decision rp ctx n current)"
  using assms by (simp add: decide_def undisturbed_def)

lemma decide_cases:
  assumes "decide rp current ctx = Inr d"
  obtains (closed) "current = CLOSED" "next_state d = CLOSED"
  | (close) reasons where "current \<noteq> CLOSED" "should_close_candidate rp ctx = Inr reasons" "reasons \<noteq> []" "next_state d = CLOSED"
  | (stale) "current \<noteq> CLOSED" "should_close_candidate rp ctx = Inr []" "should_mark_stale rp ctx \<noteq> []" "next_state d = STALE"
  | (blocked) "current \<noteq> CLOSED" "should_close_candidate rp ctx = Inr []" "should_mark_stale rp ctx = []"
      "flag ctx ''observation_blocked''" "next_state d = BLOCKED_OBSERVATION"
  | (detected) "current = DETECTED" "undisturbed rp ctx" "next_state d = HYDRATING"
  | (observed) n where "current \<notin> {CLOSED, DETECTED}" "undisturbed rp ctx" "active_source_count ctx = Inr n"
      "d = observed_decision rp ctx n current"
  using assms unfolding decide_def undisturbed_def plain_decision_def
  by (cases "should_close_candidate rp ctx"; cases "active_source_count ctx") (auto split: if_splits)

lemma next_state_simps [simp]:
  "next_state (watching_decision rp ctx) = WATCHING" "next_state (data_wait_decision rp ctx rs) = DATA_WAIT"
  "next_state (plain_decision st rs) = st"
  by (simp_all add: watching_decision_def data_wait_decision_def plain_decision_def)

definition transitions :: "candidate_state \<Rightarrow> candidate_state list" where
  "transitions current =
     (case current of
        CLOSED \<Rightarrow> [CLOSED]
      | DETECTED \<Rightarrow> [HYDRATING, BLOCKED_OBSERVATION, STALE, CLOSED]
      | HYDRATING \<Rightarrow> [HYDRATING, WATCHING, DATA_WAIT, BLOCKED_OBSERVATION, STALE, CLOSED]
      | DATA_WAIT \<Rightarrow> [WATCHING, DATA_WAIT, BLOCKED_OBSERVATION, STALE, CLOSED]
      | STALE \<Rightarrow> [WATCHING, DATA_WAIT, BLOCKED_OBSERVATION, STALE, CLOSED]
      | COOLDOWN \<Rightarrow> [COOLDOWN, WATCHING, CONTEXT_READY, DATA_WAIT, BLOCKED_OBSERVATION, STALE, CLOSED]
      | _ \<Rightarrow> [WATCHING, CONTEXT_READY, DATA_WAIT, BLOCKED_OBSERVATION, STALE, CLOSED])"

lemma observed_in_transitions:
  assumes "current \<notin> {CLOSED, DETECTED}"
  shows "next_state (observed_decision rp ctx n current) \<in> set (transitions current)"
  using context_ready_hydrated [of rp ctx n] assms
  by (cases current) (auto simp: observed_decision_def Let_def transitions_def)

section \<open>Properties\<close>

text \<open>Contexts that lead to each target, for the completeness half of the transition graph.\<close>

definition base_context :: pydict where
  "base_context = [(''active_source_count'', PInt 1), (''has_latest_tick'', PBool True),
     (''market_readiness_status'', PStr ''READY''), (''bar_1m_ready'', PBool True)]"

definition sample_contexts :: "pydict list" where
  "sample_contexts =
     [base_context,
      (''condition_source'', PBool True) # base_context,
      (''bar_1m_ready'', PBool False) # base_context,
      [(''active_source_count'', PInt 1)],
      (''market_readiness_status'', PStr []) # base_context,
      (''observation_blocked'', PBool True) # base_context,
      (''tick_stale'', PBool True) # base_context,
      []]"

definition reached :: "repr \<Rightarrow> candidate_state \<Rightarrow> candidate_state list" where
  "reached rp current = map (\<lambda>ctx. case decide rp current ctx of Inr d \<Rightarrow> next_state d | Inl _ \<Rightarrow> DETECTED) sample_contexts"

lemma decide_sample_ok: "\<forall>ctx \<in> set sample_contexts. active_source_count ctx \<in> {Inr 0, Inr 1}"
  by code_simp

lemma reached_all: "set (transitions current) \<subseteq> set (reached rp current)"
proof -
  have "\<forall>c \<in> set (map snd state_names). set (transitions c) \<subseteq> set (reached rp c)" by code_simp
  then show ?thesis by (cases current) (simp_all add: state_names_def)
qed

lemma reached_by_decision: "st \<in> set (reached rp current) \<Longrightarrow> \<exists>ctx d. decide rp current ctx = Inr d \<and> next_state d = st"
proof -
  assume "st \<in> set (reached rp current)"
  then obtain ctx where ctx: "ctx \<in> set sample_contexts"
    "st = (case decide rp current ctx of Inr d \<Rightarrow> next_state d | Inl _ \<Rightarrow> DETECTED)" by (auto simp: reached_def)
  obtain n where "active_source_count ctx = Inr n" using decide_sample_ok ctx(1) by blast
  then have "\<exists>d. decide rp current ctx = Inr d"
    by (simp add: decide_def should_close_candidate_def)
  then show ?thesis using ctx(2) by fastforce
qed

lemma decide_in_transitions:
  assumes "decide rp current ctx = Inr d"
  shows "next_state d \<in> set (transitions current)"
  using assms
proof (cases rule: decide_cases)
  case (observed n)
  then show ?thesis using observed_in_transitions by blast
qed (cases current; simp add: transitions_def)+

text \<open>
  The transition graph of a candidate, exactly: from each state the decision can reach the states of
  \<open>transitions\<close> and no others. In particular a closed candidate stays closed, and a candidate that waits for
  data, is stale or is hydrating never becomes \<open>CONTEXT_READY\<close> in one step.
\<close>

theorem transition_graph:
  "{st. \<exists>snapshot ctx d. candidate_state_of rp snapshot = Inr current \<and> determine_next_state rp snapshot ctx = Inr d
        \<and> next_state d = st} = set (transitions current)" (is "?L = _")
proof (rule set_eqI)
  fix st
  have "current \<in> snd ` set state_names" by (cases current) (simp_all add: state_names_def)
  moreover have "distinct (map fst state_names)" by code_simp
  ultimately obtain name where name: "map_of state_names name = Some current"
    by (metis imageE map_of_is_SomeI prod.collapse)
  have snap: "candidate_state_of rp [(''state'', PStr name)] = Inr current" by (simp add: candidate_state_of_def name)
  show "st \<in> ?L \<longleftrightarrow> st \<in> set (transitions current)"
  proof
    assume "st \<in> ?L"
    then show "st \<in> set (transitions current)"
      using decide_in_transitions by (auto simp: determine_next_state_def)
  next
    assume "st \<in> set (transitions current)"
    then obtain ctx d where "decide rp current ctx = Inr d" "next_state d = st"
      using reached_all reached_by_decision by blast
    moreover from this have "determine_next_state rp [(''state'', PStr name)] ctx = Inr d"
      by (simp add: determine_next_state_def snap)
    ultimately show "st \<in> ?L" using snap by blast
  qed
qed

text \<open>Evaluating a candidate repeatedly while its context stays the same.\<close>

fun evaluate :: "repr \<Rightarrow> pydict \<Rightarrow> nat \<Rightarrow> candidate_state \<Rightarrow> candidate_state result" where
  "evaluate rp ctx 0 current = Inr current"
| "evaluate rp ctx (Suc k) current = rbind (decide rp current ctx) (\<lambda>d. evaluate rp ctx k (next_state d))"

lemma ready_step:
  assumes "undisturbed rp ctx" "active_source_count ctx = Inr n" "context_ready rp ctx n" "current \<noteq> CLOSED"
  shows "\<exists>d. decide rp current ctx = Inr d \<and> next_state d =
     (if current = DETECTED then HYDRATING else if current \<in> {HYDRATING, DATA_WAIT, STALE} then WATCHING else CONTEXT_READY)"
proof (cases "current = DETECTED")
  case True
  then show ?thesis using assms(1) by (simp add: decide_def undisturbed_def)
next
  case False
  have "data_wait_reasons rp ctx n = []" using assms(3) by (simp add: context_ready_iff)
  then show ?thesis using False assms decide_undisturbed [OF assms(1,2), of current] context_ready_hydrated [OF assms(3)]
    by (simp add: observed_decision_def)
qed

lemma ready_stays:
  assumes "undisturbed rp ctx" "active_source_count ctx = Inr n" "context_ready rp ctx n"
  shows "evaluate rp ctx k CONTEXT_READY = Inr CONTEXT_READY"
  using ready_step [OF assms, of CONTEXT_READY] by (induction k) auto

text \<open>
  C37: A candidate whose context is complete and undisturbed, that is without a close, stale data or a block on its observation, becomes
  \<open>CONTEXT_READY\<close> after at most three evaluations from any state but \<open>CLOSED\<close>, and stays so as long as the
  context does. The evaluations are those of the refreshes of the service.
\<close>

theorem ready_candidate_settles:
  assumes "undisturbed rp ctx" "active_source_count ctx = Inr n" "context_ready rp ctx n" "current \<noteq> CLOSED" "3 \<le> k"
  shows "evaluate rp ctx k current = Inr CONTEXT_READY"
proof -
  note step = ready_step [OF assms(1-3)]
  obtain j where k: "k = Suc (Suc (Suc j))" using assms(5) by (metis le_Suc_ex numeral_3_eq_3 add_Suc)
  have one: "evaluate rp ctx (Suc i) c = evaluate rp ctx i
      (if c = DETECTED then HYDRATING else if c \<in> {HYDRATING, DATA_WAIT, STALE} then WATCHING else CONTEXT_READY)" if "c \<noteq> CLOSED" for i c
    using step [OF that] by (auto split: if_splits)
  show ?thesis
    using assms(4) ready_stays [OF assms(1-3)] by (cases current) (simp_all add: k one del: evaluate.simps)
qed

theorem ready_candidate_settles_witness:
  "evaluate (\<lambda>_. []) base_context 3 DETECTED = Inr CONTEXT_READY"
proof -
  have "undisturbed (\<lambda>_. []) base_context" "active_source_count base_context = Inr 1" "context_ready (\<lambda>_. []) base_context 1"
    by code_simp+
  then show ?thesis by (rule ready_candidate_settles) simp_all
qed

text \<open>
  C40: A candidate that has a tick but lacks a required bar, VWAP or theme never comes to rest: with the context
  unchanged it alternates between \<open>DATA_WAIT\<close> and \<open>WATCHING\<close> at every evaluation, because leaving \<open>DATA_WAIT\<close>
  asks only for the tick and the source, not for the data that was missing.
\<close>

theorem waiting_candidate_alternates:
  assumes "undisturbed rp ctx" "active_source_count ctx = Inr n" "hydration_ready rp ctx n" "data_wait_reasons rp ctx n \<noteq> []"
  shows "evaluate rp ctx (2 * k) DATA_WAIT = Inr DATA_WAIT \<and> evaluate rp ctx (2 * k + 1) DATA_WAIT = Inr WATCHING"
proof -
  have "\<not> context_ready rp ctx n" using assms(4) by (simp add: context_ready_iff)
  then have "next_state (observed_decision rp ctx n WATCHING) = DATA_WAIT"
    using assms(4) by (simp add: observed_decision_def)
  then have w: "\<exists>d. decide rp WATCHING ctx = Inr d \<and> next_state d = DATA_WAIT"
    using decide_undisturbed [OF assms(1,2), of WATCHING] by simp
  have "next_state (observed_decision rp ctx n DATA_WAIT) = WATCHING" using assms(3) by (simp add: observed_decision_def)
  then have d: "\<exists>d. decide rp DATA_WAIT ctx = Inr d \<and> next_state d = WATCHING"
    using decide_undisturbed [OF assms(1,2), of DATA_WAIT] by simp
  show ?thesis using w d by (induction k) auto
qed

theorem waiting_candidate_alternates_witness:
  "evaluate (\<lambda>_. []) ((''bar_1m_ready'', PBool False) # base_context) 5 DATA_WAIT = Inr WATCHING"
proof -
  let ?ctx = "(''bar_1m_ready'', PBool False) # base_context"
  have "undisturbed (\<lambda>_. []) ?ctx" "active_source_count ?ctx = Inr 1" "hydration_ready (\<lambda>_. []) ?ctx 1"
    "data_wait_reasons (\<lambda>_. []) ?ctx 1 \<noteq> []" by code_simp+
  then show ?thesis using waiting_candidate_alternates [where k = 2] by force
qed

text \<open>
  A candidate that is \<open>CONTEXT_READY\<close> stays so when the quality of its market data turns \<open>INVALID\<close> (or the
  status is missing) while tick, bar, VWAP and theme are present, although its context is no longer ready.
\<close>

theorem invalid_data_keeps_ready:
  assumes "undisturbed rp ctx" "active_source_count ctx = Inr n" "data_wait_reasons rp ctx n = []"
    and "upper_text rp ctx ''market_readiness_status'' \<in> {''INVALID'', ''''}"
  shows "\<not> context_ready rp ctx n \<and> (\<exists>d. decide rp CONTEXT_READY ctx = Inr d \<and> next_state d = CONTEXT_READY)"
proof -
  have "\<not> context_ready rp ctx n" "\<not> hydration_ready rp ctx n"
    using assms(4) by (auto simp: context_ready_iff hydration_ready_def)
  then show ?thesis using assms decide_undisturbed [OF assms(1,2), of CONTEXT_READY] by (simp add: observed_decision_def)
qed

theorem invalid_data_keeps_ready_witness:
  "\<exists>d. decide (\<lambda>_. []) CONTEXT_READY ((''market_readiness_status'', PStr ''invalid'') # base_context) = Inr d
     \<and> next_state d = CONTEXT_READY"
proof -
  let ?ctx = "(''market_readiness_status'', PStr ''invalid'') # base_context"
  have "undisturbed (\<lambda>_. []) ?ctx" "active_source_count ?ctx = Inr 1" "data_wait_reasons (\<lambda>_. []) ?ctx 1 = []"
    "upper_text (\<lambda>_. []) ?ctx ''market_readiness_status'' \<in> {''INVALID'', ''''}" by code_simp+
  then show ?thesis using invalid_data_keeps_ready by blast
qed

end
