(* ===== verification/Tick_Size.thy ===== *)
theory Tick_Size
  imports Py_Prelude
begin

text \<open>
  Price arithmetic on the KRX tick grid: \<open>services/entry_timing/tick_size.py\<close>.

  The tick of a price depends on the price band. A price is \<open>on_grid\<close> when it is positive and a multiple of
  its own tick. The lemmas show that the loops of \<open>add_ticks\<close> and \<open>subtract_ticks\<close> walk the grid without
  leaving out a point, also where the band changes, and the properties are the round trip of the two and the
  termination and value of the loop of \<open>price_tick_distance\<close>.

  Prices are rationals where the code has floats and integers where it has ints. A \<open>ValueError\<close> is the left
  summand of the result. The loop of \<open>price_tick_distance\<close> has no bound in the code: it is a partial function
  whose value is \<open>None\<close> if it does not end.
\<close>

section \<open>Operations\<close>

definition price_error :: py_error where
  "price_error = ValueError ''price must be > 0''"

definition krx_tick_size :: "rat \<Rightarrow> int result" where
  "krx_tick_size price =
     (if price \<le> 0 then Inl price_error
      else if price < 2000 then Inr 1
      else if price < 5000 then Inr 5
      else if price < 20000 then Inr 10
      else if price < 50000 then Inr 50
      else if price < 200000 then Inr 100
      else if price < 500000 then Inr 500
      else Inr 1000)"

definition floor_to_tick :: "rat \<Rightarrow> int \<Rightarrow> int" where
  "floor_to_tick price tick = max (\<lfloor>price / of_int tick\<rfloor> * tick) tick"

definition normalize_tick_price :: "rat \<Rightarrow> int result" where
  "normalize_tick_price price =
     (if price \<le> 0 then Inl price_error
      else rbind (krx_tick_size price) (\<lambda>tick. Inr (floor_to_tick price tick)))"

fun add_loop :: "nat \<Rightarrow> int \<Rightarrow> int result" where
  "add_loop 0 adjusted = Inr adjusted"
| "add_loop (Suc n) adjusted =
     rbind (krx_tick_size (of_int adjusted)) (\<lambda>tick. add_loop n (adjusted + tick))"

definition add_ticks :: "rat \<Rightarrow> int \<Rightarrow> int result" where
  "add_ticks price ticks =
     (if price \<le> 0 then Inl price_error
      else if ticks < 0 then Inl (ValueError ''ticks must be >= 0'')
      else rbind (normalize_tick_price price) (add_loop (nat ticks)))"

fun subtract_loop :: "nat \<Rightarrow> int \<Rightarrow> int result" where
  "subtract_loop 0 adjusted = Inr adjusted"
| "subtract_loop (Suc n) adjusted =
     (if adjusted \<le> 1 then Inr 1
      else let probe = adjusted - 1 in
        rbind (krx_tick_size (of_int probe)) (\<lambda>tick. subtract_loop n (floor_to_tick (of_int probe) tick)))"

definition subtract_ticks :: "rat \<Rightarrow> int \<Rightarrow> int result" where
  "subtract_ticks price ticks =
     (if price \<le> 0 then Inl price_error
      else if ticks < 0 then Inl (ValueError ''ticks must be >= 0'')
      else rbind (normalize_tick_price price) (subtract_loop (nat ticks)))"

partial_function (option) distance_loop :: "int \<Rightarrow> int \<Rightarrow> int \<Rightarrow> int \<Rightarrow> int result option" where
  "distance_loop direction target current distance =
     (if current = target then Some (Inr distance)
      else case (if direction > 0 then add_ticks (of_int current) 1 else subtract_ticks (of_int current) 1) of
             Inl e \<Rightarrow> Some (Inl e)
           | Inr next_price \<Rightarrow>
               (if (direction > 0 \<and> next_price > target) \<or> (direction < 0 \<and> next_price < target)
                then Some (Inl (ValueError ''end_price must align to a KRX tick from start_price''))
                else distance_loop direction target next_price (distance + direction)))"

definition price_tick_distance :: "rat \<Rightarrow> rat \<Rightarrow> int result option" where
  "price_tick_distance start_price end_price =
     (case rbind (normalize_tick_price start_price) (\<lambda>start.
             rbind (normalize_tick_price end_price) (\<lambda>target. Inr (start, target))) of
        Inl e \<Rightarrow> Some (Inl e)
      | Inr (start, target) \<Rightarrow>
          (if start = target then Some (Inr 0)
           else distance_loop (if target > start then 1 else - 1) target start 0))"

section \<open>The tick grid\<close>

definition tick :: "int \<Rightarrow> int" where
  \<comment> \<open>the tick of a positive integer price\<close>
  "tick p = (if p < 2000 then 1 else if p < 5000 then 5 else if p < 20000 then 10 else if p < 50000 then 50
     else if p < 200000 then 100 else if p < 500000 then 500 else 1000)"

definition on_grid :: "int \<Rightarrow> bool" where
  "on_grid p \<longleftrightarrow> 0 < p \<and> p mod tick p = 0"

definition tick_up :: "int \<Rightarrow> int" where
  "tick_up p = p + tick p"

definition tick_down :: "int \<Rightarrow> int" where
  "tick_down p = (if p \<le> 1 then 1 else p - tick (p - 1))"

lemma tick_pos [simp]: "0 < tick p"
  by (simp add: tick_def)

lemma krx_tick_size_int: "0 < p \<Longrightarrow> krx_tick_size (of_int p) = Inr (tick p)"
  by (simp add: krx_tick_size_def tick_def)

lemma krx_tick_size_floor: "1 \<le> price \<Longrightarrow> krx_tick_size price = Inr (tick \<lfloor>price\<rfloor>)"
  by (simp add: krx_tick_size_def tick_def floor_less_iff)

lemma on_grid_cases:
  assumes "on_grid p"
  obtains (b1) "0 < p" "p < 2000"
    | (b5) k where "p = 5 * k" "400 \<le> k" "k < 1000"
    | (b10) k where "p = 10 * k" "500 \<le> k" "k < 2000"
    | (b50) k where "p = 50 * k" "400 \<le> k" "k < 1000"
    | (b100) k where "p = 100 * k" "500 \<le> k" "k < 2000"
    | (b500) k where "p = 500 * k" "400 \<le> k" "k < 1000"
    | (b1000) k where "p = 1000 * k" "500 \<le> k"
proof -
  obtain k where k: "p = tick p * k" using assms by (auto simp: on_grid_def elim: dvdE)
  have pos: "0 < p" using assms by (simp add: on_grid_def)
  consider "p < 2000" | "tick p = 5" "2000 \<le> p" "p < 5000" | "tick p = 10" "5000 \<le> p" "p < 20000"
    | "tick p = 50" "20000 \<le> p" "p < 50000" | "tick p = 100" "50000 \<le> p" "p < 200000"
    | "tick p = 500" "200000 \<le> p" "p < 500000" | "tick p = 1000" "500000 \<le> p"
    by (cases "p < 2000"; cases "p < 5000"; cases "p < 20000"; cases "p < 50000"; cases "p < 200000"; cases "p < 500000";
        simp add: tick_def)
  then show thesis
  proof cases
    case 1 then show ?thesis using pos by (rule b1 [rotated])
  next
    case 2 then show ?thesis using k by (intro b5 [of k]) auto
  next
    case 3 then show ?thesis using k by (intro b10 [of k]) auto
  next
    case 4 then show ?thesis using k by (intro b50 [of k]) auto
  next
    case 5 then show ?thesis using k by (intro b100 [of k]) auto
  next
    case 6 then show ?thesis using k by (intro b500 [of k]) auto
  next
    case 7 then show ?thesis using k by (intro b1000 [of k]) auto
  qed
qed

text \<open>Within a band the grid has the step of the band, and the first point of a band is on the grid of the one below.\<close>

lemma tick_below_next: "on_grid p \<Longrightarrow> tick (p + tick p - 1) = tick p"
  by (erule on_grid_cases) (simp_all add: tick_def)

lemma tick_above_previous:
  assumes "on_grid p" "1 < p"
  shows "tick (p - tick (p - 1)) = tick (p - 1)" "0 < p - tick (p - 1)" "p mod tick (p - 1) = 0"
  using assms(1)
  by (cases rule: on_grid_cases; use assms(2) in \<open>simp add: tick_def\<close>; presburger)+

lemma band_edge:
  assumes "1 < q" "q mod tick (q - 1) = 0"
  shows "on_grid q"
proof (cases "tick q = tick (q - 1)")
  case True
  then show ?thesis using assms by (simp add: on_grid_def)
next
  case False
  then have "q \<in> {2000, 5000, 20000, 50000, 200000, 500000}" by (auto simp: tick_def split: if_splits)
  then show ?thesis by (auto simp: on_grid_def tick_def)
qed

lemma tick_up_gt_1: "0 < p \<Longrightarrow> 1 < p + tick p"
  by (simp add: tick_def)

lemma on_grid_up:
  assumes "on_grid p"
  shows "on_grid (tick_up p)"
proof (rule band_edge)
  show "1 < tick_up p" using assms tick_up_gt_1 [of p] by (simp add: on_grid_def tick_up_def)
  show "tick_up p mod tick (tick_up p - 1) = 0"
    using assms by (simp add: tick_up_def tick_below_next on_grid_def)
qed

lemma tick_down_up: "on_grid p \<Longrightarrow> tick_down (tick_up p) = p"
  using tick_up_gt_1 [of p] by (simp add: tick_down_def tick_up_def tick_below_next on_grid_def)

lemma on_grid_down: "on_grid p \<Longrightarrow> on_grid (tick_down p)"
  using tick_above_previous [of p]
  by (cases "p \<le> 1") (auto simp: tick_down_def on_grid_def tick_def mod_eq_0_iff_dvd dvd_diff)

lemma tick_up_down: "on_grid p \<Longrightarrow> 1 < p \<Longrightarrow> tick_up (tick_down p) = p"
  using tick_above_previous(1) [of p] by (simp add: tick_up_def tick_down_def)

text \<open>There is no grid point strictly between a price and the next tick.\<close>

lemma tick_up_least:
  assumes "on_grid p" "on_grid q" "p < q"
  shows "tick_up p \<le> q"
proof (rule ccontr)
  assume "\<not> tick_up p \<le> q"
  then have q: "p < q" "q < p + tick p" using assms(3) by (simp_all add: tick_up_def)
  have "tick q = tick p"
    using q tick_below_next [OF assms(1)] by (simp add: tick_def split: if_splits)
  then have "tick p dvd q - p" using assms(1,2) by (simp add: on_grid_def mod_eq_0_iff_dvd dvd_diff)
  then show False using q zdvd_imp_le [of "tick p" "q - p"] by simp
qed

lemma tick_down_greatest:
  assumes "on_grid p" "on_grid q" "q < p"
  shows "q \<le> tick_down p"
proof (rule ccontr)
  assume "\<not> q \<le> tick_down p"
  moreover have "1 < p" using assms(2,3) by (simp add: on_grid_def)
  ultimately have "p \<le> q" using tick_up_least [OF on_grid_down [OF assms(1)] assms(2)] tick_up_down [OF assms(1)] by simp
  then show False using assms(3) by simp
qed

section \<open>The operations walk the grid\<close>

lemma on_grid_pos: "on_grid p \<Longrightarrow> 0 < p"
  by (simp add: on_grid_def)

lemma tick_up_greater: "p < tick_up p"
  by (simp add: tick_up_def tick_def)

lemma on_grid_ups: "on_grid p \<Longrightarrow> on_grid ((tick_up ^^ n) p)"
  by (induction n) (simp_all add: on_grid_up)

lemma on_grid_downs: "on_grid p \<Longrightarrow> on_grid ((tick_down ^^ n) p)"
  by (induction n) (simp_all add: on_grid_down)

lemma downs_ups: "on_grid p \<Longrightarrow> (tick_down ^^ n) ((tick_up ^^ n) p) = p"
proof (induction n)
  case (Suc n)
  have "(tick_down ^^ Suc n) ((tick_up ^^ Suc n) p) = (tick_down ^^ n) (tick_down (tick_up ((tick_up ^^ n) p)))"
    by (simp add: funpow_swap1)
  also have "\<dots> = p" using Suc by (simp add: tick_down_up on_grid_ups)
  finally show ?case .
qed simp

lemma downs_1: "(tick_down ^^ n) 1 = 1"
  by (induction n) (simp_all add: tick_down_def)

lemma ups_downs: "on_grid p \<Longrightarrow> 1 < (tick_down ^^ n) p \<Longrightarrow> (tick_up ^^ n) ((tick_down ^^ n) p) = p"
proof (induction n)
  case (Suc n)
  let ?q = "(tick_down ^^ n) p"
  have q: "1 < ?q" using Suc.prems(2) by (rule_tac ccontr) (simp add: tick_down_def [of "(tick_down ^^ n) p"])
  have "(tick_up ^^ Suc n) ((tick_down ^^ Suc n) p) = (tick_up ^^ n) (tick_up (tick_down ?q))"
    by (simp add: funpow_swap1)
  also have "\<dots> = p" using Suc q by (simp add: tick_up_down on_grid_downs)
  finally show ?case .
qed simp

lemma add_loop_ups: "0 < p \<Longrightarrow> add_loop n p = Inr ((tick_up ^^ n) p)"
proof (induction n arbitrary: p)
  case (Suc n)
  have "add_loop n (tick_up p) = Inr ((tick_up ^^ n) (tick_up p))"
    using Suc tick_up_greater [of p] by simp
  moreover have "add_loop (Suc n) p = add_loop n (tick_up p)"
    using Suc.prems by (simp add: krx_tick_size_int tick_up_def)
  ultimately show ?case by (simp add: funpow_swap1)
qed simp

lemma floor_to_tick_down: "on_grid p \<Longrightarrow> 1 < p \<Longrightarrow> floor_to_tick (of_int (p - 1)) (tick (p - 1)) = tick_down p"
proof -
  assume p: "on_grid p" "1 < p"
  define t where "t = tick (p - 1)"
  note prev = tick_above_previous [OF p, folded t_def]
  obtain k where k: "p = t * k" using prev(3) by (auto elim: dvdE)
  have t: "0 < t" by (simp add: t_def)
  have "\<lfloor>(of_int (p - 1) :: rat) / of_int t\<rfloor> = (p - 1) div t" by (rule floor_divide_of_int_eq)
  also have "\<dots> = k - 1" using t unfolding k
    by (intro int_div_pos_eq [where r = "t - 1"]) (simp_all add: algebra_simps)
  finally have "floor_to_tick (of_int (p - 1)) t = max ((k - 1) * t) t" by (simp only: floor_to_tick_def)
  then have "floor_to_tick (of_int (p - 1)) t = max (p - t) t" by (simp add: k algebra_simps)
  moreover have "t \<le> p - t"
  proof -
    have "0 < t * (k - 1)" using prev(2) by (simp add: k algebra_simps)
    then have "1 \<le> k - 1" using t by (simp add: zero_less_mult_iff)
    then have "t * 1 \<le> t * (k - 1)" using t by (intro mult_left_mono) auto
    then show ?thesis by (simp add: k algebra_simps)
  qed
  ultimately show ?thesis using p(2) by (simp add: tick_down_def t_def)
qed

lemma subtract_loop_downs: "on_grid p \<Longrightarrow> subtract_loop n p = Inr ((tick_down ^^ n) p)"
proof (induction n arbitrary: p)
  case (Suc n)
  show ?case
  proof (cases "p \<le> 1")
    case True
    then have "p = 1" using on_grid_pos [OF Suc.prems] by simp
    then show ?thesis by (simp add: downs_1 del: funpow.simps)
  next
    case False
    then have "subtract_loop (Suc n) p = subtract_loop n (tick_down p)"
      using floor_to_tick_down [OF Suc.prems] krx_tick_size_int [of "p - 1"] by (simp add: Let_def)
    then show ?thesis using Suc by (simp add: on_grid_down funpow_swap1)
  qed
qed simp

lemma multiple_le_floor:
  assumes "0 < t" "t dvd m" "of_int m \<le> (price :: rat)"
  shows "m \<le> \<lfloor>price / of_int t\<rfloor> * t"
proof -
  obtain k where k: "m = t * k" using assms(2) ..
  then have "of_int k \<le> price / of_int t" using assms(1,3) by (simp add: field_simps)
  then have "k \<le> \<lfloor>price / of_int t\<rfloor>" by (simp add: le_floor_iff)
  then show ?thesis using assms(1) by (simp add: k mult.commute [of t] mult_right_mono)
qed

lemma tick_mono: "p \<le> q \<Longrightarrow> tick p \<le> tick q"
  by (simp add: tick_def)

lemma band_start:
  obtains lo where "lo \<le> p \<or> p < 0" "tick lo = tick p" "tick p dvd lo"
proof -
  let ?lo = "if p < 2000 then 0 else if p < 5000 then 2000 else if p < 20000 then 5000 else if p < 50000 then 20000
     else if p < 200000 then 50000 else if p < 500000 then 200000 else 500000 :: int"
  have "?lo \<le> p \<or> p < 0" "tick ?lo = tick p" "tick p dvd ?lo" by (auto simp: tick_def)
  then show thesis by (rule that)
qed

lemma normalize_grid:
  assumes "0 < price"
  obtains p where "normalize_tick_price price = Inr p" "on_grid p" "of_int p \<le> max price 1"
    "\<And>q. on_grid q \<Longrightarrow> of_int q \<le> price \<Longrightarrow> q \<le> p"
proof (cases "price < 1")
  case True
  then have "\<lfloor>price\<rfloor> \<le> 0" by linarith
  then have "normalize_tick_price price = Inr 1"
    using assms True by (simp add: normalize_tick_price_def krx_tick_size_def floor_to_tick_def)
  moreover have "q \<le> 1" if "of_int q \<le> price" for q
    using that True by linarith
  ultimately show thesis by (intro that [of 1]) (auto simp: on_grid_def tick_def)
next
  case False
  define t where "t = tick \<lfloor>price\<rfloor>"
  define p where "p = \<lfloor>price / of_int t\<rfloor> * t"
  have t: "0 < t" "t \<le> \<lfloor>price\<rfloor>" using False by (auto simp: t_def tick_def le_floor_iff)
  have le: "of_int p \<le> price" "price < of_int p + of_int t"
    using floor_divide_lower [of "of_int t" price] floor_divide_upper [of "of_int t" price] t(1)
    by (simp_all add: p_def algebra_simps)
  have "t \<le> p" using multiple_le_floor [of t t price] t by (simp add: p_def le_floor_iff)
  moreover have "tick p = t"
  proof -
    obtain lo where lo': "lo \<le> \<lfloor>price\<rfloor> \<or> \<lfloor>price\<rfloor> < 0" and lo: "tick lo = t" "t dvd lo"
      by (rule band_start [of "\<lfloor>price\<rfloor>", folded t_def])
    have below: "lo \<le> \<lfloor>price\<rfloor>" using lo' t by linarith
    have "lo \<le> p" using multiple_le_floor [of t lo price] t(1) lo below by (simp add: p_def le_floor_iff)
    moreover have "p \<le> \<lfloor>price\<rfloor>" using le(1) by (simp add: le_floor_iff)
    ultimately show ?thesis using tick_mono [of lo p] tick_mono [of p "\<lfloor>price\<rfloor>"] lo(1) by (simp add: t_def)
  qed
  ultimately have grid: "on_grid p" using t(1) by (simp add: on_grid_def p_def)
  have "normalize_tick_price price = Inr p"
    using False \<open>t \<le> p\<close> krx_tick_size_floor [of price]
    by (simp add: normalize_tick_price_def floor_to_tick_def t_def [symmetric] p_def [symmetric])
  moreover have "q \<le> p" if q: "on_grid q" "of_int q \<le> price" for q
  proof (rule ccontr)
    assume "\<not> q \<le> p"
    then have "p + t \<le> q" using tick_up_least [OF grid q(1)] \<open>tick p = t\<close> by (simp add: tick_up_def)
    then have "of_int p + of_int t \<le> (of_int q :: rat)" by (metis of_int_add of_int_le_iff)
    then show False using q(2) le(2) by simp
  qed
  ultimately show thesis using grid le(1) by (intro that) auto
qed

lemma normalize_on_grid: "on_grid p \<Longrightarrow> normalize_tick_price (of_int p) = Inr p"
proof -
  assume p: "on_grid p"
  have "0 < (of_int p :: rat)" using on_grid_pos [OF p] by simp
  then obtain q where q: "normalize_tick_price (of_int p) = Inr q" "of_int q \<le> max (of_int p :: rat) 1" "p \<le> q"
    by (rule normalize_grid) (use p in auto)
  then have "q \<le> p" using on_grid_pos [OF p] by (simp add: max_def split: if_splits)
  then show ?thesis using q by simp
qed

lemma add_ticks_eq:
  "0 < price \<Longrightarrow> normalize_tick_price price = Inr p \<Longrightarrow> on_grid p \<Longrightarrow> 0 \<le> n \<Longrightarrow> add_ticks price n = Inr ((tick_up ^^ nat n) p)"
  by (simp add: add_ticks_def add_loop_ups on_grid_pos)

lemma subtract_ticks_eq:
  "0 < price \<Longrightarrow> normalize_tick_price price = Inr p \<Longrightarrow> on_grid p \<Longrightarrow> 0 \<le> n \<Longrightarrow>
     subtract_ticks price n = Inr ((tick_down ^^ nat n) p)"
  by (simp add: subtract_ticks_def subtract_loop_downs)

lemma one_tick_up: "on_grid p \<Longrightarrow> add_ticks (of_int p) 1 = Inr (tick_up p)"
  using add_ticks_eq [of "of_int p" p 1] by (simp add: normalize_on_grid on_grid_pos)

lemma one_tick_down: "on_grid p \<Longrightarrow> subtract_ticks (of_int p) 1 = Inr (tick_down p)"
  using subtract_ticks_eq [of "of_int p" p 1] by (simp add: normalize_on_grid on_grid_pos)

lemma ups_strict_mono: "strict_mono (\<lambda>n. (tick_up ^^ n) p)"
  by (simp add: strict_mono_Suc_iff tick_up_greater)

text \<open>Upwards and downwards the distance loop ends at its target, having counted every tick.\<close>

lemma distance_loop_up:
  assumes "on_grid current" "on_grid target" "current \<le> target"
  shows "\<exists>n. distance_loop 1 target current d = Some (Inr (d + int n)) \<and> (tick_up ^^ n) current = target"
  using assms
proof (induction "nat (target - current)" arbitrary: current d rule: less_induct)
  case less
  show ?case
  proof (cases "current = target")
    case True
    then show ?thesis by (intro exI [of _ 0]) (simp add: distance_loop.simps)
  next
    case False
    then have le: "tick_up current \<le> target" using less.prems by (intro tick_up_least) auto
    obtain n where n: "distance_loop 1 target (tick_up current) (d + 1) = Some (Inr (d + 1 + int n))"
        "(tick_up ^^ n) (tick_up current) = target"
      using less.hyps [of "tick_up current" "d + 1"] less.prems le tick_up_greater [of current] on_grid_up by auto
    have "distance_loop 1 target current d = distance_loop 1 target (tick_up current) (d + 1)"
      using False le less.prems(1) by (subst distance_loop.simps) (simp add: one_tick_up)
    then show ?thesis using n by (intro exI [of _ "Suc n"]) (simp add: funpow_swap1)
  qed
qed

lemma distance_loop_down:
  assumes "on_grid current" "on_grid target" "target \<le> current"
  shows "\<exists>n. distance_loop (- 1) target current d = Some (Inr (d - int n)) \<and> (tick_down ^^ n) current = target
     \<and> (tick_up ^^ n) target = current"
  using assms
proof (induction "nat (current - target)" arbitrary: current d rule: less_induct)
  case less
  show ?case
  proof (cases "current = target")
    case True
    then show ?thesis by (intro exI [of _ 0]) (simp add: distance_loop.simps)
  next
    case False
    then have lt: "target < current" and gt: "1 < current" using less.prems on_grid_pos [of target] by auto
    then have le: "target \<le> tick_down current" using less.prems by (intro tick_down_greatest) auto
    have step: "tick_up (tick_down current) = current" using less.prems(1) gt by (rule tick_up_down)
    then have dec: "tick_down current < current" using tick_up_greater [of "tick_down current"] by simp
    obtain n where n: "distance_loop (- 1) target (tick_down current) (d - 1) = Some (Inr (d - 1 - int n))"
        "(tick_down ^^ n) (tick_down current) = target" "(tick_up ^^ n) target = tick_down current"
      using less.hyps [of "tick_down current" "d - 1"] less.prems le dec lt on_grid_down by auto
    have "distance_loop (- 1) target current d = distance_loop (- 1) target (tick_down current) (d - 1)"
      using False le less.prems(1) by (subst distance_loop.simps) (simp add: one_tick_down)
    then show ?thesis using n step by (intro exI [of _ "Suc n"]) (simp add: funpow_swap1)
  qed
qed

lemma ups_at_least: "p + int n \<le> (tick_up ^^ n) p"
proof (induction n)
  case (Suc n)
  then show ?case using tick_up_greater [of "(tick_up ^^ n) p"] by simp
qed simp

definition ticks_between :: "int \<Rightarrow> int \<Rightarrow> int result option" where
  "ticks_between p q = (if p = q then Some (Inr 0) else distance_loop (if q > p then 1 else - 1) q p 0)"

lemma price_tick_distance_between:
  "normalize_tick_price a = Inr p \<Longrightarrow> normalize_tick_price b = Inr q \<Longrightarrow> price_tick_distance a b = ticks_between p q"
  by (simp add: price_tick_distance_def ticks_between_def)

lemma distance_up_down:
  assumes "on_grid p" "on_grid q" "p \<le> q"
  shows "\<exists>n. ticks_between p q = Some (Inr (int n)) \<and> ticks_between q p = Some (Inr (- int n))
     \<and> (tick_up ^^ n) p = q \<and> (tick_down ^^ n) q = p"
proof -
  obtain n where n: "distance_loop 1 q p 0 = Some (Inr (int n))" "(tick_up ^^ n) p = q"
    using distance_loop_up [OF assms, of 0] by auto
  obtain m where m: "distance_loop (- 1) p q 0 = Some (Inr (- int m))" "(tick_down ^^ m) q = p" "(tick_up ^^ m) p = q"
    using distance_loop_down [OF assms(2,1,3), of 0] by auto
  have "m = n" using strict_mono_eq [OF ups_strict_mono, of m p n] n(2) m(3) by simp
  then show ?thesis using n m assms(3) by (intro exI [of _ n]) (auto simp: ticks_between_def distance_loop.simps)
qed

section \<open>Properties\<close>

text \<open>
  C31: Ticks added are removed again. For every positive price and every number of ticks the sum exists, is a
  price of the tick grid, and subtracting as many ticks gives back the price normalised to the grid. The other
  way round holds as well as long as the subtraction has not stopped at the lowest price.
\<close>

theorem ticks_round_trip:
  assumes "0 < price" "0 \<le> n"
  shows "\<exists>p. normalize_tick_price price = Inr p
     \<and> (\<exists>q. add_ticks price n = Inr q \<and> on_grid q \<and> p + n \<le> q \<and> subtract_ticks (of_int q) n = Inr p)
     \<and> (\<exists>q. subtract_ticks price n = Inr q \<and> on_grid q \<and> (1 < q \<longrightarrow> add_ticks (of_int q) n = Inr p))"
proof -
  obtain p where p: "normalize_tick_price price = Inr p" "on_grid p" using normalize_grid [OF assms(1)] by metis
  let ?u = "(tick_up ^^ nat n) p" and ?d = "(tick_down ^^ nat n) p"
  have grid: "on_grid ?u" "on_grid ?d" using p(2) by (simp_all add: on_grid_ups on_grid_downs)
  have "subtract_ticks (of_int ?u) n = Inr p"
    using subtract_ticks_eq [of "of_int ?u" ?u n] grid(1) assms(2) downs_ups [OF p(2), of "nat n"]
    by (simp add: normalize_on_grid on_grid_pos)
  moreover have "1 < ?d \<longrightarrow> add_ticks (of_int ?d) n = Inr p"
    using add_ticks_eq [of "of_int ?d" ?d n] grid(2) assms(2) ups_downs [OF p(2), of "nat n"]
    by (simp add: normalize_on_grid on_grid_pos)
  moreover have "p + n \<le> ?u" using ups_at_least [of p "nat n"] assms(2) by simp
  ultimately show ?thesis
    using p grid add_ticks_eq [OF assms(1) p assms(2)] subtract_ticks_eq [OF assms(1) p assms(2)] by blast
qed

theorem ticks_round_trip_witness:
  "\<exists>q. add_ticks 1998 4 = Inr q \<and> subtract_ticks (of_int q) 4 = Inr 1998"
proof -
  have "normalize_tick_price 1998 = Inr 1998" by code_simp
  then show ?thesis using ticks_round_trip [of 1998 4] by auto
qed

text \<open>
  C30: The loop of \<open>price_tick_distance\<close> ends for all positive prices, and its \<open>ValueError\<close> for an end price
  off the grid cannot occur. The distance is the number of ticks to add, or with a minus sign to subtract, to
  get from the one normalised price to the other, and the distance back is its negation.
\<close>

theorem tick_distance_total:
  assumes "0 < a" "0 < b"
  shows "\<exists>p q d. normalize_tick_price a = Inr p \<and> normalize_tick_price b = Inr q
     \<and> price_tick_distance a b = Some (Inr d) \<and> price_tick_distance b a = Some (Inr (- d))
     \<and> (if p \<le> q then 0 \<le> d \<and> add_ticks a d = Inr q else d < 0 \<and> subtract_ticks a (- d) = Inr q)"
proof -
  obtain p where p: "normalize_tick_price a = Inr p" "on_grid p" using normalize_grid [OF assms(1)] by metis
  obtain q where q: "normalize_tick_price b = Inr q" "on_grid q" using normalize_grid [OF assms(2)] by metis
  show ?thesis
  proof (cases "p \<le> q")
    case True
    obtain n where n: "ticks_between p q = Some (Inr (int n))" "ticks_between q p = Some (Inr (- int n))"
        "(tick_up ^^ n) p = q" "(tick_down ^^ n) q = p"
      using distance_up_down [OF p(2) q(2) True] by metis
    show ?thesis
      by (rule exI [of _ p], rule exI [of _ q], rule exI [of _ "int n"])
        (use True p q n add_ticks_eq [OF assms(1) p, of "int n"] in \<open>simp add: price_tick_distance_between\<close>)
  next
    case False
    then obtain n where n: "ticks_between q p = Some (Inr (int n))" "ticks_between p q = Some (Inr (- int n))"
        "(tick_up ^^ n) q = p" "(tick_down ^^ n) p = q"
      using distance_up_down [OF q(2) p(2)] by (metis linorder_le_cases)
    have "n \<noteq> 0" using n(3) False by (intro notI) simp
    then show ?thesis
      by (intro exI [of _ p] exI [of _ q] exI [of _ "- int n"])
        (use False p q n subtract_ticks_eq [OF assms(1) p, of "int n"] in \<open>simp add: price_tick_distance_between\<close>)
  qed
qed

theorem tick_distance_total_witness:
  "\<exists>d. price_tick_distance 4990 5020 = Some (Inr d) \<and> add_ticks 4990 d = Inr 5020 \<and> 0 \<le> d"
proof -
  have "normalize_tick_price 4990 = Inr 4990" "normalize_tick_price 5020 = Inr 5020" by code_simp+
  then show ?thesis using tick_distance_total [of 4990 5020] by auto
qed

end
