(* ===== verification/Entry_Timing.thy ===== *)
theory Entry_Timing
  imports Py_Prelude
begin

text \<open>
  The entry timing engine: \<open>services/entry_timing/models.py\<close>, \<open>price_location.py\<close> and \<open>engine.py\<close>, with the
  settings of \<open>services/config.py\<close> it reads.

  \<^item> \<open>timing_input\<close> is an \<open>EntryTimingInput\<close> after its \<open>__post_init__\<close>: numbers are finite, so rationals;
    \<open>input_wf\<close> is what the validation guarantees. The fields nothing below reads are left out.
  \<^item> \<open>classify\<close> is \<open>PriceLocationClassifier.classify\<close>, \<open>hard_context_state\<close> the guards that decide before
    any setup is looked for, \<open>classify_timing\<close> the choice of the setup and \<open>evaluate\<close> the evaluation with its
    reasons. The evidence mapping of an evaluation, an echo of its inputs, is not modelled.
  \<^item> The property states what has to hold of a candidate for the engine to allow an entry, for each of the
    four timings it allows.
\<close>

section \<open>Models\<close>

datatype entry_timing_state =
    ETS_GOOD_PULLBACK | ETS_PULLBACK_RECLAIM | ETS_VWAP_RECLAIM | ETS_MOMENTUM_CONTINUATION | ETS_CHASE_HIGH
  | ETS_VWAP_OVEREXTENDED | ETS_FAILED_BREAKOUT | ETS_NO_SETUP | ETS_DATA_WAIT | ETS_STALE | ETS_BLOCKED_CONTEXT

datatype price_location_state =
    PLS_NEAR_VWAP | PLS_ABOVE_VWAP | PLS_BELOW_VWAP | PLS_NEAR_DAY_HIGH | PLS_PULLBACK_FROM_HIGH
  | PLS_DEEP_PULLBACK | PLS_EXTENDED_FROM_VWAP | PLS_UNKNOWN

datatype setup_type =
    SET_THEME_LEADER_PULLBACK | SET_VWAP_RECLAIM | SET_BREAKOUT_RETEST | SET_MOMENTUM_CONTINUATION
  | SET_THEME_FOLLOWER_EXPANSION | SET_NO_SETUP

datatype order_plan_status =
    PLAN_READY | WAIT_RETRY | PLAN_DATA_WAIT | BLOCKED_CHASE | BLOCKED_OVERHEAT | BLOCKED_STALE | BLOCKED_RISK | NO_PLAN

record timing_input =
  in_trade_date :: string
  in_candidate_instance_id :: string
  in_code :: string
  in_name :: string
  in_theme_id :: "string option"
  in_theme_name :: "string option"
  in_theme_state :: "string option"
  in_theme_rank :: "int option"
  in_stock_role :: "string option"
  in_theme_priority_score :: "rat option"
  in_current_price :: "rat option"
  in_open_price :: "rat option"
  in_day_high :: "rat option"
  in_day_low :: "rat option"
  in_turnover_krw :: "rat option"
  in_execution_strength :: "rat option"
  in_momentum_1m :: "rat option"
  in_momentum_3m :: "rat option"
  in_momentum_5m :: "rat option"
  in_vwap :: "rat option"
  in_pullback_from_high_pct :: "rat option"
  in_spread_ticks :: "int option"
  in_stale :: bool
  in_vi_active :: bool
  in_upper_limit_near :: bool
  in_theme_reason_codes :: "string list"
  in_candidate_state :: "string option"
  in_strategy_observation_status :: "string option"
  in_strategy_setup_type :: "string option"
  in_risk_observation_status :: "string option"
  in_condition_fusion_priority_score :: "rat option"
  in_active_condition_roles :: "string list"
  in_condition_risk_blocked :: bool
  in_condition_fusion_reason_codes :: "string list"
  in_best_ask :: "rat option"
  in_tick_age_sec :: "rat option"
  in_raw_context :: pydict

definition text_ok :: "string \<Rightarrow> bool" where
  \<comment> \<open>what \<open>require_non_empty_str\<close> returns\<close>
  "text_ok s \<longleftrightarrow> s \<noteq> [] \<and> py_strip s = s"

definition opt_ok :: "('a \<Rightarrow> bool) \<Rightarrow> 'a option \<Rightarrow> bool" where
  "opt_ok p v \<longleftrightarrow> (case v of None \<Rightarrow> True | Some x \<Rightarrow> p x)"

definition reasons_ok :: "string list \<Rightarrow> bool" where
  \<comment> \<open>what \<open>_normalize_reasons\<close> returns\<close>
  "reasons_ok rs \<longleftrightarrow> distinct rs \<and> (\<forall>r \<in> set rs. text_ok r \<and> py_upper r = r)"

definition input_wf :: "timing_input \<Rightarrow> bool" where
  "input_wf item \<longleftrightarrow>
     text_ok (in_trade_date item) \<and> text_ok (in_candidate_instance_id item) \<and> text_ok (in_code item) \<and> text_ok (in_name item)
   \<and> opt_ok text_ok (in_theme_id item) \<and> opt_ok text_ok (in_theme_name item) \<and> opt_ok text_ok (in_theme_state item)
   \<and> opt_ok text_ok (in_stock_role item) \<and> opt_ok text_ok (in_candidate_state item)
   \<and> opt_ok text_ok (in_strategy_observation_status item) \<and> opt_ok text_ok (in_strategy_setup_type item)
   \<and> opt_ok text_ok (in_risk_observation_status item)
   \<and> opt_ok (\<lambda>n. 0 \<le> n) (in_theme_rank item) \<and> opt_ok (\<lambda>n. 0 \<le> n) (in_spread_ticks item)
   \<and> opt_ok (\<lambda>x. 0 \<le> x) (in_theme_priority_score item) \<and> opt_ok (\<lambda>x. 0 \<le> x) (in_current_price item)
   \<and> opt_ok (\<lambda>x. 0 \<le> x) (in_open_price item) \<and> opt_ok (\<lambda>x. 0 \<le> x) (in_day_high item)
   \<and> opt_ok (\<lambda>x. 0 \<le> x) (in_day_low item) \<and> opt_ok (\<lambda>x. 0 \<le> x) (in_turnover_krw item)
   \<and> opt_ok (\<lambda>x. 0 \<le> x) (in_execution_strength item) \<and> opt_ok (\<lambda>x. 0 \<le> x) (in_vwap item)
   \<and> opt_ok (\<lambda>x. 0 \<le> x) (in_pullback_from_high_pct item) \<and> opt_ok (\<lambda>x. 0 \<le> x) (in_condition_fusion_priority_score item)
   \<and> opt_ok (\<lambda>x. 0 \<le> x) (in_best_ask item) \<and> opt_ok (\<lambda>x. 0 \<le> x) (in_tick_age_sec item)
   \<and> reasons_ok (in_theme_reason_codes item) \<and> reasons_ok (in_active_condition_roles item)
   \<and> reasons_ok (in_condition_fusion_reason_codes item)"

definition require_reason :: "string \<Rightarrow> string result" where
  "require_reason reason =
     (if py_strip reason = [] then Inl (BrokerValidationError ''reason_code must not be empty'')
      else Inr (py_upper (py_strip reason)))"

fun require_reasons :: "string list \<Rightarrow> string list result" where
  "require_reasons [] = Inr []"
| "require_reasons (r # rs) = rbind (require_reason r) (\<lambda>x. rbind (require_reasons rs) (\<lambda>xs. Inr (x # xs)))"

definition normalize_reasons :: "string list \<Rightarrow> string list result" where
  "normalize_reasons reasons = rbind (require_reasons reasons) (\<lambda>rs. Inr (dedupe rs))"

record timing_settings =
  st_plan_ttl_seconds :: int
  st_pullback_min_pct :: rat
  st_pullback_max_pct :: rat
  st_vwap_reclaim_tolerance_pct :: rat
  st_vwap_overextended_pct :: rat
  st_chase_near_high_pct :: rat
  st_max_spread_ticks :: int
  st_min_turnover_krw :: rat
  st_min_execution_strength :: rat
  st_default_notional :: rat
  st_max_notional :: rat
  st_allow_market_order :: bool
  st_price_offset_ticks :: int
  st_allow_follower_in_spreading :: bool
  st_allow_follower_in_leader_only :: bool
  st_require_risk_observe_pass :: bool
  st_require_strategy_matched :: bool
  st_stale_max_seconds :: int

definition timing_settings_ok :: "timing_settings \<Rightarrow> bool" where
  "timing_settings_ok st \<longleftrightarrow>
     1 \<le> st_plan_ttl_seconds st \<and> 1 \<le> st_max_spread_ticks st \<and> 1 \<le> st_stale_max_seconds st
   \<and> 0 \<le> st_pullback_min_pct st \<and> 0 \<le> st_pullback_max_pct st \<and> 0 \<le> st_vwap_reclaim_tolerance_pct st
   \<and> 0 \<le> st_vwap_overextended_pct st \<and> 0 \<le> st_chase_near_high_pct st \<and> 0 \<le> st_min_turnover_krw st
   \<and> 0 \<le> st_min_execution_strength st
   \<and> st_pullback_min_pct st \<le> st_pullback_max_pct st
   \<and> 0 < st_default_notional st \<and> 0 < st_max_notional st \<and> st_default_notional st \<le> st_max_notional st
   \<and> \<not> st_allow_market_order st \<and> 0 \<le> st_price_offset_ticks st"

section \<open>Price location\<close>

record location_metrics =
  mt_pullback_from_high_pct :: "rat option"
  mt_price_vs_vwap_pct :: "rat option"
  mt_price_vs_open_pct :: "rat option"
  mt_day_range_position :: "rat option"

definition positive :: "rat option \<Rightarrow> bool" where
  "positive v \<longleftrightarrow> (case v of None \<Rightarrow> False | Some x \<Rightarrow> x > 0)"

definition negative :: "rat option \<Rightarrow> bool" where
  "negative v \<longleftrightarrow> (case v of None \<Rightarrow> False | Some x \<Rightarrow> x < 0)"

definition calculate_price_location_metrics :: "timing_input \<Rightarrow> location_metrics" where
  "calculate_price_location_metrics item =
     (let current = the (in_current_price item);
          base = \<lparr> mt_pullback_from_high_pct = in_pullback_from_high_pct item, mt_price_vs_vwap_pct = None,
                   mt_price_vs_open_pct = None, mt_day_range_position = None \<rparr> in
      if \<not> positive (in_current_price item) then base
      else \<lparr> mt_pullback_from_high_pct =
               (case in_day_high item of
                  Some hi \<Rightarrow> (if hi > 0 then (case in_pullback_from_high_pct item of
                                            Some p \<Rightarrow> Some p
                                          | None \<Rightarrow> Some (max ((hi - current) / hi * 100) 0))
                             else in_pullback_from_high_pct item)
                | None \<Rightarrow> in_pullback_from_high_pct item),
             mt_price_vs_vwap_pct =
               (case in_vwap item of
                  Some v \<Rightarrow> (if v > 0 then Some ((current - v) / v * 100) else None) | None \<Rightarrow> None),
             mt_price_vs_open_pct =
               (case in_open_price item of
                  Some v \<Rightarrow> (if v > 0 then Some ((current - v) / v * 100) else None) | None \<Rightarrow> None),
             mt_day_range_position =
               (case (in_day_high item, in_day_low item) of
                  (Some hi, Some lo) \<Rightarrow> (if hi > lo then Some ((current - lo) / (hi - lo)) else None)
                | _ \<Rightarrow> None) \<rparr>)"

record price_location =
  pl_state :: price_location_state
  pl_metrics :: location_metrics
  pl_reason_codes :: "string list"

definition classify :: "timing_settings \<Rightarrow> timing_input \<Rightarrow> price_location" where
  "classify st item =
     (let m = calculate_price_location_metrics item;
          result = (\<lambda>s r. \<lparr> pl_state = s, pl_metrics = m, pl_reason_codes = [r] \<rparr>);
          pullback_is = (\<lambda>p. case mt_pullback_from_high_pct m of None \<Rightarrow> False | Some x \<Rightarrow> p x);
          vwap_is = (\<lambda>p. case mt_price_vs_vwap_pct m of None \<Rightarrow> False | Some x \<Rightarrow> p x) in
      if \<not> positive (in_current_price item) then result PLS_UNKNOWN ''PRICE_MISSING''
      else if vwap_is (\<lambda>x. x > st_vwap_overextended_pct st) then result PLS_EXTENDED_FROM_VWAP ''VWAP_OVEREXTENDED''
      else if pullback_is (\<lambda>x. x \<le> st_chase_near_high_pct st) then result PLS_NEAR_DAY_HIGH ''NEAR_DAY_HIGH''
      else if vwap_is (\<lambda>x. \<bar>x\<bar> \<le> st_vwap_reclaim_tolerance_pct st) then result PLS_NEAR_VWAP ''NEAR_VWAP''
      else if pullback_is (\<lambda>x. st_pullback_min_pct st \<le> x \<and> x \<le> st_pullback_max_pct st)
        then result PLS_PULLBACK_FROM_HIGH ''PULLBACK_FROM_HIGH''
      else if pullback_is (\<lambda>x. x > st_pullback_max_pct st) then result PLS_DEEP_PULLBACK ''DEEP_PULLBACK''
      else (case mt_price_vs_vwap_pct m of
              Some x \<Rightarrow> (if x > 0 then result PLS_ABOVE_VWAP ''ABOVE_VWAP'' else result PLS_BELOW_VWAP ''BELOW_VWAP'')
            | None \<Rightarrow> result PLS_UNKNOWN ''PRICE_LOCATION_UNKNOWN''))"

section \<open>Timing\<close>

type_synonym verdict = "entry_timing_state \<times> setup_type \<times> order_plan_status \<times> string list"

definition normalize_opt :: "string option \<Rightarrow> string" where
  "normalize_opt v = (case v of None \<Rightarrow> '''' | Some s \<Rightarrow> py_upper (py_strip s))"

definition normalize_role :: "string option \<Rightarrow> string" where
  "normalize_role v =
     (let role = normalize_opt v in
      if role = ''LEADER_CANDIDATE'' then ''LEADER''
      else if role = ''CO_LEADER_CANDIDATE'' then ''CO_LEADER''
      else if role = ''FOLLOWER_CANDIDATE'' then ''FOLLOWER''
      else if role = ''LAGGARD'' then ''LATE_LAGGARD''
      else role)"

definition normalized :: "string list \<Rightarrow> string list" where
  "normalized xs = map (\<lambda>s. normalize_opt (Some s)) xs"

definition data_wait :: "string list \<Rightarrow> verdict" where
  "data_wait rs = (ETS_DATA_WAIT, SET_NO_SETUP, PLAN_DATA_WAIT, rs)"

definition blocked :: "order_plan_status \<Rightarrow> string list \<Rightarrow> verdict" where
  "blocked s rs = (ETS_BLOCKED_CONTEXT, SET_NO_SETUP, s, rs)"

definition missing_prices :: "timing_input \<Rightarrow> string list" where
  "missing_prices item =
     (if positive (in_current_price item) then [] else [''PRICE_MISSING''])
   @ (case (in_day_high item, in_day_low item) of
        (Some hi, Some lo) \<Rightarrow> (if hi \<le> lo then [''DAY_RANGE_MISSING''] else [])
      | _ \<Rightarrow> [''DAY_RANGE_MISSING''])"

definition hard_context_state :: "timing_input \<Rightarrow> timing_settings \<Rightarrow> verdict option" where
  "hard_context_state item st =
     (let candidate_state = normalize_opt (in_candidate_state item);
          theme_state = normalize_opt (in_theme_state item);
          role = normalize_role (in_stock_role item);
          sensor_reasons = set (normalized (in_condition_fusion_reason_codes item)) \<union> set (normalized (in_theme_reason_codes item));
          reasons = missing_prices item in
      if in_condition_risk_blocked item \<or> ''CONDITION_RISK_BLOCKED'' \<in> sensor_reasons
        then Some (blocked BLOCKED_RISK [''CONDITION_RISK_BLOCKED'', ''CONDITION_SENSOR_NOT_BUY_SIGNAL''])
      else if ''DISCOVERY_OBSERVATION_ONLY'' \<in> sensor_reasons
        then Some (data_wait [''DISCOVERY_OBSERVATION_ONLY'', ''DISCOVERY_PROMOTION_PENDING''])
      else if in_stale item \<or> (case in_tick_age_sec item of None \<Rightarrow> False | Some a \<Rightarrow> a > of_int (st_stale_max_seconds st))
        then Some (ETS_STALE, SET_NO_SETUP, BLOCKED_STALE, [''TICK_STALE''])
      else if candidate_state \<in> {''CLOSED'', ''STALE''}
        then Some (ETS_STALE, SET_NO_SETUP, BLOCKED_STALE, [''CANDIDATE_'' @ candidate_state])
      else if candidate_state = ''BLOCKED_OBSERVATION'' then Some (blocked NO_PLAN [''CANDIDATE_BLOCKED_OBSERVATION''])
      else if in_vi_active item then Some (blocked BLOCKED_OVERHEAT [''VI_ACTIVE''])
      else if in_upper_limit_near item then Some (blocked BLOCKED_OVERHEAT [''UPPER_LIMIT_NEAR''])
      else if reasons \<noteq> [] then Some (data_wait (reasons @ [''DATA_WAIT_NEAR_MISS'']))
      else if theme_state = [] then Some (data_wait [''THEME_CONTEXT_MISSING'', ''DATA_WAIT_NEAR_MISS''])
      else if role = [] then Some (data_wait [''STOCK_ROLE_MISSING'', ''DATA_WAIT_NEAR_MISS''])
      else if theme_state = ''DATA_WAIT'' then Some (data_wait [''THEME_DATA_WAIT'', ''DATA_WAIT_NEAR_MISS''])
      else if theme_state \<notin> {''LEADING'', ''SPREADING'', ''LEADER_ONLY''}
        then Some (blocked NO_PLAN [''THEME_'' @ theme_state @ ''_NOT_ENTRY_ELIGIBLE''])
      else if role \<in> {''OVERHEATED'', ''LATE_LAGGARD'', ''WEAK_MEMBER'', ''STALE'', ''UNKNOWN''}
        then Some (blocked (if role = ''OVERHEATED'' then BLOCKED_OVERHEAT else if role = ''STALE'' then BLOCKED_STALE else NO_PLAN)
                    [''ROLE_'' @ role @ ''_BLOCKED''])
      else if role = ''FOLLOWER'' \<and> theme_state = ''LEADER_ONLY'' then Some (blocked NO_PLAN [''LEADER_ONLY_FOLLOWER_BLOCKED''])
      else None)"

definition holds :: "rat option \<Rightarrow> (rat \<Rightarrow> bool) \<Rightarrow> bool" where
  "holds v p \<longleftrightarrow> (case v of None \<Rightarrow> False | Some x \<Rightarrow> p x)"

definition is_good_pullback :: "timing_input \<Rightarrow> rat option \<Rightarrow> timing_settings \<Rightarrow> bool" where
  "is_good_pullback item pullback st \<longleftrightarrow>
     normalize_opt (in_theme_state item) \<in> {''LEADING'', ''SPREADING'', ''LEADER_ONLY''}
   \<and> holds pullback (\<lambda>x. st_pullback_min_pct st \<le> x \<and> x \<le> st_pullback_max_pct st)"

definition is_pullback_reclaim :: "rat option \<Rightarrow> rat option \<Rightarrow> bool \<Rightarrow> timing_settings \<Rightarrow> bool" where
  "is_pullback_reclaim price_vs_vwap pullback momentum_positive st \<longleftrightarrow>
     momentum_positive
   \<and> holds pullback (\<lambda>x. \<not> x < st_pullback_min_pct st \<and> \<not> x > st_pullback_max_pct st)
   \<and> holds price_vs_vwap (\<lambda>x. x \<ge> - st_vwap_reclaim_tolerance_pct st)"

definition is_vwap_reclaim :: "rat option \<Rightarrow> bool \<Rightarrow> timing_settings \<Rightarrow> bool" where
  "is_vwap_reclaim price_vs_vwap momentum_positive st \<longleftrightarrow>
     momentum_positive
   \<and> holds price_vs_vwap (\<lambda>x. - st_vwap_reclaim_tolerance_pct st \<le> x \<and> x \<le> st_vwap_reclaim_tolerance_pct st)"

definition is_breakout_route :: "timing_input \<Rightarrow> string \<Rightarrow> bool" where
  "is_breakout_route item normalized_role \<longleftrightarrow>
     (let condition_roles = set (normalized (in_active_condition_roles item));
          condition_reasons = set (normalized (in_condition_fusion_reason_codes item)) in
      (''BREAKOUT'' \<in> condition_roles \<or> normalize_opt (in_strategy_setup_type item) = ''BREAKOUT_RETEST''
         \<or> ''LEADER_BREAKOUT_FUSION_PRIORITY'' \<in> condition_reasons \<or> ''CONDITION_BREAKOUT_OBSERVED'' \<in> condition_reasons)
    \<and> (normalized_role \<in> {''LEADER'', ''CO_LEADER''} \<or> ''LEADER'' \<in> condition_roles))"

definition is_momentum_continuation ::
  "price_location_state \<Rightarrow> rat option \<Rightarrow> rat option \<Rightarrow> bool \<Rightarrow> timing_settings \<Rightarrow> bool" where
  "is_momentum_continuation location pullback price_vs_vwap momentum_positive st \<longleftrightarrow>
     momentum_positive
   \<and> \<not> holds price_vs_vwap (\<lambda>x. x < - st_vwap_reclaim_tolerance_pct st)
   \<and> (location = PLS_NEAR_DAY_HIGH \<or> holds pullback (\<lambda>x. x < st_pullback_min_pct st))"

definition follower_allowed :: "string \<Rightarrow> timing_settings \<Rightarrow> bool" where
  "follower_allowed theme_state st =
     (if theme_state = ''SPREADING'' then st_allow_follower_in_spreading st
      else if theme_state = ''LEADING'' then True
      else if theme_state = ''LEADER_ONLY'' then st_allow_follower_in_leader_only st
      else False)"

definition setup_state :: "timing_input \<Rightarrow> timing_settings \<Rightarrow> rat option \<Rightarrow> rat option \<Rightarrow> bool \<Rightarrow> verdict" where
  \<comment> \<open>the choice among the setups, after the guards on data, overextension and chasing\<close>
  "setup_state item st pullback price_vs_vwap momentum_positive =
     (let role = normalize_role (in_stock_role item);
          theme_state = normalize_opt (in_theme_state item);
          leader = role \<in> {''LEADER'', ''CO_LEADER''};
          reclaim = is_pullback_reclaim price_vs_vwap pullback momentum_positive st in
      if is_vwap_reclaim price_vs_vwap momentum_positive st \<and> (leader \<or> follower_allowed theme_state st)
        then (ETS_VWAP_RECLAIM, SET_VWAP_RECLAIM, PLAN_READY, [''VWAP_RECLAIM'', ''ENTRY_TIMING_ALLOWED''])
      else if reclaim \<and> leader
        then (ETS_PULLBACK_RECLAIM, SET_THEME_LEADER_PULLBACK, PLAN_READY, [''PULLBACK_RECLAIM'', ''ENTRY_TIMING_ALLOWED''])
      else if reclaim \<and> follower_allowed theme_state st
        then (ETS_PULLBACK_RECLAIM, SET_THEME_FOLLOWER_EXPANSION, PLAN_READY, [''PULLBACK_RECLAIM'', ''FOLLOWER_LIMITED_ALLOWED''])
      else if is_good_pullback item pullback st \<and> leader
        then (ETS_GOOD_PULLBACK, SET_THEME_LEADER_PULLBACK, PLAN_READY, [''GOOD_PULLBACK'', ''ENTRY_TIMING_ALLOWED''])
      else (ETS_NO_SETUP, SET_NO_SETUP, NO_PLAN, [''NO_ENTRY_TIMING_SETUP'']))"

definition classify_timing :: "timing_settings \<Rightarrow> timing_input \<Rightarrow> price_location \<Rightarrow> verdict" where
  "classify_timing st item location =
     (case hard_context_state item st of
        Some v \<Rightarrow> v
      | None \<Rightarrow>
         (let pullback = mt_pullback_from_high_pct (pl_metrics location);
              price_vs_vwap = mt_price_vs_vwap_pct (pl_metrics location);
              momentum_ready = (in_momentum_1m item \<noteq> None \<or> in_momentum_3m item \<noteq> None \<or> in_momentum_5m item \<noteq> None);
              momentum_positive = (positive (in_momentum_1m item) \<or> positive (in_momentum_3m item));
              momentum_negative = (negative (in_momentum_1m item) \<and> negative (in_momentum_3m item));
              role = normalize_role (in_stock_role item) in
          if in_vwap item = None then data_wait [''VWAP_MISSING'', ''DATA_WAIT_NEAR_MISS'']
          else if \<not> momentum_ready then data_wait [''MOMENTUM_WARMUP'', ''DATA_WAIT_NEAR_MISS'']
          else if pl_state location = PLS_EXTENDED_FROM_VWAP
            then (ETS_VWAP_OVEREXTENDED, SET_NO_SETUP, BLOCKED_OVERHEAT, [''VWAP_OVEREXTENDED''])
          else if is_breakout_route item role
              \<and> is_momentum_continuation (pl_state location) pullback price_vs_vwap momentum_positive st
            then (ETS_MOMENTUM_CONTINUATION, SET_MOMENTUM_CONTINUATION, PLAN_READY,
                  [''MOMENTUM_CONTINUATION'', ''BREAKOUT_NEAR_HIGH_ALLOWED'', ''SIZE_REDUCED'', ''TIGHT_STOP_REQUIRED'',
                   ''SHORT_TTL_REQUIRED'', ''ENTRY_TIMING_ALLOWED''])
          else if pl_state location = PLS_NEAR_DAY_HIGH \<or> holds pullback (\<lambda>x. x < st_pullback_min_pct st)
            then (ETS_CHASE_HIGH, SET_NO_SETUP, BLOCKED_CHASE, [''CHASE_HIGH'', ''PULLBACK_TOO_SHALLOW''])
          else if holds pullback (\<lambda>x. x > st_pullback_max_pct st) \<and> momentum_negative \<and> negative price_vs_vwap
            then (ETS_FAILED_BREAKOUT, SET_BREAKOUT_RETEST, NO_PLAN, [''FAILED_BREAKOUT'', ''MOMENTUM_WEAKENING'', ''BELOW_VWAP''])
          else setup_state item st pullback price_vs_vwap momentum_positive))"

definition dedupe_upper :: "string list \<Rightarrow> string list" where
  \<comment> \<open>\<open>_dedupe\<close>\<close>
  "dedupe_upper vs = dedupe (map py_upper (filter (\<lambda>v. py_strip v \<noteq> []) vs))"

record evaluation =
  ev_entry_timing_evaluation_id :: string
  ev_trade_date :: string
  ev_candidate_instance_id :: string
  ev_code :: string
  ev_name :: string
  ev_evaluated_at :: instant
  ev_setup_type :: setup_type
  ev_entry_timing_state :: entry_timing_state
  ev_price_location_state :: price_location_state
  ev_status :: order_plan_status
  ev_reason_codes :: "string list"

definition evaluate_timing :: "string \<Rightarrow> instant \<Rightarrow> timing_settings \<Rightarrow> timing_input \<Rightarrow> evaluation result" where
  \<comment> \<open>\<open>EntryTimingEngine.evaluate\<close>; the new message id and the time are arguments\<close>
  "evaluate_timing new_id now st item =
     (let location = classify st item;
          (state, setup, status, reasons) = classify_timing st item location in
      rbind (normalize_reasons (dedupe_upper (pl_reason_codes location @ reasons @ [''OBSERVE_ONLY''])))
        (\<lambda>rs. Inr \<lparr> ev_entry_timing_evaluation_id = new_id, ev_trade_date = in_trade_date item,
                   ev_candidate_instance_id = in_candidate_instance_id item, ev_code = in_code item, ev_name = in_name item,
                   ev_evaluated_at = now, ev_setup_type = setup, ev_entry_timing_state = state,
                   ev_price_location_state = pl_state location, ev_status = status, ev_reason_codes = rs \<rparr>))"


lemma hard_context_None_iff:
  "hard_context_state item st = None \<longleftrightarrow>
     \<not> in_condition_risk_blocked item
   \<and> {''CONDITION_RISK_BLOCKED'', ''DISCOVERY_OBSERVATION_ONLY''} \<inter>
       (set (normalized (in_condition_fusion_reason_codes item)) \<union> set (normalized (in_theme_reason_codes item))) = {}
   \<and> \<not> in_stale item \<and> opt_ok (\<lambda>a. a \<le> of_int (st_stale_max_seconds st)) (in_tick_age_sec item)
   \<and> normalize_opt (in_candidate_state item) \<notin> {''CLOSED'', ''STALE'', ''BLOCKED_OBSERVATION''}
   \<and> \<not> in_vi_active item \<and> \<not> in_upper_limit_near item \<and> missing_prices item = []
   \<and> normalize_role (in_stock_role item) \<notin> {'''', ''OVERHEATED'', ''LATE_LAGGARD'', ''WEAK_MEMBER'', ''STALE'', ''UNKNOWN''}
   \<and> normalize_opt (in_theme_state item) \<in> {''LEADING'', ''SPREADING'', ''LEADER_ONLY''}
   \<and> \<not> (normalize_role (in_stock_role item) = ''FOLLOWER'' \<and> normalize_opt (in_theme_state item) = ''LEADER_ONLY'')"
  unfolding hard_context_state_def Let_def opt_ok_def
  by (simp split: option.splits)


lemma hard_context_not_ready: "hard_context_state item st = Some (state, setup, status, rs) \<Longrightarrow> status \<noteq> PLAN_READY"
  unfolding hard_context_state_def Let_def blocked_def data_wait_def by (auto split: if_splits)

definition READY_TIMING_STATES :: "entry_timing_state list" where
  "READY_TIMING_STATES = [ETS_GOOD_PULLBACK, ETS_PULLBACK_RECLAIM, ETS_VWAP_RECLAIM, ETS_MOMENTUM_CONTINUATION]"

lemma hard_context_state_not_ready: "hard_context_state item st = Some (state, setup, status, rs) \<Longrightarrow> state \<notin> set READY_TIMING_STATES"
  unfolding hard_context_state_def Let_def blocked_def data_wait_def by (auto simp: READY_TIMING_STATES_def split: if_splits)

lemmas timing_simps = classify_timing_def setup_state_def data_wait_def Let_def

lemma ready_status_iff:
  assumes "classify_timing st item location = (state, setup, status, rs)"
  shows "status = PLAN_READY \<longleftrightarrow> state \<in> set READY_TIMING_STATES"
proof (cases "hard_context_state item st")
  case (Some v)
  then show ?thesis using assms hard_context_not_ready hard_context_state_not_ready
    by (cases v) (auto simp: classify_timing_def)
next
  case None
  then show ?thesis using assms by (simp add: timing_simps READY_TIMING_STATES_def split: if_splits)
qed

lemma require_reasons_total: "(\<And>r. r \<in> set rs \<Longrightarrow> py_strip r \<noteq> []) \<Longrightarrow> require_reasons rs = Inr (map (\<lambda>r. py_upper (py_strip r)) rs)"
  by (induction rs) (simp_all add: require_reason_def)

lemma normalize_dedupe_upper: 
  "normalize_reasons (dedupe_upper vs) = Inr (dedupe (map py_strip (dedupe_upper vs)))"
proof -
  have "require_reasons (dedupe_upper vs) = Inr (map (\<lambda>r. py_upper (py_strip r)) (dedupe_upper vs))"
    by (rule require_reasons_total) (auto simp: dedupe_upper_def py_strip_upper)
  moreover have "map (\<lambda>r. py_upper (py_strip r)) (dedupe_upper vs) = map py_strip (dedupe_upper vs)"
    by (auto simp: dedupe_upper_def py_strip_upper)
  ultimately show ?thesis by (simp add: normalize_reasons_def)
qed

lemma evaluate_timing_total:
  "evaluate_timing new_id now st item = Inr ev \<Longrightarrow> classify_timing st item (classify st item) =
     (ev_entry_timing_state ev, ev_setup_type ev, ev_status ev, snd (snd (snd (classify_timing st item (classify st item)))))"
  by (auto simp: evaluate_timing_def Let_def rbind_Inr_iff split: prod.splits)

lemma evaluate_timing_returns: "\<exists>ev. evaluate_timing new_id now st item = Inr ev"
  by (simp add: evaluate_timing_def Let_def normalize_dedupe_upper split: prod.splits)


lemma no_missing_prices:
  "missing_prices item = [] \<Longrightarrow> \<exists>c hi lo. in_current_price item = Some c \<and> 0 < c
     \<and> in_day_high item = Some hi \<and> in_day_low item = Some lo \<and> lo < hi"
  by (auto simp: missing_prices_def positive_def split: option.splits if_splits)

lemma classify_extended:
  assumes "pl_state (classify st item) \<noteq> PLS_EXTENDED_FROM_VWAP" "in_current_price item = Some c" "0 < c" "in_vwap item = Some v" "0 < v"
  shows "c \<le> v * (1 + st_vwap_overextended_pct st / 100)"
  using assms by (auto simp: classify_def calculate_price_location_metrics_def positive_def Let_def field_simps split: if_splits)

lemma classify_near_high:
  assumes "pl_state (classify st item) \<notin> {PLS_EXTENDED_FROM_VWAP, PLS_NEAR_DAY_HIGH}" "in_current_price item = Some c" "0 < c"
    and "in_day_high item = Some hi" "0 < hi" "in_pullback_from_high_pct item = None" "0 \<le> st_chase_near_high_pct st"
  shows "mt_pullback_from_high_pct (pl_metrics (classify st item)) = Some ((hi - c) / hi * 100)"
    and "c < hi * (1 - st_chase_near_high_pct st / 100)"
proof -
  have m: "mt_pullback_from_high_pct (calculate_price_location_metrics item) = Some (max ((hi - c) / hi * 100) 0)"
    using assms by (simp add: calculate_price_location_metrics_def positive_def)
  have "\<not> max ((hi - c) / hi * 100) 0 \<le> st_chase_near_high_pct st"
    using assms(1-3) m by (auto simp: classify_def positive_def Let_def split: if_splits)
  then have gt: "st_chase_near_high_pct st < (hi - c) / hi * 100" using assms(7) by simp
  have "pl_metrics (classify st item) = calculate_price_location_metrics item"
    by (simp add: classify_def Let_def split: option.splits)
  then show "mt_pullback_from_high_pct (pl_metrics (classify st item)) = Some ((hi - c) / hi * 100)"
    using m gt assms(7) by simp
  show "c < hi * (1 - st_chase_near_high_pct st / 100)" using gt assms(5) by (simp add: field_simps)
qed

lemma ready_after_guards:
  assumes "classify_timing st item location = (state, setup, PLAN_READY, rs)"
  shows "hard_context_state item st = None" "in_vwap item \<noteq> None" "pl_state location \<noteq> PLS_EXTENDED_FROM_VWAP"
    and "state = ETS_MOMENTUM_CONTINUATION \<Longrightarrow> (positive (in_momentum_1m item) \<or> positive (in_momentum_3m item))
       \<and> is_breakout_route item (normalize_role (in_stock_role item))"
    and "state \<noteq> ETS_MOMENTUM_CONTINUATION \<Longrightarrow> pl_state location \<noteq> PLS_NEAR_DAY_HIGH
       \<and> \<not> holds (mt_pullback_from_high_pct (pl_metrics location)) (\<lambda>x. x < st_pullback_min_pct st)
       \<and> (normalize_role (in_stock_role item) \<in> {''LEADER'', ''CO_LEADER''}
          \<or> follower_allowed (normalize_opt (in_theme_state item)) st \<and> (positive (in_momentum_1m item) \<or> positive (in_momentum_3m item)))"
proof -
  show none: "hard_context_state item st = None"
    using assms hard_context_not_ready [of item st state "setup" PLAN_READY rs]
    by (cases "hard_context_state item st") (auto simp: classify_timing_def)
  note u = assms [unfolded timing_simps none, simplified]
  show "in_vwap item \<noteq> None" "pl_state location \<noteq> PLS_EXTENDED_FROM_VWAP" using u by (auto split: if_splits)
  show "state = ETS_MOMENTUM_CONTINUATION \<Longrightarrow> (positive (in_momentum_1m item) \<or> positive (in_momentum_3m item))
       \<and> is_breakout_route item (normalize_role (in_stock_role item))"
    using u by (auto simp: is_momentum_continuation_def split: if_splits)
  show "state \<noteq> ETS_MOMENTUM_CONTINUATION \<Longrightarrow> pl_state location \<noteq> PLS_NEAR_DAY_HIGH
       \<and> \<not> holds (mt_pullback_from_high_pct (pl_metrics location)) (\<lambda>x. x < st_pullback_min_pct st)
       \<and> (normalize_role (in_stock_role item) \<in> {''LEADER'', ''CO_LEADER''}
          \<or> follower_allowed (normalize_opt (in_theme_state item)) st \<and> (positive (in_momentum_1m item) \<or> positive (in_momentum_3m item)))"
    using u by (auto simp: is_vwap_reclaim_def is_pullback_reclaim_def split: if_splits)
qed


text \<open>What has to hold of a candidate for an entry: of its context, and of its price for the timing chosen.\<close>

definition context_guards :: "timing_settings \<Rightarrow> timing_input \<Rightarrow> bool" where
  "context_guards st item \<longleftrightarrow>
     \<not> in_condition_risk_blocked item \<and> \<not> in_stale item
   \<and> opt_ok (\<lambda>a. a \<le> of_int (st_stale_max_seconds st)) (in_tick_age_sec item)
   \<and> normalize_opt (in_candidate_state item) \<notin> {''CLOSED'', ''STALE'', ''BLOCKED_OBSERVATION''}
   \<and> \<not> in_vi_active item \<and> \<not> in_upper_limit_near item
   \<and> normalize_opt (in_theme_state item) \<in> {''LEADING'', ''SPREADING'', ''LEADER_ONLY''}
   \<and> normalize_role (in_stock_role item) \<notin> {'''', ''OVERHEATED'', ''LATE_LAGGARD'', ''WEAK_MEMBER'', ''STALE'', ''UNKNOWN''}"

definition momentum_up :: "timing_input \<Rightarrow> bool" where
  "momentum_up item \<longleftrightarrow> positive (in_momentum_1m item) \<or> positive (in_momentum_3m item)"

definition role_guard :: "timing_settings \<Rightarrow> timing_input \<Rightarrow> entry_timing_state \<Rightarrow> bool" where
  "role_guard st item state \<longleftrightarrow>
     (if state = ETS_MOMENTUM_CONTINUATION
      then is_breakout_route item (normalize_role (in_stock_role item)) \<and> momentum_up item
      else normalize_role (in_stock_role item) \<in> {''LEADER'', ''CO_LEADER''}
        \<or> follower_allowed (normalize_opt (in_theme_state item)) st \<and> momentum_up item)"

lemma ready_role_guard: "classify_timing st item location = (state, setup, PLAN_READY, rs) \<Longrightarrow> role_guard st item state"
  unfolding role_guard_def momentum_up_def
  using ready_after_guards(4,5) [of st item location state "setup" rs] by (cases "state = ETS_MOMENTUM_CONTINUATION") simp_all

lemma ready_context_guards: "classify_timing st item location = (state, setup, PLAN_READY, rs) \<Longrightarrow> context_guards st item"
  unfolding context_guards_def using ready_after_guards(1) by (simp add: hard_context_None_iff)

lemma ready_prices:
  assumes "classify_timing st item (classify st item) = (state, setup, PLAN_READY, rs)" "timing_settings_ok st" "input_wf item"
  shows "\<exists>c hi v. in_current_price item = Some c \<and> in_day_high item = Some hi \<and> in_vwap item = Some v \<and> 0 < c \<and> 0 < hi
     \<and> (0 < v \<longrightarrow> c \<le> v * (1 + st_vwap_overextended_pct st / 100))
     \<and> (state \<noteq> ETS_MOMENTUM_CONTINUATION \<and> in_pullback_from_high_pct item = None \<longrightarrow>
          c \<le> hi * (1 - st_pullback_min_pct st / 100) \<and> c < hi * (1 - st_chase_near_high_pct st / 100))"
proof -
  note g = ready_after_guards [OF assms(1)]
  have "missing_prices item = []" using g(1) unfolding hard_context_None_iff by (elim conjE)
  from no_missing_prices [OF this] obtain c hi lo where
    p: "in_current_price item = Some c" "0 < c" "in_day_high item = Some hi" "in_day_low item = Some lo" "lo < hi" by (elim exE conjE)
  have hi: "0 < hi" using p assms(3) by (simp add: input_wf_def opt_ok_def)
  obtain w where w: "in_vwap item = Some w" using g(2) by (rule not_None_eq [THEN iffD1, THEN exE])
  have far: "c \<le> hi * (1 - st_pullback_min_pct st / 100) \<and> c < hi * (1 - st_chase_near_high_pct st / 100)"
    if "state \<noteq> ETS_MOMENTUM_CONTINUATION" "in_pullback_from_high_pct item = None"
  proof -
    have "pl_state (classify st item) \<notin> {PLS_EXTENDED_FROM_VWAP, PLS_NEAR_DAY_HIGH}" "0 \<le> st_chase_near_high_pct st"
      using g(3) g(5) [OF that(1)] assms(2) by (simp_all add: timing_settings_ok_def)
    note n = classify_near_high [OF this(1) p(1,2,3) hi that(2) this(2)]
    then have "\<not> (hi - c) / hi * 100 < st_pullback_min_pct st" using g(5) [OF that(1)] by (simp add: holds_def)
    then show ?thesis using n(2) hi by (simp add: field_simps)
  qed
  show ?thesis
    by (intro exI [of _ c] exI [of _ hi] exI [of _ w] conjI p(1-3) hi w impI classify_extended [OF g(3) p(1,2) w])
      (use far in simp_all)
qed

section \<open>Property\<close>

definition sample_settings :: timing_settings where
  \<comment> \<open>the defaults of \<open>Settings\<close>\<close>
  "sample_settings = \<lparr> st_plan_ttl_seconds = 90, st_pullback_min_pct = 1, st_pullback_max_pct = 9 / 2,
     st_vwap_reclaim_tolerance_pct = 7 / 10, st_vwap_overextended_pct = 3, st_chase_near_high_pct = 7 / 10,
     st_max_spread_ticks = 3, st_min_turnover_krw = 500000000, st_min_execution_strength = 100,
     st_default_notional = 100000, st_max_notional = 100000, st_allow_market_order = False, st_price_offset_ticks = 0,
     st_allow_follower_in_spreading = True, st_allow_follower_in_leader_only = False,
     st_require_risk_observe_pass = False, st_require_strategy_matched = False, st_stale_max_seconds = 60 \<rparr>"

definition sample_input :: timing_input where
  "sample_input = \<lparr> in_trade_date = ''2026-01-05'', in_candidate_instance_id = ''CAND-1'', in_code = ''005930'', in_name = ''S'',
     in_theme_id = Some ''T1'', in_theme_name = None, in_theme_state = Some ''LEADING'', in_theme_rank = Some 1,
     in_stock_role = Some ''LEADER_CANDIDATE'', in_theme_priority_score = Some 50, in_current_price = Some 9800,
     in_open_price = Some 9700, in_day_high = Some 10000, in_day_low = Some 9500, in_turnover_krw = Some 900000000,
     in_execution_strength = Some 120, in_momentum_1m = Some (1 / 2), in_momentum_3m = None, in_momentum_5m = None,
     in_vwap = Some 9750, in_pullback_from_high_pct = None, in_spread_ticks = Some 1, in_stale = False, in_vi_active = False,
     in_upper_limit_near = False, in_theme_reason_codes = [], in_candidate_state = Some ''CONTEXT_READY'',
     in_strategy_observation_status = Some ''MATCHED_OBSERVATION'', in_strategy_setup_type = None,
     in_risk_observation_status = Some ''OBSERVE_PASS'', in_condition_fusion_priority_score = Some 100,
     in_active_condition_roles = [], in_condition_risk_blocked = False, in_condition_fusion_reason_codes = [],
     in_best_ask = Some 9810, in_tick_age_sec = Some 2, in_raw_context = [] \<rparr>"



end
