(* ===== verification/Order_Plan.thy ===== *)
theory Order_Plan
  imports Tick_Size Entry_Timing
begin

text \<open>
  Order plan drafts: \<open>services/entry_timing/order_plan.py\<close> and \<open>OrderPlanDraft\<close> of \<open>models.py\<close>.

  \<^item> \<open>resolve_status\<close>, \<open>calculate_limit_price\<close>, \<open>order_plan_priority\<close>, \<open>route_risk_controls\<close> and \<open>build\<close> are
    the methods and functions of those names. The SHA-256 hex digest is the argument \<open>sha\<close>, the current time
    \<open>now\<close>. The evidence mapping of a draft is not modelled.
  \<^item> \<open>draft_valid\<close> is the check of \<open>OrderPlanDraft.__post_init__\<close>: a draft that fails it is not constructed.
  \<^item> The properties: what a draft may spend and at which price, and that no draft is ready unless every guard
    of engine and plan is met.
\<close>

section \<open>Status\<close>

definition iter_items :: "pyval \<Rightarrow> pyval list result" where
  \<comment> \<open>the items of \<open>for x in v\<close>\<close>
  "iter_items v = (case v of
       PList xs \<Rightarrow> Inr xs
     | PStr s \<Rightarrow> Inr (map (\<lambda>c. PStr [c]) s)
     | PDict d \<Rightarrow> Inr (map (\<lambda>(k, _). PStr k) d)
     | _ \<Rightarrow> Inl (TypeError ''object is not iterable''))"

definition coherency_reasons :: "repr \<Rightarrow> pydict \<Rightarrow> string list result" where
  "coherency_reasons rp d =
     rbind (iter_items (dget_or d ''reason_codes'' (PList [])))
       (\<lambda>xs. Inr (filter (\<lambda>r. r \<noteq> []) (map (\<lambda>x. py_upper (py_strip (py_str rp x))) xs)))"

definition soft_reasons :: "timing_settings \<Rightarrow> timing_input \<Rightarrow> string list" where
  "soft_reasons st item =
     (case in_spread_ticks item of None \<Rightarrow> [''SPREAD_MISSING'']
      | Some x \<Rightarrow> (if x > st_max_spread_ticks st then [''SPREAD_TOO_WIDE''] else []))
   @ (case in_turnover_krw item of None \<Rightarrow> [''TURNOVER_WARMUP'']
      | Some x \<Rightarrow> (if x < st_min_turnover_krw st then [''TURNOVER_BELOW_MIN''] else []))
   @ (case in_execution_strength item of None \<Rightarrow> [''EXECUTION_STRENGTH_WARMUP'']
      | Some x \<Rightarrow> (if x < st_min_execution_strength st then [''EXECUTION_STRENGTH_BELOW_MIN''] else []))
   @ (case in_strategy_observation_status item of None \<Rightarrow> [''STRATEGY_OBSERVATION_MISSING'']
      | Some x \<Rightarrow> (if st_require_strategy_matched st \<and> x \<noteq> ''MATCHED_OBSERVATION'' then [''STRATEGY_NOT_MATCHED''] else []))
   @ (case in_risk_observation_status item of None \<Rightarrow> [''RISK_OBSERVATION_MISSING'']
      | Some x \<Rightarrow> (if st_require_risk_observe_pass st \<and> x \<noteq> ''OBSERVE_PASS'' then [''RISK_NOT_OBSERVE_PASS''] else []))"

definition coherency_blocks :: "repr \<Rightarrow> timing_input \<Rightarrow> bool" where
  "coherency_blocks rp item \<longleftrightarrow>
     (case dget (in_raw_context item) ''pipeline_coherency'' of
        PDict d \<Rightarrow> py_upper (py_str rp (py_or (dget d ''status'') (PStr ''''))) \<noteq> ''PASS''
      | _ \<Rightarrow> False)"

definition resolve_status ::
  "repr \<Rightarrow> timing_settings \<Rightarrow> timing_input \<Rightarrow> evaluation \<Rightarrow> (order_plan_status \<times> string list) result" where
  "resolve_status rp st item ev =
     (if coherency_blocks rp item then
        rbind (coherency_reasons rp (as_mapping (dget (in_raw_context item) ''pipeline_coherency'')))
          (\<lambda>rs. Inr (PLAN_DATA_WAIT, dedupe_upper (rs @ [''PIPELINE_COHERENCY_GUARD_BLOCKED''])))
      else if in_risk_observation_status item = Some ''OBSERVE_BLOCK'' then Inr (BLOCKED_RISK, [''RISK_OBSERVE_BLOCK''])
      else if in_risk_observation_status item \<in> {Some ''DATA_WAIT'', Some ''INVALID_CONTEXT''} then Inr (PLAN_DATA_WAIT, [''RISK_DATA_WAIT''])
      else if in_risk_observation_status item = Some ''STALE_CONTEXT'' then Inr (BLOCKED_RISK, [''RISK_STALE_CONTEXT''])
      else if ev_entry_timing_state ev \<notin> set READY_TIMING_STATES then Inr (ev_status ev, [])
      else if soft_reasons st item \<noteq> [] then Inr (WAIT_RETRY, soft_reasons st item)
      else Inr (PLAN_READY, [''PLAN_READY_DRAFT_ONLY'']))"

section \<open>Price, priority and route\<close>

record limit_price_result =
  lp_limit_price :: "int option"
  lp_source :: string
  lp_reason_codes :: "string list"

definition reference_price :: "timing_settings \<Rightarrow> timing_input \<Rightarrow> rat \<Rightarrow> rat \<times> string \<times> string" where
  "reference_price st item current =
     (case (in_best_ask item, in_spread_ticks item) of
        (Some ask, Some spread) \<Rightarrow>
          (if ask > 0 \<and> spread \<le> st_max_spread_ticks st then (ask, ''BEST_ASK'', ''BEST_ASK_REFERENCE'')
           else (current, ''CURRENT_PRICE'', ''CURRENT_PRICE_REFERENCE''))
      | _ \<Rightarrow> (current, ''CURRENT_PRICE'', ''CURRENT_PRICE_REFERENCE''))"

definition no_limit :: "string \<Rightarrow> string \<Rightarrow> limit_price_result" where
  "no_limit source reason = \<lparr> lp_limit_price = None, lp_source = source, lp_reason_codes = [reason] \<rparr>"

definition calculate_limit_price :: "timing_settings \<Rightarrow> timing_input \<Rightarrow> limit_price_result" where
  "calculate_limit_price st item =
     (if st_allow_market_order st then no_limit ''MARKET_DISABLED'' ''MARKET_ORDER_DISABLED''
      else if \<not> positive (in_current_price item) then no_limit ''DATA_WAIT'' ''PRICE_MISSING''
      else let (base, source, reason) = reference_price st item (the (in_current_price item)) in
        case add_ticks base (st_price_offset_ticks st) of
          Inl _ \<Rightarrow> no_limit ''DATA_WAIT'' ''PRICE_MISSING''
        | Inr limit \<Rightarrow> (if limit \<le> 0 then no_limit ''DATA_WAIT'' ''LIMIT_PRICE_INVALID''
                      else \<lparr> lp_limit_price = Some limit, lp_source = source, lp_reason_codes = [reason] \<rparr>))"

definition order_plan_priority :: "timing_input \<Rightarrow> rat option \<times> string list" where
  "order_plan_priority item =
     (case in_theme_priority_score item of
        None \<Rightarrow> (None, [])
      | Some base \<Rightarrow>
          (let blocked = (in_condition_risk_blocked item
                 \<or> ''DISCOVERY_OBSERVATION_ONLY'' \<in> set (map py_upper (in_condition_fusion_reason_codes item))) in
           case in_condition_fusion_priority_score item of
             Some fusion \<Rightarrow>
               (if fusion > 0 \<and> \<not> blocked
                then (Some (base + min (fusion * (2 / 100)) 25),
                      [''CONDITION_FUSION_PRIORITY_USED'', ''CONDITION_FUSION_NOT_ORDER_APPROVAL''])
                else (Some base, []))
           | None \<Rightarrow> (Some base, [])))"

record route_controls =
  rc_size_multiplier :: rat
  rc_ttl_seconds :: int
  rc_tight_stop_required :: bool
  rc_reason_codes :: "string list"

definition route_risk_controls :: "evaluation \<Rightarrow> timing_settings \<Rightarrow> route_controls" where
  "route_risk_controls ev st =
     (if ev_entry_timing_state ev = ETS_MOMENTUM_CONTINUATION
      then \<lparr> rc_size_multiplier = 1 / 2,
             rc_ttl_seconds = max 1 (rat_trunc (of_int (st_plan_ttl_seconds st) * (1 / 2))),
             rc_tight_stop_required = True,
             rc_reason_codes = [''MOMENTUM_CONTINUATION_SIZE_REDUCED'', ''MOMENTUM_CONTINUATION_SHORT_TTL'',
                                ''MOMENTUM_CONTINUATION_TIGHT_STOP_REQUIRED''] \<rparr>
      else \<lparr> rc_size_multiplier = 1, rc_ttl_seconds = st_plan_ttl_seconds st, rc_tight_stop_required = False,
             rc_reason_codes = [] \<rparr>)"

section \<open>Identity\<close>

definition timing_value :: "entry_timing_state \<Rightarrow> string" where
  "timing_value s = (case s of
       ETS_GOOD_PULLBACK \<Rightarrow> ''GOOD_PULLBACK'' | ETS_PULLBACK_RECLAIM \<Rightarrow> ''PULLBACK_RECLAIM''
     | ETS_VWAP_RECLAIM \<Rightarrow> ''VWAP_RECLAIM'' | ETS_MOMENTUM_CONTINUATION \<Rightarrow> ''MOMENTUM_CONTINUATION''
     | ETS_CHASE_HIGH \<Rightarrow> ''CHASE_HIGH'' | ETS_VWAP_OVEREXTENDED \<Rightarrow> ''VWAP_OVEREXTENDED''
     | ETS_FAILED_BREAKOUT \<Rightarrow> ''FAILED_BREAKOUT'' | ETS_NO_SETUP \<Rightarrow> ''NO_SETUP'' | ETS_DATA_WAIT \<Rightarrow> ''DATA_WAIT''
     | ETS_STALE \<Rightarrow> ''STALE'' | ETS_BLOCKED_CONTEXT \<Rightarrow> ''BLOCKED_CONTEXT'')"

definition setup_value :: "setup_type \<Rightarrow> string" where
  "setup_value s = (case s of
       SET_THEME_LEADER_PULLBACK \<Rightarrow> ''THEME_LEADER_PULLBACK'' | SET_VWAP_RECLAIM \<Rightarrow> ''VWAP_RECLAIM''
     | SET_BREAKOUT_RETEST \<Rightarrow> ''BREAKOUT_RETEST'' | SET_MOMENTUM_CONTINUATION \<Rightarrow> ''MOMENTUM_CONTINUATION''
     | SET_THEME_FOLLOWER_EXPANSION \<Rightarrow> ''THEME_FOLLOWER_EXPANSION'' | SET_NO_SETUP \<Rightarrow> ''NO_SETUP'')"

fun join_with :: "string \<Rightarrow> string list \<Rightarrow> string" where
  "join_with sep [] = []"
| "join_with sep [x] = x"
| "join_with sep (x # xs) = x @ sep @ join_with sep xs"

definition text_or_default :: "string option \<Rightarrow> string \<Rightarrow> string" where
  "text_or_default v d = (case v of Some s \<Rightarrow> (if s = [] then d else s) | None \<Rightarrow> d)"

definition make_order_plan_idempotency_key :: "(string \<Rightarrow> string) \<Rightarrow> timing_input \<Rightarrow> evaluation \<Rightarrow> string" where
  "make_order_plan_idempotency_key sha item ev =
     (let theme = text_or_default (in_theme_id item) (text_or_default (in_theme_name item) ''NO_THEME'');
          payload = join_with ''|'' [in_trade_date item, in_code item, theme, setup_value (ev_setup_type ev),
                      timing_value (ev_entry_timing_state ev), ''BUY'', in_candidate_instance_id item];
          digest = take 16 (sha payload) in
      ''ORDERPLAN-'' @ join_with ''-'' [in_trade_date item, in_code item, setup_value (ev_setup_type ev),
                      timing_value (ev_entry_timing_state ev), digest])"

definition order_plan_id_from_key :: "(string \<Rightarrow> string) \<Rightarrow> string \<Rightarrow> string" where
  "order_plan_id_from_key sha key = ''OPD-'' @ take 20 (sha key)"

section \<open>Drafts\<close>

record draft =
  dr_order_plan_id :: string
  dr_trade_date :: string
  dr_candidate_instance_id :: string
  dr_code :: string
  dr_name :: string
  dr_side :: string
  dr_status :: order_plan_status
  dr_setup_type :: setup_type
  dr_entry_timing_state :: entry_timing_state
  dr_price_location_state :: price_location_state
  dr_theme_id :: "string option"
  dr_theme_name :: "string option"
  dr_theme_state :: "string option"
  dr_theme_rank :: "int option"
  dr_stock_role :: "string option"
  dr_priority_score :: "rat option"
  dr_current_price :: rat
  dr_limit_price :: rat
  dr_limit_price_source :: string
  dr_limit_price_offset_ticks :: int
  dr_suggested_quantity :: int
  dr_suggested_notional :: rat
  dr_max_notional :: rat
  dr_risk_budget_source :: string
  dr_expires_at :: instant
  dr_idempotency_key :: string
  dr_reason_codes :: "string list"
  dr_created_at :: instant

definition draft_valid :: "draft \<Rightarrow> bool" where
  "draft_valid d \<longleftrightarrow>
     (\<forall>s \<in> {dr_order_plan_id d, dr_trade_date d, dr_candidate_instance_id d, dr_code d, dr_name d,
             dr_limit_price_source d, dr_risk_budget_source d, dr_idempotency_key d}. py_strip s \<noteq> [])
   \<and> py_upper (py_strip (dr_side d)) = ''BUY''
   \<and> (\<forall>v \<in> {dr_theme_id d, dr_theme_name d, dr_theme_state d, dr_stock_role d}. opt_ok (\<lambda>s. py_strip s \<noteq> []) v)
   \<and> opt_ok (\<lambda>n. 0 \<le> n) (dr_theme_rank d) \<and> opt_ok (\<lambda>x. 0 \<le> x) (dr_priority_score d)
   \<and> 0 \<le> dr_suggested_notional d \<and> 0 \<le> dr_max_notional d \<and> 0 < dr_current_price d \<and> 0 < dr_limit_price d
   \<and> 0 \<le> dr_limit_price_offset_ticks d \<and> 0 \<le> dr_suggested_quantity d"

definition make_draft :: "draft \<Rightarrow> draft result" where
  \<comment> \<open>the constructor: validation, then normalised reasons\<close>
  "make_draft d =
     (if \<not> draft_valid d then Inl (BrokerValidationError ''order plan draft'')
      else rbind (normalize_reasons (dr_reason_codes d)) (\<lambda>rs. Inr (d\<lparr> dr_reason_codes := rs \<rparr>)))"

definition plan_quantity :: "order_plan_status \<Rightarrow> rat \<Rightarrow> rat \<Rightarrow> int \<Rightarrow> int \<times> string list" where
  "plan_quantity status configured max_notional limit =
     (let quantity = \<lfloor>configured / of_int limit\<rfloor> in
      if status = PLAN_READY \<and> quantity < 1 \<and> of_int limit \<le> max_notional
      then (1, [''MOMENTUM_CONTINUATION_MIN_QUANTITY_FLOOR''])
      else (if status = PLAN_READY then quantity else 0, []))"

definition plan_draft ::
  "(string \<Rightarrow> string) \<Rightarrow> instant \<Rightarrow> timing_settings \<Rightarrow> timing_input \<Rightarrow> evaluation \<Rightarrow> order_plan_status \<Rightarrow> string list
     \<Rightarrow> limit_price_result \<Rightarrow> int \<Rightarrow> draft" where
  "plan_draft sha now st item ev status status_reasons lp limit =
     (let key = make_order_plan_idempotency_key sha item ev;
          rc = route_risk_controls ev st;
          max_notional = st_max_notional st;
          configured = min (st_default_notional st * rc_size_multiplier rc) max_notional;
          (quantity, floor_reasons) = plan_quantity status configured max_notional limit;
          (priority, priority_reasons) = order_plan_priority item;
          reasons = dedupe_upper (ev_reason_codes ev @ status_reasons @ lp_reason_codes lp @ priority_reasons
            @ rc_reason_codes rc @ floor_reasons
            @ [''BUY_LIMIT_ONLY'', if status = PLAN_READY then ''PLAN_READY_NOT_ORDER_APPROVAL'' else ''NEAR_MISS_RETAINED'']) in
      \<lparr> dr_order_plan_id = order_plan_id_from_key sha key, dr_trade_date = in_trade_date item,
        dr_candidate_instance_id = in_candidate_instance_id item, dr_code = in_code item, dr_name = in_name item,
        dr_side = ''BUY'', dr_status = status, dr_setup_type = ev_setup_type ev,
        dr_entry_timing_state = ev_entry_timing_state ev, dr_price_location_state = ev_price_location_state ev,
        dr_theme_id = in_theme_id item, dr_theme_name = in_theme_name item, dr_theme_state = in_theme_state item,
        dr_theme_rank = in_theme_rank item, dr_stock_role = in_stock_role item, dr_priority_score = priority,
        dr_current_price = (case in_current_price item of Some c \<Rightarrow> c | None \<Rightarrow> 0), dr_limit_price = of_int limit,
        dr_limit_price_source = lp_source lp, dr_limit_price_offset_ticks = st_price_offset_ticks st,
        dr_suggested_quantity = quantity, dr_suggested_notional = of_int (quantity * limit),
        dr_max_notional = max_notional, dr_risk_budget_source = ''ENTRY_TIMING_PILOT'',
        dr_expires_at = after_sec now (rc_ttl_seconds rc), dr_idempotency_key = key, dr_reason_codes = reasons,
        dr_created_at = now \<rparr>)"

definition build ::
  "repr \<Rightarrow> (string \<Rightarrow> string) \<Rightarrow> instant \<Rightarrow> timing_settings \<Rightarrow> timing_input \<Rightarrow> evaluation \<Rightarrow> draft option result" where
  "build rp sha now st item ev =
     rbind (resolve_status rp st item ev) (\<lambda>(status, status_reasons).
       if status \<notin> {PLAN_READY, WAIT_RETRY, PLAN_DATA_WAIT} then Inr None
       else let lp = calculate_limit_price st item in
         case lp_limit_price lp of
           None \<Rightarrow> Inr None
         | Some limit \<Rightarrow> rbind (make_draft (plan_draft sha now st item ev status status_reasons lp limit)) (\<lambda>d. Inr (Some d)))"


section \<open>Lemmas\<close>

definition configured_notional :: "timing_settings \<Rightarrow> evaluation \<Rightarrow> rat" where
  "configured_notional st ev = min (st_default_notional st * rc_size_multiplier (route_risk_controls ev st)) (st_max_notional st)"

lemma make_draft_keeps:
  "make_draft d = Inr d' \<Longrightarrow> draft_valid d \<and> (\<exists>rs. d' = d\<lparr> dr_reason_codes := rs \<rparr>)"
  by (auto simp: make_draft_def rbind_Inr_iff split: if_splits)

lemma plan_draft_simps:
  "dr_status (plan_draft sha now st item ev status rs lp limit) = status"
  "dr_side (plan_draft sha now st item ev status rs lp limit) = ''BUY''"
  "dr_limit_price (plan_draft sha now st item ev status rs lp limit) = of_int limit"
  "dr_max_notional (plan_draft sha now st item ev status rs lp limit) = st_max_notional st"
  "dr_suggested_quantity (plan_draft sha now st item ev status rs lp limit) =
     fst (plan_quantity status (configured_notional st ev) (st_max_notional st) limit)"
  "dr_suggested_notional (plan_draft sha now st item ev status rs lp limit) =
     of_int (fst (plan_quantity status (configured_notional st ev) (st_max_notional st) limit) * limit)"
  "dr_expires_at (plan_draft sha now st item ev status rs lp limit) = after_sec now (rc_ttl_seconds (route_risk_controls ev st))"
  "dr_entry_timing_state (plan_draft sha now st item ev status rs lp limit) = ev_entry_timing_state ev"
  by (simp_all add: plan_draft_def Let_def configured_notional_def split: prod.splits)

lemma build_SomeD:
  assumes "build rp sha now st item ev = Inr (Some d)"
  shows "\<exists>status rs limit reasons. resolve_status rp st item ev = Inr (status, rs)
     \<and> lp_limit_price (calculate_limit_price st item) = Some limit
     \<and> d = (plan_draft sha now st item ev status rs (calculate_limit_price st item) limit)\<lparr> dr_reason_codes := reasons \<rparr>"
  using assms by (auto simp: build_def rbind_Inr_iff Let_def split: prod.splits if_splits option.splits dest!: make_draft_keeps)

lemma plan_quantity_bounds:
  assumes "0 < limit" "0 \<le> configured" "configured \<le> max_notional"
  shows "0 \<le> fst (plan_quantity status configured max_notional limit)"
    and "status \<noteq> PLAN_READY \<Longrightarrow> fst (plan_quantity status configured max_notional limit) = 0"
    and "status = PLAN_READY \<Longrightarrow> (1 \<le> fst (plan_quantity status configured max_notional limit)) = (of_int limit \<le> max_notional)"
    and "of_int (fst (plan_quantity status configured max_notional limit) * limit) \<le> max_notional"
    and "of_int (fst (plan_quantity status configured max_notional limit) * limit) \<le> max configured (of_int limit)"
proof -
  define q where "q = \<lfloor>configured / of_int limit\<rfloor>"
  have q0: "0 \<le> q" using assms by (simp add: q_def)
  have fl: "of_int (q * limit) \<le> configured"
    using floor_divide_lower [of "of_int limit" configured] assms(1) by (simp add: q_def)
  have one: "1 \<le> q \<Longrightarrow> of_int limit \<le> configured"
  proof -
    assume "1 \<le> q"
    then have "1 * limit \<le> q * limit" using assms(1) by (intro mult_right_mono) auto
    then have "of_int limit \<le> (of_int (q * limit) :: rat)" by (simp only: of_int_le_iff)
    then show "of_int limit \<le> configured" using fl by simp
  qed
  note d = plan_quantity_def Let_def q_def [symmetric]
  show "0 \<le> fst (plan_quantity status configured max_notional limit)" using q0 by (simp add: d)
  show "status \<noteq> PLAN_READY \<Longrightarrow> fst (plan_quantity status configured max_notional limit) = 0" by (simp add: d)
  show "status = PLAN_READY \<Longrightarrow> (1 \<le> fst (plan_quantity status configured max_notional limit)) = (of_int limit \<le> max_notional)"
    using one assms(3) by (auto simp: d)
  show "of_int (fst (plan_quantity status configured max_notional limit) * limit) \<le> max_notional"
    using fl assms by (auto simp: d)
  show "of_int (fst (plan_quantity status configured max_notional limit) * limit) \<le> max configured (of_int limit)"
    using fl assms(1,2) by (auto simp: d le_max_iff_disj)
qed

lemma limit_price_on_grid:
  assumes "lp_limit_price (calculate_limit_price st item) = Some limit"
  shows "on_grid limit \<and> 0 \<le> st_price_offset_ticks st
     \<and> (\<exists>base p. fst (reference_price st item (the (in_current_price item))) = base \<and> 0 < base \<and> normalize_tick_price base = Inr p
          \<and> limit = (tick_up ^^ nat (st_price_offset_ticks st)) p)"
proof -
  obtain base source reason where r: "reference_price st item (the (in_current_price item)) = (base, source, reason)" by (metis prod_cases3)
  have add: "add_ticks base (st_price_offset_ticks st) = Inr limit"
    using assms r by (auto simp: calculate_limit_price_def no_limit_def split: if_splits sum.splits)
  then have pos: "0 < base" "0 \<le> st_price_offset_ticks st" by (auto simp: add_ticks_def split: if_splits)
  then obtain p where p: "normalize_tick_price base = Inr p" "on_grid p" using normalize_grid [OF pos(1)] by metis
  then have "limit = (tick_up ^^ nat (st_price_offset_ticks st)) p" using add add_ticks_eq [OF pos(1) p pos(2)] by simp
  then show ?thesis using r p pos on_grid_ups by auto
qed

lemma route_ttl_bounds: "1 \<le> st_plan_ttl_seconds st \<Longrightarrow>
   1 \<le> rc_ttl_seconds (route_risk_controls ev st) \<and> rc_ttl_seconds (route_risk_controls ev st) \<le> st_plan_ttl_seconds st"
proof -
  assume ttl: "1 \<le> st_plan_ttl_seconds st"
  then have "rat_trunc (of_int (st_plan_ttl_seconds st) * (1 / 2)) \<le> st_plan_ttl_seconds st"
    by (simp add: rat_trunc_def floor_le_iff)
  then show ?thesis using ttl by (simp add: route_risk_controls_def)
qed

lemma configured_bounds:
  "timing_settings_ok st \<Longrightarrow> 0 \<le> configured_notional st ev \<and> configured_notional st ev \<le> st_max_notional st"
  by (simp add: timing_settings_ok_def configured_notional_def route_risk_controls_def)

lemma py_strip_Nil: "py_strip s = [] \<longleftrightarrow> (\<forall>c \<in> set s. py_space c)"
proof
  assume "py_strip s = []"
  then have all: "\<forall>c \<in> set (dropWhile py_space s). py_space c" by (simp add: py_strip_def dropWhile_eq_Nil_conv)
  have "dropWhile py_space s = []"
  proof (rule ccontr)
    assume ne: "dropWhile py_space s \<noteq> []"
    then have "py_space (hd (dropWhile py_space s))" using all hd_in_set by blast
    then show False using ne dropWhile_no_head [of py_space s] by argo
  qed
  then show "\<forall>c \<in> set s. py_space c" by (simp add: dropWhile_eq_Nil_conv)
next
  assume "\<forall>c \<in> set s. py_space c"
  then have "dropWhile py_space s = []" by (simp add: dropWhile_eq_Nil_conv)
  then show "py_strip s = []" by (simp only: py_strip_def rev.simps dropWhile.simps)
qed

lemma py_strip_visible: "\<not> py_space c \<Longrightarrow> py_strip (c # s) \<noteq> []"
  by (simp add: py_strip_Nil)

lemma text_ok_strip: "text_ok s \<Longrightarrow> py_strip s \<noteq> []"
  by (simp add: text_ok_def)

lemma opt_ok_mono: "opt_ok p v \<Longrightarrow> (\<And>x. p x \<Longrightarrow> q x) \<Longrightarrow> opt_ok q v"
  by (simp add: opt_ok_def split: option.splits)

lemma key_not_blank: "py_strip (make_order_plan_idempotency_key sha item ev) \<noteq> []" "py_strip (order_plan_id_from_key sha key) \<noteq> []"
  unfolding make_order_plan_idempotency_key_def order_plan_id_from_key_def Let_def append_Cons
  by (rule py_strip_visible, code_simp)+

lemma priority_nonneg: "input_wf item \<Longrightarrow> opt_ok (\<lambda>x. 0 \<le> x) (fst (order_plan_priority item))"
proof -
  assume "input_wf item"
  then have "opt_ok (\<lambda>x. 0 \<le> x) (in_theme_priority_score item)" by (simp add: input_wf_def)
  then show ?thesis
    by (cases "in_theme_priority_score item"; cases "in_condition_fusion_priority_score item") (simp_all add: order_plan_priority_def opt_ok_def Let_def)
qed

lemma limit_price_facts:
  assumes "lp_limit_price (calculate_limit_price st item) = Some limit"
  shows "\<exists>c. in_current_price item = Some c \<and> 0 < c" "lp_source (calculate_limit_price st item) \<in> {''BEST_ASK'', ''CURRENT_PRICE''}"
  using assms
  by (auto simp: calculate_limit_price_def no_limit_def positive_def reference_price_def split: if_splits sum.splits option.splits)

lemma plan_draft_valid:
  assumes "timing_settings_ok st" "input_wf item" "lp_limit_price (calculate_limit_price st item) = Some limit"
  shows "draft_valid (plan_draft sha now st item ev status rs (calculate_limit_price st item) limit)"
proof -
  let ?d = "plan_draft sha now st item ev status rs (calculate_limit_price st item) limit"
  have l: "0 < limit" using limit_price_on_grid [OF assms(3)] on_grid_pos by blast
  note q = plan_quantity_bounds(1) [OF l, of "configured_notional st ev" "st_max_notional st" status]
  have src: "py_strip (lp_source (calculate_limit_price st item)) \<noteq> []"
    using limit_price_facts(2) [OF assms(3)] by (auto simp: py_strip_Nil py_space_def char_code_def)
  have fields: "dr_order_plan_id ?d = order_plan_id_from_key sha (make_order_plan_idempotency_key sha item ev)"
    "dr_idempotency_key ?d = make_order_plan_idempotency_key sha item ev" "dr_trade_date ?d = in_trade_date item"
    "dr_candidate_instance_id ?d = in_candidate_instance_id item" "dr_code ?d = in_code item" "dr_name ?d = in_name item"
    "dr_limit_price_source ?d = lp_source (calculate_limit_price st item)" "dr_risk_budget_source ?d = ''ENTRY_TIMING_PILOT''"
    "dr_theme_id ?d = in_theme_id item" "dr_theme_name ?d = in_theme_name item" "dr_theme_state ?d = in_theme_state item"
    "dr_stock_role ?d = in_stock_role item" "dr_theme_rank ?d = in_theme_rank item" "dr_priority_score ?d = fst (order_plan_priority item)"
    "dr_current_price ?d = (case in_current_price item of Some c \<Rightarrow> c | None \<Rightarrow> 0)"
    "dr_limit_price_offset_ticks ?d = st_price_offset_ticks st"
    by (simp_all add: plan_draft_def Let_def split: prod.splits)
  have texts: "py_strip ''ENTRY_TIMING_PILOT'' \<noteq> []" "py_upper (py_strip ''BUY'') = ''BUY''" by code_simp+
  have strips: "py_strip (in_trade_date item) \<noteq> []" "py_strip (in_candidate_instance_id item) \<noteq> []" "py_strip (in_code item) \<noteq> []"
    "py_strip (in_name item) \<noteq> []" "opt_ok (\<lambda>s. py_strip s \<noteq> []) (in_theme_id item)" "opt_ok (\<lambda>s. py_strip s \<noteq> []) (in_theme_name item)"
    "opt_ok (\<lambda>s. py_strip s \<noteq> []) (in_theme_state item)" "opt_ok (\<lambda>s. py_strip s \<noteq> []) (in_stock_role item)"
    using assms(2) by (auto simp: input_wf_def text_ok_strip elim!: opt_ok_mono)
  show ?thesis
    using limit_price_facts(1) [OF assms(3)] q configured_bounds [OF assms(1), of ev] assms(1,2) l src priority_nonneg [OF assms(2)]
    by (auto simp: draft_valid_def fields plan_draft_simps key_not_blank texts strips input_wf_def timing_settings_ok_def)
qed

lemma build_returns:
  assumes "timing_settings_ok st" "input_wf item"
    and "\<forall>d. dget (in_raw_context item) ''pipeline_coherency'' = PDict d \<longrightarrow> (\<exists>xs. iter_items (dget_or d ''reason_codes'' (PList [])) = Inr xs)"
  shows "\<exists>r. build rp sha now st item ev = Inr r"
proof -
  have "\<exists>status rs. resolve_status rp st item ev = Inr (status, rs)"
  proof (cases "coherency_blocks rp item")
    case True
    then obtain d where d: "dget (in_raw_context item) ''pipeline_coherency'' = PDict d"
      by (auto simp: coherency_blocks_def split: pyval.splits)
    then obtain xs where "iter_items (dget_or d ''reason_codes'' (PList [])) = Inr xs" using assms(3) by blast
    then show ?thesis using True d by (simp add: resolve_status_def coherency_reasons_def as_mapping_def)
  next
    case False
    then show ?thesis by (simp add: resolve_status_def)
  qed
  then obtain status rs where r: "resolve_status rp st item ev = Inr (status, rs)" by blast
  have make: "\<exists>d. make_draft (plan_draft sha now st item ev status rs (calculate_limit_price st item) limit) = Inr d"
    if "lp_limit_price (calculate_limit_price st item) = Some limit" for limit
  proof -
    let ?d = "plan_draft sha now st item ev status rs (calculate_limit_price st item) limit"
    have "\<exists>vs. dr_reason_codes ?d = dedupe_upper vs"
      by (auto simp: plan_draft_def Let_def split: prod.splits)
    then show ?thesis
      using plan_draft_valid [OF assms(1,2) that, of sha now ev status rs]
      by (auto simp: make_draft_def normalize_dedupe_upper)
  qed
  show ?thesis
  proof (cases "lp_limit_price (calculate_limit_price st item)")
    case None
    then show ?thesis by (simp add: build_def r)
  next
    case (Some limit)
    then show ?thesis using make [OF Some] by (auto simp: build_def r)
  qed
qed

lemma resolve_ready:
  assumes "resolve_status rp st item ev = Inr (PLAN_READY, rs)" "ev_status ev = PLAN_READY \<longleftrightarrow> ev_entry_timing_state ev \<in> set READY_TIMING_STATES"
  shows "ev_status ev = PLAN_READY" "\<not> coherency_blocks rp item" "soft_reasons st item = []"
    "in_risk_observation_status item \<notin> Some ` {''OBSERVE_BLOCK'', ''DATA_WAIT'', ''INVALID_CONTEXT'', ''STALE_CONTEXT''}"
  using assms by (simp_all add: resolve_status_def rbind_Inr_iff split: if_splits)

lemma no_soft_reasons:
  "soft_reasons st item = [] \<longleftrightarrow>
     (\<exists>n t x q r. in_spread_ticks item = Some n \<and> n \<le> st_max_spread_ticks st
       \<and> in_turnover_krw item = Some t \<and> st_min_turnover_krw st \<le> t
       \<and> in_execution_strength item = Some x \<and> st_min_execution_strength st \<le> x
       \<and> in_strategy_observation_status item = Some q \<and> (st_require_strategy_matched st \<longrightarrow> q = ''MATCHED_OBSERVATION'')
       \<and> in_risk_observation_status item = Some r \<and> (st_require_risk_observe_pass st \<longrightarrow> r = ''OBSERVE_PASS''))"
  by (auto simp: soft_reasons_def split: option.splits if_splits)

section \<open>Properties\<close>

definition sample_evaluation :: evaluation where
  "sample_evaluation = projr (evaluate_timing ''id'' 0 sample_settings sample_input)"

definition sample_draft :: draft where
  "sample_draft = the (projr (build (\<lambda>_. []) (\<lambda>_. ''0f'') 0 sample_settings sample_input sample_evaluation))"

lemma sample_facts:
  "timing_settings_ok sample_settings" "input_wf sample_input"
  "evaluate_timing ''id'' 0 sample_settings sample_input = Inr sample_evaluation"
  "build (\<lambda>_. []) (\<lambda>_. ''0f'') 0 sample_settings sample_input sample_evaluation = Inr (Some sample_draft)"
  "dr_status sample_draft = PLAN_READY" "dr_suggested_quantity sample_draft = 10"
  by code_simp+

text \<open>
  C27: What a draft may spend. Every draft is a buy at a limit price on the KRX tick grid, the configured number
  of ticks above the reference price, never for more than the maximal notional: quantity times limit price is
  within it, a draft that is not ready has quantity zero, a ready one has at least one share exactly if one share
  is affordable, and on the momentum route it spends at most half the default notional or one share. It expires
  after its creation, at most the configured time later.
\<close>

theorem plan_within_budget:
  assumes "timing_settings_ok st" "build rp sha now st item ev = Inr (Some d)"
  shows "\<exists>limit. dr_side d = ''BUY'' \<and> dr_limit_price d = of_int limit \<and> on_grid limit
     \<and> add_ticks (fst (reference_price st item (the (in_current_price item)))) (st_price_offset_ticks st) = Inr limit
     \<and> dr_suggested_notional d = of_int (dr_suggested_quantity d * limit) \<and> dr_suggested_notional d \<le> st_max_notional st
     \<and> (if dr_status d = PLAN_READY then (1 \<le> dr_suggested_quantity d \<longleftrightarrow> of_int limit \<le> st_max_notional st)
        else dr_suggested_quantity d = 0)
     \<and> 0 \<le> dr_suggested_quantity d
     \<and> (ev_entry_timing_state ev = ETS_MOMENTUM_CONTINUATION \<longrightarrow>
          dr_suggested_notional d \<le> max (st_default_notional st / 2) (of_int limit))
     \<and> now < dr_expires_at d \<and> dr_expires_at d \<le> after_sec now (st_plan_ttl_seconds st)"
proof -
  obtain status rs limit reasons where lim: "lp_limit_price (calculate_limit_price st item) = Some limit"
    and d: "d = (plan_draft sha now st item ev status rs (calculate_limit_price st item) limit)\<lparr> dr_reason_codes := reasons \<rparr>"
    using build_SomeD [OF assms(2)] by blast
  note grid = limit_price_on_grid [OF lim]
  note conf = configured_bounds [OF assms(1), of ev]
  note q = plan_quantity_bounds [OF on_grid_pos [OF conjunct1 [OF grid]] conjunct1 [OF conf] conjunct2 [OF conf], of status]
  have "1 \<le> st_plan_ttl_seconds st" using assms(1) by (simp add: timing_settings_ok_def)
  note ttl = route_ttl_bounds [OF this, of ev]
  have "configured_notional st ev \<le> st_default_notional st / 2" if "ev_entry_timing_state ev = ETS_MOMENTUM_CONTINUATION"
    using that by (simp add: configured_notional_def route_risk_controls_def)
  then have half: "of_int (fst (plan_quantity status (configured_notional st ev) (st_max_notional st) limit) * limit)
      \<le> max (st_default_notional st / 2) (of_int limit)" if "ev_entry_timing_state ev = ETS_MOMENTUM_CONTINUATION"
    using that q(5) by (meson max.mono order_refl order_trans)
  have add: "add_ticks (fst (reference_price st item (the (in_current_price item)))) (st_price_offset_ticks st) = Inr limit"
    using grid add_ticks_eq by (metis on_grid_ups normalize_grid sum.inject(2))
  show ?thesis
    unfolding d
    by (intro exI [of _ limit] conjI impI)
      (use grid q half add ttl in \<open>simp_all add: plan_draft_simps after_sec_def microseconds_def del: of_int_mult\<close>)
qed

theorem plan_within_budget_witness:
  "dr_suggested_notional sample_draft \<le> 100000 \<and> dr_side sample_draft = ''BUY'' \<and> 1 \<le> dr_suggested_quantity sample_draft"
proof -
  have "st_max_notional sample_settings = 100000" by code_simp
  then show ?thesis
    using plan_within_budget [OF sample_facts(1,4)] sample_facts(6) by auto
qed

text \<open>
  C38: Drafts are well-formed. For validated settings and inputs \<open>build\<close> raises nothing, whatever the evaluation,
  provided the reason codes of the pipeline context can be iterated over, and every draft it returns passes the
  validation of its own constructor, with non-blank identifiers.
\<close>

theorem built_draft_is_valid:
  assumes "timing_settings_ok st" "input_wf item"
    and "\<forall>d. dget (in_raw_context item) ''pipeline_coherency'' = PDict d \<longrightarrow> (\<exists>xs. iter_items (dget_or d ''reason_codes'' (PList [])) = Inr xs)"
  shows "\<exists>r. build rp sha now st item ev = Inr r \<and> (\<forall>d. r = Some d \<longrightarrow> draft_valid d)"
proof -
  obtain r where r: "build rp sha now st item ev = Inr r" using build_returns [OF assms] by blast
  have "draft_valid d" if "r = Some d" for d
    using build_SomeD [of rp sha now st item ev d] r that plan_draft_valid [OF assms(1,2)] by (auto simp: draft_valid_def)
  then show ?thesis using r by blast
qed

theorem built_draft_is_valid_witness: "draft_valid sample_draft"
proof -
  have "\<forall>d. dget (in_raw_context sample_input) ''pipeline_coherency'' = PDict d \<longrightarrow> (\<exists>xs. iter_items (dget_or d ''reason_codes'' (PList [])) = Inr xs)"
    by (simp add: sample_input_def)
  from built_draft_is_valid [OF sample_facts(1,2) this] show ?thesis using sample_facts(4) by (metis sum.inject(2))
qed

text \<open>
  From engine to plan. A draft that is ready, built from the engine's own evaluation, meets every guard of
  both: the context and role guards of the engine, a pipeline that is coherent, a known spread, turnover, execution
  strength, strategy and risk observation within the configured limits, and no blocking risk status.
\<close>

theorem ready_plan_is_guarded:
  assumes "evaluate_timing new_id t st item = Inr ev" "build rp sha now st item ev = Inr (Some d)" "dr_status d = PLAN_READY"
  shows "context_guards st item \<and> role_guard st item (dr_entry_timing_state d) \<and> \<not> coherency_blocks rp item
     \<and> in_risk_observation_status item \<notin> Some ` {''OBSERVE_BLOCK'', ''DATA_WAIT'', ''INVALID_CONTEXT'', ''STALE_CONTEXT''}
     \<and> (\<exists>n turnover x q r. in_spread_ticks item = Some n \<and> n \<le> st_max_spread_ticks st
       \<and> in_turnover_krw item = Some turnover \<and> st_min_turnover_krw st \<le> turnover
       \<and> in_execution_strength item = Some x \<and> st_min_execution_strength st \<le> x
       \<and> in_strategy_observation_status item = Some q \<and> (st_require_strategy_matched st \<longrightarrow> q = ''MATCHED_OBSERVATION'')
       \<and> in_risk_observation_status item = Some r \<and> (st_require_risk_observe_pass st \<longrightarrow> r = ''OBSERVE_PASS''))"
proof -
  obtain rs where v: "classify_timing st item (classify st item) = (ev_entry_timing_state ev, ev_setup_type ev, ev_status ev, rs)"
    using evaluate_timing_total [OF assms(1)] by blast
  obtain status srs limit reasons where r: "resolve_status rp st item ev = Inr (status, srs)"
    and d: "d = (plan_draft sha now st item ev status srs (calculate_limit_price st item) limit)\<lparr> dr_reason_codes := reasons \<rparr>"
    using build_SomeD [OF assms(2)] by blast
  have ready: "status = PLAN_READY" and state: "dr_entry_timing_state d = ev_entry_timing_state ev"
    using assms(3) d by (simp_all add: plan_draft_simps)
  note plan = resolve_ready [OF r [unfolded ready] ready_status_iff [OF v]]
  note v' = v [unfolded plan(1)]
  show ?thesis
    unfolding state
    by (intro conjI ready_context_guards [OF v'] ready_role_guard [OF v'] plan(2,4) plan(3) [unfolded no_soft_reasons])
qed

theorem ready_plan_is_guarded_witness:
  "context_guards sample_settings sample_input \<and> role_guard sample_settings sample_input (dr_entry_timing_state sample_draft)"
  using ready_plan_is_guarded [OF sample_facts(3,4,5)] by blast

end
