(* ===== verification/Exit_Policy.thy ===== *)
theory Exit_Policy
  imports Py_Prelude
begin

text \<open>
  When a long position is to be closed: \<open>domain/exit/policy.py\<close>.

  A policy and a position are records that have passed the checks of their constructors (\<open>make_policy\<close>,
  \<open>make_position\<close>); the flatten time, a text in the code, is the microsecond of the day it denotes. Prices and
  percentages are exact rationals. The evidence mapping of a trigger, an echo of the settings, is not modelled.
  The properties say which triggers fire and which is acted upon, that the trailing stop is a ratchet along
  any course of prices, and that the minimal holding time of a policy has no influence.
\<close>

datatype exit_trigger_type = STOP_LOSS | TAKE_PROFIT | TRAILING_STOP | MAX_HOLD | EOD_FLATTEN

datatype exit_order_style = SELL_LIMIT | STOP_SELL

definition EXIT_TRIGGER_PRIORITY :: "exit_trigger_type list" where
  "EXIT_TRIGGER_PRIORITY = [STOP_LOSS, TRAILING_STOP, EOD_FLATTEN, MAX_HOLD, TAKE_PROFIT]"

record exit_policy_config =
  xp_stop_loss_pct :: rat
  xp_take_profit_pct :: rat
  xp_trailing_activation_pct :: rat
  xp_trailing_stop_pct :: rat
  xp_minimum_hold_sec :: int
  xp_maximum_hold_sec :: int
  xp_eod_flatten_enabled :: bool
  xp_eod_flatten_time :: int
  xp_close_only :: bool
  xp_allow_short :: bool
  xp_policy_version :: string

definition DAY :: int where
  "DAY = 86400 * microseconds"

definition policy_error :: "exit_policy_config \<Rightarrow> string option" where
  "policy_error p =
     (if xp_stop_loss_pct p \<le> 0 then Some ''stop_loss_pct must be > 0''
      else if xp_take_profit_pct p \<le> 0 then Some ''take_profit_pct must be > 0''
      else if xp_trailing_stop_pct p \<le> 0 then Some ''trailing_stop_pct must be > 0''
      else if xp_trailing_activation_pct p < 0 then Some ''trailing_activation_pct must be >= 0''
      else if xp_minimum_hold_sec p < 0 then Some ''minimum_hold_sec must be >= 0''
      else if xp_maximum_hold_sec p < 1 then Some ''maximum_hold_sec must be >= 1''
      else if xp_maximum_hold_sec p < xp_minimum_hold_sec p then Some ''maximum_hold_sec must be >= minimum_hold_sec''
      else if \<not> (0 \<le> xp_eod_flatten_time p \<and> xp_eod_flatten_time p < DAY) then Some ''invalid isoformat string''
      else if \<not> xp_close_only p then Some ''shared exit policy must remain close-only''
      else if xp_allow_short p then Some ''shared exit policy does not allow short positions''
      else if py_strip (xp_policy_version p) = [] then Some ''policy_version is required''
      else None)"

record long_position =
  lp_entry_price :: rat
  lp_current_price :: rat
  lp_highest_price :: rat
  lp_quantity :: int
  lp_opened_at :: instant
  lp_observed_at :: instant

definition make_position :: "long_position \<Rightarrow> long_position result" where
  \<comment> \<open>\<open>LongPositionSnapshot.__post_init__\<close>\<close>
  "make_position s =
     (if lp_entry_price s \<le> 0 \<or> lp_current_price s \<le> 0 \<or> lp_highest_price s \<le> 0
      then Inl (ValueError ''position prices must be > 0'')
      else if lp_quantity s \<le> 0 then Inl (ValueError ''long position quantity must be > 0'')
      else if lp_opened_at s > lp_observed_at s then Inl (ValueError ''opened_at must not be after observed_at'')
      else Inr (s\<lparr> lp_highest_price := max (lp_highest_price s) (lp_current_price s) \<rparr>))"

record exit_trigger =
  xt_trigger_type :: exit_trigger_type
  xt_order_style :: exit_order_style
  xt_trigger_price :: "rat option"
  xt_current_price :: rat
  xt_hold_sec :: rat

record exit_decision =
  xd_triggers :: "exit_trigger list"
  xd_primary_trigger :: "exit_trigger option"
  xd_hold_sec :: rat

definition eod_due :: "instant \<Rightarrow> int \<Rightarrow> bool" where
  \<comment> \<open>Seoul is nine hours ahead of UTC\<close>
  "eod_due observed_at cutoff =
     (let local_time = (observed_at + 9 * 3600 * microseconds) mod DAY in
      cutoff \<le> local_time \<and> local_time < DAY - 1)"

definition hold_seconds :: "long_position \<Rightarrow> rat" where
  "hold_seconds s = max (of_int (lp_observed_at s - lp_opened_at s) / of_int microseconds) 0"

definition stop_price :: "exit_policy_config \<Rightarrow> long_position \<Rightarrow> rat" where
  "stop_price p s = lp_entry_price s * (1 - xp_stop_loss_pct p / 100)"

definition take_profit_price :: "exit_policy_config \<Rightarrow> long_position \<Rightarrow> rat" where
  "take_profit_price p s = lp_entry_price s * (1 + xp_take_profit_pct p / 100)"

definition trailing_activated :: "exit_policy_config \<Rightarrow> long_position \<Rightarrow> bool" where
  "trailing_activated p s \<longleftrightarrow> lp_highest_price s \<ge> lp_entry_price s * (1 + xp_trailing_activation_pct p / 100)"

definition trailing_stop_price :: "exit_policy_config \<Rightarrow> long_position \<Rightarrow> rat" where
  "trailing_stop_price p s = lp_highest_price s * (1 - xp_trailing_stop_pct p / 100)"

fun trigger_rank :: "exit_trigger_type \<Rightarrow> nat" where
  \<comment> \<open>\<open>EXIT_TRIGGER_PRIORITY.index\<close>\<close>
  "trigger_rank STOP_LOSS = 0"
| "trigger_rank TRAILING_STOP = 1"
| "trigger_rank EOD_FLATTEN = 2"
| "trigger_rank MAX_HOLD = 3"
| "trigger_rank TAKE_PROFIT = 4"

definition evaluate_long_exit_policy :: "long_position \<Rightarrow> exit_policy_config \<Rightarrow> exit_decision" where
  "evaluate_long_exit_policy s p =
     (let hold = hold_seconds s; current = lp_current_price s;
          trigger = (\<lambda>ty style price. \<lparr> xt_trigger_type = ty, xt_order_style = style, xt_trigger_price = price,
                       xt_current_price = current, xt_hold_sec = hold \<rparr>);
          triggers =
            (if current \<le> stop_price p s then [trigger STOP_LOSS STOP_SELL (Some (stop_price p s))] else [])
          @ (if current \<ge> take_profit_price p s then [trigger TAKE_PROFIT SELL_LIMIT (Some (take_profit_price p s))] else [])
          @ (if trailing_activated p s \<and> current \<le> trailing_stop_price p s
             then [trigger TRAILING_STOP STOP_SELL (Some (trailing_stop_price p s))] else [])
          @ (if hold \<ge> of_int (xp_maximum_hold_sec p) \<and> hold \<ge> of_int (xp_minimum_hold_sec p)
             then [trigger MAX_HOLD STOP_SELL None] else [])
          @ (if xp_eod_flatten_enabled p \<and> eod_due (lp_observed_at s) (xp_eod_flatten_time p)
             then [trigger EOD_FLATTEN STOP_SELL None] else []);
          ordered = sort_key (\<lambda>t. trigger_rank (xt_trigger_type t)) triggers in
      \<lparr> xd_triggers = ordered, xd_primary_trigger = (case ordered of [] \<Rightarrow> None | t # _ \<Rightarrow> Some t), xd_hold_sec = hold \<rparr>)"

section \<open>Lemmas\<close>

lemma trigger_rank_index: "trigger_rank t < length EXIT_TRIGGER_PRIORITY \<and> EXIT_TRIGGER_PRIORITY ! trigger_rank t = t"
  by (cases t) (simp_all add: EXIT_TRIGGER_PRIORITY_def numeral_eq_Suc)

definition due :: "exit_policy_config \<Rightarrow> long_position \<Rightarrow> exit_trigger_type \<Rightarrow> bool" where
  \<comment> \<open>the condition of each trigger\<close>
  "due p s ty = (case ty of
       STOP_LOSS \<Rightarrow> lp_current_price s \<le> stop_price p s
     | TAKE_PROFIT \<Rightarrow> lp_current_price s \<ge> take_profit_price p s
     | TRAILING_STOP \<Rightarrow> trailing_activated p s \<and> lp_current_price s \<le> trailing_stop_price p s
     | MAX_HOLD \<Rightarrow> hold_seconds s \<ge> of_int (xp_maximum_hold_sec p) \<and> hold_seconds s \<ge> of_int (xp_minimum_hold_sec p)
     | EOD_FLATTEN \<Rightarrow> xp_eod_flatten_enabled p \<and> eod_due (lp_observed_at s) (xp_eod_flatten_time p))"

definition ordered_types :: "exit_policy_config \<Rightarrow> long_position \<Rightarrow> exit_trigger_type list" where
  "ordered_types p s = map xt_trigger_type (xd_triggers (evaluate_long_exit_policy s p))"

lemma ordered_types_eq: "ordered_types p s = filter (due p s) EXIT_TRIGGER_PRIORITY"
  unfolding ordered_types_def evaluate_long_exit_policy_def due_def EXIT_TRIGGER_PRIORITY_def Let_def
  by simp

lemma primary_eq: "map_option xt_trigger_type (xd_primary_trigger (evaluate_long_exit_policy s p)) = find (due p s) EXIT_TRIGGER_PRIORITY"
proof -
  have "map_option xt_trigger_type (xd_primary_trigger (evaluate_long_exit_policy s p)) =
      (case ordered_types p s of [] \<Rightarrow> None | t # _ \<Rightarrow> Some t)"
    by (simp add: ordered_types_def evaluate_long_exit_policy_def Let_def split: list.splits)
  also have "\<dots> = find (due p s) EXIT_TRIGGER_PRIORITY"
    unfolding ordered_types_eq by (simp add: EXIT_TRIGGER_PRIORITY_def)
  finally show ?thesis .
qed

lemma policy_facts:
  "policy_error p = None \<Longrightarrow> 0 < xp_stop_loss_pct p \<and> 0 < xp_take_profit_pct p \<and> 0 < xp_trailing_stop_pct p
     \<and> 0 \<le> xp_trailing_activation_pct p \<and> xp_minimum_hold_sec p \<le> xp_maximum_hold_sec p"
  by (simp add: policy_error_def split: if_splits)

text \<open>The course of a position: each observation keeps the highest price seen so far.\<close>

definition observe :: "long_position \<Rightarrow> rat \<times> instant \<Rightarrow> long_position result" where
  "observe s = (\<lambda>(price, time). make_position (s\<lparr> lp_current_price := price, lp_observed_at := time \<rparr>))"

fun course :: "long_position \<Rightarrow> (rat \<times> instant) list \<Rightarrow> long_position result" where
  "course s [] = Inr s"
| "course s (x # xs) = rbind (observe s x) (\<lambda>s'. course s' xs)"

lemma course_facts:
  assumes "course s xs = Inr s'" "0 < lp_entry_price s"
  shows "lp_entry_price s' = lp_entry_price s \<and> lp_highest_price s' = foldl max (lp_highest_price s) (map fst xs)
     \<and> (xs \<noteq> [] \<longrightarrow> lp_current_price s' = fst (last xs))"
  using assms
proof (induction xs arbitrary: s)
  case (Cons x xs)
  obtain t where t: "observe s x = Inr t" "course t xs = Inr s'" using Cons.prems(1) by (auto simp: rbind_Inr_iff)
  have "lp_entry_price t = lp_entry_price s" "lp_highest_price t = max (lp_highest_price s) (fst x)" "lp_current_price t = fst x"
    using t(1) by (auto simp: observe_def make_position_def split: prod.splits if_splits)
  then show ?case using Cons.IH [OF t(2)] Cons.prems(2) t(2) by (cases xs) auto
qed simp

lemma foldl_max_ge: "(a :: rat) \<le> foldl max a xs \<and> (\<forall>x \<in> set xs. x \<le> foldl max a xs)"
proof (induction xs arbitrary: a)
  case (Cons x xs)
  show ?case using Cons [of "max a x"] by auto
qed simp

lemma minimum_hold_ignored:
  "stop_price (p\<lparr> xp_minimum_hold_sec := m \<rparr>) s = stop_price p s"
  "take_profit_price (p\<lparr> xp_minimum_hold_sec := m \<rparr>) s = take_profit_price p s"
  "trailing_activated (p\<lparr> xp_minimum_hold_sec := m \<rparr>) s = trailing_activated p s"
  "trailing_stop_price (p\<lparr> xp_minimum_hold_sec := m \<rparr>) s = trailing_stop_price p s"
  by (simp_all add: stop_price_def take_profit_price_def trailing_activated_def trailing_stop_price_def)

section \<open>Properties\<close>

text \<open>
  Which exits fire and which one is acted upon. The triggers of a decision are exactly those that are due,
  in the order of \<open>EXIT_TRIGGER_PRIORITY\<close>, and the primary one is the first. So at or below the stop price the
  stop loss is acted upon whatever else is due, and the profit is taken only if nothing else is due; both cannot
  be due at once. The minimal holding time changes nothing: for two valid policies that differ only in it, the same triggers fire.
\<close>

theorem exit_priority:
  assumes "policy_error p = None" "0 < lp_entry_price s"
  shows "map xt_trigger_type (xd_triggers (evaluate_long_exit_policy s p)) = filter (due p s) EXIT_TRIGGER_PRIORITY
     \<and> map_option xt_trigger_type (xd_primary_trigger (evaluate_long_exit_policy s p)) = find (due p s) EXIT_TRIGGER_PRIORITY
     \<and> (map_option xt_trigger_type (xd_primary_trigger (evaluate_long_exit_policy s p)) = Some STOP_LOSS
          \<longleftrightarrow> lp_current_price s \<le> stop_price p s)
     \<and> (map_option xt_trigger_type (xd_primary_trigger (evaluate_long_exit_policy s p)) = Some TAKE_PROFIT
          \<longleftrightarrow> (\<forall>ty. due p s ty \<longleftrightarrow> ty = TAKE_PROFIT))
     \<and> \<not> (due p s STOP_LOSS \<and> due p s TAKE_PROFIT)
     \<and> (\<forall>m. policy_error (p\<lparr> xp_minimum_hold_sec := m \<rparr>) = None \<longrightarrow>
          evaluate_long_exit_policy s (p\<lparr> xp_minimum_hold_sec := m \<rparr>) = evaluate_long_exit_policy s p)"
proof -
  note pf = policy_facts [OF assms(1)]
  have "stop_price p s < lp_entry_price s" "lp_entry_price s < take_profit_price p s"
    using pf assms(2) by (simp_all add: stop_price_def take_profit_price_def algebra_simps)
  then have excl: "\<not> (due p s STOP_LOSS \<and> due p s TAKE_PROFIT)" by (auto simp: due_def)
  have profit: "find (due p s) EXIT_TRIGGER_PRIORITY = Some TAKE_PROFIT \<longleftrightarrow> (\<forall>ty. due p s ty \<longleftrightarrow> ty = TAKE_PROFIT)"
  proof
    assume "find (due p s) EXIT_TRIGGER_PRIORITY = Some TAKE_PROFIT"
    then show "\<forall>ty. due p s ty \<longleftrightarrow> ty = TAKE_PROFIT"
      by (intro allI, case_tac ty) (auto simp: EXIT_TRIGGER_PRIORITY_def split: if_splits)
  qed (simp add: EXIT_TRIGGER_PRIORITY_def)
  have stop: "find (due p s) EXIT_TRIGGER_PRIORITY = Some STOP_LOSS \<longleftrightarrow> lp_current_price s \<le> stop_price p s"
    by (simp add: EXIT_TRIGGER_PRIORITY_def due_def)
  have hold: "evaluate_long_exit_policy s (p\<lparr> xp_minimum_hold_sec := m \<rparr>) = evaluate_long_exit_policy s p"
    if "policy_error (p\<lparr> xp_minimum_hold_sec := m \<rparr>) = None" for m
  proof -
    have "m \<le> xp_maximum_hold_sec p" using policy_facts [OF that] by simp
    then have "of_int m \<le> (of_int (xp_maximum_hold_sec p) :: rat)" "of_int (xp_minimum_hold_sec p) \<le> (of_int (xp_maximum_hold_sec p) :: rat)"
      using pf by simp_all
    then have "(h \<ge> of_int (xp_maximum_hold_sec p) \<and> h \<ge> of_int m) = (h \<ge> of_int (xp_maximum_hold_sec p) \<and> h \<ge> of_int (xp_minimum_hold_sec p))"
      for h :: rat by linarith
    then show ?thesis
      unfolding evaluate_long_exit_policy_def Let_def minimum_hold_ignored by simp
  qed
  show ?thesis
    unfolding primary_eq ordered_types_def [symmetric] ordered_types_eq
    using excl profit stop hold by blast
qed

definition sample_policy :: exit_policy_config where
  "sample_policy = \<lparr> xp_stop_loss_pct = 2, xp_take_profit_pct = 3, xp_trailing_activation_pct = 1, xp_trailing_stop_pct = 1,
     xp_minimum_hold_sec = 30, xp_maximum_hold_sec = 600, xp_eod_flatten_enabled = True, xp_eod_flatten_time = 54900 * microseconds,
     xp_close_only = True, xp_allow_short = False, xp_policy_version = ''shared_exit_policy/v1'' \<rparr>"

definition sample_position :: long_position where
  "sample_position = \<lparr> lp_entry_price = 1000, lp_current_price = 975, lp_highest_price = 1020, lp_quantity = 1,
     lp_opened_at = 0, lp_observed_at = 700 * microseconds \<rparr>"

theorem exit_priority_witness:
  "map xt_trigger_type (xd_triggers (evaluate_long_exit_policy sample_position sample_policy)) = [STOP_LOSS, TRAILING_STOP, MAX_HOLD]
   \<and> evaluate_long_exit_policy sample_position (sample_policy\<lparr> xp_minimum_hold_sec := 600 \<rparr>) = evaluate_long_exit_policy sample_position sample_policy"
proof -
  have ok: "policy_error sample_policy = None" "0 < lp_entry_price sample_position" "policy_error (sample_policy\<lparr> xp_minimum_hold_sec := 600 \<rparr>) = None"
    by code_simp+
  have "filter (due sample_policy sample_position) EXIT_TRIGGER_PRIORITY = [STOP_LOSS, TRAILING_STOP, MAX_HOLD]" by code_simp
  then show ?thesis using exit_priority [OF ok(1,2)] ok(3) by auto
qed

text \<open>
  C39: The trailing stop is a ratchet if its distance is at most a hundred percent. Along any course of observed prices,
  which the callers carry from one position to the next by its highest price, that price is the maximum seen, so
  the trailing stop never falls; once any price has reached the activation level, every later observation
  at or below the trailing distance under the maximum has the trailing stop due, and an exit is decided. The constructor
  of the policy accepts a larger distance; then the stop is negative and falls as the maximum rises.
\<close>

theorem trailing_stop_ratchet:
  assumes "policy_error p = None" "xp_trailing_stop_pct p \<le> 100" "0 < lp_entry_price s" "course s xs = Inr s'"
  shows "trailing_stop_price p s \<le> trailing_stop_price p s'
     \<and> (\<forall>x \<in> set xs. lp_entry_price s * (1 + xp_trailing_activation_pct p / 100) \<le> fst x
          \<and> lp_current_price s' \<le> Max (insert (lp_highest_price s) (fst ` set xs)) * (1 - xp_trailing_stop_pct p / 100) \<longrightarrow>
          due p s' TRAILING_STOP \<and> xd_primary_trigger (evaluate_long_exit_policy s' p) \<noteq> None)"
proof -
  note c = course_facts [OF assms(4,3)]
  have factor: "0 \<le> 1 - xp_trailing_stop_pct p / 100" using assms(2) by simp
  have high: "lp_highest_price s' = Max (insert (lp_highest_price s) (fst ` set xs))"
  proof -
    have "foldl max a ys = Max (insert a (set ys))" for a :: rat and ys
    proof (induction ys arbitrary: a)
      case (Cons y ys)
      have "foldl max a (y # ys) = Max (insert (max a y) (set ys))" using Cons by simp
      also have "\<dots> = Max (insert a (insert y (set ys)))" by (cases "ys = []") (auto simp: max.assoc)
      finally show ?case by simp
    qed simp
    then show ?thesis using c by simp
  qed
  have ge: "lp_highest_price s \<le> lp_highest_price s'" "\<forall>x \<in> set xs. fst x \<le> lp_highest_price s'" by (auto simp: high)
  have "trailing_stop_price p s \<le> trailing_stop_price p s'"
    unfolding trailing_stop_price_def using ge(1) factor by (rule mult_right_mono)
  moreover have "due p s' TRAILING_STOP \<and> xd_primary_trigger (evaluate_long_exit_policy s' p) \<noteq> None"
    if "x \<in> set xs" "lp_entry_price s * (1 + xp_trailing_activation_pct p / 100) \<le> fst x"
      "lp_current_price s' \<le> Max (insert (lp_highest_price s) (fst ` set xs)) * (1 - xp_trailing_stop_pct p / 100)" for x
  proof -
    have "fst x \<le> lp_highest_price s'" using ge(2) that(1) by blast
    then have due: "due p s' TRAILING_STOP"
      using that(2,3) c by (simp add: due_def trailing_activated_def trailing_stop_price_def high [symmetric])
    then have "find (due p s') EXIT_TRIGGER_PRIORITY \<noteq> None" by (auto simp: find_None_iff EXIT_TRIGGER_PRIORITY_def)
    then show ?thesis using due primary_eq [of s' p] by auto
  qed
  ultimately show ?thesis by blast
qed

theorem trailing_stop_ratchet_witness:
  "\<exists>s'. course sample_position [(1030, 701000000), (1015, 702000000)] = Inr s' \<and> xd_primary_trigger (evaluate_long_exit_policy s' sample_policy) \<noteq> None"
proof -
  let ?xs = "[(1030, 701000000), (1015, 702000000)] :: (rat \<times> instant) list"
  have ok: "policy_error sample_policy = None" "xp_trailing_stop_pct sample_policy \<le> 100" "0 < lp_entry_price sample_position" by code_simp+
  obtain s' where s': "course sample_position ?xs = Inr s'" "lp_current_price s' = 1015"
    by (simp add: observe_def make_position_def sample_position_def microseconds_def)
  have "(1030, 701000000) \<in> set ?xs" by simp
  moreover have "lp_entry_price sample_position * (1 + xp_trailing_activation_pct sample_policy / 100) \<le> 1030"
    "1015 \<le> Max (insert (lp_highest_price sample_position) (fst ` set ?xs)) * (1 - xp_trailing_stop_pct sample_policy / 100)"
    by (simp_all add: sample_position_def sample_policy_def)
  ultimately show ?thesis using trailing_stop_ratchet [OF ok s'(1)] s' by auto
qed

end
