(* ===== verification/Condition_Admission.thy ===== *)
theory Condition_Admission
  imports Py_Prelude
begin

text \<open>
  Which stocks a condition search may subscribe to: \<open>gateway/condition_admission.py\<close> with the profile of
  \<open>domain/broker/condition_profiles.py\<close>.

  The controller is a record of its four attributes; a dict is an association list whose first entry counts, a
  deque the list of its instants. \<open>decide\<close> raises when a runtime metric is not a number, so it is a result. The
  time is an argument. Budgets and decisions are records; their dictionaries are not modelled.
  \<open>admissions\<close> is any sequence of decisions; the properties are the budget, the rate of real-time
  admissions in every minute, the bound on initial ones and the accounts of the metrics.
\<close>

section \<open>Profiles\<close>

datatype condition_role = DISCOVERY | LEADER | PULLBACK | BREAKOUT | THEME_SPREAD | RISK_BLOCK | MANUAL

datatype price_subscribe_policy = SUBSCRIBE_NONE | BATCH | IMMEDIATE | REAL_ONLY

datatype condition_session_profile =
    PREOPEN_NXT | OPENING_0900_0915 | MORNING_TREND | MIDDAY | AFTERNOON | CLOSING

record condition_profile =
  cp_condition_name :: string
  cp_profile_id :: string
  cp_role :: condition_role
  cp_price_subscribe_policy :: price_subscribe_policy
  cp_priority :: int
  cp_max_initial :: int
  cp_max_realtime_per_min :: int

definition STRONG_ROLES :: "condition_role list" where
  "STRONG_ROLES = [LEADER, PULLBACK, BREAKOUT, MANUAL]"

section \<open>The adaptive budget\<close>

datatype feed_quality = GOOD | WARMUP | DEGRADED | CALLBACK_TIMEOUT

definition metric_int :: "pydict \<Rightarrow> string \<Rightarrow> int result" where
  \<comment> \<open>\<open>int(runtime_metrics.get(k) or 0)\<close>\<close>
  "metric_int d k = py_int (py_or (dget d k) (PInt 0))"

definition quality :: "repr \<Rightarrow> pydict \<Rightarrow> (feed_quality \<times> string list) result" where
  "quality rp d =
     (let health = py_upper (py_str rp (py_or (dget d ''realtime_subscription_health'') (PStr []))) in
      rbind (metric_int d ''parsed_price_tick_count'') (\<lambda>parsed.
      rbind (metric_int d ''realtime_parse_error_count'') (\<lambda>errors.
      rbind (metric_int d ''realtime_callback_count'') (\<lambda>callbacks.
      rbind (metric_int d ''registered_realtime_code_count'') (\<lambda>registered.
        Inr (if health \<in> {''CALLBACK_TIMEOUT'', ''ACTIVE_X_CALLBACK_SUSPECTED'', ''CORE_IO_BLOCKING_SUSPECTED''}
             then (CALLBACK_TIMEOUT, [health])
             else if health = ''PARSE_ERROR'' \<or> errors \<ge> 3 \<and> (of_int errors :: rat) > of_int (max parsed 1) / 2
             then (DEGRADED, [''REALTIME_PARSE_ERRORS_HIGH''])
             else if registered > 0 \<and> callbacks = 0 \<and> parsed = 0
             then (WARMUP, [''WAITING_FOR_FIRST_REALTIME_CALLBACK''])
             else (GOOD, [''REALTIME_QUALITY_OK''])))))))"

definition discovery_session_cap :: "condition_session_profile \<Rightarrow> int" where
  "discovery_session_cap s = (case s of
       PREOPEN_NXT \<Rightarrow> 0 | OPENING_0900_0915 \<Rightarrow> 80 | MORNING_TREND \<Rightarrow> 40 | MIDDAY \<Rightarrow> 12 | AFTERNOON \<Rightarrow> 10 | _ \<Rightarrow> 5)"

record budget =
  bu_quality_status :: feed_quality
  bu_reason_codes :: "string list"
  bu_cap :: int
  bu_registered :: int
  bu_session_profile :: condition_session_profile
  bu_role :: condition_role

definition budget_cap :: "condition_role \<Rightarrow> feed_quality \<Rightarrow> condition_session_profile \<Rightarrow> int \<Rightarrow> int" where
  "budget_cap role q session max_total =
     (let strong = (role \<in> set STRONG_ROLES);
          base = (if strong then 100 else if role = RISK_BLOCK then 0 else discovery_session_cap session);
          limited = (case q of
              DEGRADED \<Rightarrow> min base (if strong then 30 else 5)
            | CALLBACK_TIMEOUT \<Rightarrow> min base (if strong then 10 else 0)
            | WARMUP \<Rightarrow> min base (if strong then 20 else 8)
            | GOOD \<Rightarrow> base) in
      max (min limited (max max_total 0)) 0)"

definition adaptive_budget ::
  "repr \<Rightarrow> condition_profile \<Rightarrow> int \<Rightarrow> pydict \<Rightarrow> condition_session_profile \<Rightarrow> int \<Rightarrow> budget result" where
  "adaptive_budget rp profile registered metrics session max_total =
     rbind (quality rp metrics) (\<lambda>(q, reasons).
       Inr \<lparr> bu_quality_status = q, bu_reason_codes = reasons, bu_cap = budget_cap (cp_role profile) q session max_total,
             bu_registered = registered, bu_session_profile = session, bu_role = cp_role profile \<rparr>)"

section \<open>The controller\<close>

record admission =
  ad_profile_id :: string
  ad_role :: condition_role
  ad_action :: string
  ad_source :: string
  ad_subscribed :: bool
  ad_register_immediate :: bool
  ad_register_batch :: bool
  ad_reason_codes :: "string list"
  ad_priority :: int
  ad_adaptive_budget :: budget
  ad_decided_at :: instant

record profile_metric =
  pm_profile_id :: string
  pm_condition_name :: string
  pm_role :: condition_role
  pm_hit_count :: int
  pm_enter_count :: int
  pm_exit_count :: int
  pm_subscribed_count :: int
  pm_skipped_count :: int
  pm_skip_reason_summary :: "(string \<times> int) list"

record controller =
  ct_metrics :: "profile_metric list"
  ct_realtime_enter_at :: "(string \<times> instant list) list"
  ct_initial_enter_counts :: "(string \<times> int) list"
  ct_latest_budget :: "budget option"

definition new_controller :: controller where
  "new_controller = \<lparr> ct_metrics = [], ct_realtime_enter_at = [], ct_initial_enter_counts = [], ct_latest_budget = None \<rparr>"

definition alist_get :: "'v \<Rightarrow> (string \<times> 'v) list \<Rightarrow> string \<Rightarrow> 'v" where
  "alist_get v d k = (case map_of d k of None \<Rightarrow> v | Some x \<Rightarrow> x)"

definition alist_put :: "string \<Rightarrow> 'v \<Rightarrow> (string \<times> 'v) list \<Rightarrow> (string \<times> 'v) list" where
  "alist_put k v d = (if k \<in> fst ` set d then map (\<lambda>(j, w). (j, if j = k then v else w)) d else d @ [(k, v)])"

definition drop_minute :: "instant \<Rightarrow> instant list \<Rightarrow> instant list" where
  "drop_minute now entries = dropWhile (\<lambda>e. now - e \<ge> 60 * microseconds) entries"

definition recent_entries :: "condition_profile \<Rightarrow> instant \<Rightarrow> controller \<Rightarrow> instant list" where
  "recent_entries profile now c = drop_minute now (alist_get [] (ct_realtime_enter_at c) (cp_profile_id profile))"

definition within_realtime_rate :: "condition_profile \<Rightarrow> instant \<Rightarrow> controller \<Rightarrow> bool \<times> controller" where
  "within_realtime_rate profile now c =
     (if cp_max_realtime_per_min profile \<le> 0 then (False, c)
      else (let entries = recent_entries profile now c in
            (int (length entries) < cp_max_realtime_per_min profile,
             c\<lparr> ct_realtime_enter_at := alist_put (cp_profile_id profile) entries (ct_realtime_enter_at c) \<rparr>)))"

definition initial_count :: "controller \<Rightarrow> string \<Rightarrow> int" where
  "initial_count c k = alist_get 0 (ct_initial_enter_counts c) k"

definition upper_reasons :: "string list \<Rightarrow> string list" where
  \<comment> \<open>\<open>_dedupe\<close>\<close>
  "upper_reasons vs = dedupe (filter (\<lambda>t. t \<noteq> []) (map (\<lambda>v. py_upper (py_strip v)) vs))"

definition choose_registration ::
  "condition_profile \<Rightarrow> string \<Rightarrow> string \<Rightarrow> int \<Rightarrow> int \<Rightarrow> condition_session_profile \<Rightarrow> bool \<Rightarrow> instant \<Rightarrow> controller
     \<Rightarrow> (bool \<times> bool \<times> string) \<times> controller" where
  \<comment> \<open>the chain of conditions: immediate, batch and the reason\<close>
  "choose_registration profile action source effective cap_value session batch_allowed now c =
     (let policy = cp_price_subscribe_policy profile;
          none = (\<lambda>reason. ((False, False, reason), c)) in
      if action \<noteq> ''ENTER'' then none ''EXIT_EVENT_NO_IMMEDIATE_REMOVE''
      else if cp_role profile = RISK_BLOCK then none ''RISK_BLOCK_NO_PRICE_SUBSCRIBE''
      else if policy = SUBSCRIBE_NONE then none ''PRICE_SUBSCRIBE_POLICY_NONE''
      else if source = ''tr_condition'' \<and> initial_count c (cp_profile_id profile) \<ge> cp_max_initial profile
        then none ''PROFILE_MAX_INITIAL_REACHED''
      else if effective \<ge> cap_value then none ''ADAPTIVE_REALTIME_BUDGET_EXHAUSTED''
      else
        (let (rate_ok, c') = (if source = ''real_condition'' then within_realtime_rate profile now c else (True, c)) in
         if \<not> rate_ok then ((False, False, ''PROFILE_REALTIME_RATE_LIMIT''), c')
         else if session \<in> {MIDDAY, AFTERNOON, CLOSING} \<and> cp_role profile = DISCOVERY
           then ((False, effective < cap_value \<and> source = ''tr_condition'' \<and> batch_allowed, ''SESSION_DISCOVERY_LIMITED''), c')
         else (case policy of
              IMMEDIATE \<Rightarrow> ((True, False, ''PRICE_SUBSCRIBE_IMMEDIATE''), c')
            | REAL_ONLY \<Rightarrow>
                (if source = ''real_condition'' then ((True, False, ''PRICE_SUBSCRIBE_REAL_ONLY''), c')
                 else ((False, False, ''PRICE_SUBSCRIBE_REAL_ONLY_SKIPPED_INITIAL''), c'))
            | BATCH \<Rightarrow>
                (if source = ''tr_condition'' \<and> batch_allowed then ((False, True, ''PRICE_SUBSCRIBE_BATCH_INITIAL''), c')
                 else if source = ''real_condition'' then ((True, False, ''PRICE_SUBSCRIBE_BATCH_REALTIME_IMMEDIATE''), c')
                 else ((False, False, ''PRICE_SUBSCRIBE_BATCH_DEFERRED''), c'))
            | SUBSCRIBE_NONE \<Rightarrow> ((False, False, []), c'))))"

definition record_enter :: "condition_profile \<Rightarrow> string \<Rightarrow> instant \<Rightarrow> controller \<Rightarrow> controller" where
  "record_enter profile source now c =
     (let k = cp_profile_id profile;
          c' = c\<lparr> ct_realtime_enter_at := alist_put k (alist_get [] (ct_realtime_enter_at c) k @ [now]) (ct_realtime_enter_at c) \<rparr> in
      if source = ''tr_condition''
      then c'\<lparr> ct_initial_enter_counts := alist_put k (initial_count c k + 1) (ct_initial_enter_counts c) \<rparr>
      else c')"

fun count_reasons :: "string list \<Rightarrow> (string \<times> int) list \<Rightarrow> (string \<times> int) list" where
  "count_reasons [] d = d"
| "count_reasons (r # rs) d = count_reasons rs (alist_put (py_upper r) (alist_get 0 d (py_upper r) + 1) d)"

definition fresh_metric :: "condition_profile \<Rightarrow> profile_metric" where
  "fresh_metric profile = \<lparr> pm_profile_id = cp_profile_id profile, pm_condition_name = cp_condition_name profile, pm_role = cp_role profile,
     pm_hit_count = 0, pm_enter_count = 0, pm_exit_count = 0, pm_subscribed_count = 0, pm_skipped_count = 0,
     pm_skip_reason_summary = [] \<rparr>"

definition count_decision :: "admission \<Rightarrow> profile_metric \<Rightarrow> profile_metric" where
  "count_decision d m = m\<lparr>
     pm_hit_count := pm_hit_count m + 1,
     pm_enter_count := pm_enter_count m + (if ad_action d = ''ENTER'' then 1 else 0),
     pm_exit_count := pm_exit_count m + (if ad_action d = ''EXIT'' then 1 else 0),
     pm_subscribed_count := pm_subscribed_count m + (if ad_subscribed d then 1 else 0),
     pm_skipped_count := pm_skipped_count m + (if ad_subscribed d then 0 else 1),
     pm_skip_reason_summary :=
       (if ad_subscribed d then pm_skip_reason_summary m else count_reasons (ad_reason_codes d) (pm_skip_reason_summary m)) \<rparr>"

definition record_metric :: "condition_profile \<Rightarrow> admission \<Rightarrow> profile_metric list \<Rightarrow> profile_metric list" where
  "record_metric profile d ms =
     (let k = cp_profile_id profile;
          ms' = (case lookup_by pm_profile_id k ms of None \<Rightarrow> ms @ [fresh_metric profile] | Some _ \<Rightarrow> ms) in
      sql_update (\<lambda>m. pm_profile_id m = k) (count_decision d) ms')"

record request =
  rq_profile :: condition_profile
  rq_action :: string
  rq_source :: string
  rq_registered :: int
  rq_metrics :: pydict
  rq_session :: condition_session_profile
  rq_max_total :: int
  rq_batch_allowed :: bool
  rq_planned_batch :: int
  rq_now :: instant

definition decide_admission :: "repr \<Rightarrow> request \<Rightarrow> controller \<Rightarrow> (admission \<times> controller) result" where
  "decide_admission rp r c =
     (let profile = rq_profile r; now = rq_now r;
          action = py_upper (rq_action r); source = py_lower (py_strip (rq_source r));
          effective = rq_registered r + max (rq_planned_batch r) 0 in
      rbind (adaptive_budget rp profile effective (rq_metrics r) (rq_session r) (rq_max_total r)) (\<lambda>b.
        let ((immediate, batch, reason), c1) =
              choose_registration profile action source effective (bu_cap b) (rq_session r) (rq_batch_allowed r) now c;
            subscribed = (immediate \<or> batch);
            c2 = (if subscribed then record_enter profile source now c1 else c1);
            d = \<lparr> ad_profile_id = cp_profile_id profile, ad_role = cp_role profile, ad_action = action, ad_source = source,
                  ad_subscribed = subscribed, ad_register_immediate = immediate, ad_register_batch = batch,
                  ad_reason_codes = upper_reasons [''CONDITION_SENSOR_EVIDENCE'', ''MARKET_SENSOR_NOT_BUY_SIGNAL'', reason],
                  ad_priority = cp_priority profile, ad_adaptive_budget = b, ad_decided_at = now \<rparr> in
        Inr (d, c2\<lparr> ct_metrics := record_metric profile d (ct_metrics c2), ct_latest_budget := Some b \<rparr>)))"

definition metrics_list :: "controller \<Rightarrow> profile_metric list" where
  \<comment> \<open>\<open>metrics\<close>: most hits first, then by profile id\<close>
  "metrics_list c = sort_key (\<lambda>m. (- pm_hit_count m, pm_profile_id m)) (ct_metrics c)"

section \<open>Runs\<close>

text \<open>
  \<open>admitted profile_of c now ds\<close>: the decisions \<open>ds\<close>, oldest first, led a new controller to \<open>c\<close>, the
  latest at \<open>now\<close>; the profile of the id \<open>k\<close> is \<open>profile_of k\<close>.
\<close>

inductive admitted :: "repr \<Rightarrow> (string \<Rightarrow> condition_profile) \<Rightarrow> controller \<Rightarrow> instant \<Rightarrow> admission list \<Rightarrow> bool"
  for rp profile_of where
  start: "admitted rp profile_of new_controller now []"
| step: "admitted rp profile_of c' (rq_now r) (ds @ [d])"
  if "admitted rp profile_of c now ds" "now \<le> rq_now r" "rq_profile r = profile_of (cp_profile_id (rq_profile r))"
    "decide_admission rp r c = Inr (d, c')"

definition admission_times :: "string \<Rightarrow> admission list \<Rightarrow> instant list" where
  "admission_times k ds = map ad_decided_at (filter (\<lambda>d. ad_subscribed d \<and> ad_profile_id d = k) ds)"

definition realtime_in_minute :: "string \<Rightarrow> instant \<Rightarrow> admission list \<Rightarrow> admission list" where
  "realtime_in_minute k t ds = filter (\<lambda>d. ad_subscribed d \<and> ad_profile_id d = k \<and> ad_source d = ''real_condition''
      \<and> t \<le> ad_decided_at d \<and> ad_decided_at d < t + 60 * microseconds) ds"

abbreviation enter_times :: "controller \<Rightarrow> string \<Rightarrow> instant list" where
  "enter_times c k \<equiv> alist_get [] (ct_realtime_enter_at c) k"

lemma map_of_replace: "map_of (map (\<lambda>(j, u). (j, if j = k then w else u)) d) j = map_option (\<lambda>u. if j = k then w else u) (map_of d j)"
  by (induction d) auto

lemma alist_get_put [simp]: "alist_get v (alist_put k w d) j = (if j = k then w else alist_get v d j)"
proof (cases "k \<in> fst ` set d")
  case True
  then obtain u where "map_of d k = Some u" by (metis map_of_eq_None_iff not_None_eq)
  then show ?thesis using True
    by (cases "map_of d j") (auto simp: alist_get_def alist_put_def map_of_replace)
next
  case False
  then have "map_of d k = None" by (simp add: map_of_eq_None_iff)
  then show ?thesis using False
    by (cases "map_of d j") (auto simp: alist_get_def alist_put_def map_add_def)
qed

lemma drop_minute_split: "\<exists>pre. es = pre @ drop_minute now es \<and> (\<forall>e \<in> set pre. 60 * microseconds \<le> now - e)"
  unfolding drop_minute_def
  by (rule exI [of _ "takeWhile (\<lambda>e. now - e \<ge> 60 * microseconds) es"]) (auto dest: set_takeWhileD)

lemma choose_cases:
  assumes "choose_registration profile action source effective cap_value session batch_allowed now c = ((immediate, batch, reason), c')"
  shows "(c' = c \<or> source = ''real_condition'' \<and> 0 < cp_max_realtime_per_min profile
            \<and> c' = c\<lparr> ct_realtime_enter_at := alist_put (cp_profile_id profile) (recent_entries profile now c) (ct_realtime_enter_at c) \<rparr>)
     \<and> \<not> (immediate \<and> batch)
     \<and> (batch \<longrightarrow> source = ''tr_condition'' \<and> batch_allowed)
     \<and> (immediate \<or> batch \<longrightarrow> action = ''ENTER'' \<and> cp_role profile \<noteq> RISK_BLOCK \<and> cp_price_subscribe_policy profile \<noteq> SUBSCRIBE_NONE
          \<and> effective < cap_value
          \<and> (source = ''tr_condition'' \<longrightarrow> initial_count c (cp_profile_id profile) < cp_max_initial profile)
          \<and> (source = ''real_condition'' \<longrightarrow> int (length (recent_entries profile now c)) < cp_max_realtime_per_min profile
               \<and> c' = c\<lparr> ct_realtime_enter_at := alist_put (cp_profile_id profile) (recent_entries profile now c) (ct_realtime_enter_at c) \<rparr>))"
  using assms
  by (auto simp: choose_registration_def within_realtime_rate_def Let_def
      split: if_splits price_subscribe_policy.splits)


definition initial_admissions :: "string \<Rightarrow> admission list \<Rightarrow> admission list" where
  "initial_admissions k ds = filter (\<lambda>d. ad_subscribed d \<and> ad_profile_id d = k \<and> ad_source d = ''tr_condition'') ds"

lemma budget_cap_bound: "budget_cap role q session max_total \<le> min 100 (max max_total 0)"
  by (cases session; cases q) (auto simp: budget_cap_def discovery_session_cap_def Let_def)

lemma decide_facts:
  assumes "decide_admission rp r c = Inr (d, c')"
  obtains b reason c1 where
    "adaptive_budget rp (rq_profile r) (rq_registered r + max (rq_planned_batch r) 0) (rq_metrics r) (rq_session r) (rq_max_total r) = Inr b"
    "choose_registration (rq_profile r) (py_upper (rq_action r)) (ad_source d) (rq_registered r + max (rq_planned_batch r) 0)
       (bu_cap b) (rq_session r) (rq_batch_allowed r) (rq_now r) c = ((ad_register_immediate d, ad_register_batch d, reason), c1)"
    "ad_subscribed d \<longleftrightarrow> ad_register_immediate d \<or> ad_register_batch d"
    "ad_profile_id d = cp_profile_id (rq_profile r)" "ad_source d = py_lower (py_strip (rq_source r))"
    "ad_action d = py_upper (rq_action r)" "ad_decided_at d = rq_now r" "ad_adaptive_budget d = b"
    "c' = (let c2 = (if ad_subscribed d then record_enter (rq_profile r) (ad_source d) (rq_now r) c1 else c1) in
        c2\<lparr> ct_metrics := record_metric (rq_profile r) d (ct_metrics c2), ct_latest_budget := Some b \<rparr>)"
proof -
  let ?eff = "rq_registered r + max (rq_planned_batch r) 0"
  obtain b where b: "adaptive_budget rp (rq_profile r) ?eff (rq_metrics r) (rq_session r) (rq_max_total r) = Inr b"
    using assms by (auto simp: decide_admission_def Let_def rbind_Inr_iff)
  obtain i bt reason c1 where ch: "choose_registration (rq_profile r) (py_upper (rq_action r)) (py_lower (py_strip (rq_source r))) ?eff
       (bu_cap b) (rq_session r) (rq_batch_allowed r) (rq_now r) c = ((i, bt, reason), c1)"
    by (metis prod.exhaust)
  show ?thesis
    by (rule that [of b reason c1]) (use assms b ch in \<open>auto simp: decide_admission_def Let_def\<close>)
qed

lemma enter_step:
  assumes "decide_admission rp r c = Inr (d, c')" and rq: "rq_now r = t" "cp_profile_id (rq_profile r) = i"
  shows "(ad_subscribed d \<and> ad_source d = ''real_condition'' \<longrightarrow>
        int (length (recent_entries (rq_profile r) t c)) < cp_max_realtime_per_min (rq_profile r)
        \<and> enter_times c' i = recent_entries (rq_profile r) t c @ [t])
     \<and> (\<exists>pre. enter_times c i @ (if ad_subscribed d then [t] else []) = pre @ enter_times c' i \<and> (\<forall>e \<in> set pre. 60 * microseconds \<le> t - e))
     \<and> (\<forall>k. k \<noteq> i \<longrightarrow> enter_times c' k = enter_times c k)
     \<and> initial_count c' i = initial_count c i + (if ad_subscribed d \<and> ad_source d = ''tr_condition'' then 1 else 0)
     \<and> (ad_subscribed d \<and> ad_source d = ''tr_condition'' \<longrightarrow> initial_count c i < cp_max_initial (rq_profile r))
     \<and> (\<forall>k. k \<noteq> i \<longrightarrow> initial_count c' k = initial_count c k)"
proof -
  from assms(1) show ?thesis
  proof (rule decide_facts)
    fix b reason c1
    assume ch: "choose_registration (rq_profile r) (py_upper (rq_action r)) (ad_source d) (rq_registered r + max (rq_planned_batch r) 0)
       (bu_cap b) (rq_session r) (rq_batch_allowed r) (rq_now r) c = ((ad_register_immediate d, ad_register_batch d, reason), c1)"
      and sub: "ad_subscribed d \<longleftrightarrow> ad_register_immediate d \<or> ad_register_batch d"
      and c': "c' = (let c2 = (if ad_subscribed d then record_enter (rq_profile r) (ad_source d) (rq_now r) c1 else c1) in
        c2\<lparr> ct_metrics := record_metric (rq_profile r) d (ct_metrics c2), ct_latest_budget := Some b \<rparr>)"
    note cc = choose_cases [OF ch]
    obtain pre where pre: "enter_times c i = pre @ recent_entries (rq_profile r) t c" "\<forall>e \<in> set pre. 60 * microseconds \<le> t - e"
      using drop_minute_split [of "enter_times c i" t] rq(2) by (auto simp: recent_entries_def)
    have c1: "enter_times c1 i = enter_times c i \<or> enter_times c1 i = recent_entries (rq_profile r) t c"
      "\<forall>k. k \<noteq> i \<longrightarrow> enter_times c1 k = enter_times c k" "initial_count c1 k = initial_count c k" for k
      using cc rq by (auto simp: initial_count_def)
    have st: "enter_times c' i = enter_times c1 i @ (if ad_subscribed d then [t] else [])"
      "\<forall>k. k \<noteq> i \<longrightarrow> enter_times c' k = enter_times c1 k"
      "initial_count c' i = initial_count c1 i + (if ad_subscribed d \<and> ad_source d = ''tr_condition'' then 1 else 0)"
      "\<forall>k. k \<noteq> i \<longrightarrow> initial_count c' k = initial_count c1 k"
      using rq by (auto simp: c' record_enter_def Let_def initial_count_def)
    have ex: "\<exists>pre. enter_times c i @ (if ad_subscribed d then [t] else []) = pre @ enter_times c' i \<and> (\<forall>e \<in> set pre. 60 * microseconds \<le> t - e)"
      using c1(1)
    proof
      assume "enter_times c1 i = enter_times c i"
      then show ?thesis by (intro exI [of _ "[]"]) (simp add: st)
    next
      assume "enter_times c1 i = recent_entries (rq_profile r) t c"
      then show ?thesis using pre by (intro exI [of _ pre]) (simp add: st)
    qed
    have real: "ad_subscribed d \<and> ad_source d = ''real_condition'' \<longrightarrow>
        int (length (recent_entries (rq_profile r) t c)) < cp_max_realtime_per_min (rq_profile r)
        \<and> enter_times c1 i = recent_entries (rq_profile r) t c"
      using cc [THEN conjunct2, THEN conjunct2, THEN conjunct2] rq unfolding sub by auto
    have init: "ad_subscribed d \<and> ad_source d = ''tr_condition'' \<longrightarrow> initial_count c i < cp_max_initial (rq_profile r)"
      using cc [THEN conjunct2, THEN conjunct2, THEN conjunct2] rq unfolding sub by auto
    have stay: "\<forall>k. k \<noteq> i \<longrightarrow> enter_times c' k = enter_times c k" "\<forall>k. k \<noteq> i \<longrightarrow> initial_count c' k = initial_count c k"
      "initial_count c' i = initial_count c i + (if ad_subscribed d \<and> ad_source d = ''tr_condition'' then 1 else 0)"
      using c1 st(2,3,4) by simp_all
    show ?thesis using real st(1) ex stay init by (intro conjI) simp_all
  qed
qed

definition admission_inv :: "(string \<Rightarrow> condition_profile) \<Rightarrow> controller \<Rightarrow> instant \<Rightarrow> admission list \<Rightarrow> bool" where
  "admission_inv profile_of c now ds \<longleftrightarrow>
     (\<forall>k. \<exists>pre. admission_times k ds = pre @ enter_times c k \<and> (\<forall>e \<in> set pre. 60 * microseconds \<le> now - e))
     \<and> (\<forall>d \<in> set ds. ad_decided_at d \<le> now)
     \<and> (\<forall>k t. int (length (realtime_in_minute k t ds)) \<le> max (cp_max_realtime_per_min (profile_of k)) 0)
     \<and> (\<forall>k. initial_count c k = int (length (initial_admissions k ds))
          \<and> int (length (initial_admissions k ds)) \<le> max (cp_max_initial (profile_of k)) 0)"

lemma realtime_window_recent:
  assumes times: "admission_times k ds = pre @ es" and old: "\<forall>e \<in> set pre. 60 * microseconds \<le> now - e"
    and rec: "es = pre' @ rec" "\<forall>e \<in> set pre'. 60 * microseconds \<le> now - e" and win: "now < t + 60 * microseconds"
  shows "length (realtime_in_minute k t ds) \<le> length rec"
proof -
  let ?w = "\<lambda>e. t \<le> e \<and> e < t + 60 * microseconds"
  have none: "filter ?w pre = []" "filter ?w pre' = []" using old rec(2) win by (fastforce simp: filter_empty_conv)+
  have "length (realtime_in_minute k t ds) \<le> length (filter ?w (admission_times k ds))"
    unfolding realtime_in_minute_def admission_times_def by (induction ds) auto
  also have "\<dots> = length (filter ?w rec)" by (simp add: times rec(1) none)
  also have "\<dots> \<le> length rec" by simp
  finally show ?thesis .
qed

lemma admitted_inv: "admitted rp profile_of c now ds \<Longrightarrow> admission_inv profile_of c now ds"
proof (induction rule: admitted.induct)
  case (start now)
  show ?case by (simp add: admission_inv_def admission_times_def realtime_in_minute_def initial_admissions_def
      new_controller_def alist_get_def initial_count_def)
next
  case (step c now ds r d c')
  let ?i = "cp_profile_id (rq_profile r)" and ?t = "rq_now r"
  have d: "ad_profile_id d = ?i" "ad_decided_at d = ?t" using decide_facts [OF step.hyps(4)] by metis+
  note es = enter_step [OF step.hyps(4) refl refl]
  note inv = step.IH [unfolded admission_inv_def]
  have prof: "profile_of ?i = rq_profile r" using step.hyps(3) by simp
  have times: "\<exists>pre. admission_times k (ds @ [d]) = pre @ enter_times c' k \<and> (\<forall>e \<in> set pre. 60 * microseconds \<le> ?t - e)" for k
  proof -
    obtain pre where pre: "admission_times k ds = pre @ enter_times c k" "\<forall>e \<in> set pre. 60 * microseconds \<le> ?t - e"
      using inv step.hyps(2) by fastforce
    show ?thesis
    proof (cases "k = ?i")
      case True
      obtain q where q: "enter_times c ?i @ (if ad_subscribed d then [?t] else []) = q @ enter_times c' ?i"
        "\<forall>e \<in> set q. 60 * microseconds \<le> ?t - e" using es by blast
      have "admission_times k (ds @ [d]) = pre @ enter_times c ?i @ (if ad_subscribed d then [?t] else [])"
        using pre(1) d True by (simp add: admission_times_def)
      then show ?thesis using q pre(2) True by (intro exI [of _ "pre @ q"]) auto
    next
      case False
      then have "admission_times k (ds @ [d]) = admission_times k ds" using d by (simp add: admission_times_def)
      moreover have "enter_times c' k = enter_times c k" using es False by blast
      ultimately show ?thesis using pre by auto
    qed
  qed
  have rate: "int (length (realtime_in_minute k t (ds @ [d]))) \<le> max (cp_max_realtime_per_min (profile_of k)) 0" for k t
  proof (cases "realtime_in_minute k t [d] = []")
    case True
    then show ?thesis using inv by (simp add: realtime_in_minute_def)
  next
    case False
    then have k: "k = ?i" "ad_subscribed d" "ad_source d = ''real_condition''" "?t < t + 60 * microseconds"
      using d by (auto simp: realtime_in_minute_def split: if_splits)
    obtain pre where pre: "admission_times ?i ds = pre @ enter_times c ?i" "\<forall>e \<in> set pre. 60 * microseconds \<le> ?t - e"
      using inv step.hyps(2) by fastforce
    obtain pre' where pre': "enter_times c ?i = pre' @ recent_entries (rq_profile r) ?t c" "\<forall>e \<in> set pre'. 60 * microseconds \<le> ?t - e"
      using drop_minute_split [of "enter_times c ?i" ?t] by (auto simp: recent_entries_def)
    have "length (realtime_in_minute ?i t ds) \<le> length (recent_entries (rq_profile r) ?t c)"
      by (rule realtime_window_recent [OF pre pre' k(4)])
    moreover have "int (length (recent_entries (rq_profile r) ?t c)) < cp_max_realtime_per_min (rq_profile r)"
      using es k(2,3) by blast
    moreover have "length (realtime_in_minute ?i t (ds @ [d])) \<le> length (realtime_in_minute ?i t ds) + 1"
      by (simp add: realtime_in_minute_def)
    ultimately show ?thesis using prof k(1) by simp
  qed
  have init: "initial_count c' k = int (length (initial_admissions k (ds @ [d])))
      \<and> int (length (initial_admissions k (ds @ [d]))) \<le> max (cp_max_initial (profile_of k)) 0" for k
  proof (cases "k = ?i")
    case True
    have old: "initial_count c ?i = int (length (initial_admissions ?i ds))"
      "int (length (initial_admissions ?i ds)) \<le> max (cp_max_initial (rq_profile r)) 0" using inv prof by metis+
    show ?thesis using es old d prof True by (auto simp: initial_admissions_def)
  next
    case False
    then have "initial_admissions k (ds @ [d]) = initial_admissions k ds" using d by (simp add: initial_admissions_def)
    then show ?thesis using es False inv by simp
  qed
  show ?case unfolding admission_inv_def using times rate init d inv step.hyps(2) by fastforce
qed

section \<open>Properties\<close>

text \<open>
  A stock is registered for real-time prices only on an entering hit of a profile that is not a risk block
  and subscribes at all, while the registered and the planned codes together stay below the adaptive cap, which
  never exceeds 100 or the configured total. A registration is immediate or batched, never both, and batched
  only for an initial hit while batches are allowed.
\<close>

theorem admission_needs_budget:
  assumes "decide_admission rp r c = Inr (d, c')" "ad_subscribed d"
  shows "ad_action d = ''ENTER'' \<and> cp_role (rq_profile r) \<noteq> RISK_BLOCK \<and> cp_price_subscribe_policy (rq_profile r) \<noteq> SUBSCRIBE_NONE
     \<and> rq_registered r + max (rq_planned_batch r) 0 < bu_cap (ad_adaptive_budget d)
     \<and> bu_cap (ad_adaptive_budget d) \<le> min 100 (max (rq_max_total r) 0)
     \<and> (ad_register_immediate d \<longleftrightarrow> \<not> ad_register_batch d)
     \<and> (ad_register_batch d \<longrightarrow> ad_source d = ''tr_condition'' \<and> rq_batch_allowed r)"
proof -
  from assms(1) show ?thesis
  proof (rule decide_facts)
    fix b reason c1
    let ?eff = "rq_registered r + max (rq_planned_batch r) 0"
    assume b: "adaptive_budget rp (rq_profile r) ?eff (rq_metrics r) (rq_session r) (rq_max_total r) = Inr b" "ad_adaptive_budget d = b"
      and ch: "choose_registration (rq_profile r) (py_upper (rq_action r)) (ad_source d) ?eff
       (bu_cap b) (rq_session r) (rq_batch_allowed r) (rq_now r) c = ((ad_register_immediate d, ad_register_batch d, reason), c1)"
      and sub: "ad_subscribed d \<longleftrightarrow> ad_register_immediate d \<or> ad_register_batch d" and act: "ad_action d = py_upper (rq_action r)"
    have cap: "bu_cap b \<le> min 100 (max (rq_max_total r) 0)"
      using b(1) budget_cap_bound by (auto simp: adaptive_budget_def rbind_Inr_iff)
    show ?thesis using choose_cases [OF ch] sub assms(2) act b(2) cap by auto
  qed
qed

text \<open>
  C40: The rate of a profile holds for every minute, not only at the decision. In any sequence of decisions
  whose times do not decrease, the real-time hits of a profile admitted within any sixty seconds number at
  most its configured rate, and the initial hits admitted over the whole run at most its initial limit.
\<close>

theorem condition_admissions_bounded:
  assumes "admitted rp profile_of c now ds"
  shows "int (length (realtime_in_minute k t ds)) \<le> max (cp_max_realtime_per_min (profile_of k)) 0
     \<and> int (length (initial_admissions k ds)) \<le> max (cp_max_initial (profile_of k)) 0"
  using admitted_inv [OF assms] by (simp add: admission_inv_def)

definition sample_profile :: condition_profile where
  "sample_profile = \<lparr> cp_condition_name = ''gap'', cp_profile_id = ''p1'', cp_role = LEADER, cp_price_subscribe_policy = IMMEDIATE,
     cp_priority = 100, cp_max_initial = 5, cp_max_realtime_per_min = 1 \<rparr>"

definition sample_request :: "instant \<Rightarrow> request" where
  "sample_request t = \<lparr> rq_profile = sample_profile, rq_action = ''enter'', rq_source = ''real_condition'', rq_registered = 3,
     rq_metrics = [], rq_session = MIDDAY, rq_max_total = 100, rq_batch_allowed = False, rq_planned_batch = 0, rq_now = t \<rparr>"

definition sample_first :: "(admission \<times> controller) result" where
  "sample_first = decide_admission (\<lambda>_. []) (sample_request 0) new_controller"

definition sample_second :: "(admission \<times> controller) result" where
  "sample_second = rbind sample_first (\<lambda>(d, c). decide_admission (\<lambda>_. []) (sample_request 59999999) c)"

lemma sample_runs:
  "rbind sample_first (\<lambda>(d, c). rbind (decide_admission (\<lambda>_. []) (sample_request 59999999) c) (\<lambda>(d', c').
     Inr [ad_subscribed d, ad_register_immediate d, ad_subscribed d'])) = Inr [True, True, False]"
  by code_simp

lemma sample_request_simps: "rq_registered (sample_request t) = 3" "rq_planned_batch (sample_request t) = 0" "rq_now (sample_request t) = t" "rq_profile (sample_request t) = sample_profile"
  by (simp_all add: sample_request_def)

lemma sample_cases:
  obtains d c d' c' where "sample_first = Inr (d, c)" "sample_second = Inr (d', c')"
    "decide_admission (\<lambda>_. []) (sample_request 0) new_controller = Inr (d, c)" "decide_admission (\<lambda>_. []) (sample_request 59999999) c = Inr (d', c')"
    "ad_subscribed d" "ad_register_immediate d" "\<not> ad_subscribed d'"
  using sample_runs by (auto simp: rbind_Inr_iff sample_second_def sample_first_def)

theorem admission_needs_budget_witness:
  "(case sample_first of Inr (d, c) \<Rightarrow> ad_subscribed d \<and> ad_register_immediate d \<and> 3 < bu_cap (ad_adaptive_budget d) | Inl _ \<Rightarrow> False)"
proof (rule sample_cases)
  fix d c d' c'
  assume *: "sample_first = Inr (d, c)" "decide_admission (\<lambda>_. []) (sample_request 0) new_controller = Inr (d, c)" "ad_subscribed d" "ad_register_immediate d"
  show ?thesis using admission_needs_budget [OF *(2,3)] *(4) by (simp add: sample_request_simps *(1,3))
qed

theorem condition_admissions_bounded_witness:
  "(case (sample_first, sample_second) of (Inr (d, c), Inr (d', c')) \<Rightarrow>
      ad_subscribed d \<and> \<not> ad_subscribed d' \<and> length (realtime_in_minute ''p1'' 0 [d, d']) \<le> 1 | _ \<Rightarrow> False)"
proof (rule sample_cases)
  fix d c d' c'
  assume *: "sample_first = Inr (d, c)" "sample_second = Inr (d', c')"
    "decide_admission (\<lambda>_. []) (sample_request 0) new_controller = Inr (d, c)" "decide_admission (\<lambda>_. []) (sample_request 59999999) c = Inr (d', c')"
    "ad_subscribed d" "\<not> ad_subscribed d'"
  have first: "admitted (\<lambda>_. []) (\<lambda>_. sample_profile) c 0 ([] @ [d])"
    using admitted.step [OF admitted.start [of _ _ 0] _ _ *(3)] by (simp add: sample_request_simps)
  have "admitted (\<lambda>_. []) (\<lambda>_. sample_profile) c' 59999999 (([] @ [d]) @ [d'])"
    using admitted.step [OF first _ _ *(4)] by (simp add: sample_request_simps)
  from condition_admissions_bounded [OF this, of "''p1''" 0] *(5,6) show ?thesis by (simp add: sample_profile_def *(1,2))
qed

end
