(* ===== verification/Live_Orders.thy ===== *)
theory Live_Orders
  imports Command_Row Broker_Values
begin

text \<open>
  The simulated orders of \<open>services/live_sim/live_sim_service.py\<close> and what the events of the gateway do to them:
  start, acknowledgement and failure of an order or cancel command, and the broker's rejections.

  \<^item> The tables that the event handlers touch are the fields of \<open>live_db\<close>, a row a record with the columns that
    the handlers read or write. The prices are exact rationals, the time of a fill the text the payload carries.
  \<^item> A handler gets the time of its clock and returns its answer with the new tables, or raises; its caller
    (\<open>live_sim_lifecycle_consumer.py\<close>) then rolls the transaction back, so an error has no new tables.
  \<^item> Evidence columns are left out, but for the entry \<open>reprice\<close> of an intent's, which the service reads back. \<open>rp\<close> renders a float in a text column, \<open>js\<close> is \<open>json.loads\<close>.
\<close>

section \<open>Tables\<close>

datatype live_order_status =
    LO_INTENT_CREATED | LO_COMMAND_QUEUED | LO_COMMAND_DISPATCHED | LO_BROKER_ACKED | LO_BROKER_REJECTED | LO_PARTIALLY_FILLED
  | LO_FILLED | LO_CANCEL_REQUESTED | LO_CANCEL_COMMAND_QUEUED | LO_CANCEL_ACKED | LO_CANCEL_REJECTED | LO_EXIT_REQUESTED
  | LO_EXIT_COMMAND_QUEUED | LO_EXIT_FILLED | LO_CANCELLED | LO_FAILED | LO_EXPIRED | LO_ORDER_EXPIRED | LO_RECONCILE_MISMATCH

datatype live_intent_status = LI_CREATED | LI_REJECTED | LI_COMMAND_QUEUED | LI_EXPIRED | LI_CANCELLED

datatype live_side = BUY | SELL

record live_order =
  lo_id :: string
  lo_intent_id :: string
  lo_command_id :: "string option"
  lo_trade_date :: string
  lo_account_id :: string
  lo_code :: string
  lo_name :: string
  lo_side :: live_side
  lo_order_type :: string
  lo_quantity :: int
  lo_limit_price :: "rat option"
  lo_notional :: rat
  lo_status :: live_order_status
  lo_broker_order_no :: "string option"
  lo_broker_result_code :: "string option"
  lo_broker_message :: "string option"
  lo_filled_quantity :: int
  lo_remaining_quantity :: int
  lo_avg_fill_price :: "rat option"
  lo_idempotency_key :: string
  lo_created_at :: instant
  lo_queued_at :: "instant option"
  lo_dispatched_at :: "instant option"
  lo_broker_acked_at :: "instant option"
  lo_last_event_at :: "instant option"

record live_intent =
  li_id :: string
  li_candidate_id :: string
  li_strategy_id :: string
  li_risk_id :: string
  li_order_plan_id :: "string option"
  li_dry_run_intent_id :: "string option"
  li_dry_run_order_id :: "string option"
  li_trade_date :: string
  li_account_id :: string
  li_code :: string
  li_name :: string
  li_side :: live_side
  li_order_type :: string
  li_quantity :: int
  li_limit_price :: "rat option"
  li_notional :: rat
  li_status :: live_intent_status
  li_reason_codes :: "string list"
  li_reprice :: pydict
  li_idempotency_key :: string
  li_command_id :: "string option"
  li_broker_order_sent :: bool
  li_created_at :: instant
  li_expires_at :: "instant option"

record live_execution =
  le_id :: string
  le_key :: string
  le_broker_execution_id :: string
  le_order_id :: string
  le_intent_id :: string
  le_broker_order_no :: "string option"
  le_account_id :: string
  le_code :: string
  le_side :: live_side
  le_quantity :: int
  le_price :: rat
  le_notional :: rat
  le_executed_at :: instant

datatype position_status = PS_OPEN | PS_CLOSING | PS_CLOSED | PS_RECONCILE_MISMATCH

record live_position =
  po_id :: string
  po_account_id :: string
  po_trade_date :: string
  po_code :: string
  po_name :: string
  po_quantity :: int
  po_available :: int
  po_avg_entry_price :: rat
  po_total_entry_notional :: rat
  po_realized_pnl :: rat
  po_unrealized_pnl :: rat
  po_highest_price :: "rat option"
  po_lowest_price :: "rat option"
  po_trailing_stop_price :: "rat option"
  po_opened_at :: string
  po_closed_at :: "string option"
  po_last_price :: "rat option"
  po_last_price_at :: "string option"
  po_status :: position_status
  po_source_order_id :: string
  po_source_intent_id :: string
  po_updated_at :: string

record position_event =
  pe_position_id :: string
  pe_event_type :: string
  pe_order_id :: string
  pe_execution_id :: string
  pe_code :: string
  pe_quantity_delta :: int
  pe_price :: rat
  pe_realized_pnl :: rat

record cancel_intent =
  ci_id :: string
  ci_order_id :: string
  ci_command_id :: "string option"
  ci_code :: string
  ci_original_order_no :: "string option"
  ci_cancel_quantity :: int
  ci_status :: string
  ci_reason :: string
  ci_idempotency_key :: string
  ci_created_at :: instant

record exit_intent =
  xi_id :: string
  xi_position_id :: string
  xi_signal_id :: string
  xi_order_id :: "string option"
  xi_command_id :: "string option"
  xi_code :: string
  xi_quantity :: int
  xi_order_type :: string
  xi_limit_price :: "rat option"
  xi_reason :: string
  xi_status :: string
  xi_idempotency_key :: string

record exit_signal =
  xs_id :: string
  xs_position_id :: string
  xs_reason :: string
  xs_last_price :: "rat option"
  xs_status :: string
  xs_created_at :: instant

record lifecycle_event =
  lc_event_type :: string
  lc_entity_type :: string
  lc_entity_id :: "string option"
  lc_order_id :: "string option"
  lc_position_id :: "string option"
  lc_status :: "string option"
  lc_reason :: string

record rejection_row =
  rj_candidate_id :: string
  rj_trade_date :: "string option"
  rj_code :: "string option"
  rj_reasons :: "string list"

record live_db =
  ld_orders :: "live_order list"
  ld_intents :: "live_intent list"
  ld_executions :: "live_execution list"
  ld_positions :: "live_position list"
  ld_position_events :: "position_event list"
  ld_cancel_intents :: "cancel_intent list"
  ld_exit_intents :: "exit_intent list"
  ld_exit_signals :: "exit_signal list"
  ld_lifecycle :: "lifecycle_event list"
  ld_errors :: "string list"
  ld_rejections :: "rejection_row list"

definition empty_live_db :: live_db where
  "empty_live_db = \<lparr> ld_orders = [], ld_intents = [], ld_executions = [], ld_positions = [], ld_position_events = [], ld_cancel_intents = [],
     ld_exit_intents = [], ld_exit_signals = [], ld_lifecycle = [], ld_errors = [],
     ld_rejections = [] \<rparr>"

section \<open>Reading payloads\<close>

definition json_object :: "(string \<Rightarrow> pyval result) \<Rightarrow> repr \<Rightarrow> pyval \<Rightarrow> pydict result" where
  "json_object js rp v =
     (if \<not> py_truthy v then Inr []
      else case v of PDict d \<Rightarrow> Inr d | _ \<Rightarrow> rbind (js (py_str rp v)) (\<lambda>loaded. Inr (as_mapping loaded)))"

definition bind_text :: "repr \<Rightarrow> pyval \<Rightarrow> string option result" where
  \<comment> \<open>a value bound to a column of type \<open>TEXT\<close>; a list or a dictionary cannot be bound\<close>
  "bind_text rp v =
     (case v of
        PNone \<Rightarrow> Inr None
      | PBool b \<Rightarrow> Inr (Some (if b then ''1'' else ''0''))
      | PInt n \<Rightarrow> Inr (Some (int_text n))
      | PStr s \<Rightarrow> Inr (Some s)
      | PFloat f \<Rightarrow> Inr (Some (rp v))
      | _ \<Rightarrow> Inl (TypeError ''Error binding parameter''))"

definition order_status_text :: "live_order_status \<Rightarrow> string" where
  "order_status_text s = (case s of
       LO_INTENT_CREATED \<Rightarrow> ''INTENT_CREATED'' | LO_COMMAND_QUEUED \<Rightarrow> ''COMMAND_QUEUED'' | LO_COMMAND_DISPATCHED \<Rightarrow> ''COMMAND_DISPATCHED''
     | LO_BROKER_ACKED \<Rightarrow> ''BROKER_ACKED'' | LO_BROKER_REJECTED \<Rightarrow> ''BROKER_REJECTED'' | LO_PARTIALLY_FILLED \<Rightarrow> ''PARTIALLY_FILLED''
     | LO_FILLED \<Rightarrow> ''FILLED'' | LO_CANCEL_REQUESTED \<Rightarrow> ''CANCEL_REQUESTED'' | LO_CANCEL_COMMAND_QUEUED \<Rightarrow> ''CANCEL_COMMAND_QUEUED''
     | LO_CANCEL_ACKED \<Rightarrow> ''CANCEL_ACKED'' | LO_CANCEL_REJECTED \<Rightarrow> ''CANCEL_REJECTED'' | LO_EXIT_REQUESTED \<Rightarrow> ''EXIT_REQUESTED''
     | LO_EXIT_COMMAND_QUEUED \<Rightarrow> ''EXIT_COMMAND_QUEUED'' | LO_EXIT_FILLED \<Rightarrow> ''EXIT_FILLED'' | LO_CANCELLED \<Rightarrow> ''CANCELLED''
     | LO_FAILED \<Rightarrow> ''FAILED'' | LO_EXPIRED \<Rightarrow> ''EXPIRED'' | LO_ORDER_EXPIRED \<Rightarrow> ''ORDER_EXPIRED'' | LO_RECONCILE_MISMATCH \<Rightarrow> ''RECONCILE_MISMATCH'')"

section \<open>Lookups and logs\<close>

definition find_by_text :: "('r \<Rightarrow> string option) \<Rightarrow> string \<Rightarrow> 'r list \<Rightarrow> 'r option result" where
  \<comment> \<open>the first row whose nullable column has the value, which must not be blank\<close>
  "find_by_text column v rows =
     rbind (require_non_empty_str ''id'' (PStr v)) (\<lambda>s. Inr (sql_find (\<lambda>r. column r = Some s) rows))"

definition order_by_command_id :: "live_db \<Rightarrow> string \<Rightarrow> live_order option result" where
  "order_by_command_id db v = find_by_text lo_command_id v (ld_orders db)"

definition order_by_broker_order_no :: "live_db \<Rightarrow> string \<Rightarrow> live_order option result" where
  "order_by_broker_order_no db v = find_by_text lo_broker_order_no v (ld_orders db)"

definition cancel_intent_by_command_id :: "live_db \<Rightarrow> string \<Rightarrow> cancel_intent option result" where
  "cancel_intent_by_command_id db v = find_by_text ci_command_id v (ld_cancel_intents db)"

definition exit_intent_by_order_id :: "live_db \<Rightarrow> string \<Rightarrow> exit_intent option" where
  "exit_intent_by_order_id db v = sql_find (\<lambda>r. xi_order_id r = Some v) (ld_exit_intents db)"

definition record_lifecycle_event ::
  "string \<Rightarrow> string \<Rightarrow> string option \<Rightarrow> string option \<Rightarrow> string option \<Rightarrow> string option \<Rightarrow> string \<Rightarrow> live_db \<Rightarrow> live_db" where
  "record_lifecycle_event ty entity entity_id order_id position_id status reason db =
     db\<lparr> ld_lifecycle := ld_lifecycle db @ [\<lparr> lc_event_type = py_upper ty, lc_entity_type = py_upper entity, lc_entity_id = entity_id,
           lc_order_id = order_id, lc_position_id = position_id, lc_status = map_option py_upper status, lc_reason = reason \<rparr>] \<rparr>"

definition record_error :: "string option \<Rightarrow> pyval \<Rightarrow> string \<Rightarrow> live_db \<Rightarrow> live_db result" where
  \<comment> \<open>it raises itself if there is a code that is not a stock code\<close>
  "record_error order_id code message db =
     rbind (case code of PNone \<Rightarrow> Inr [] | v \<Rightarrow> validate_stock_code_value v) (\<lambda>_.
       Inr (record_lifecycle_event ''LIFECYCLE_ERROR'' ''LIVE_SIM_ERROR'' None order_id None (Some ''ERROR'') message
              (db\<lparr> ld_errors := ld_errors db @ [message] \<rparr>)))"

definition update_order :: "string \<Rightarrow> (live_order \<Rightarrow> live_order) \<Rightarrow> live_db \<Rightarrow> live_db" where
  "update_order oid f db = db\<lparr> ld_orders := sql_update (\<lambda>o'. lo_id o' = oid) f (ld_orders db) \<rparr>"

definition update_intent :: "string \<Rightarrow> (live_intent \<Rightarrow> bool) \<Rightarrow> (live_intent \<Rightarrow> live_intent) \<Rightarrow> live_db \<Rightarrow> live_db" where
  "update_intent iid p f db = db\<lparr> ld_intents := sql_update (\<lambda>i. li_id i = iid \<and> p i) f (ld_intents db) \<rparr>"

definition set_cancel_status :: "string \<Rightarrow> string \<Rightarrow> live_db \<Rightarrow> live_db" where
  "set_cancel_status cid st db = db\<lparr> ld_cancel_intents := sql_update (\<lambda>c. ci_id c = cid) (\<lambda>c. c\<lparr> ci_status := st \<rparr>) (ld_cancel_intents db) \<rparr>"

definition set_exit_status :: "string \<Rightarrow> string \<Rightarrow> live_db \<Rightarrow> live_db" where
  "set_exit_status xid st db = db\<lparr> ld_exit_intents := sql_update (\<lambda>x. xi_id x = xid) (\<lambda>x. x\<lparr> xi_status := st \<rparr>) (ld_exit_intents db) \<rparr>"

definition mark_exit_intent_by_order_rejected :: "string \<Rightarrow> pyval \<Rightarrow> live_db \<Rightarrow> live_db result" where
  \<comment> \<open>the reasons are joined, which raises for one that is not a text\<close>
  "mark_exit_intent_by_order_rejected oid reason db =
     (case exit_intent_by_order_id db oid of
        None \<Rightarrow> Inr db
      | Some x \<Rightarrow>
          (case reason of
             PStr text \<Rightarrow> Inr (record_lifecycle_event ''EXIT_INTENT_REJECTED'' ''LIVE_SIM_EXIT_INTENT'' (Some (xi_id x)) None
                                (Some (xi_position_id x)) (Some ''REJECTED'') text (set_exit_status (xi_id x) ''REJECTED'' db))
           | _ \<Rightarrow> Inl (TypeError ''sequence item 0: expected str instance'')))"

section \<open>Events of an order command\<close>

datatype answer = Not_handled string | Handled | Duplicate

definition started_order :: "instant \<Rightarrow> live_order \<Rightarrow> live_order" where
  "started_order now r = r\<lparr>
     lo_status := (if lo_side r = SELL then LO_EXIT_COMMAND_QUEUED else LO_COMMAND_DISPATCHED),
     lo_dispatched_at := coalesce (lo_dispatched_at r) (Some now), lo_last_event_at := Some now \<rparr>"

definition acked_order :: "bool \<Rightarrow> string option \<Rightarrow> string option \<Rightarrow> string option \<Rightarrow> instant \<Rightarrow> live_order \<Rightarrow> live_order" where
  "acked_order accepted order_no result_code message now r = r\<lparr>
     lo_status := (if accepted then LO_BROKER_ACKED else LO_BROKER_REJECTED),
     lo_broker_order_no := coalesce order_no (lo_broker_order_no r),
     lo_broker_result_code := coalesce result_code (lo_broker_result_code r),
     lo_broker_message := coalesce message (lo_broker_message r),
     lo_broker_acked_at := Some now, lo_last_event_at := Some now \<rparr>"

definition settled_order :: "live_order_status \<Rightarrow> string option \<Rightarrow> string option \<Rightarrow> instant \<Rightarrow> live_order \<Rightarrow> live_order" where
  \<comment> \<open>a failure, cancellation or rejection\<close>
  "settled_order st result_code message now r = r\<lparr>
     lo_status := st, lo_broker_result_code := coalesce result_code (lo_broker_result_code r),
     lo_broker_message := coalesce message (lo_broker_message r), lo_last_event_at := Some now \<rparr>"

definition order_acked :: "repr \<Rightarrow> pydict \<Rightarrow> pydict \<Rightarrow> instant \<Rightarrow> live_order \<Rightarrow> live_db \<Rightarrow> live_db result" where
  "order_acked rp payload details now ord db =
     (let accepted = py_truthy (dget_or details ''accepted'' (PBool True)) in
      rbind (bind_text rp (py_or (dget details ''broker_order_no'') (dget details ''broker_order_id''))) (\<lambda>order_no.
      rbind (bind_text rp (dget details ''broker_result_code'')) (\<lambda>result_code.
      rbind (bind_text rp (dget payload ''message'')) (\<lambda>message.
      let db1 = update_order (lo_id ord) (acked_order accepted order_no result_code message now) db;
          db2 = (if accepted then update_intent (lo_intent_id ord) (\<lambda>_. True) (\<lambda>i. i\<lparr> li_broker_order_sent := True \<rparr>) db1 else db1) in
      Inr (record_lifecycle_event (if accepted then ''ORDER_BROKER_ACK'' else ''ORDER_BROKER_REJECT'') ''LIVE_SIM_ORDER''
             (Some (lo_id ord)) (Some (lo_id ord)) None (Some (if accepted then ''BROKER_ACKED'' else ''BROKER_REJECTED''))
             (py_str rp (py_or (dget details ''broker_result_code'') (PStr []))) db2)))))"

definition order_failed :: "repr \<Rightarrow> pydict \<Rightarrow> instant \<Rightarrow> live_order \<Rightarrow> live_db \<Rightarrow> live_db result" where
  "order_failed rp payload now ord db =
     (let reason = py_or (dget payload ''error_message'') (PStr ''COMMAND_FAILED'') in
      rbind (bind_text rp (dget payload ''error_message'')) (\<lambda>message.
      let db1 = update_order (lo_id ord) (settled_order LO_FAILED None message now) db;
          db2 = (if lo_side ord = BUY
                 then update_intent (lo_intent_id ord) (\<lambda>i. li_status i \<in> {LI_CREATED, LI_COMMAND_QUEUED})
                        (\<lambda>i. i\<lparr> li_status := LI_REJECTED, li_broker_order_sent := False \<rparr>) db1
                 else db1) in
      rbind (if lo_side ord = SELL then mark_exit_intent_by_order_rejected (lo_id ord) reason db2 else Inr db2) (\<lambda>db3.
      Inr (record_lifecycle_event ''ORDER_COMMAND_FAILED'' ''LIVE_SIM_ORDER'' (Some (lo_id ord)) (Some (lo_id ord)) None
             (Some ''FAILED'') (py_str rp reason) db3))))"

section \<open>Events of a cancel command\<close>

definition cancel_event :: "string \<Rightarrow> cancel_intent \<Rightarrow> live_order \<Rightarrow> string \<Rightarrow> string \<Rightarrow> live_db \<Rightarrow> live_db" where
  "cancel_event ty ci ord st reason db =
     record_lifecycle_event ty ''LIVE_SIM_CANCEL_INTENT'' (Some (ci_id ci)) (Some (lo_id ord)) None (Some st) reason db"

definition handle_cancel_command_event ::
  "(string \<Rightarrow> pyval result) \<Rightarrow> repr \<Rightarrow> instant \<Rightarrow> string \<Rightarrow> pydict \<Rightarrow> cancel_intent \<Rightarrow> live_db \<Rightarrow> (answer \<times> live_db) result" where
  "handle_cancel_command_event js rp now event_type payload ci db =
     (case sql_find (\<lambda>r. lo_id r = ci_order_id ci) (ld_orders db) of
        None \<Rightarrow> Inr (Not_handled ''cancel_original_order_missing'', db)
      | Some ord \<Rightarrow>
          if event_type = ''command_started''
          then Inr (Handled, cancel_event ''CANCEL_COMMAND_STARTED'' ci ord ''COMMAND_DISPATCHED'' (ci_reason ci) db)
          else if event_type = ''command_ack''
          then rbind (json_object js rp (dget payload ''details'')) (\<lambda>details.
               rbind (bind_text rp (dget details ''broker_result_code'')) (\<lambda>result_code.
               rbind (bind_text rp (dget payload ''message'')) (\<lambda>message.
                 let accepted = py_truthy (dget_or details ''accepted'' (PBool True));
                     st = (if accepted then ''ACKED'' else ''REJECTED'');
                     db1 = update_order (lo_id ord) (settled_order (if accepted then LO_CANCELLED else LO_CANCEL_REJECTED) result_code message now)
                             (set_cancel_status (ci_id ci) st db);
                     db2 = (if accepted \<and> lo_filled_quantity ord = 0
                            then update_intent (lo_intent_id ord) (\<lambda>_. True) (\<lambda>i. i\<lparr> li_status := LI_CANCELLED \<rparr>) db1 else db1) in
                 Inr (Handled, cancel_event (if accepted then ''CANCEL_ACK'' else ''CANCEL_REJECTED'') ci ord st (ci_reason ci) db2))))
          else if event_type = ''command_failed''
          then rbind (bind_text rp (dget payload ''error_message'')) (\<lambda>message.
                 Inr (Handled, cancel_event ''CANCEL_COMMAND_FAILED'' ci ord ''REJECTED''
                   (py_str rp (py_or (dget payload ''error_message'') (PStr ''COMMAND_FAILED'')))
                   (update_order (lo_id ord) (settled_order LO_CANCEL_REJECTED None message now) (set_cancel_status (ci_id ci) ''REJECTED'' db))))
          else Inr (Handled, db))"

definition handle_live_sim_command_event ::
  "(string \<Rightarrow> pyval result) \<Rightarrow> repr \<Rightarrow> instant \<Rightarrow> gateway_event \<Rightarrow> live_db \<Rightarrow> (answer \<times> live_db) result" where
  "handle_live_sim_command_event js rp now ev db =
     (case v_command_id ev of
        None \<Rightarrow> Inr (Not_handled ''missing_command_id'', db)
      | Some cid \<Rightarrow>
          (let payload = v_payload ev; event_type = py_lower (py_strip (v_event_type ev)) in
           rbind (order_by_command_id db cid) (\<lambda>found.
           rbind (cancel_intent_by_command_id db cid) (\<lambda>cancel.
             case found of
               None \<Rightarrow> (case cancel of Some ci \<Rightarrow> handle_cancel_command_event js rp now event_type payload ci db
                                   | None \<Rightarrow> Inr (Not_handled ''command_not_live_sim'', db))
             | Some ord \<Rightarrow>
                 if event_type = ''command_started'' then Inr (Handled, update_order (lo_id ord) (started_order now) db)
                 else if event_type = ''command_ack''
                 then rbind (json_object js rp (dget payload ''details'')) (\<lambda>details.
                      rbind (order_acked rp payload details now ord db) (\<lambda>db'. Inr (Handled, db')))
                 else if event_type = ''command_failed'' then rbind (order_failed rp payload now ord db) (\<lambda>db'. Inr (Handled, db'))
                 else Inr (Handled, db)))))"

section \<open>Rejections and cancellations by the broker\<close>

definition order_lifecycle_status :: "string \<Rightarrow> live_order_status" where
  "order_lifecycle_status event_type = (if event_type = ''order_rejected'' \<or> event_type = ''cancel_rejected'' then LO_BROKER_REJECTED else LO_CANCELLED)"

definition handle_live_sim_order_lifecycle_event ::
  "(string \<Rightarrow> pyval result) \<Rightarrow> repr \<Rightarrow> instant \<Rightarrow> gateway_event \<Rightarrow> live_db \<Rightarrow> (answer \<times> live_db) result" where
  "handle_live_sim_order_lifecycle_event js rp now ev db =
     (let payload = v_payload ev; event_type = py_lower (py_strip (v_event_type ev));
          no = py_or (dget payload ''broker_order_no'') (dget payload ''broker_order_id'') in
      rbind (json_object js rp (dget payload ''metadata'')) (\<lambda>metadata.
      rbind (case v_command_id ev of None \<Rightarrow> Inr None | Some cid \<Rightarrow> order_by_command_id db cid) (\<lambda>by_command.
      rbind (if by_command = None \<and> py_truthy no then order_by_broker_order_no db (py_str rp no) else Inr by_command) (\<lambda>found.
      rbind (case v_command_id ev of None \<Rightarrow> Inr None | Some cid \<Rightarrow> cancel_intent_by_command_id db cid) (\<lambda>cancel.
        if (event_type = ''cancel_ack'' \<or> event_type = ''cancel_rejected'') \<and> cancel \<noteq> None
        then handle_cancel_command_event js rp now (if event_type = ''cancel_ack'' then ''command_ack'' else ''command_failed'') payload (the cancel) db
        else case found of
          None \<Rightarrow>
            rbind (bind_text rp (dget metadata ''live_sim_intent_id'')) (\<lambda>_.
            rbind (bind_text rp (dget metadata ''live_sim_order_id'')) (\<lambda>oid.
            rbind (record_error oid (dget payload ''code'') ''RECONCILE_REQUIRED'' db) (\<lambda>db'.
              Inr (Not_handled ''RECONCILE_REQUIRED'', db'))))
        | Some ord \<Rightarrow>
            (let st = order_lifecycle_status event_type; text = py_or (dget payload ''broker_message'') (dget payload ''message'') in
             rbind (bind_text rp (dget payload ''broker_result_code'')) (\<lambda>result_code.
             rbind (bind_text rp text) (\<lambda>message.
               Inr (Handled, record_lifecycle_event event_type ''LIVE_SIM_ORDER'' (Some (lo_id ord)) (Some (lo_id ord)) None
                      (Some (order_status_text st)) (py_str rp (py_or text (PStr event_type)))
                      (update_order (lo_id ord) (settled_order st result_code message now) db))))))))))"

end
