(* ===== verification/Live_Positions.thy ===== *)
theory Live_Positions
  imports Live_Orders
begin

text \<open>
  Fills and positions of \<open>services/live_sim/live_sim_service.py\<close>: how an execution event of the broker becomes an execution row,
  a change of its order and of a position with its costs, profit and loss, and how a position is marked to the market.

  \<^item> Ids that the code draws (\<open>new_message_id\<close>) are arguments, as are \<open>ts\<close> (\<open>parse_timestamp\<close>) and \<open>wire\<close>
    (\<open>datetime_to_wire\<close>). The arithmetic of floats is exact here.
  \<^item> Everything that can raise in the handler of an execution does so before its first write, but for the unique
    index on execution keys.
\<close>

section \<open>Settings and lookups\<close>

datatype trading_mode = TM_OBSERVE | TM_LIVE_SIM | TM_LIVE_REAL

record live_settings =
  ls_trading_mode :: trading_mode
  ls_enabled :: bool
  ls_allow_live_sim :: bool
  ls_allow_live_real :: bool
  ls_order_routing_enabled :: bool
  ls_gateway_command_enabled :: bool
  ls_kill_switch :: bool
  ls_account_id :: string
  ls_account_mode :: string
  ls_broker_env :: string
  ls_server_mode :: string
  ls_order_exchange :: string
  ls_nxt_support_confirmed :: bool
  ls_ai_tools_enabled :: bool
  ls_ai_order_tools_enabled :: bool
  ls_entry_window_start :: string
  ls_entry_window_end :: string
  ls_stale_tick_sec :: int
  ls_require_dry_run_evidence :: bool
  ls_require_risk_observe_pass :: bool
  ls_require_strategy_matched :: bool
  ls_require_candidate_context_ready :: bool
  ls_require_fresh_tick :: bool
  ls_allow_buy :: bool
  ls_allow_sell :: bool
  ls_allow_market_order :: bool
  ls_allow_limit_order :: bool
  ls_default_order_type :: string
  ls_buy_price_offset_ticks :: int
  ls_max_order_notional :: rat
  ls_max_active_orders :: int
  ls_max_active_positions :: int
  ls_duplicate_cooldown_sec :: int
  ls_order_ttl_sec :: int
  ls_position_allow_scale_in :: bool
  ls_reprice_enabled :: bool
  ls_reprice_max_attempts :: int
  ls_max_buy_commands_per_cycle :: int
  ls_cancel_max_commands_per_run :: int
  ls_reconcile_block_on_mismatch :: bool
  ls_reconcile_request_snapshot :: bool
  ls_broker_snapshot_stale_sec :: int
  ls_default_hoga :: string
  ls_max_daily_order_count :: int
  ls_max_daily_notional :: rat
  ls_max_daily_loss :: rat
  ls_max_daily_loss_pct :: rat
  ls_fee_rate :: rat
  ls_tax_rate :: rat
  ls_cancel_enabled :: bool
  ls_cancel_unfilled_enabled :: bool
  ls_cancel_kill_switch :: bool
  ls_cancel_order_ttl_sec :: int
  ls_cancel_require_broker_order_no :: bool
  ls_cancel_allow_without_broker_order_no :: bool
  ls_exit_engine_enabled :: bool
  ls_exit_order_creation_enabled :: bool
  ls_exit_gateway_command_enabled :: bool
  ls_exit_allow_sell_close_only :: bool
  ls_exit_allow_short :: bool
  ls_exit_default_order_type :: string
  ls_exit_price_offset_ticks :: int
  ls_trailing_activation_pct :: rat
  ls_trailing_stop_pct :: rat
  ls_exit_stop_loss_pct :: rat
  ls_exit_take_profit_pct :: rat
  ls_exit_min_hold_sec :: int
  ls_exit_max_hold_sec :: int
  ls_exit_eod_flatten_enabled :: bool
  ls_exit_eod_flatten_time :: int
  ls_exit_max_commands_per_run :: int
  ls_config_version :: string

definition simulation_like_text :: "string \<Rightarrow> bool" where
  "simulation_like_text s \<longleftrightarrow> py_upper (py_strip s) \<in> {''SIMULATION'', ''MOCK'', ''PAPER'', ''MOCK_TRADING'', ''LIVE_SIM''}"

definition dreq :: "pydict \<Rightarrow> string \<Rightarrow> pyval result" where
  \<comment> \<open>\<open>d[k]\<close>\<close>
  "dreq d k = (case map_of d k of None \<Rightarrow> Inl (KeyError k) | Some v \<Rightarrow> Inr v)"

definition position_by_account_code :: "string \<Rightarrow> string \<Rightarrow> bool \<Rightarrow> live_db \<Rightarrow> live_position option result" where
  \<comment> \<open>the position opened first\<close>
  "position_by_account_code account code include_closing db =
     rbind (validate_stock_code code) (\<lambda>c.
       Inr (case sort_key (\<lambda>p. (po_opened_at p, po_id p))
                   (filter (\<lambda>p. po_account_id p = account \<and> po_code p = c
                      \<and> (po_status p = PS_OPEN \<or> po_status p = PS_RECONCILE_MISMATCH \<or> include_closing \<and> po_status p = PS_CLOSING)) (ld_positions db)) of
              [] \<Rightarrow> None | p # _ \<Rightarrow> Some p))"

definition update_position :: "string \<Rightarrow> (live_position \<Rightarrow> live_position) \<Rightarrow> live_db \<Rightarrow> live_db" where
  "update_position pid f db = db\<lparr> ld_positions := sql_update (\<lambda>p. po_id p = pid) f (ld_positions db) \<rparr>"

definition insert_position_event :: "position_event \<Rightarrow> live_db \<Rightarrow> live_db" where
  "insert_position_event e db = db\<lparr> ld_position_events := ld_position_events db @ [e] \<rparr>"

section \<open>Money\<close>

definition price_or :: "rat option \<Rightarrow> rat \<Rightarrow> rat" where
  \<comment> \<open>\<open>float(column or price)\<close>\<close>
  "price_or column price = (case column of Some x \<Rightarrow> (if x = 0 then price else x) | None \<Rightarrow> price)"

definition net_unrealized_pnl :: "live_settings \<Rightarrow> int \<Rightarrow> rat \<Rightarrow> rat \<Rightarrow> rat" where
  "net_unrealized_pnl st quantity avg last_price =
     (if quantity \<le> 0 then 0
      else (last_price - avg) * of_int quantity - last_price * of_int quantity * ls_fee_rate st - last_price * of_int quantity * ls_tax_rate st)"

definition entry_cost :: "live_settings \<Rightarrow> int \<Rightarrow> rat \<Rightarrow> rat" where
  "entry_cost st quantity price = of_int quantity * price + of_int quantity * price * ls_fee_rate st"

definition realized_by_sale :: "live_settings \<Rightarrow> int \<Rightarrow> rat \<Rightarrow> rat \<Rightarrow> rat" where
  "realized_by_sale st quantity price avg =
     (price - avg) * of_int quantity - price * of_int quantity * ls_fee_rate st - price * of_int quantity * ls_tax_rate st"

section \<open>Applying a fill to a position\<close>

record position_result =
  pr_event_type :: string
  pr_position_id :: "string option"
  pr_remaining :: "int option"

definition opened_position :: "live_settings \<Rightarrow> string \<Rightarrow> live_order \<Rightarrow> int \<Rightarrow> rat \<Rightarrow> string \<Rightarrow> live_position" where
  "opened_position st pid ord quantity price executed_at =
     \<lparr> po_id = pid, po_account_id = lo_account_id ord, po_trade_date = lo_trade_date ord, po_code = lo_code ord, po_name = lo_name ord,
       po_quantity = quantity, po_available = quantity,
       po_avg_entry_price = entry_cost st quantity price / of_int quantity, po_total_entry_notional = entry_cost st quantity price,
       po_realized_pnl = 0, po_unrealized_pnl = 0, po_highest_price = Some price, po_lowest_price = Some price,
       po_trailing_stop_price = None, po_opened_at = executed_at, po_closed_at = None,
       po_last_price = Some price, po_last_price_at = Some executed_at, po_status = PS_OPEN,
       po_source_order_id = lo_id ord, po_source_intent_id = lo_intent_id ord, po_updated_at = executed_at \<rparr>"

definition increased_position :: "live_settings \<Rightarrow> live_position \<Rightarrow> int \<Rightarrow> rat \<Rightarrow> string \<Rightarrow> live_position \<Rightarrow> live_position" where
  \<comment> \<open>\<open>p\<close> is the row as it was read\<close>
  "increased_position st p quantity price executed_at r =
     (let new_quantity = po_quantity p + quantity;
          new_notional = po_total_entry_notional p + entry_cost st quantity price in
      r\<lparr> po_quantity := new_quantity, po_available := po_available p + quantity,
         po_avg_entry_price := (if new_quantity > 0 then new_notional / of_int new_quantity else 0),
         po_total_entry_notional := new_notional,
         po_highest_price := Some (max (price_or (po_highest_price p) price) price),
         po_lowest_price := Some (min (price_or (po_lowest_price p) price) price),
         po_last_price := Some price, po_last_price_at := Some executed_at, po_status := PS_OPEN, po_updated_at := executed_at \<rparr>)"

definition apply_buy_fill ::
  "live_settings \<Rightarrow> string \<Rightarrow> live_order \<Rightarrow> string \<Rightarrow> int \<Rightarrow> rat \<Rightarrow> string \<Rightarrow> live_db \<Rightarrow> (position_result \<times> live_db) result" where
  "apply_buy_fill st new_pid ord execution_id quantity price executed_at db =
     rbind (position_by_account_code (lo_account_id ord) (lo_code ord) False db) (\<lambda>found.
       let (pid, ty, db1) = (case found of
             None \<Rightarrow> (new_pid, ''POSITION_OPENED'',
                      db\<lparr> ld_positions := ld_positions db @ [opened_position st new_pid ord quantity price executed_at] \<rparr>)
           | Some p \<Rightarrow> (po_id p, ''POSITION_INCREASED'', update_position (po_id p) (increased_position st p quantity price executed_at) db)) in
       Inr (\<lparr> pr_event_type = ty, pr_position_id = Some pid, pr_remaining = None \<rparr>,
            insert_position_event \<lparr> pe_position_id = pid, pe_event_type = ty, pe_order_id = lo_id ord, pe_execution_id = execution_id,
              pe_code = lo_code ord, pe_quantity_delta = quantity, pe_price = price, pe_realized_pnl = 0 \<rparr> db1))"

definition reduced_position :: "live_settings \<Rightarrow> live_position \<Rightarrow> int \<Rightarrow> rat \<Rightarrow> string \<Rightarrow> live_position \<Rightarrow> live_position" where
  "reduced_position st p quantity price executed_at r =
     (let avg = po_avg_entry_price p; new_quantity = po_quantity p - quantity in
      r\<lparr> po_quantity := new_quantity, po_available := po_available p - quantity,
         po_total_entry_notional := avg * of_int new_quantity,
         po_realized_pnl := po_realized_pnl p + realized_by_sale st quantity price avg,
         po_unrealized_pnl := net_unrealized_pnl st new_quantity avg price,
         po_highest_price := Some (max (price_or (po_highest_price p) price) price),
         po_lowest_price := Some (min (price_or (po_lowest_price p) price) price),
         po_last_price := Some price, po_last_price_at := Some executed_at,
         po_status := (if new_quantity = 0 then PS_CLOSED else PS_CLOSING),
         po_closed_at := (if new_quantity = 0 then Some executed_at else po_closed_at r), po_updated_at := executed_at \<rparr>)"

definition sold_position :: "repr \<Rightarrow> live_order \<Rightarrow> pydict \<Rightarrow> live_db \<Rightarrow> live_position option result" where
  \<comment> \<open>the position the metadata names, else the first of the account and code\<close>
  "sold_position rp ord metadata db =
     (let named = (if py_truthy (dget metadata ''position_id'')
                   then sql_find (\<lambda>p. po_id p = py_str rp (dget metadata ''position_id'')) (ld_positions db) else None) in
      case named of Some p \<Rightarrow> Inr (Some p) | None \<Rightarrow> position_by_account_code (lo_account_id ord) (lo_code ord) True db)"

definition apply_sell_fill ::
  "repr \<Rightarrow> live_settings \<Rightarrow> live_order \<Rightarrow> string \<Rightarrow> int \<Rightarrow> rat \<Rightarrow> string \<Rightarrow> pydict \<Rightarrow> live_db \<Rightarrow> (position_result \<times> live_db) result" where
  "apply_sell_fill rp st ord execution_id quantity price executed_at metadata db =
     rbind (sold_position rp ord metadata db) (\<lambda>found. case found of
       None \<Rightarrow>
         rbind (record_error (Some (lo_id ord)) (PStr (lo_code ord)) ''SELL_FILL_POSITION_MISSING'' db) (\<lambda>db1.
           Inr (\<lparr> pr_event_type = ''RECONCILE_MISMATCH'', pr_position_id = None, pr_remaining = None \<rparr>, db1))
     | Some p \<Rightarrow>
         if quantity > po_available p
         then rbind (record_error (Some (lo_id ord)) (PStr (lo_code ord)) ''SELL_FILL_EXCEEDS_AVAILABLE_QUANTITY'' db) (\<lambda>db1.
                Inr (\<lparr> pr_event_type = ''RECONCILE_MISMATCH'', pr_position_id = Some (po_id p), pr_remaining = None \<rparr>,
                     update_position (po_id p) (\<lambda>r. r\<lparr> po_status := PS_RECONCILE_MISMATCH, po_updated_at := executed_at \<rparr>) db1))
         else (let new_quantity = po_quantity p - quantity;
                   ty = (if new_quantity = 0 then ''POSITION_CLOSED'' else ''POSITION_REDUCED'') in
               Inr (\<lparr> pr_event_type = ty, pr_position_id = Some (po_id p), pr_remaining = Some new_quantity \<rparr>,
                    insert_position_event \<lparr> pe_position_id = po_id p, pe_event_type = ty, pe_order_id = lo_id ord,
                        pe_execution_id = execution_id, pe_code = lo_code ord, pe_quantity_delta = - quantity, pe_price = price,
                        pe_realized_pnl = realized_by_sale st quantity price (po_avg_entry_price p) \<rparr>
                      (update_position (po_id p) (reduced_position st p quantity price executed_at) db))))"

definition mark_exit_after_sell_fill :: "live_order \<Rightarrow> position_result \<Rightarrow> live_order_status \<Rightarrow> live_db \<Rightarrow> live_db" where
  "mark_exit_after_sell_fill ord res order_status db =
     (case exit_intent_by_order_id db (lo_id ord) of
        None \<Rightarrow> db
      | Some x \<Rightarrow>
          (let closed = (case pr_remaining res of None \<Rightarrow> True | Some n \<Rightarrow> n = 0);
               st = (if closed then ''CLOSED'' else ''COMMAND_QUEUED'');
               db1 = set_exit_status (xi_id x) st db;
               db2 = db1\<lparr> ld_exit_signals := sql_update (\<lambda>s. xs_id s = xi_signal_id x) (\<lambda>s. s\<lparr> xs_status := st \<rparr>) (ld_exit_signals db1) \<rparr> in
           update_order (lo_id ord) (\<lambda>r. r\<lparr> lo_status := (if closed then LO_EXIT_FILLED else order_status) \<rparr>) db2))"

section \<open>The execution event\<close>

definition execution_key :: "repr \<Rightarrow> (instant \<Rightarrow> string) \<Rightarrow> live_order \<Rightarrow> pydict \<Rightarrow> instant \<Rightarrow> string" where
  "execution_key rp wire ord payload event_ts =
     (let explicit = py_or (dget payload ''execution_id'') (py_or (dget payload ''broker_execution_id'') (dget payload ''chejan_execution_id''));
          part = (\<lambda>v. '':'' @ py_str rp (py_or v (PStr []))) in
      if py_truthy explicit then ''broker-exec:'' @ lo_id ord @ '':'' @ py_str rp explicit
      else ''broker-exec:'' @ lo_id ord @ part (py_or (dget payload ''broker_order_no'') (dget payload ''broker_order_id''))
        @ part (dget payload ''side'') @ part (dget payload ''quantity'') @ part (dget payload ''price'')
        @ '':'' @ py_str rp (py_or (dget payload ''executed_at'') (PStr (wire event_ts))))"

definition execution_already_applied :: "live_db \<Rightarrow> string \<Rightarrow> bool" where
  "execution_already_applied db key \<longleftrightarrow> sql_find (\<lambda>e. le_key e = py_strip key) (ld_executions db) \<noteq> None"

definition executions_of :: "string \<Rightarrow> live_db \<Rightarrow> live_execution list" where
  "executions_of oid db = filter (\<lambda>e. le_order_id e = oid) (ld_executions db)"

definition fill_sum :: "live_execution list \<Rightarrow> int" where
  "fill_sum es = sum_list (map le_quantity es)"

definition fill_notional :: "live_execution list \<Rightarrow> rat" where
  "fill_notional es = sum_list (map (\<lambda>e. le_price e * of_int (le_quantity e)) es)"

definition average_fill_price :: "string \<Rightarrow> live_db \<Rightarrow> rat" where
  "average_fill_price oid db =
     (let es = executions_of oid db in if fill_sum es = 0 then 0 else fill_notional es / of_int (fill_sum es))"

definition sides :: "(string \<times> live_side) list" where
  "sides = [(''BUY'', BUY), (''SELL'', SELL)]"

definition pyfloat_times :: "pyfloat \<Rightarrow> int \<Rightarrow> pyfloat" where
  "pyfloat_times f n = (case f of Finite r \<Rightarrow> Finite (r * of_int n) | _ \<Rightarrow> NaN)"

definition execution_record ::
  "repr \<Rightarrow> (pyval \<Rightarrow> instant option) \<Rightarrow> string \<Rightarrow> string \<Rightarrow> live_order \<Rightarrow> pydict \<Rightarrow> pyval \<Rightarrow> int \<Rightarrow> pyfloat \<Rightarrow> live_execution result" where
  \<comment> \<open>the constructor and the validation of \<open>LiveSimExecutionRecord\<close>\<close>
  "execution_record rp ts eid key ord payload no quantity price =
     rbind (dreq payload ''code'') (\<lambda>code_value.
     rbind (dreq payload ''side'') (\<lambda>side_value.
     rbind (dreq payload ''executed_at'') (\<lambda>at_value.
     rbind (require_non_empty_str ''live_sim_execution_id'' (PStr eid)) (\<lambda>eid'.
     rbind (require_non_empty_str ''live_sim_order_id'' (PStr (lo_id ord))) (\<lambda>oid.
     rbind (require_non_empty_str ''live_sim_intent_id'' (PStr (lo_intent_id ord))) (\<lambda>iid.
     rbind (optional_non_empty_str ''broker_order_no''
              (if py_truthy no then PStr (py_str rp no) else case lo_broker_order_no ord of None \<Rightarrow> PNone | Some n \<Rightarrow> PStr n)) (\<lambda>order_no.
     rbind (require_non_empty_str ''account_id'' (PStr (py_str rp (py_or (dget payload ''account_id'') (PStr (lo_account_id ord)))))) (\<lambda>account.
     rbind (validate_stock_code (py_str rp code_value)) (\<lambda>code.
     rbind (parse_str_enum ''side'' sides (PStr (py_str rp side_value))) (\<lambda>side.
     rbind (parse_int ''quantity'' (Some 1) (PInt quantity)) (\<lambda>q.
     rbind (parse_float ''price'' (Some 0) (PFloat price)) (\<lambda>p.
     rbind (parse_float ''notional'' (Some 0) (PFloat (pyfloat_times price quantity))) (\<lambda>notional.
     rbind (case ts at_value of Some t \<Rightarrow> Inr t | None \<Rightarrow> invalid ''executed_at'') (\<lambda>at_time.
       Inr \<lparr> le_id = eid', le_key = key,
             le_broker_execution_id = py_str rp (py_or (py_or (dget payload ''execution_id'') (dget payload ''broker_execution_id'')) (PStr [])),
             le_order_id = oid, le_intent_id = iid, le_broker_order_no = order_no, le_account_id = account, le_code = code, le_side = side,
             le_quantity = q, le_price = p, le_notional = notional, le_executed_at = at_time \<rparr>))))))))))))))"

definition filled_order :: "live_order \<Rightarrow> int \<Rightarrow> int \<Rightarrow> rat \<Rightarrow> instant \<Rightarrow> live_order \<Rightarrow> live_order" where
  \<comment> \<open>\<open>ord\<close> is the row as it was read\<close>
  "filled_order ord quantity remaining avg now r = r\<lparr>
     lo_status := (if remaining = 0 then LO_FILLED else LO_PARTIALLY_FILLED),
     lo_filled_quantity := lo_filled_quantity ord + quantity, lo_remaining_quantity := remaining,
     lo_avg_fill_price := Some avg, lo_last_event_at := Some now \<rparr>"

definition remaining_after :: "live_order \<Rightarrow> pydict \<Rightarrow> int \<Rightarrow> int result" where
  "remaining_after ord payload quantity =
     (case dget payload ''remaining_quantity'' of PNone \<Rightarrow> Inr (max (lo_remaining_quantity ord - quantity) 0) | v \<Rightarrow> py_int v)"

definition book_execution :: "live_order \<Rightarrow> live_execution \<Rightarrow> int \<Rightarrow> instant \<Rightarrow> live_db \<Rightarrow> live_db" where
  \<comment> \<open>the execution row and the change of the order\<close>
  "book_execution ord e remaining now db =
     (let db1 = db\<lparr> ld_executions := ld_executions db @ [e] \<rparr> in
      update_order (lo_id ord) (filled_order ord (le_quantity e) remaining (average_fill_price (lo_id ord) db1) now) db1)"

definition apply_execution ::
  "repr \<Rightarrow> live_settings \<Rightarrow> string \<Rightarrow> live_order \<Rightarrow> live_execution \<Rightarrow> int \<Rightarrow> string \<Rightarrow> pydict \<Rightarrow> instant \<Rightarrow> live_db \<Rightarrow> live_db result" where
  \<comment> \<open>from the insertion of the execution to the end of the handler\<close>
  "apply_execution rp st new_pid ord e remaining executed_at metadata now db =
     (let status = (if remaining = 0 then LO_FILLED else LO_PARTIALLY_FILLED); db1 = book_execution ord e remaining now db in
      rbind (if lo_side ord = BUY
             then apply_buy_fill st new_pid ord (le_id e) (le_quantity e) (le_price e) executed_at db1
             else rbind (apply_sell_fill rp st ord (le_id e) (le_quantity e) (le_price e) executed_at metadata db1) (\<lambda>(res, db2).
                    Inr (res, mark_exit_after_sell_fill ord res status db2))) (\<lambda>(res, db3).
        Inr (record_lifecycle_event ''EXECUTION_EVENT_APPLIED'' ''LIVE_SIM_ORDER'' (Some (lo_id ord)) (Some (lo_id ord))
               (pr_position_id res) (Some (order_status_text status)) ''FILL_EVENT_RECEIVED'' db3)))"

definition order_of_execution :: "repr \<Rightarrow> gateway_event \<Rightarrow> pydict \<Rightarrow> pyval \<Rightarrow> live_db \<Rightarrow> live_order option result" where
  \<comment> \<open>by the broker's order number, else by the command\<close>
  "order_of_execution rp ev metadata no db =
     rbind (if py_truthy no then order_by_broker_order_no db (py_str rp no) else Inr None) (\<lambda>by_number.
       let cid = (case v_command_id ev of Some c \<Rightarrow> PStr c | None \<Rightarrow> dget metadata ''gateway_command_id'') in
       if by_number = None \<and> py_truthy cid then order_by_command_id db (py_str rp cid) else Inr by_number)"

definition handle_live_sim_execution_event ::
  "(string \<Rightarrow> pyval result) \<Rightarrow> repr \<Rightarrow> (pyval \<Rightarrow> instant option) \<Rightarrow> (instant \<Rightarrow> string) \<Rightarrow> live_settings \<Rightarrow> string \<Rightarrow> string
     \<Rightarrow> instant \<Rightarrow> gateway_event \<Rightarrow> live_db \<Rightarrow> (answer \<times> live_db) result" where
  "handle_live_sim_execution_event js rp ts wire st new_eid new_pid now ev db =
     (let payload = v_payload ev in
      rbind (json_object js rp (dget payload ''metadata'')) (\<lambda>metadata.
      let mode = (\<lambda>k fallback. py_str rp (py_or (dget metadata k) (py_or (dget payload k) (PStr fallback))));
          no = py_or (dget payload ''broker_order_id'') (dget payload ''broker_order_no'') in
      if \<not> (simulation_like_text (mode ''broker_env'' (ls_broker_env st)) \<and> simulation_like_text (mode ''account_mode'' (ls_account_mode st))
            \<and> simulation_like_text (mode ''server_mode'' (ls_server_mode st)))
      then rbind (bind_text rp (dget metadata ''live_sim_intent_id'')) (\<lambda>_.
           rbind (bind_text rp (dget metadata ''live_sim_order_id'')) (\<lambda>oid.
           rbind (record_error oid (dget payload ''code'') ''ACCOUNT_NOT_SIMULATION'' db) (\<lambda>db'. Inr (Not_handled ''ACCOUNT_NOT_SIMULATION'', db'))))
      else rbind (order_of_execution rp ev metadata no db) (\<lambda>found. case found of
        None \<Rightarrow>
          rbind (bind_text rp (dget metadata ''live_sim_intent_id'')) (\<lambda>_.
          rbind (record_error None (dget payload ''code'') ''RECONCILE_REQUIRED'' db) (\<lambda>db'. Inr (Not_handled ''RECONCILE_REQUIRED'', db')))
      | Some ord \<Rightarrow>
          (let key = execution_key rp wire ord payload (v_ts ev) in
           if execution_already_applied db key
           then Inr (Duplicate, record_lifecycle_event ''DUPLICATE_EXECUTION_EVENT_IGNORED'' ''LIVE_SIM_ORDER'' (Some (lo_id ord)) (Some (lo_id ord))
                       None (Some (order_status_text (lo_status ord))) ''DUPLICATE_EXECUTION_EVENT'' db)
           else rbind (rbind (dreq payload ''quantity'') py_int) (\<lambda>quantity.
                rbind (rbind (dreq payload ''price'') py_float) (\<lambda>price.
                rbind (remaining_after ord payload quantity) (\<lambda>remaining.
                rbind (execution_record rp ts new_eid key ord payload no quantity price) (\<lambda>e.
                  if key \<in> le_key ` set (ld_executions db)
                  then Inl (ValueError ''UNIQUE constraint failed: live_sim_executions.execution_key'')
                  else rbind (apply_execution rp st new_pid ord e remaining (py_str rp (dget payload ''executed_at'')) metadata now db) (\<lambda>db'.
                    Inr (Handled, db')))))))))
     )"

definition handle_live_sim_chejan_event ::
  "(string \<Rightarrow> pyval result) \<Rightarrow> repr \<Rightarrow> (pyval \<Rightarrow> instant option) \<Rightarrow> (instant \<Rightarrow> string) \<Rightarrow> live_settings \<Rightarrow> string \<Rightarrow> string
     \<Rightarrow> instant \<Rightarrow> gateway_event \<Rightarrow> live_db \<Rightarrow> (answer \<times> live_db) result" where
  "handle_live_sim_chejan_event js rp ts wire st new_eid new_pid now ev db =
     (let payload = v_payload ev;
          q = py_or (dget payload ''quantity'') (dget payload ''execution_quantity'');
          p = py_or (dget payload ''price'') (dget payload ''execution_price'') in
      rbind (py_int (py_or q (PInt 0))) (\<lambda>n.
      if n > 0 \<and> py_truthy p
      then rbind (py_float p) (\<lambda>price.
             handle_live_sim_execution_event js rp ts wire st new_eid new_pid now
               (ev\<lparr> v_event_type := ''execution_event'',
                    v_payload := dset ''executed_at'' (py_or (dget payload ''executed_at'') (py_or (dget payload ''event_ts'') (PStr (wire (v_ts ev)))))
                      (dset ''price'' (PFloat price) (dset ''quantity'' (PInt n)
                        (dset ''execution_id'' (py_or (dget payload ''execution_id'') (py_or (dget payload ''broker_execution_id'')
                           (py_or (dget payload ''chejan_execution_id'') (PStr (v_event_id ev))))) payload))) \<rparr>) db)
      else Inr (Handled, record_lifecycle_event ''KIWOOM_ORDER_CHEJAN_OBSERVED'' ''CHEJAN'' (Some (v_event_id ev)) None None
                  (Some (py_upper (py_str rp (py_or (dget payload ''order_status'') (PStr ''OBSERVED''))))) ''CHEJAN_NON_FILL'' db)))"

section \<open>Marking to the market\<close>

definition mark_position_to_market :: "live_settings \<Rightarrow> live_position \<Rightarrow> rat \<Rightarrow> string \<Rightarrow> string \<Rightarrow> live_db \<Rightarrow> live_db" where
  "mark_position_to_market st p last_price last_price_at now db =
     (let highest = max (price_or (po_highest_price p) last_price) last_price;
          lowest = min (price_or (po_lowest_price p) last_price) last_price;
          activated = (po_avg_entry_price p * (1 + ls_trailing_activation_pct st / 100) \<le> highest) in
      update_position (po_id p) (\<lambda>r. r\<lparr> po_last_price := Some last_price, po_last_price_at := Some last_price_at,
         po_unrealized_pnl := net_unrealized_pnl st (po_quantity p) (po_avg_entry_price p) last_price,
         po_highest_price := Some highest, po_lowest_price := Some lowest,
         po_trailing_stop_price := (if activated then Some (highest * (1 - ls_trailing_stop_pct st / 100)) else po_trailing_stop_price p),
         po_updated_at := now \<rparr>) db)"

end
