(* ===== verification/Live_Gate.thy ===== *)
theory Live_Gate
  imports Live_Positions Command_Store
begin

text \<open>
  The safety gate in front of every simulated order: \<open>services/live_sim/safety_gate.py\<close> with the loss guard of
  \<open>services/live_sim/daily_loss_guard.py\<close>.

  \<^item> The gate reads its settings, the rows of \<open>gateway_status\<close>, the counts of the command queue, the report of
    the broker boundary and the simulated orders and positions; it writes nothing.
  \<^item> The clock is three arguments, as in the code: the instant, the market's date and the market's time as a text. \<open>ts\<close> parses
    a timestamp, \<open>js\<close> is \<open>json.loads\<close>. Sums of floats are exact here.
  \<^item> Of the result, what the callers use is kept: the verdict, the reasons, the warning, the limits and counts.
\<close>

section \<open>Status values\<close>

definition NON_CONSUMING :: "live_order_status set" where
  "NON_CONSUMING = {LO_FAILED, LO_ORDER_EXPIRED}"

fun status_flag :: "(string \<Rightarrow> pyval result) \<Rightarrow> (string \<times> string) list \<Rightarrow> string list \<Rightarrow> bool \<Rightarrow> bool" where
  "status_flag js values [] fallback = fallback"
| "status_flag js values (key # keys) fallback =
     (case map_of values key of
        None \<Rightarrow> status_flag js values keys fallback
      | Some raw \<Rightarrow>
          (let normalized = py_lower (py_strip raw) in
           if normalized \<in> {''1'', ''true'', ''yes'', ''y'', ''on'', ''ok'', ''orderable''} then True
           else if normalized \<in> {''0'', ''false'', ''no'', ''n'', ''off'', ''blocked''} then False
           else case js raw of Inr (PBool b) \<Rightarrow> b | _ \<Rightarrow> status_flag js values keys fallback))"

definition gateway_or_config :: "(string \<times> string) list \<Rightarrow> string \<Rightarrow> string \<Rightarrow> string" where
  "gateway_or_config values key fallback = py_upper (py_strip (case map_of values key of Some v \<Rightarrow> v | None \<Rightarrow> fallback))"

definition heartbeat_is_fresh :: "(pyval \<Rightarrow> instant option) \<Rightarrow> live_settings \<Rightarrow> instant \<Rightarrow> string option \<Rightarrow> bool" where
  "heartbeat_is_fresh ts st now v =
     (case v of None \<Rightarrow> False
      | Some s \<Rightarrow> s \<noteq> [] \<and> (case ts (PStr s) of None \<Rightarrow> False | Some t \<Rightarrow> now - t \<le> ls_stale_tick_sec st * 4 * microseconds))"

definition normalize_purpose :: "string \<Rightarrow> string result" where
  "normalize_purpose purpose =
     (let p = py_upper (py_strip purpose) in
      if p \<in> {''NEW_BUY'', ''LIFECYCLE''} then Inr p else Inl (ValueError ''purpose must be NEW_BUY or LIFECYCLE''))"

definition entry_window_open :: "live_settings \<Rightarrow> string \<Rightarrow> bool" where
  "entry_window_open st clock \<longleftrightarrow> ls_entry_window_start st \<le> clock \<and> clock \<le> ls_entry_window_end st"

section \<open>Daily limits\<close>

definition daily_order_count :: "string \<Rightarrow> live_side \<Rightarrow> live_db \<Rightarrow> nat" where
  "daily_order_count day side db =
     sql_count (\<lambda>r. lo_trade_date r = day \<and> lo_side r = side \<and> lo_status r \<notin> NON_CONSUMING) (ld_orders db)"

definition daily_cancel_intent_count :: "string \<Rightarrow> live_db \<Rightarrow> nat" where
  \<comment> \<open>a join on the id of the order\<close>
  "daily_cancel_intent_count day db =
     sum_list (map (\<lambda>c. sql_count (\<lambda>r. lo_id r = ci_order_id c \<and> lo_trade_date r = day) (ld_orders db)) (ld_cancel_intents db))"

definition ACTIVE_POSITION :: "position_status set" where
  "ACTIVE_POSITION = {PS_OPEN, PS_CLOSING, PS_RECONCILE_MISMATCH}"

definition daily_pnl :: "string \<Rightarrow> live_db \<Rightarrow> rat" where
  "daily_pnl day db =
     sum_list (map po_realized_pnl (filter (\<lambda>p. po_trade_date p = day) (ld_positions db)))
   + sum_list (map po_unrealized_pnl
       (filter (\<lambda>p. po_trade_date p = day \<and> po_status p \<in> ACTIVE_POSITION \<and> po_quantity p > 0) (ld_positions db)))"

definition daily_loss_limit :: "live_settings \<Rightarrow> rat" where
  \<comment> \<open>zero: none\<close>
  "daily_loss_limit st =
     (let pct = (if ls_max_daily_loss_pct st > 0 then ls_max_daily_notional st * ls_max_daily_loss_pct st / 100 else 0) in
      case filter (\<lambda>l. l > 0) [ls_max_daily_loss st, pct] of [] \<Rightarrow> 0 | l # ls \<Rightarrow> fold min ls l)"

definition daily_loss_limit_exceeded :: "live_settings \<Rightarrow> string \<Rightarrow> live_db \<Rightarrow> bool" where
  "daily_loss_limit_exceeded st day db \<longleftrightarrow> daily_loss_limit st > 0 \<and> max (- daily_pnl day db) 0 \<ge> daily_loss_limit st"

section \<open>The gate\<close>

record gate_view =
  gv_values :: "(string \<times> string) list"
  gv_boundary :: pydict
  gv_counts :: "command_status \<Rightarrow> nat"
  gv_now :: instant
  gv_today :: string
  gv_clock :: string

record gate_result =
  gr_passed :: bool
  gr_purpose :: string
  gr_reason_codes :: "string list"
  gr_warned :: bool
  gr_trade_date :: string
  gr_daily_limit_remaining :: int
  gr_daily_limit_exceeded :: bool
  gr_daily_buy_count :: nat
  gr_daily_sell_count :: nat
  gr_daily_cancel_count :: nat

definition simulation_account :: "live_settings \<Rightarrow> gate_view \<Rightarrow> bool" where
  "simulation_account st gv \<longleftrightarrow> py_strip (ls_account_id st) \<noteq> []
     \<and> simulation_like_text (gateway_or_config (gv_values gv) ''account_mode'' (ls_account_mode st))
     \<and> simulation_like_text (ls_account_mode st)"

definition simulation_server :: "live_settings \<Rightarrow> gate_view \<Rightarrow> bool" where
  "simulation_server st gv \<longleftrightarrow>
     simulation_like_text (gateway_or_config (gv_values gv) ''broker_env'' (ls_broker_env st))
   \<and> simulation_like_text (gateway_or_config (gv_values gv) ''server_mode'' (ls_server_mode st))
   \<and> simulation_like_text (ls_broker_env st) \<and> simulation_like_text (ls_server_mode st)"

definition gate_guards ::
  "(string \<Rightarrow> pyval result) \<Rightarrow> (pyval \<Rightarrow> instant option) \<Rightarrow> live_settings \<Rightarrow> string \<Rightarrow> bool \<Rightarrow> bool \<Rightarrow> string \<Rightarrow> gate_view
     \<Rightarrow> live_db \<Rightarrow> (bool \<times> string) list" where
  "gate_guards js ts st purpose enforce_loss enforce_window day gv db =
     (let values = gv_values gv in
      [(\<not> (ls_trading_mode st = TM_LIVE_SIM \<or> ls_enabled st) \<or> \<not> (ls_enabled st \<and> ls_allow_live_sim st), ''LIVE_SIM_DISABLED''),
       (\<not> (ls_trading_mode st \<noteq> TM_LIVE_REAL \<and> \<not> ls_allow_live_real st), ''LIVE_REAL_NOT_ALLOWED''),
       (\<not> ls_order_routing_enabled st, ''ORDER_ROUTING_DISABLED''),
       (purpose = ''NEW_BUY'' \<and> boundary_blocks_routing (gv_boundary gv), ''ORDER_BROKER_BOUNDARY_BLOCKED''),
       (\<not> ls_gateway_command_enabled st, ''GATEWAY_COMMAND_DISABLED''),
       (ls_kill_switch st, ''LIVE_SIM_KILL_SWITCH_ACTIVE''),
       (\<not> heartbeat_is_fresh ts st (gv_now gv) (map_of values ''last_heartbeat_at''), ''GATEWAY_HEARTBEAT_STALE''),
       (\<not> status_flag js values [''gateway_orderable'', ''orderable''] False, ''GATEWAY_NOT_ORDERABLE''),
       (\<not> simulation_account st gv, ''ACCOUNT_NOT_SIMULATION''),
       (\<not> simulation_like_text (gateway_or_config values ''broker_env'' (ls_broker_env st)), ''BROKER_ENV_NOT_SIMULATION''),
       (\<not> simulation_like_text (gateway_or_config values ''server_mode'' (ls_server_mode st)), ''SERVER_MODE_NOT_SIMULATION''),
       (\<not> simulation_server st gv, ''SERVER_MODE_NOT_SIMULATION''),
       (\<not> status_flag js values [''command_queue_healthy''] True, ''GATEWAY_COMMAND_QUEUE_UNHEALTHY''),
       (\<not> (ls_order_exchange st = ''KRX'' \<or> ls_nxt_support_confirmed st), ''NXT_ORDER_SUPPORT_UNCONFIRMED''),
       (ls_ai_tools_enabled st \<or> ls_ai_order_tools_enabled st, ''AI_ORDER_TOOLS_ENABLED''),
       (enforce_window \<and> \<not> entry_window_open st (gv_clock gv), ''ENTRY_WINDOW_CLOSED''),
       (enforce_loss \<and> daily_loss_limit_exceeded st day db, ''DAILY_LOSS_LIMIT_EXCEEDED''),
       (purpose = ''NEW_BUY'' \<and> max (ls_max_daily_order_count st - int (daily_order_count day BUY db)) 0 \<le> 0,
        ''DAILY_ORDER_LIMIT_EXCEEDED'')])"

definition check_live_sim_safety_gate ::
  "(string \<Rightarrow> pyval result) \<Rightarrow> (pyval \<Rightarrow> instant option) \<Rightarrow> live_settings \<Rightarrow> string \<Rightarrow> bool \<Rightarrow> bool \<Rightarrow> string option \<Rightarrow> gate_view
     \<Rightarrow> live_db \<Rightarrow> gate_result result" where
  "check_live_sim_safety_gate js ts st purpose enforce_loss enforce_window trade_date gv db =
     rbind (normalize_purpose purpose) (\<lambda>p.
       let day = (case trade_date of Some d \<Rightarrow> (if d = [] then gv_today gv else d) | None \<Rightarrow> gv_today gv);
           reasons = merge_reasons (map snd (filter fst (gate_guards js ts st p enforce_loss enforce_window day gv db)));
           remaining = max (ls_max_daily_order_count st - int (daily_order_count day BUY db)) 0 in
       Inr \<lparr> gr_passed = (reasons = []), gr_purpose = p, gr_reason_codes = reasons,
             gr_warned = (gv_counts gv FAILED \<noteq> 0 \<or> gv_counts gv REJECTED \<noteq> 0), gr_trade_date = day,
             gr_daily_limit_remaining = remaining, gr_daily_limit_exceeded = (remaining \<le> 0),
             gr_daily_buy_count = daily_order_count day BUY db, gr_daily_sell_count = daily_order_count day SELL db,
             gr_daily_cancel_count = daily_cancel_intent_count day db \<rparr>)"

section \<open>When the gate opens\<close>

lemma gate_reasons_visible: "\<forall>g \<in> set (gate_guards js ts st p loss window day gv db). py_strip (snd g) \<noteq> []"
proof -
  have "list_all (\<lambda>r. py_strip r \<noteq> []) (map snd (gate_guards js ts st p loss window day gv db))"
    unfolding gate_guards_def Let_def list.map snd_conv by code_simp
  then show ?thesis by (simp add: list_all_iff)
qed

lemma no_guard_iff: "(\<And>g. g \<in> set gs \<Longrightarrow> py_strip (snd g) \<noteq> []) \<Longrightarrow> merge_reasons (map snd (filter fst gs)) = [] \<longleftrightarrow> (\<forall>g \<in> set gs. \<not> fst g)"
  by (auto simp: merge_reasons_Nil_iff)

definition lifecycle_clear :: "(string \<Rightarrow> pyval result) \<Rightarrow> (pyval \<Rightarrow> instant option) \<Rightarrow> live_settings \<Rightarrow> gate_view \<Rightarrow> bool" where
  \<comment> \<open>nothing is in the way of any simulated order\<close>
  "lifecycle_clear js ts st gv \<longleftrightarrow>
     ls_enabled st \<and> ls_allow_live_sim st \<and> ls_trading_mode st \<noteq> TM_LIVE_REAL \<and> \<not> ls_allow_live_real st
   \<and> ls_order_routing_enabled st \<and> ls_gateway_command_enabled st \<and> \<not> ls_kill_switch st
   \<and> heartbeat_is_fresh ts st (gv_now gv) (map_of (gv_values gv) ''last_heartbeat_at'')
   \<and> status_flag js (gv_values gv) [''gateway_orderable'', ''orderable''] False \<and> status_flag js (gv_values gv) [''command_queue_healthy''] True
   \<and> py_strip (ls_account_id st) \<noteq> []
   \<and> (\<forall>(key, mode) \<in> {(''account_mode'', ls_account_mode st), (''broker_env'', ls_broker_env st), (''server_mode'', ls_server_mode st)}.
        simulation_like_text mode \<and> simulation_like_text (gateway_or_config (gv_values gv) key mode))
   \<and> (ls_order_exchange st = ''KRX'' \<or> ls_nxt_support_confirmed st) \<and> \<not> ls_ai_tools_enabled st \<and> \<not> ls_ai_order_tools_enabled st"

lemma gate_passes_iff:
  assumes "check_live_sim_safety_gate js ts st purpose loss window trade_date gv db = Inr g"
  shows "gr_passed g \<longleftrightarrow> lifecycle_clear js ts st gv
    \<and> (window \<longrightarrow> entry_window_open st (gv_clock gv)) \<and> (loss \<longrightarrow> \<not> daily_loss_limit_exceeded st (gr_trade_date g) db)
    \<and> (gr_purpose g = ''NEW_BUY'' \<longrightarrow> \<not> boundary_blocks_routing (gv_boundary gv) \<and> int (daily_order_count (gr_trade_date g) BUY db) < ls_max_daily_order_count st)"
proof -
  obtain p where p: "normalize_purpose purpose = Inr p" and g: "gr_purpose g = p"
      "gr_passed g \<longleftrightarrow> merge_reasons (map snd (filter fst (gate_guards js ts st p loss window (gr_trade_date g) gv db))) = []"
    using assms by (auto simp: check_live_sim_safety_gate_def rbind_Inr_iff Let_def)
  have "gr_passed g \<longleftrightarrow> (\<forall>c \<in> set (gate_guards js ts st p loss window (gr_trade_date g) gv db). \<not> fst c)"
    unfolding g(2) using gate_reasons_visible by (intro no_guard_iff) blast
  also have "\<dots> \<longleftrightarrow> lifecycle_clear js ts st gv
    \<and> (window \<longrightarrow> entry_window_open st (gv_clock gv)) \<and> (loss \<longrightarrow> \<not> daily_loss_limit_exceeded st (gr_trade_date g) db)
    \<and> (p = ''NEW_BUY'' \<longrightarrow> \<not> boundary_blocks_routing (gv_boundary gv) \<and> int (daily_order_count (gr_trade_date g) BUY db) < ls_max_daily_order_count st)"
    unfolding gate_guards_def Let_def lifecycle_clear_def simulation_server_def simulation_account_def
    by (simp only: list.set insert_iff ball_simps fst_conv empty_iff) (auto simp: max_def)
  finally show ?thesis by (simp only: g(1))
qed

lemma lifecycle_clear_view:
  "gv_values gv' = gv_values gv \<Longrightarrow> gv_now gv' = gv_now gv \<Longrightarrow> lifecycle_clear js ts st gv' = lifecycle_clear js ts st gv"
  by (simp add: lifecycle_clear_def)

text \<open>
  C24: The guards of the simulation stop every order, the limits on purchases only purchases. The gate opens for a purpose
  exactly if the guards are clear (\<open>lifecycle_clear\<close>: enabled, not the real mode, routing and commands enabled, no kill switch, a fresh heartbeat
  of an orderable gateway with a healthy queue, account, broker and server simulated in the settings and in what the gateway reports, a supported
  exchange, no order tools) and those limits hold that the caller asks for or a purchase has. With the same status of the gateway at the same
  instant, the gate for the life cycle of orders opens exactly if the guards are clear, whatever has become of the
  positions and orders, the daily counts and losses, the block on routing, the date and the time of day; so it is open
  whenever the gate has opened for any purpose.
\<close>

theorem exits_outlive_purchase_limits:
  assumes "check_live_sim_safety_gate js ts st purpose loss window trade_date gv db = Inr g"
    and "gv_values gv' = gv_values gv" "gv_now gv' = gv_now gv"
  shows "(gr_passed g \<longleftrightarrow> lifecycle_clear js ts st gv
      \<and> (window \<longrightarrow> entry_window_open st (gv_clock gv)) \<and> (loss \<longrightarrow> \<not> daily_loss_limit_exceeded st (gr_trade_date g) db)
      \<and> (gr_purpose g = ''NEW_BUY'' \<longrightarrow> \<not> boundary_blocks_routing (gv_boundary gv) \<and> int (daily_order_count (gr_trade_date g) BUY db) < ls_max_daily_order_count st))
    \<and> (\<exists>g'. check_live_sim_safety_gate js ts st ''LIFECYCLE'' False False day gv' db' = Inr g'
          \<and> (gr_passed g' \<longleftrightarrow> lifecycle_clear js ts st gv) \<and> (gr_passed g \<longrightarrow> gr_passed g'))"
proof -
  have "normalize_purpose ''LIFECYCLE'' = Inr ''LIFECYCLE''" by code_simp
  then obtain g' where g': "check_live_sim_safety_gate js ts st ''LIFECYCLE'' False False day gv' db' = Inr g'" "gr_purpose g' = ''LIFECYCLE''"
    by (auto simp: check_live_sim_safety_gate_def Let_def)
  have "gr_passed g' \<longleftrightarrow> lifecycle_clear js ts st gv" using gate_passes_iff [OF g'(1)] g'(2) lifecycle_clear_view [OF assms(2,3)] by simp
  then show ?thesis using gate_passes_iff [OF assms(1)] g'(1) by blast
qed

definition sample_live_settings :: live_settings where
  "sample_live_settings = \<lparr> ls_trading_mode = TM_LIVE_SIM, ls_enabled = True, ls_allow_live_sim = True, ls_allow_live_real = False,
     ls_order_routing_enabled = True, ls_gateway_command_enabled = True, ls_kill_switch = False, ls_account_id = ''A1'',
     ls_account_mode = ''SIMULATION'', ls_broker_env = ''SIMULATION'', ls_server_mode = ''SIMULATION'', ls_order_exchange = ''KRX'',
     ls_nxt_support_confirmed = False, ls_ai_tools_enabled = False, ls_ai_order_tools_enabled = False, ls_entry_window_start = ''09:05:00'',
     ls_entry_window_end = ''14:30:00'', ls_stale_tick_sec = 15,
     ls_require_dry_run_evidence = True, ls_require_risk_observe_pass = True, ls_require_strategy_matched = True,
     ls_require_candidate_context_ready = True, ls_require_fresh_tick = True, ls_allow_buy = True, ls_allow_sell = False,
     ls_allow_market_order = False, ls_allow_limit_order = True, ls_default_order_type = ''LIMIT'', ls_buy_price_offset_ticks = 1,
     ls_max_order_notional = 100000, ls_max_active_orders = 1, ls_max_active_positions = 1, ls_duplicate_cooldown_sec = 600,
     ls_order_ttl_sec = 60, ls_position_allow_scale_in = False, ls_reprice_enabled = True, ls_reprice_max_attempts = 1,
     ls_max_buy_commands_per_cycle = 1, ls_cancel_max_commands_per_run = 3, ls_reconcile_block_on_mismatch = True,
     ls_reconcile_request_snapshot = False, ls_broker_snapshot_stale_sec = 120, ls_default_hoga = ''00'', ls_max_daily_order_count = 3,
     ls_max_daily_notional = 300000, ls_max_daily_loss = 0, ls_max_daily_loss_pct = 0, ls_fee_rate = 0, ls_tax_rate = 1 / 500,
     ls_cancel_enabled = True, ls_cancel_unfilled_enabled = True, ls_cancel_kill_switch = False, ls_cancel_order_ttl_sec = 60,
     ls_cancel_require_broker_order_no = True, ls_cancel_allow_without_broker_order_no = False, ls_exit_engine_enabled = True,
     ls_exit_order_creation_enabled = True, ls_exit_gateway_command_enabled = True, ls_exit_allow_sell_close_only = True,
     ls_exit_allow_short = False, ls_exit_default_order_type = ''LIMIT'', ls_exit_price_offset_ticks = 0,
     ls_trailing_activation_pct = 2, ls_trailing_stop_pct = 5 / 2,
     ls_exit_stop_loss_pct = 3, ls_exit_take_profit_pct = 5, ls_exit_min_hold_sec = 30, ls_exit_max_hold_sec = 1800,
     ls_exit_eod_flatten_enabled = False, ls_exit_eod_flatten_time = 0, ls_exit_max_commands_per_run = 3, ls_config_version = ''v'' \<rparr>"

definition sample_view :: gate_view where
  "sample_view = \<lparr> gv_values = [(''last_heartbeat_at'', ''t''), (''orderable'', ''yes'')], gv_boundary = [], gv_counts = (\<lambda>_. 0), gv_now = 0,
     gv_today = ''d'', gv_clock = ''10:00:00'' \<rparr>"

definition held_position :: live_position where
  "held_position = \<lparr> po_id = ''p1'', po_account_id = ''A1'', po_trade_date = ''d'', po_code = ''005930'', po_name = ''n'', po_quantity = 10,
     po_available = 10, po_avg_entry_price = 100, po_total_entry_notional = 1000, po_realized_pnl = 0, po_unrealized_pnl = 0,
     po_highest_price = None, po_lowest_price = None, po_trailing_stop_price = None, po_opened_at = ''t'', po_closed_at = None,
     po_last_price = Some 110, po_last_price_at = None, po_status = PS_OPEN, po_source_order_id = ''o'', po_source_intent_id = ''i'',
     po_updated_at = ''t'' \<rparr>"

lemma sample_gate_open:
  "rbind (check_live_sim_safety_gate (\<lambda>_. Inr PNone) (\<lambda>_. Some 0) sample_live_settings ''new_buy '' True True None sample_view empty_live_db)
     (\<lambda>g. Inr (gr_passed g)) = Inr True"
  by code_simp

theorem exits_outlive_purchase_limits_witness:
  "\<exists>g'. check_live_sim_safety_gate (\<lambda>_. Inr PNone) (\<lambda>_. Some 0) sample_live_settings ''LIFECYCLE'' False False None
     (sample_view\<lparr> gv_clock := ''20:00:00'', gv_boundary := [(''block_new_order_routing'', PBool True)] \<rparr>) empty_live_db = Inr g' \<and> gr_passed g'"
proof -
  obtain g where "check_live_sim_safety_gate (\<lambda>_. Inr PNone) (\<lambda>_. Some 0) sample_live_settings ''new_buy '' True True None sample_view empty_live_db = Inr g"
    "gr_passed g"
    using sample_gate_open unfolding rbind_Inr_iff by auto
  moreover let ?later = "sample_view\<lparr> gv_clock := ''20:00:00'', gv_boundary := [(''block_new_order_routing'', PBool True)] \<rparr>"
  have "gv_values ?later = gv_values sample_view" "gv_now ?later = gv_now sample_view" by simp_all
  ultimately show ?thesis using exits_outlive_purchase_limits by blast
qed

end
