(* ===== verification/Live_Exit.thy ===== *)
theory Live_Exit
  imports Live_Gate
begin

text \<open>
  How the service sends orders of its own: the intents that close a position or cancel an order, and the commands
  they become (\<open>create_live_sim_exit_intent\<close>, \<open>queue_live_sim_exit_order_command\<close>, \<open>create_live_sim_cancel_intent\<close>,
  \<open>queue_live_sim_cancel_command\<close> of \<open>services/live_sim/live_sim_service.py\<close>), on the tables of the service
  together with the command queue.

  \<^item> A call answers with a value or an error, and with the tables that are durable when it returns. An intent that
    is refused is marked and committed before the error is raised, so an error does not mean that nothing was written.
  \<^item> Queueing an exit or a cancellation is two transactions, since \<open>enqueue_command\<close> commits its own; each is a definition
    here, so that a crash between them is a behaviour of the model.
  \<^item> Ids that the code draws (\<open>new_message_id\<close>) are arguments, as is the time. \<open>hsh\<close> hashes a payload.
\<close>

section \<open>Rows\<close>

type_synonym 'a durable = "'a result \<times> live_db \<times> command_store"

fun comma_list :: "string list \<Rightarrow> string" where
  \<comment> \<open>\<open>",".join(xs)\<close>\<close>
  "comma_list [] = []"
| "comma_list [x] = x"
| "comma_list (x # y # zs) = x @ '','' @ comma_list (y # zs)"

definition find_row :: "('r \<Rightarrow> string) \<Rightarrow> string \<Rightarrow> 'r list \<Rightarrow> 'r option result" where
  "find_row key v rows = rbind (require_non_empty_str ''id'' (PStr v)) (\<lambda>s. Inr (sql_find (\<lambda>r. key r = s) rows))"

definition validated_order :: "live_order \<Rightarrow> live_order result" where
  \<comment> \<open>\<open>LiveSimOrderRecord\<close>, which is only built without the broker's texts and an average price\<close>
  "validated_order r =
     rbind (require_non_empty_str ''live_sim_order_id'' (PStr (lo_id r))) (\<lambda>oid.
     rbind (require_non_empty_str ''live_sim_intent_id'' (PStr (lo_intent_id r))) (\<lambda>iid.
     rbind (require_non_empty_str ''account_id'' (PStr (lo_account_id r))) (\<lambda>account.
     rbind (require_non_empty_str ''name'' (PStr (lo_name r))) (\<lambda>name.
     rbind (optional_non_empty_str ''gateway_command_id'' (opt_text (lo_command_id r))) (\<lambda>cid.
     rbind (validate_stock_code (lo_code r)) (\<lambda>code.
     rbind (parse_str_enum ''order_type'' [(''LIMIT'', ''LIMIT''), (''MARKET'', ''MARKET'')] (PStr (lo_order_type r))) (\<lambda>ty.
     rbind (parse_int ''quantity'' (Some 0) (PInt (lo_quantity r))) (\<lambda>quantity.
     rbind (case lo_limit_price r of None \<Rightarrow> Inr None
            | Some x \<Rightarrow> rbind (parse_float ''limit_price'' (Some 0) (PFloat (Finite x))) (\<lambda>y. Inr (Some y))) (\<lambda>limit.
     rbind (parse_float ''notional'' (Some 0) (PFloat (Finite (lo_notional r)))) (\<lambda>notional.
     rbind (parse_int ''filled_quantity'' (Some 0) (PInt (lo_filled_quantity r))) (\<lambda>filled.
     rbind (parse_int ''remaining_quantity'' (Some 0) (PInt (lo_remaining_quantity r))) (\<lambda>remaining.
     rbind (require_non_empty_str ''idempotency_key'' (PStr (lo_idempotency_key r))) (\<lambda>key.
       Inr (r\<lparr> lo_id := oid, lo_intent_id := iid, lo_account_id := account, lo_name := name, lo_command_id := cid,
                lo_code := code, lo_order_type := ty, lo_quantity := quantity, lo_limit_price := limit,
                lo_notional := notional, lo_filled_quantity := filled, lo_remaining_quantity := remaining,
                lo_idempotency_key := key \<rparr>))))))))))))))"

definition insert_order :: "live_order \<Rightarrow> live_db \<Rightarrow> live_db result" where
  "insert_order r db =
     (if sql_find (\<lambda>o'. lo_id o' = lo_id r) (ld_orders db) \<noteq> None
      then Inl (ValueError ''UNIQUE constraint failed: live_sim_orders.live_sim_order_id'')
      else if sql_find (\<lambda>o'. lo_idempotency_key o' = lo_idempotency_key r) (ld_orders db) \<noteq> None
      then Inl (ValueError ''UNIQUE constraint failed: live_sim_orders.idempotency_key'')
      else Inr (db\<lparr> ld_orders := ld_orders db @ [r] \<rparr>))"

definition gateway_command_for :: "string \<Rightarrow> instant \<Rightarrow> string \<Rightarrow> pydict \<Rightarrow> string \<Rightarrow> gateway_command result" where
  \<comment> \<open>\<open>GatewayCommand(command_type, source="live_sim", payload, idempotency_key)\<close>\<close>
  "gateway_command_for cid now ty payload key =
     rbind (require_non_empty_str ''idempotency_key'' (PStr key)) (\<lambda>k.
       Inr \<lparr> g_command_id = cid, g_command_type = ty, g_source = ''live_sim'', g_ts = now, g_payload = payload, g_idempotency_key = Some k \<rparr>)"

section \<open>Exit intents\<close>

definition ACTIVE_INTENT :: "string set" where
  "ACTIVE_INTENT = {''CREATED'', ''COMMAND_QUEUED''}"

definition active_exit_intent_for_position :: "string \<Rightarrow> live_db \<Rightarrow> bool" where
  "active_exit_intent_for_position pid db \<longleftrightarrow>
     sql_find (\<lambda>x. xi_position_id x = py_strip pid \<and> xi_status x \<in> ACTIVE_INTENT) (ld_exit_intents db) \<noteq> None"

definition ACTIVE_SIGNAL :: "string set" where
  "ACTIVE_SIGNAL = {''SIGNALLED'', ''EXIT_INTENT_CREATED'', ''COMMAND_QUEUED''}"

definition active_exit_for_position :: "string \<Rightarrow> live_db \<Rightarrow> bool" where
  "active_exit_for_position pid db \<longleftrightarrow> active_exit_intent_for_position pid db
     \<or> sql_find (\<lambda>s. xs_position_id s = pid \<and> xs_status s \<in> ACTIVE_SIGNAL) (ld_exit_signals db) \<noteq> None"

definition insert_exit_signal :: "instant \<Rightarrow> string \<Rightarrow> exit_signal \<Rightarrow> live_db \<Rightarrow> live_db result" where
  \<comment> \<open>\<open>c\<close> is the candidate, \<open>sid\<close> the id drawn for it; \<open>created_at\<close> is a default of the table, in whole seconds\<close>
  "insert_exit_signal now sid c db =
     (if active_exit_for_position (xs_position_id c) db then Inl (ValueError ''LIVE_SIM_EXIT_DUPLICATE'')
      else if sql_find (\<lambda>s. xs_id s = sid) (ld_exit_signals db) \<noteq> None then Inl (ValueError ''UNIQUE constraint failed: live_sim_exit_signals'')
      else Inr (record_lifecycle_event ''EXIT_SIGNAL_CREATED'' ''LIVE_SIM_EXIT_SIGNAL'' (Some sid) None (Some (xs_position_id c))
                  (Some (xs_status c)) (xs_reason c)
                  (db\<lparr> ld_exit_signals := ld_exit_signals db @ [c\<lparr> xs_id := sid, xs_created_at := now div microseconds \<rparr>] \<rparr>)))"

definition latest_exit_signal :: "string \<Rightarrow> live_db \<Rightarrow> exit_signal option" where
  "latest_exit_signal pid db =
     (case rev (sort_key (\<lambda>s. (xs_created_at s, xs_id s))
        (filter (\<lambda>s. xs_position_id s = py_strip pid \<and> xs_status s \<in> ACTIVE_SIGNAL)
          (ld_exit_signals db))) of
        [] \<Rightarrow> None | s # _ \<Rightarrow> Some s)"

definition price_if_any :: "rat option \<Rightarrow> rat option \<Rightarrow> rat option" where
  \<comment> \<open>\<open>a or b\<close>\<close>
  "price_if_any a b = (case a of Some x \<Rightarrow> (if x = 0 then b else a) | None \<Rightarrow> b)"

definition create_live_sim_exit_intent ::
  "live_settings \<Rightarrow> string \<Rightarrow> string \<Rightarrow> string option \<Rightarrow> live_db \<Rightarrow> (exit_intent \<times> live_db) result" where
  \<comment> \<open>\<open>xid\<close> is the id it draws; it raises before it writes\<close>
  "create_live_sim_exit_intent st xid position_id signal_id db =
     rbind (find_row po_id position_id (ld_positions db)) (\<lambda>found. case found of
       None \<Rightarrow> Inl (ValueError ''LIVE_SIM_EXIT_POSITION_NOT_FOUND'')
     | Some p \<Rightarrow>
         if \<not> ls_exit_engine_enabled st then Inl (ValueError ''LIVE_SIM_EXIT_DISABLED'')
         else if \<not> ls_exit_order_creation_enabled st then Inl (ValueError ''LIVE_SIM_EXIT_ORDER_CREATION_DISABLED'')
         else if active_exit_intent_for_position position_id db then Inl (ValueError ''LIVE_SIM_EXIT_DUPLICATE'')
         else if po_status p \<notin> {PS_OPEN, PS_RECONCILE_MISMATCH} then Inl (ValueError ''LIVE_SIM_EXIT_POSITION_NOT_OPEN'')
         else if po_available p \<le> 0 \<or> po_available p > po_quantity p then Inl (ValueError ''LIVE_SIM_EXIT_QUANTITY_INVALID'')
         else rbind (case signal_id of Some sid \<Rightarrow> find_row xs_id sid (ld_exit_signals db)
                                     | None \<Rightarrow> Inr (latest_exit_signal position_id db)) (\<lambda>signal. case signal of
           None \<Rightarrow> Inl (ValueError ''LIVE_SIM_EXIT_SIGNAL_REQUIRED'')
         | Some s \<Rightarrow>
             let x = \<lparr> xi_id = xid, xi_position_id = position_id, xi_signal_id = xs_id s, xi_order_id = None, xi_command_id = None,
                       xi_code = po_code p, xi_quantity = po_available p, xi_order_type = ls_exit_default_order_type st,
                       xi_limit_price = price_if_any (xs_last_price s) (po_last_price p), xi_reason = xs_reason s, xi_status = ''CREATED'',
                       xi_idempotency_key = ''live_sim_exit:'' @ position_id @ '':'' @ xs_id s @ '':'' @ xs_reason s \<rparr> in
             if sql_find (\<lambda>y. xi_id y = xid \<or> xi_idempotency_key y = xi_idempotency_key x) (ld_exit_intents db) \<noteq> None
             then Inl (ValueError ''UNIQUE constraint failed: live_sim_exit_intents'')
             else Inr (x, record_lifecycle_event ''EXIT_INTENT_CREATED'' ''LIVE_SIM_EXIT_INTENT'' (Some xid) None (Some position_id)
                            (Some ''CREATED'') (xs_reason s)
                            (db\<lparr> ld_exit_intents := ld_exit_intents db @ [x],
                                 ld_exit_signals := sql_update (\<lambda>y. xs_id y = xs_id s) (\<lambda>y. y\<lparr> xs_status := ''EXIT_INTENT_CREATED'' \<rparr>)
                                   (ld_exit_signals db) \<rparr>))))"

section \<open>The exit order\<close>

definition tick_offset_value :: "int \<Rightarrow> rat" where
  "tick_offset_value offset_ticks = of_int offset_ticks"

definition exit_limit_price :: "live_settings \<Rightarrow> live_position \<Rightarrow> exit_intent \<Rightarrow> rat" where
  "exit_limit_price st p x =
     (case price_if_any (xi_limit_price x) (po_last_price p) of Some r \<Rightarrow> r | None \<Rightarrow> 0) + tick_offset_value (ls_exit_price_offset_ticks st)"

definition exit_metadata :: "live_settings \<Rightarrow> live_position \<Rightarrow> exit_intent \<Rightarrow> pydict" where
  "exit_metadata st p x =
     [(''source'', PStr ''live_sim''), (''live_sim_only'', PBool True), (''live_real_allowed'', PBool False),
      (''broker_order_path'', PStr ''LIVE_SIM_ONLY''), (''order_exchange'', PStr (ls_order_exchange st)),
      (''close_only'', PBool True), (''allow_short'', PBool False), (''position_id'', PStr (po_id p)),
      (''exit_signal_id'', PStr (xi_signal_id x)), (''exit_intent_id'', PStr (xi_id x)),
      (''live_sim_intent_id'', PStr (xi_id x)), (''idempotency_key'', PStr (xi_idempotency_key x))]"

definition build_gateway_exit_order_payload :: "live_settings \<Rightarrow> live_position \<Rightarrow> exit_intent \<Rightarrow> pydict" where
  "build_gateway_exit_order_payload st p x =
     (let limit = PFloat (Finite (exit_limit_price st p x)) in
      [(''account_id'', PStr (po_account_id p)), (''account_mode'', PStr (ls_account_mode st)), (''broker_env'', PStr (ls_broker_env st)),
       (''server_mode'', PStr (ls_server_mode st)), (''code'', PStr (po_code p)), (''name'', PStr (po_name p)), (''side'', PStr ''SELL''),
       (''quantity'', PInt (xi_quantity x)), (''price'', limit), (''limit_price'', limit), (''order_type'', PStr (xi_order_type x)),
       (''hoga'', PStr (ls_default_hoga st)), (''order_exchange'', PStr (ls_order_exchange st)), (''mode'', PStr ''LIVE_SIM''),
       (''live_mode'', PStr ''LIVE_SIM''), (''live_sim_only'', PBool True), (''live_real_allowed'', PBool False),
       (''broker_order_path'', PStr ''LIVE_SIM_ONLY''), (''real_order_allowed'', PBool False), (''close_only'', PBool True),
       (''allow_short'', PBool False), (''position_id'', PStr (po_id p)), (''exit_signal_id'', PStr (xi_signal_id x)),
       (''exit_intent_id'', PStr (xi_id x)), (''live_sim_intent_id'', PStr (xi_id x)),
       (''idempotency_key'', PStr (xi_idempotency_key x)), (''metadata'', PDict (exit_metadata st p x))])"

definition exit_safety_reasons ::
  "(string \<Rightarrow> pyval result) \<Rightarrow> (pyval \<Rightarrow> instant option) \<Rightarrow> live_settings \<Rightarrow> gate_view \<Rightarrow> live_position \<Rightarrow> exit_intent \<Rightarrow> live_db
     \<Rightarrow> string list result" where
  "exit_safety_reasons js ts st gv p x db =
     rbind (check_live_sim_safety_gate js ts st ''LIFECYCLE'' False False None gv db) (\<lambda>gate.
       Inr (merge_reasons ((if gr_passed gate then [] else gr_reason_codes gate) @ map snd (filter fst
         [(\<not> ls_exit_engine_enabled st, ''LIVE_SIM_EXIT_DISABLED''),
          (\<not> ls_exit_order_creation_enabled st, ''LIVE_SIM_EXIT_ORDER_CREATION_DISABLED''),
          (\<not> ls_exit_gateway_command_enabled st, ''LIVE_SIM_EXIT_GATEWAY_COMMAND_DISABLED''),
          (ls_kill_switch st, ''LIVE_SIM_KILL_SWITCH_ACTIVE''),
          (\<not> ls_exit_allow_sell_close_only st, ''SELL_NOT_ALLOWED''),
          (ls_exit_allow_short st, ''LIVE_SIM_EXIT_SHORT_NOT_ALLOWED''),
          (py_upper (xi_order_type x) = ''MARKET'', ''LIVE_SIM_EXIT_MARKET_ORDER_NOT_ALLOWED''),
          (po_status p \<notin> ACTIVE_POSITION, ''LIVE_SIM_EXIT_POSITION_NOT_OPEN''),
          (xi_quantity x \<le> 0 \<or> xi_quantity x > po_available p, ''LIVE_SIM_EXIT_QUANTITY_INVALID''),
          (xi_command_id x \<notin> {None, Some []}, ''LIVE_SIM_EXIT_DUPLICATE'')]))))"

definition mark_exit_intent_rejected :: "exit_intent \<Rightarrow> string list \<Rightarrow> live_db \<Rightarrow> live_db" where
  "mark_exit_intent_rejected x reasons db =
     record_lifecycle_event ''EXIT_INTENT_REJECTED'' ''LIVE_SIM_EXIT_INTENT'' (Some (xi_id x)) None (Some (xi_position_id x))
       (Some ''REJECTED'') (comma_list reasons) (set_exit_status (xi_id x) ''REJECTED'' db)"

definition refusal_text :: "enqueue_result \<Rightarrow> string" where
  "refusal_text q = (case q_error_message q of Some m \<Rightarrow> (if m = [] then ''COMMAND_QUEUE_REJECTED'' else m) | None \<Rightarrow> ''COMMAND_QUEUE_REJECTED'')"

definition exit_checks ::
  "(string \<Rightarrow> pyval result) \<Rightarrow> (pyval \<Rightarrow> instant option) \<Rightarrow> live_settings \<Rightarrow> gate_view \<Rightarrow> string \<Rightarrow> live_db
     \<Rightarrow> (exit_intent \<times> live_position \<times> string list) result" where
  "exit_checks js ts st gv xid db =
     rbind (find_row xi_id xid (ld_exit_intents db)) (\<lambda>intent. case intent of
       None \<Rightarrow> Inl (ValueError ''LIVE_SIM exit intent not found'')
     | Some x \<Rightarrow> rbind (find_row po_id (xi_position_id x) (ld_positions db)) (\<lambda>found. case found of
         None \<Rightarrow> Inl (ValueError ''LIVE_SIM_EXIT_POSITION_NOT_FOUND'')
       | Some p \<Rightarrow> rbind (exit_safety_reasons js ts st gv p x db) (\<lambda>reasons. Inr (x, p, reasons))))"

definition enqueue_exit_order ::
  "(string \<Rightarrow> pyval result) \<Rightarrow> (pyval \<Rightarrow> instant option) \<Rightarrow> repr \<Rightarrow> (pydict \<Rightarrow> string) \<Rightarrow> live_settings \<Rightarrow> gate_view \<Rightarrow> instant
     \<Rightarrow> string \<Rightarrow> string \<Rightarrow> live_db \<times> command_store \<Rightarrow> (exit_intent \<times> live_position) durable" where
  \<comment> \<open>the first transaction: the checks and the command\<close>
  "enqueue_exit_order js ts rp hsh st gv now cid xid s =
     (let db = fst s; queue = snd s in
      case exit_checks js ts st gv xid db of
        Inl e \<Rightarrow> (Inl e, db, queue)
      | Inr (x, p, reasons) \<Rightarrow>
          if reasons \<noteq> [] then (Inl (ValueError (comma_list reasons)), mark_exit_intent_rejected x reasons db, queue)
          else case gateway_command_for cid now ''send_order'' (build_gateway_exit_order_payload st p x) (xi_idempotency_key x) of
            Inl e \<Rightarrow> (Inl e, db, queue)
          | Inr c \<Rightarrow>
              (let (q, queue') = enqueue_command rp hsh now c None queue in
               if q_accepted q then (Inr (x, p), db, queue')
               else (Inl (ValueError (refusal_text q)), mark_exit_intent_rejected x [''COMMAND_QUEUE_REJECTED''] db, queue')))"

definition exit_order_of :: "string \<Rightarrow> string \<Rightarrow> instant \<Rightarrow> string \<Rightarrow> exit_intent \<Rightarrow> live_position \<Rightarrow> live_order" where
  "exit_order_of oid cid now xid x p =
     \<lparr> lo_id = oid, lo_intent_id = xid, lo_command_id = Some cid, lo_trade_date = po_trade_date p, lo_account_id = po_account_id p,
       lo_code = po_code p, lo_name = po_name p, lo_side = SELL, lo_order_type = xi_order_type x, lo_quantity = xi_quantity x,
       lo_limit_price = xi_limit_price x,
       lo_notional = of_int (xi_quantity x) * (case xi_limit_price x of Some r \<Rightarrow> r | None \<Rightarrow> 0), lo_status = LO_EXIT_COMMAND_QUEUED,
       lo_broker_order_no = None, lo_broker_result_code = None, lo_broker_message = None, lo_filled_quantity = 0,
       lo_remaining_quantity = xi_quantity x, lo_avg_fill_price = None, lo_idempotency_key = xi_idempotency_key x,
       lo_created_at = now, lo_queued_at = Some now, lo_dispatched_at = None, lo_broker_acked_at = None, lo_last_event_at = None \<rparr>"

definition record_exit_order ::
  "instant \<Rightarrow> string \<Rightarrow> string \<Rightarrow> (instant \<Rightarrow> string) \<Rightarrow> string \<Rightarrow> exit_intent \<Rightarrow> live_position \<Rightarrow> live_db \<Rightarrow> live_db result" where
  \<comment> \<open>the second transaction\<close>
  "record_exit_order now oid cid wire xid x p db =
     rbind (validated_order (exit_order_of oid cid now xid x p)) (\<lambda>r.
     rbind (insert_order r db) (\<lambda>db1.
       let db2 = db1\<lparr> ld_exit_intents := sql_update (\<lambda>y. xi_id y = xid)
                        (\<lambda>y. y\<lparr> xi_status := ''COMMAND_QUEUED'', xi_command_id := Some cid, xi_order_id := Some (lo_id r) \<rparr>) (ld_exit_intents db1),
                      ld_exit_signals := sql_update (\<lambda>y. xs_id y = xi_signal_id x) (\<lambda>y. y\<lparr> xs_status := ''COMMAND_QUEUED'' \<rparr>)
                        (ld_exit_signals db1) \<rparr>;
           db3 = update_position (po_id p) (\<lambda>r. r\<lparr> po_status := PS_CLOSING, po_updated_at := wire now \<rparr>) db2 in
       Inr (record_lifecycle_event ''EXIT_COMMAND_QUEUED'' ''LIVE_SIM_EXIT_INTENT'' (Some xid) (Some (lo_id r)) (Some (po_id p))
              (Some ''COMMAND_QUEUED'') (xi_reason x) db3)))"

definition queue_live_sim_exit_order_command ::
  "(string \<Rightarrow> pyval result) \<Rightarrow> (pyval \<Rightarrow> instant option) \<Rightarrow> repr \<Rightarrow> (pydict \<Rightarrow> string) \<Rightarrow> (instant \<Rightarrow> string) \<Rightarrow> live_settings \<Rightarrow> gate_view
     \<Rightarrow> instant \<Rightarrow> string \<Rightarrow> string \<Rightarrow> string \<Rightarrow> live_db \<times> command_store \<Rightarrow> exit_intent durable" where
  "queue_live_sim_exit_order_command js ts rp hsh wire st gv now cid oid xid s =
     (case enqueue_exit_order js ts rp hsh st gv now cid xid s of
        (Inl e, db, queue) \<Rightarrow> (Inl e, db, queue)
      | (Inr (x, p), db, queue) \<Rightarrow>
          (case record_exit_order now oid cid wire xid x p db of
             Inl e \<Rightarrow> (Inl e, db, queue)
           | Inr db' \<Rightarrow> (Inr x, db', queue)))"

section \<open>Cancellations\<close>

definition create_live_sim_cancel_intent ::
  "instant \<Rightarrow> string \<Rightarrow> string \<Rightarrow> string \<Rightarrow> live_db \<Rightarrow> (cancel_intent \<times> live_db) result" where
  \<comment> \<open>\<open>created_at\<close> is a default of the table, in whole seconds\<close>
  "create_live_sim_cancel_intent now cid order_id reason db =
     rbind (find_row lo_id order_id (ld_orders db)) (\<lambda>found. case found of
       None \<Rightarrow> Inl (ValueError ''LIVE_SIM order not found'')
     | Some r \<Rightarrow>
         if sql_find (\<lambda>c. ci_order_id c = py_strip order_id \<and> ci_status c \<in> ACTIVE_INTENT) (ld_cancel_intents db) \<noteq> None
         then Inl (ValueError ''LIVE_SIM_CANCEL_DUPLICATE'')
         else if lo_remaining_quantity r \<le> 0 then Inl (ValueError ''LIVE_SIM_CANCEL_NO_REMAINING_QUANTITY'')
         else let c = \<lparr> ci_id = cid, ci_order_id = order_id, ci_command_id = None, ci_code = lo_code r, ci_original_order_no = lo_broker_order_no r,
                        ci_cancel_quantity = lo_remaining_quantity r, ci_status = ''CREATED'', ci_reason = py_upper reason,
                        ci_idempotency_key = ''live_sim_cancel:'' @ order_id @ '':'' @ py_upper reason,
                        ci_created_at = now div microseconds \<rparr> in
              if sql_find (\<lambda>c'. ci_id c' = cid \<or> ci_idempotency_key c' = ci_idempotency_key c) (ld_cancel_intents db) \<noteq> None
              then Inl (ValueError ''UNIQUE constraint failed: live_sim_cancel_intents'')
              else Inr (c, record_lifecycle_event ''CANCEL_INTENT_CREATED'' ''LIVE_SIM_CANCEL_INTENT'' (Some cid) (Some order_id) None
                             (Some ''CREATED'') (py_upper reason)
                             (update_order order_id (\<lambda>o'. o'\<lparr> lo_status := LO_CANCEL_REQUESTED, lo_last_event_at := Some now \<rparr>)
                               (db\<lparr> ld_cancel_intents := ld_cancel_intents db @ [c] \<rparr>))))"

definition cancel_safety_reasons ::
  "(string \<Rightarrow> pyval result) \<Rightarrow> (pyval \<Rightarrow> instant option) \<Rightarrow> live_settings \<Rightarrow> gate_view \<Rightarrow> instant \<Rightarrow> live_order \<Rightarrow> cancel_intent \<Rightarrow> live_db
     \<Rightarrow> string list result" where
  "cancel_safety_reasons js ts st gv now r c db =
     rbind (check_live_sim_safety_gate js ts st ''LIFECYCLE'' False False None gv db) (\<lambda>gate.
       Inr (merge_reasons ((if gr_passed gate then [] else gr_reason_codes gate) @ map snd (filter fst
         [(\<not> ls_cancel_enabled st, ''LIVE_SIM_CANCEL_DISABLED''),
          (\<not> ls_cancel_unfilled_enabled st, ''LIVE_SIM_CANCEL_UNFILLED_DISABLED''),
          (ls_cancel_kill_switch st \<or> ls_kill_switch st, ''LIVE_SIM_KILL_SWITCH_ACTIVE''),
          (lo_side r \<noteq> BUY, ''LIVE_SIM_CANCEL_NOT_BUY''),
          (lo_remaining_quantity r \<le> 0, ''LIVE_SIM_CANCEL_NO_REMAINING_QUANTITY''),
          (max (now - lo_created_at r) 0 < ls_cancel_order_ttl_sec st * microseconds, ''LIVE_SIM_CANCEL_TTL_NOT_EXPIRED''),
          (ls_cancel_require_broker_order_no st \<and> \<not> ls_cancel_allow_without_broker_order_no st
             \<and> lo_broker_order_no r \<in> {None, Some []}, ''LIVE_SIM_CANCEL_BROKER_ORDER_NO_REQUIRED''),
          (ci_command_id c \<notin> {None, Some []}, ''LIVE_SIM_CANCEL_DUPLICATE'')]))))"

definition order_no_or :: "string option \<Rightarrow> string option \<Rightarrow> string option" where
  "order_no_or a b = (if a \<in> {None, Some []} then b else a)"

definition build_gateway_cancel_order_payload :: "live_settings \<Rightarrow> live_order \<Rightarrow> cancel_intent \<Rightarrow> pydict" where
  "build_gateway_cancel_order_payload st r c =
     [(''account_id'', PStr (lo_account_id r)), (''account_mode'', PStr (ls_account_mode st)), (''broker_env'', PStr (ls_broker_env st)),
      (''server_mode'', PStr (ls_server_mode st)), (''code'', PStr (lo_code r)), (''name'', PStr (lo_name r)), (''side'', PStr ''BUY_CANCEL''),
      (''quantity'', PInt (ci_cancel_quantity c)), (''cancel_quantity'', PInt (ci_cancel_quantity c)),
      (''original_order_no'', opt_text (order_no_or (ci_original_order_no c) (lo_broker_order_no r))),
      (''original_order_id'', PStr (lo_id r)), (''live_sim_order_id'', PStr (lo_id r)), (''reason'', PStr (ci_reason c)),
      (''mode'', PStr ''LIVE_SIM''), (''live_mode'', PStr ''LIVE_SIM''), (''live_sim_only'', PBool True), (''live_real_allowed'', PBool False),
      (''broker_order_path'', PStr ''LIVE_SIM_ONLY''), (''real_order_allowed'', PBool False), (''order_exchange'', PStr (ls_order_exchange st)),
      (''idempotency_key'', PStr (ci_idempotency_key c)),
      (''metadata'', PDict
        [(''source'', PStr ''live_sim''), (''live_sim_only'', PBool True), (''live_real_allowed'', PBool False),
         (''broker_order_path'', PStr ''LIVE_SIM_ONLY''), (''order_exchange'', PStr (ls_order_exchange st)), (''cancel_intent_id'', PStr (ci_id c)),
         (''original_live_sim_order_id'', PStr (lo_id r)), (''live_sim_intent_id'', PStr (lo_intent_id r)),
         (''idempotency_key'', PStr (ci_idempotency_key c))])]"

definition mark_cancel_intent_rejected :: "cancel_intent \<Rightarrow> string list \<Rightarrow> live_db \<Rightarrow> live_db" where
  "mark_cancel_intent_rejected c reasons db =
     record_lifecycle_event ''CANCEL_INTENT_REJECTED'' ''LIVE_SIM_CANCEL_INTENT'' (Some (ci_id c)) (Some (ci_order_id c)) None
       (Some ''REJECTED'') (comma_list reasons) (set_cancel_status (ci_id c) ''REJECTED'' db)"

definition cancel_checks ::
  "(string \<Rightarrow> pyval result) \<Rightarrow> (pyval \<Rightarrow> instant option) \<Rightarrow> live_settings \<Rightarrow> gate_view \<Rightarrow> instant \<Rightarrow> string \<Rightarrow> live_db
     \<Rightarrow> (cancel_intent \<times> live_order \<times> string list) result" where
  "cancel_checks js ts st gv now ciid db =
     rbind (find_row ci_id ciid (ld_cancel_intents db)) (\<lambda>intent. case intent of
       None \<Rightarrow> Inl (ValueError ''LIVE_SIM cancel intent not found'')
     | Some c \<Rightarrow> rbind (find_row lo_id (ci_order_id c) (ld_orders db)) (\<lambda>found. case found of
         None \<Rightarrow> Inl (ValueError ''LIVE_SIM order not found'')
       | Some r \<Rightarrow> rbind (cancel_safety_reasons js ts st gv now r c db) (\<lambda>reasons. Inr (c, r, reasons))))"

definition enqueue_cancel_order ::
  "(string \<Rightarrow> pyval result) \<Rightarrow> (pyval \<Rightarrow> instant option) \<Rightarrow> repr \<Rightarrow> (pydict \<Rightarrow> string) \<Rightarrow> live_settings \<Rightarrow> gate_view \<Rightarrow> instant
     \<Rightarrow> string \<Rightarrow> string \<Rightarrow> live_db \<times> command_store \<Rightarrow> (cancel_intent \<times> live_order) durable" where
  \<comment> \<open>the first transaction\<close>
  "enqueue_cancel_order js ts rp hsh st gv now cid ciid s =
     (let db = fst s; queue = snd s in
      case cancel_checks js ts st gv now ciid db of
        Inl e \<Rightarrow> (Inl e, db, queue)
      | Inr (c, r, reasons) \<Rightarrow>
          if reasons \<noteq> [] then (Inl (ValueError (comma_list reasons)), mark_cancel_intent_rejected c reasons db, queue)
          else case gateway_command_for cid now ''cancel_order'' (build_gateway_cancel_order_payload st r c) (ci_idempotency_key c) of
            Inl e \<Rightarrow> (Inl e, db, queue)
          | Inr command \<Rightarrow>
              (let (q, queue') = enqueue_command rp hsh now command None queue in
               if q_accepted q then (Inr (c, r), db, queue')
               else (Inl (ValueError (refusal_text q)), mark_cancel_intent_rejected c [''COMMAND_QUEUE_REJECTED''] db, queue')))"

definition record_cancel_command :: "instant \<Rightarrow> string \<Rightarrow> string \<Rightarrow> cancel_intent \<Rightarrow> live_order \<Rightarrow> live_db \<Rightarrow> live_db" where
  \<comment> \<open>the second transaction\<close>
  "record_cancel_command now cid ciid c r db =
     record_lifecycle_event ''CANCEL_COMMAND_QUEUED'' ''LIVE_SIM_CANCEL_INTENT'' (Some ciid) (Some (lo_id r)) None (Some ''COMMAND_QUEUED'')
       (ci_reason c)
       (update_order (lo_id r) (\<lambda>o'. o'\<lparr> lo_status := LO_CANCEL_COMMAND_QUEUED, lo_last_event_at := Some now \<rparr>)
         (db\<lparr> ld_cancel_intents := sql_update (\<lambda>y. ci_id y = ciid) (\<lambda>y. y\<lparr> ci_status := ''COMMAND_QUEUED'', ci_command_id := Some cid \<rparr>)
                (ld_cancel_intents db) \<rparr>))"

definition queue_live_sim_cancel_command ::
  "(string \<Rightarrow> pyval result) \<Rightarrow> (pyval \<Rightarrow> instant option) \<Rightarrow> repr \<Rightarrow> (pydict \<Rightarrow> string) \<Rightarrow> live_settings \<Rightarrow> gate_view
     \<Rightarrow> instant \<Rightarrow> string \<Rightarrow> string \<Rightarrow> live_db \<times> command_store \<Rightarrow> cancel_intent durable" where
  "queue_live_sim_cancel_command js ts rp hsh st gv now cid ciid s =
     (case enqueue_cancel_order js ts rp hsh st gv now cid ciid s of
        (Inl e, db, queue) \<Rightarrow> (Inl e, db, queue)
      | (Inr (c, r), db, queue) \<Rightarrow> (Inr c, record_cancel_command now cid ciid c r db, queue))"

section \<open>The command of an exit\<close>

lemma enqueue_accepted:
  assumes "enqueue_command rp hsh now c None s = (q, s')" "q_accepted q" "g_idempotency_key c = Some k"
  shows "validate_command_type_allowed rp (normalize_command_type (g_command_type c)) (Some c) = None
    \<and> s_commands s' = s_commands s @ [queued_row hsh c None] \<and> retains_forever k s'"
proof (cases rule: enqueue_command_cases [where rp = rp and c = c and hsh = hsh and now = now and ex = None and s = s])
  case (accepted res s'')
  with assms(1) have "insert_queued hsh c None now (s\<lparr>s_dedupe := dedupe_after c now (s_dedupe s)\<rparr>) = Inr s'" by simp
  then show ?thesis using accepted(1) dedupe_after_free [OF assms(3), of now "s_dedupe s"] assms(3)
    by (auto simp: insert_queued_def retains_forever_def lookup_by_append split: if_splits)
qed (use assms in \<open>auto simp: rejection_def\<close>)

lemma enqueue_retained:
  assumes "enqueue_command rp hsh now c ex s = (q, s')" "g_idempotency_key c = Some k" "retains_forever k s"
  shows "\<not> q_accepted q"
proof (cases rule: enqueue_command_cases [where rp = rp and c = c and hsh = hsh and now = now and ex = ex and s = s])
  case (accepted res s'')
  then show ?thesis using retains_forever_retained [OF assms(3)] assms(2) by simp
qed (use assms in \<open>auto simp: rejection_def\<close>)

lemma enqueue_exit_cases:
  assumes "enqueue_exit_order js ts rp hsh st gv now cid xid (db, queue) = (Inr (x, p), db', queue')"
  shows "exit_checks js ts st gv xid db = Inr (x, p, []) \<and> db' = db
    \<and> (\<exists>c q. gateway_command_for cid now ''send_order'' (build_gateway_exit_order_payload st p x) (xi_idempotency_key x) = Inr c
        \<and> enqueue_command rp hsh now c None queue = (q, queue') \<and> q_accepted q)"
proof (cases "exit_checks js ts st gv xid db")
  case (Inr y)
  obtain x' p' rs where y: "y = (x', p', rs)" by (cases y)
  show ?thesis
  proof (cases "gateway_command_for cid now ''send_order'' (build_gateway_exit_order_payload st p' x') (xi_idempotency_key x')")
    case (Inl e)
    then show ?thesis using assms by (simp add: enqueue_exit_order_def Let_def Inr y split: if_splits)
  next
    case c: (Inr c)
    obtain q s' where q: "enqueue_command rp hsh now c None queue = (q, s')" by (cases "enqueue_command rp hsh now c None queue")
    show ?thesis using assms c q by (auto simp: enqueue_exit_order_def Let_def Inr y split: if_splits)
  qed
qed (use assms in \<open>simp add: enqueue_exit_order_def\<close>)

lemma exit_checks_facts:
  assumes "exit_checks js ts st gv xid db = Inr (x, p, rs)"
  shows "sql_find (\<lambda>y. xi_id y = py_strip xid) (ld_exit_intents db) = Some x
    \<and> sql_find (\<lambda>y. po_id y = py_strip (xi_position_id x)) (ld_positions db) = Some p \<and> exit_safety_reasons js ts st gv p x db = Inr rs"
  using assms by (auto simp: exit_checks_def find_row_def require_non_empty_str_def rbind_Inr_iff invalid_def split: if_splits option.split_asm)

lemma no_exit_reasons:
  assumes "exit_safety_reasons js ts st gv p x db = Inr []"
  shows "lifecycle_clear js ts st gv \<and> ls_exit_engine_enabled st \<and> ls_exit_allow_sell_close_only st \<and> \<not> ls_exit_allow_short st
    \<and> py_upper (xi_order_type x) \<noteq> ''MARKET'' \<and> po_status p \<in> ACTIVE_POSITION \<and> 0 < xi_quantity x \<and> xi_quantity x \<le> po_available p"
proof -
  obtain g where g: "check_live_sim_safety_gate js ts st ''LIFECYCLE'' False False None gv db = Inr g"
    using assms by (auto simp: exit_safety_reasons_def rbind_Inr_iff)
  let ?gs = "[(\<not> ls_exit_engine_enabled st, ''LIVE_SIM_EXIT_DISABLED''),
          (\<not> ls_exit_order_creation_enabled st, ''LIVE_SIM_EXIT_ORDER_CREATION_DISABLED''),
          (\<not> ls_exit_gateway_command_enabled st, ''LIVE_SIM_EXIT_GATEWAY_COMMAND_DISABLED''),
          (ls_kill_switch st, ''LIVE_SIM_KILL_SWITCH_ACTIVE''),
          (\<not> ls_exit_allow_sell_close_only st, ''SELL_NOT_ALLOWED''),
          (ls_exit_allow_short st, ''LIVE_SIM_EXIT_SHORT_NOT_ALLOWED''),
          (py_upper (xi_order_type x) = ''MARKET'', ''LIVE_SIM_EXIT_MARKET_ORDER_NOT_ALLOWED''),
          (po_status p \<notin> ACTIVE_POSITION, ''LIVE_SIM_EXIT_POSITION_NOT_OPEN''),
          (xi_quantity x \<le> 0 \<or> xi_quantity x > po_available p, ''LIVE_SIM_EXIT_QUANTITY_INVALID''),
          (xi_command_id x \<notin> {None, Some []}, ''LIVE_SIM_EXIT_DUPLICATE'')]"
  have "merge_reasons ((if gr_passed g then [] else gr_reason_codes g) @ map snd (filter fst ?gs)) = []"
    using assms unfolding exit_safety_reasons_def g rbind.simps by (simp only: sum.inject)
  then have none: "merge_reasons (if gr_passed g then [] else gr_reason_codes g) = []" "merge_reasons (map snd (filter fst ?gs)) = []"
    unfolding merge_append_Nil by simp_all
  have "list_all (\<lambda>r. py_strip r \<noteq> []) (map snd ?gs)" unfolding list.map snd_conv by code_simp
  then have clear: "\<forall>c \<in> set ?gs. \<not> fst c" using none(2) no_guard_iff [of ?gs] by (simp only: list_all_iff set_map) blast
  have "gr_passed g"
  proof (rule ccontr)
    assume blocked: "\<not> gr_passed g"
    obtain gs where gs: "gr_reason_codes g = merge_reasons gs" "gr_passed g \<longleftrightarrow> merge_reasons gs = []"
      using g by (auto simp: check_live_sim_safety_gate_def rbind_Inr_iff Let_def)
    then obtain r where "r \<in> set gs" "py_strip r \<noteq> []" using blocked by (auto simp: merge_reasons_Nil_iff)
    then have "py_upper r \<in> set (merge_reasons gs)" "py_strip (py_upper r) \<noteq> []" by (auto simp: merge_reasons_def py_strip_upper)
    then show False using none(1) blocked gs(1) by (auto simp: merge_reasons_Nil_iff)
  qed
  then have "lifecycle_clear js ts st gv" using gate_passes_iff [OF g] by simp
  then show ?thesis using clear by simp
qed

lemma exit_payload_side: "dget_or (build_gateway_exit_order_payload st p x) ''side'' (PStr []) = PStr ''SELL''"
  by (simp add: build_gateway_exit_order_payload_def dget_or_def Let_def)

lemma exit_command_policy:
  assumes "gateway_command_for cid now ''send_order'' (build_gateway_exit_order_payload st p x) key = Inr c"
    and "validate_command_type_allowed rp (normalize_command_type (g_command_type c)) (Some c) = None"
  shows "g_command_id c = cid \<and> g_payload c = build_gateway_exit_order_payload st p x \<and> g_idempotency_key c = Some (py_strip key)
    \<and> simulation_order rp ''live_sim'' (Some (py_strip key)) (g_payload c) \<and> closing_only rp (g_payload c) \<and> normalize_command_type (g_command_type c) = ''send_order''"
proof -
  have c: "g_command_type c = ''send_order''" "g_source c = ''live_sim''" "g_command_id c = cid" "g_payload c = build_gateway_exit_order_payload st p x"
      "g_idempotency_key c = Some (py_strip key)"
    using assms(1) by (auto simp: gateway_command_for_def rbind_Inr_iff require_non_empty_str_def invalid_def split: if_splits)
  have ty: "normalize_command_type ''send_order'' = ''send_order''" "is_order_command_type ''send_order''" by code_simp+
  have "validate_live_sim_send_order_allowed rp (Some c) = None" using assms(2) by (simp add: c ty validate_command_type_allowed_def Let_def)
  from send_order_accepted(2) [OF this] have "closing_only rp (g_payload c)" by (simp add: c(4) exit_payload_side py_upper_def)
  then show ?thesis using accepted_order_scope [OF assms(2)] c ty by simp
qed

lemma positions_update [simp]: "ld_positions (update_position i f db) = sql_update (\<lambda>p. po_id p = i) f (ld_positions db)"
  by (simp add: update_position_def)

lemma exit_recorded_facts:
  assumes "record_exit_order now oid cid wire xid x p db = Inr db'"
  shows "\<exists>r. ld_orders db' = ld_orders db @ [r] \<and> lo_side r = SELL \<and> lo_quantity r = xi_quantity x \<and> lo_account_id r = py_strip (po_account_id p)
     \<and> lo_command_id r = Some (py_strip cid) \<and> (\<forall>s \<in> set (ld_positions db'). po_id s = po_id p \<longrightarrow> po_status s = PS_CLOSING)"
proof -
  obtain r db1 where r: "validated_order (exit_order_of oid cid now xid x p) = Inr r" and db1: "insert_order r db = Inr db1"
    using assms by (auto simp: record_exit_order_def rbind_Inr_iff)
  have "lo_side r = SELL \<and> lo_quantity r = xi_quantity x \<and> lo_account_id r = py_strip (po_account_id p) \<and> lo_command_id r = Some (py_strip cid)"
    using r by (auto simp: validated_order_def exit_order_of_def rbind_Inr_iff require_non_empty_str_def optional_non_empty_str_def opt_text_def
        parse_int_def at_least_def invalid_def Let_def split: if_splits)
  moreover have "ld_orders db1 = ld_orders db @ [r]" using db1 by (auto simp: insert_order_def split: if_splits)
  ultimately show ?thesis using assms
    by (auto simp: record_exit_order_def r db1 Let_def record_lifecycle_event_def set_sql_update update_position_def)
qed

text \<open>
  C12: A sale covers shares that are held. When an exit order is queued, the gate of the service was open (simulation only, no kill
  switch, a fresh and orderable gateway); the order sells a positive number of shares, not more than the position of its intent
  has available, never at the market; the position is now closing; and the queue holds one new command for it, which passes the
  policy of the queue as a simulated order that only closes a position.
\<close>

theorem exit_order_is_covered:
  assumes "queue_live_sim_exit_order_command js ts rp hsh wire st gv now cid oid xid (db, queue) = (Inr x, db', queue')"
  shows "lifecycle_clear js ts st gv \<and> (\<exists>p r row. p \<in> set (ld_positions db) \<and> po_id p = py_strip (xi_position_id x) \<and> po_status p \<in> ACTIVE_POSITION
     \<and> 0 < xi_quantity x \<and> xi_quantity x \<le> po_available p \<and> py_upper (xi_order_type x) \<noteq> ''MARKET''
     \<and> ld_orders db' = ld_orders db @ [r] \<and> lo_side r = SELL \<and> lo_quantity r = xi_quantity x \<and> lo_command_id r = Some (py_strip cid)
     \<and> (\<forall>s \<in> set (ld_positions db'). po_id s = po_id p \<longrightarrow> po_status s = PS_CLOSING)
     \<and> s_commands queue' = s_commands queue @ [row] \<and> r_command_id row = cid \<and> r_command_type row = ''send_order'' \<and> r_status row = QUEUED
     \<and> simulation_order rp (r_source row) (r_idempotency_key row) (r_payload row) \<and> closing_only rp (r_payload row)
     \<and> dget (r_payload row) ''side'' = PStr ''SELL'' \<and> dget (r_payload row) ''quantity'' = PInt (xi_quantity x))"
proof -
  obtain p where run: "enqueue_exit_order js ts rp hsh st gv now cid xid (db, queue) = (Inr (x, p), db, queue')"
    and recorded: "record_exit_order now oid cid wire xid x p db = Inr db'"
    using assms enqueue_exit_cases unfolding queue_live_sim_exit_order_command_def
    by (fastforce split: prod.split_asm sum.split_asm)
  note cases = enqueue_exit_cases [OF run]
  note facts = exit_checks_facts [OF conjunct1 [OF cases]]
  obtain c q where c: "gateway_command_for cid now ''send_order'' (build_gateway_exit_order_payload st p x) (xi_idempotency_key x) = Inr c"
    and q: "enqueue_command rp hsh now c None queue = (q, queue')" "q_accepted q" using cases by blast
  have key: "g_idempotency_key c = Some (py_strip (xi_idempotency_key x))" "g_source c = ''live_sim''"
    using c by (auto simp: gateway_command_for_def rbind_Inr_iff require_non_empty_str_def invalid_def split: if_splits)
  note queued = enqueue_accepted [OF q key(1)]
  note policy = exit_command_policy [OF c conjunct1 [OF queued]]
  obtain r where r: "ld_orders db' = ld_orders db @ [r]" "lo_side r = SELL" "lo_quantity r = xi_quantity x" "lo_command_id r = Some (py_strip cid)"
      "\<forall>s \<in> set (ld_positions db'). po_id s = po_id p \<longrightarrow> po_status s = PS_CLOSING"
    using exit_recorded_facts [OF recorded] by blast
  have p: "p \<in> set (ld_positions db)" "po_id p = py_strip (xi_position_id x)" using facts by (auto simp: sql_find_def find_Some_iff)
  have row: "dget (build_gateway_exit_order_payload st p x) ''side'' = PStr ''SELL''"
      "dget (build_gateway_exit_order_payload st p x) ''quantity'' = PInt (xi_quantity x)"
    by (simp_all add: build_gateway_exit_order_payload_def dget_def Let_def)
  note clear = no_exit_reasons [OF conjunct2 [OF conjunct2 [OF facts]]]
  show ?thesis
    using clear policy r p row queued key
    by (intro conjI exI [of _ p] exI [of _ r] exI [of _ "queued_row hsh c None"]) (auto simp: queued_row_def)
qed

definition sample_held :: live_db where
  "sample_held = \<lparr> ld_orders = [], ld_intents = [], ld_executions = [], ld_positions = [held_position], ld_position_events = [],
     ld_cancel_intents = [], ld_exit_intents = [],
     ld_exit_signals = [\<lparr> xs_id = ''s1'', xs_position_id = ''p1'', xs_reason = ''TAKE_PROFIT'', xs_last_price = Some 110, xs_status = ''SIGNALLED'',
       xs_created_at = 0 \<rparr>], ld_lifecycle = [], ld_errors = [], ld_rejections = [] \<rparr>"

definition succeeded :: "'a durable \<Rightarrow> ('a \<times> live_db \<times> command_store) result" where
  "succeeded d = (case d of (Inl e, _) \<Rightarrow> Inl e | (Inr a, db, queue) \<Rightarrow> Inr (a, db, queue))"

lemma succeeded_iff: "succeeded d = Inr (a, db, queue) \<longleftrightarrow> d = (Inr a, db, queue)"
  by (auto simp: succeeded_def split: prod.split sum.split)

definition sample_exit :: "(exit_intent \<times> live_db \<times> command_store) result" where
  \<comment> \<open>an intent for the whole position, then its command\<close>
  "sample_exit =
     rbind (create_live_sim_exit_intent sample_live_settings ''x1'' ''p1'' None sample_held) (\<lambda>(x, db).
       succeeded (queue_live_sim_exit_order_command (\<lambda>_. Inr PNone) (\<lambda>_. Some 0) (\<lambda>_. []) (\<lambda>_. []) (\<lambda>_. []) sample_live_settings sample_view 0
              ''c9'' ''o9'' ''x1'' (db, empty_store)))"

lemma sample_exit_result:
  "rbind sample_exit (\<lambda>(x, db, queue). Inr (xi_quantity x, map lo_quantity (ld_orders db), map po_status (ld_positions db), map r_status (s_commands queue)))
     = Inr (10, [10], [PS_CLOSING], [QUEUED])"
  by code_simp

theorem exit_order_is_covered_witness:
  "\<exists>x db queue row. sample_exit = Inr (x, db, queue) \<and> s_commands queue = [row] \<and> closing_only (\<lambda>_. []) (r_payload row)"
proof -
  obtain x db queue where out: "sample_exit = Inr (x, db, queue)" using sample_exit_result unfolding rbind_Inr_iff by auto
  obtain x0 db0 where x0: "create_live_sim_exit_intent sample_live_settings ''x1'' ''p1'' None sample_held = Inr (x0, db0)"
    and run: "queue_live_sim_exit_order_command (\<lambda>_. Inr PNone) (\<lambda>_. Some 0) (\<lambda>_. []) (\<lambda>_. []) (\<lambda>_. []) sample_live_settings sample_view 0
              ''c9'' ''o9'' ''x1'' (db0, empty_store) = (Inr x, db, queue)"
    using out unfolding sample_exit_def rbind_Inr_iff by (auto simp: succeeded_iff)
  have "s_commands empty_store = []" by (simp add: empty_store_def)
  then show ?thesis using exit_order_is_covered [OF run] out by auto
qed

end
