(* ===== verification/Live_Books.thy ===== *)
theory Live_Books
  imports Live_Exit "HOL-Library.Sublist"
begin

text \<open>
  The books of the simulated trading service: that orders, executions, positions and position events agree in every state
  that the service reaches.

  \<^item> First what an operation leaves alone (\<open>orders_kept\<close>, \<open>positions_kept\<close>): the events of a command touch no book at all.
  \<^item> Then the invariants: an order against its executions, a position against its events, and both sides against each other;
    each fill keeps them.
  \<^item> \<open>live_step\<close> is what the service does, one transaction a step, the ids that it draws being new. The command queue may
    move in between. The settings are those of one run of the process.
\<close>

section \<open>What an operation leaves alone\<close>

definition books_of_order :: "live_order \<Rightarrow> string \<times> live_side \<times> int \<times> rat option" where
  "books_of_order r = (lo_id r, lo_side r, lo_filled_quantity r, lo_avg_fill_price r)"

definition books_of_position :: "live_position \<Rightarrow> string \<times> int \<times> int \<times> rat \<times> rat \<times> rat" where
  "books_of_position p = (po_id p, po_quantity p, po_available p, po_avg_entry_price p, po_total_entry_notional p, po_realized_pnl p)"

definition orders_kept :: "live_db \<Rightarrow> live_db \<Rightarrow> bool" where
  "orders_kept db db' \<longleftrightarrow> ld_executions db' = ld_executions db \<and> map books_of_order (ld_orders db') = map books_of_order (ld_orders db)"

definition positions_kept :: "live_db \<Rightarrow> live_db \<Rightarrow> bool" where
  "positions_kept db db' \<longleftrightarrow> ld_position_events db' = ld_position_events db
     \<and> map books_of_position (ld_positions db') = map books_of_position (ld_positions db)"

definition books_kept :: "live_db \<Rightarrow> live_db \<Rightarrow> bool" where
  "books_kept db db' \<longleftrightarrow> orders_kept db db' \<and> positions_kept db db'"

lemma kept_refl [simp]: "orders_kept db db" "positions_kept db db" "books_kept db db"
  by (simp_all add: orders_kept_def positions_kept_def books_kept_def)

lemma books_trans: "books_kept a b \<Longrightarrow> books_kept b c \<Longrightarrow> books_kept a c"
  by (simp add: books_kept_def orders_kept_def positions_kept_def)

lemma map_sql_update_kept: "(\<And>r. key (f r) = key r) \<Longrightarrow> map key (sql_update p f t) = map key t"
  by (induction t) auto

lemma books_order_changes [simp]:
  "books_of_order (started_order now r) = books_of_order r"
  "books_of_order (acked_order a n c m now r) = books_of_order r"
  "books_of_order (settled_order st c m now r) = books_of_order r"
  "books_of_order (lo_status_update g r) = books_of_order r"
  "books_of_order (lo_last_event_at_update h r) = books_of_order r"
  by (simp_all add: books_of_order_def started_order_def acked_order_def settled_order_def)

lemmas db_writers = record_lifecycle_event_def update_intent_def set_cancel_status_def set_exit_status_def

lemma kept_writers [simp]:
  "orders_kept db (record_lifecycle_event a b c d e f g db') = orders_kept db db'"
  "positions_kept db (record_lifecycle_event a b c d e f g db') = positions_kept db db'"
  "orders_kept db (update_intent i p h db') = orders_kept db db'" "positions_kept db (update_intent i p h db') = positions_kept db db'"
  "orders_kept db (set_cancel_status i s db') = orders_kept db db'" "positions_kept db (set_cancel_status i s db') = positions_kept db db'"
  "orders_kept db (set_exit_status i s db') = orders_kept db db'" "positions_kept db (set_exit_status i s db') = positions_kept db db'"
  "positions_kept db (update_order oid u db') = positions_kept db db'"
  by (simp_all add: orders_kept_def positions_kept_def db_writers update_order_def)

lemma kept_exit_tables [simp]:
  "orders_kept db (ld_exit_signals_update v db') = orders_kept db db'" "positions_kept db (ld_exit_signals_update v db') = positions_kept db db'"
  "orders_kept db (ld_exit_intents_update w db') = orders_kept db db'" "positions_kept db (ld_exit_intents_update w db') = positions_kept db db'"
  "orders_kept db (ld_cancel_intents_update x db') = orders_kept db db'" "positions_kept db (ld_cancel_intents_update x db') = positions_kept db db'"
  "orders_kept db (ld_errors_update y db') = orders_kept db db'" "positions_kept db (ld_errors_update y db') = positions_kept db db'"
  by (simp_all add: orders_kept_def positions_kept_def)

lemma kept_update_order [simp]: "(\<And>r. books_of_order (f r) = books_of_order r) \<Longrightarrow> orders_kept db (update_order oid f db') = orders_kept db db'"
  by (simp add: orders_kept_def update_order_def map_sql_update_kept)

lemma kept_update_position [simp]:
  "orders_kept db (update_position pid f db') = orders_kept db db'"
  "(\<And>p. books_of_position (f p) = books_of_position p) \<Longrightarrow> positions_kept db (update_position pid f db') = positions_kept db db'"
  by (simp_all add: orders_kept_def positions_kept_def update_position_def map_sql_update_kept)

lemma books_error: "record_error oid code msg db = Inr db' \<Longrightarrow> books_kept a db \<Longrightarrow> books_kept a db'"
  by (auto simp: record_error_def rbind_Inr_iff books_kept_def split: pyval.splits)

lemma books_exit_rejected: "mark_exit_intent_by_order_rejected oid reason db = Inr db' \<Longrightarrow> books_kept a db \<Longrightarrow> books_kept a db'"
  by (auto simp: mark_exit_intent_by_order_rejected_def books_kept_def split: option.splits pyval.splits)

lemma books_acked: "ensures (books_kept db) (order_acked rp payload details now ord db)"
  unfolding order_acked_def Let_def by (intro ensures_rules) (simp_all add: books_kept_def)

lemma books_failed: "ensures (books_kept db) (order_failed rp payload now ord db)"
  unfolding order_failed_def Let_def
  by (intro ensures_rules) (auto simp: books_kept_def dest!: books_exit_rejected [where a = db] split: if_splits)

lemma books_cancel: "ensures (\<lambda>x. books_kept db (snd x)) (handle_cancel_command_event js rp now ty payload ci db)"
  unfolding handle_cancel_command_event_def cancel_event_def Let_def
  by (intro ensures_rules) (simp_all add: books_kept_def)

lemma books_command_event: "ensures (\<lambda>x. books_kept db (snd x)) (handle_live_sim_command_event js rp now ev db)"
  unfolding handle_live_sim_command_event_def Let_def
  by (intro ensures_rules books_cancel)
    (auto simp: books_kept_def dest: ensuresD [OF books_acked, unfolded books_kept_def] ensuresD [OF books_failed, unfolded books_kept_def])

lemma books_lifecycle_event: "ensures (\<lambda>x. books_kept db (snd x)) (handle_live_sim_order_lifecycle_event js rp now ev db)"
  unfolding handle_live_sim_order_lifecycle_event_def Let_def
  by (intro ensures_rules books_cancel) (auto simp: books_kept_def dest!: books_error [where a = db])

lemma books_exit_after_fill [simp]:
  "orders_kept a (mark_exit_after_sell_fill ord res st db) = orders_kept a db"
  "positions_kept a (mark_exit_after_sell_fill ord res st db) = positions_kept a db"
  by (auto simp: mark_exit_after_sell_fill_def Let_def split: option.splits)

lemma books_marked: "books_kept db (mark_position_to_market st p price at' now db)"
  by (simp add: mark_position_to_market_def Let_def books_kept_def books_of_position_def)


section \<open>The books of the orders\<close>

definition fill_average :: "live_execution list \<Rightarrow> rat option" where
  "fill_average es = (if es = [] then None else Some (fill_notional es / of_int (fill_sum es)))"

definition orders_ok :: "live_db \<Rightarrow> bool" where
  \<comment> \<open>an order has filled the sum of its executions, at their weighted average price; an execution is booked once\<close>
  "orders_ok db \<longleftrightarrow> unique_key lo_id (ld_orders db)
     \<and> (\<forall>r \<in> set (ld_orders db). py_strip (lo_id r) = lo_id r \<and> lo_filled_quantity r = fill_sum (executions_of (lo_id r) db)
          \<and> lo_avg_fill_price r = fill_average (executions_of (lo_id r) db))
     \<and> unique_key le_key (ld_executions db) \<and> unique_key le_id (ld_executions db)
     \<and> (\<forall>e \<in> set (ld_executions db). 1 \<le> le_quantity e \<and> 0 \<le> le_price e \<and> le_order_id e \<in> lo_id ` set (ld_orders db))"

lemma orders_ok_kept: assumes "orders_ok db" "orders_kept db db'" shows "orders_ok db'"
proof -
  have ex: "ld_executions db' = ld_executions db" "executions_of oid db' = executions_of oid db" for oid
    using assms(2) by (simp_all add: orders_kept_def executions_of_def)
  have books: "map books_of_order (ld_orders db') = map books_of_order (ld_orders db)" using assms(2) by (simp add: orders_kept_def)
  have ids: "map lo_id (ld_orders db') = map lo_id (ld_orders db)"
    using arg_cong [OF books, of "map fst"] by (simp add: books_of_order_def comp_def)
  have row: "py_strip (lo_id r) = lo_id r \<and> lo_filled_quantity r = fill_sum (executions_of (lo_id r) db)
      \<and> lo_avg_fill_price r = fill_average (executions_of (lo_id r) db)" if r: "r \<in> set (ld_orders db')" for r
  proof -
    have "books_of_order r \<in> set (map books_of_order (ld_orders db))" using r unfolding books [symmetric] by simp
    then obtain r0 where r0: "r0 \<in> set (ld_orders db)" "books_of_order r = books_of_order r0" by auto
    then show ?thesis using assms(1) by (auto simp: orders_ok_def books_of_order_def)
  qed
  have "lo_id ` set (ld_orders db') = lo_id ` set (ld_orders db)" using arg_cong [OF ids, of set] by simp
  then show ?thesis using assms(1) row unfolding orders_ok_def ex unique_key_def ids by simp
qed

lemma filled_order_id [simp]: "lo_id (filled_order ord q rm a n r) = lo_id r"
  by (simp add: filled_order_def)

lemma fill_sum_snoc [simp]: "fill_sum (es @ [e]) = fill_sum es + le_quantity e"
  by (simp add: fill_sum_def)

lemma fill_sum_Nil [simp]: "fill_sum [] = 0"
  by (simp add: fill_sum_def)

lemma executions_of_append: "executions_of oid (db\<lparr> ld_executions := ld_executions db @ [e] \<rparr>)
    = executions_of oid db @ (if le_order_id e = oid then [e] else [])"
  by (simp add: executions_of_def)

lemma executions_of_update_order [simp]: "executions_of oid (update_order i f db) = executions_of oid db"
  by (simp add: executions_of_def update_order_def)

lemma fill_sum_nonneg: "(\<And>e. e \<in> set es \<Longrightarrow> 1 \<le> le_quantity e) \<Longrightarrow> 0 \<le> fill_sum es"
  unfolding fill_sum_def by (induction es) force+

lemma executions_booked [simp]:
  "ld_executions (book_execution ord e remaining now db) = ld_executions db @ [e]"
  "executions_of oid (book_execution ord e remaining now db) = executions_of oid db @ (if le_order_id e = oid then [e] else [])"
  by (simp_all add: book_execution_def Let_def executions_of_append, simp_all add: update_order_def)

lemma orders_booked:
  "ld_orders (book_execution ord e remaining now db) = sql_update (\<lambda>r. lo_id r = lo_id ord)
     (filled_order ord (le_quantity e) remaining (average_fill_price (lo_id ord) (db\<lparr> ld_executions := ld_executions db @ [e] \<rparr>)) now) (ld_orders db)"
  by (simp add: book_execution_def Let_def update_order_def)

lemma order_ids_booked [simp]: "map lo_id (ld_orders (book_execution ord e remaining now db)) = map lo_id (ld_orders db)"
  by (simp add: orders_booked map_sql_update_kept)

lemma orders_ok_booked:
  assumes ok: "orders_ok db" and r: "ord \<in> set (ld_orders db)"
    and e: "le_order_id e = lo_id ord" "1 \<le> le_quantity e" "0 \<le> le_price e"
      "le_key e \<notin> le_key ` set (ld_executions db)" "le_id e \<notin> le_id ` set (ld_executions db)"
  shows "orders_ok (book_execution ord e remaining now db)"
proof -
  let ?db = "book_execution ord e remaining now db" and ?es = "executions_of (lo_id ord) db"
  have "0 \<le> fill_sum ?es" using ok by (intro fill_sum_nonneg) (auto simp: orders_ok_def executions_of_def)
  then have avg: "Some (average_fill_price (lo_id ord) (db\<lparr> ld_executions := ld_executions db @ [e] \<rparr>)) = fill_average (?es @ [e])"
    using e(1,2) by (simp add: average_fill_price_def fill_average_def executions_of_append Let_def)
  have row: "py_strip (lo_id s) = lo_id s" "lo_filled_quantity s = fill_sum (executions_of (lo_id s) db)"
      "lo_avg_fill_price s = fill_average (executions_of (lo_id s) db)" if "s \<in> set (ld_orders db)" for s
    using ok that by (simp_all add: orders_ok_def)
  have "py_strip (lo_id s) = lo_id s \<and> lo_filled_quantity s = fill_sum (executions_of (lo_id s) ?db)
      \<and> lo_avg_fill_price s = fill_average (executions_of (lo_id s) ?db)" if "s \<in> set (ld_orders ?db)" for s
    using that row r e(1) avg unfolding orders_booked set_sql_update executions_booked by (auto simp: filled_order_def)
  moreover have "lo_id ` set (ld_orders ?db) = lo_id ` set (ld_orders db)" by (simp only: set_map [symmetric] order_ids_booked)
  ultimately show ?thesis using ok e r unfolding orders_ok_def unique_key_def order_ids_booked by auto
qed

lemma executions_none: "orders_ok db \<Longrightarrow> oid \<notin> lo_id ` set (ld_orders db) \<Longrightarrow> executions_of oid db = []"
  by (auto simp: orders_ok_def executions_of_def filter_empty_conv)

lemma orders_ok_insert:
  assumes "orders_ok db" "insert_order r db = Inr db'" "py_strip (lo_id r) = lo_id r" "lo_filled_quantity r = 0" "lo_avg_fill_price r = None"
  shows "orders_ok db'"
proof -
  have fresh: "lo_id r \<notin> lo_id ` set (ld_orders db)" and db': "db' = db\<lparr> ld_orders := ld_orders db @ [r] \<rparr>"
    using assms(2) by (auto simp: insert_order_def sql_find_def find_None_iff split: if_splits)
  have "executions_of oid db' = executions_of oid db" for oid by (simp add: executions_of_def db')
  then show ?thesis using assms fresh executions_none [OF assms(1) fresh]
    by (auto simp: orders_ok_def db' unique_key_def fill_average_def)
qed

section \<open>The books of the positions\<close>

definition events_of :: "string \<Rightarrow> live_db \<Rightarrow> position_event list" where
  "events_of pid db = filter (\<lambda>e. pe_position_id e = pid) (ld_position_events db)"

definition cash_flow :: "live_settings \<Rightarrow> position_event \<Rightarrow> rat" where
  \<comment> \<open>what a fill moves in or out of the account, fees and taxes included\<close>
  "cash_flow st e =
     (let q = pe_quantity_delta e; price = pe_price e in
      if q > 0 then - (of_int q * price * (1 + ls_fee_rate st)) else - of_int q * price * (1 - ls_fee_rate st - ls_tax_rate st))"

definition position_balanced :: "live_settings \<Rightarrow> position_event list \<Rightarrow> live_position \<Rightarrow> bool" where
  "position_balanced st es p \<longleftrightarrow>
     po_quantity p = sum_list (map pe_quantity_delta es) \<and> po_available p = po_quantity p \<and> 0 \<le> po_quantity p
   \<and> po_total_entry_notional p = po_avg_entry_price p * of_int (po_quantity p)
   \<and> po_realized_pnl p - po_total_entry_notional p = sum_list (map (cash_flow st) es)"

definition positions_ok :: "live_settings \<Rightarrow> live_db \<Rightarrow> bool" where
  "positions_ok st db \<longleftrightarrow> unique_key po_id (ld_positions db)
     \<and> (\<forall>p \<in> set (ld_positions db). position_balanced st (events_of (po_id p) db) p)
     \<and> (\<forall>e \<in> set (ld_position_events db). pe_position_id e \<in> po_id ` set (ld_positions db))"

lemma positions_ok_kept: assumes "positions_ok st db" "positions_kept db db'" shows "positions_ok st db'"
proof -
  have ev: "ld_position_events db' = ld_position_events db" "events_of pid db' = events_of pid db" for pid
    using assms(2) by (simp_all add: positions_kept_def events_of_def)
  have books: "map books_of_position (ld_positions db') = map books_of_position (ld_positions db)" using assms(2) by (simp add: positions_kept_def)
  have ids: "map po_id (ld_positions db') = map po_id (ld_positions db)"
    using arg_cong [OF books, of "map fst"] by (simp add: books_of_position_def comp_def)
  have row: "position_balanced st (events_of (po_id p) db) p" if p: "p \<in> set (ld_positions db')" for p
  proof -
    have "books_of_position p \<in> set (map books_of_position (ld_positions db))" using p unfolding books [symmetric] by simp
    then obtain q where q: "q \<in> set (ld_positions db)" "books_of_position p = books_of_position q" by auto
    then show ?thesis using assms(1) by (auto simp: positions_ok_def books_of_position_def position_balanced_def)
  qed
  have "po_id ` set (ld_positions db') = po_id ` set (ld_positions db)" by (simp only: set_map [symmetric] ids)
  then show ?thesis using assms(1) row unfolding positions_ok_def ev unique_key_def ids by simp
qed

lemma balanced_opened:
  "1 \<le> quantity \<Longrightarrow> position_balanced st [e] (opened_position st pid ord quantity price t)"
  if "pe_quantity_delta e = quantity" "pe_price e = price"
  using that by (simp add: position_balanced_def opened_position_def entry_cost_def cash_flow_def Let_def field_simps)

lemma balanced_increased:
  assumes "position_balanced st es p" "pe_quantity_delta e = quantity" "pe_price e = price" "1 \<le> quantity"
  shows "position_balanced st (es @ [e]) (increased_position st p quantity price t p)"
  using assms by (simp add: position_balanced_def increased_position_def entry_cost_def cash_flow_def Let_def field_simps)

lemma balanced_reduced:
  assumes "position_balanced st es p" "pe_quantity_delta e = - quantity" "pe_price e = price" "1 \<le> quantity" "quantity \<le> po_available p"
  shows "position_balanced st (es @ [e]) (reduced_position st p quantity price t p)"
  using assms by (simp add: position_balanced_def reduced_position_def realized_by_sale_def cash_flow_def Let_def algebra_simps)

lemma events_of_insert: "events_of pid (insert_position_event e db) = events_of pid db @ (if pe_position_id e = pid then [e] else [])"
  by (simp add: events_of_def insert_position_event_def)

lemma events_of_other [simp]: "events_of pid (update_position i f db) = events_of pid db" "events_of pid (ld_positions_update g db) = events_of pid db"
  by (simp_all add: events_of_def update_position_def)

lemma positions_after_event [simp]: "ld_positions (insert_position_event e db) = ld_positions db"
  "ld_position_events (insert_position_event e db) = ld_position_events db @ [e]"
  by (simp_all add: insert_position_event_def)

lemma positions_ok_change:
  assumes ok: "positions_ok st db" and p: "p \<in> set (ld_positions db)" and id: "\<And>r. po_id (f r) = po_id r"
    and new: "pe_position_id e = po_id p" "position_balanced st (events_of (po_id p) db @ [e]) (f p)"
  shows "positions_ok st (insert_position_event e (update_position (po_id p) f db))"
proof -
  have ids: "map po_id (sql_update q f (ld_positions db)) = map po_id (ld_positions db)" for q by (simp add: map_sql_update_kept id)
  have set_ids: "po_id ` set (sql_update q f (ld_positions db)) = po_id ` set (ld_positions db)" for q by (simp only: set_map [symmetric] ids)
  have one: "s = p" if "s \<in> set (ld_positions db)" "po_id s = po_id p" for s
    using ok p that by (auto simp: positions_ok_def unique_key_def distinct_map dest: inj_onD)
  let ?db = "insert_position_event e (update_position (po_id p) f db)"
  have rows: "ld_positions ?db = sql_update (\<lambda>r. po_id r = po_id p) f (ld_positions db)" by (simp add: update_position_def)
  have evs: "ld_position_events ?db = ld_position_events db @ [e]" by (simp add: update_position_def)
  have "position_balanced st (events_of (po_id s) ?db) s" if s: "s \<in> set (ld_positions ?db)" for s
  proof -
    obtain r where r: "r \<in> set (ld_positions db)" "s = (if po_id r = po_id p then f r else r)" using s unfolding rows set_sql_update by auto
    show ?thesis
    proof (cases "po_id r = po_id p")
      case True
      then show ?thesis using r one [OF r(1)] new by (simp add: events_of_insert id)
    next
      case False
      then show ?thesis using r ok new(1) by (auto simp: events_of_insert positions_ok_def)
    qed
  qed
  moreover have "pe_position_id x \<in> po_id ` set (ld_positions db)" if "x \<in> set (ld_position_events db @ [e])" for x
    using that ok p new(1) by (auto simp: positions_ok_def)
  ultimately show ?thesis using ok unfolding positions_ok_def unique_key_def rows ids evs set_ids by blast
qed

lemma positions_ok_new:
  assumes ok: "positions_ok st db" and fresh: "po_id p \<notin> po_id ` set (ld_positions db)"
    and new: "pe_position_id e = po_id p" "position_balanced st [e] p"
  shows "positions_ok st (insert_position_event e (db\<lparr> ld_positions := ld_positions db @ [p] \<rparr>))"
proof -
  have "pe_position_id x \<noteq> po_id p" if "x \<in> set (ld_position_events db)" for x
    using ok fresh that unfolding positions_ok_def by metis
  then have "events_of (po_id p) db = []" by (simp add: events_of_def filter_empty_conv)
  then show ?thesis using assms by (auto simp: positions_ok_def unique_key_def events_of_insert)
qed


section \<open>A fill\<close>

lemma position_ids_stable [simp]: "po_id (increased_position st p q price t r) = po_id r" "po_id (reduced_position st p q price t r) = po_id r"
  by (simp_all add: increased_position_def reduced_position_def Let_def)

lemma first_sorted_in: "sort_key k (filter P l) = p # x \<Longrightarrow> p \<in> set l"
  by (metis filter_is_subset list.set_intros(1) set_sort subsetD)

lemma position_by_account_code_in: "position_by_account_code account code closing db = Inr (Some p) \<Longrightarrow> p \<in> set (ld_positions db)"
  by (auto simp: position_by_account_code_def rbind_Inr_iff neq_Nil_conv split: list.split_asm dest: first_sorted_in)

definition fill_row :: "position_event \<Rightarrow> string \<times> int \<times> rat" where
  "fill_row e = (pe_execution_id e, pe_quantity_delta e, pe_price e)"

definition fill_applied :: "live_settings \<Rightarrow> live_db \<Rightarrow> live_db \<Rightarrow> (string \<times> int \<times> rat) list \<Rightarrow> bool" where
  \<comment> \<open>the books of the positions are in order and these fills were entered; the orders are untouched\<close>
  "fill_applied st db db' fills \<longleftrightarrow> positions_ok st db' \<and> orders_kept db db'
     \<and> map fill_row (ld_position_events db') = map fill_row (ld_position_events db) @ fills"

lemma orders_kept_event [simp]: "orders_kept a (insert_position_event e db) = orders_kept a db" "orders_kept a (ld_positions_update g db) = orders_kept a db"
  by (simp_all add: orders_kept_def insert_position_event_def)

lemma events_update_position [simp]: "ld_position_events (update_position i f db) = ld_position_events db"
  by (simp add: update_position_def)

lemma opened_fill:
  assumes "positions_ok st db" "1 \<le> q" "new_pid \<notin> po_id ` set (ld_positions db)" "pe_position_id e = new_pid" "fill_row e = (eid, q, price)"
  shows "fill_applied st db (insert_position_event e (db\<lparr> ld_positions := ld_positions db @ [opened_position st new_pid ord q price t] \<rparr>)) [(eid, q, price)]"
proof -
  have "po_id (opened_position st new_pid ord q price t) = new_pid" by (simp add: opened_position_def)
  moreover have "position_balanced st [e] (opened_position st new_pid ord q price t)" using assms by (intro balanced_opened) (auto simp: fill_row_def)
  ultimately show ?thesis using assms by (simp add: fill_applied_def positions_ok_new)
qed

lemma changed_fill:
  assumes "positions_ok st db" "p \<in> set (ld_positions db)" "\<And>r. po_id (f r) = po_id r" "pe_position_id e = po_id p"
    and "position_balanced st (events_of (po_id p) db) p \<Longrightarrow> position_balanced st (events_of (po_id p) db @ [e]) (f p)"
  shows "fill_applied st db (insert_position_event e (update_position (po_id p) f db)) [fill_row e]"
proof -
  have "position_balanced st (events_of (po_id p) db) p" using assms(1,2) by (simp add: positions_ok_def)
  then have "positions_ok st (insert_position_event e (update_position (po_id p) f db))" using assms by (intro positions_ok_change) auto
  then show ?thesis by (simp add: fill_applied_def)
qed

lemma error_fill:
  assumes "record_error oid code m db = Inr db1" "positions_ok st db" "positions_kept db1 db2" "orders_kept db1 db2"
  shows "fill_applied st db db2 []"
proof -
  have "books_kept db db1" using books_error [OF assms(1)] by simp
  then have kept: "orders_kept db db2" "positions_kept db db2" using assms(3,4) by (simp_all add: books_kept_def orders_kept_def positions_kept_def)
  then show ?thesis using positions_ok_kept [OF assms(2)] by (simp add: fill_applied_def positions_kept_def)
qed

lemma buy_fill:
  assumes "positions_ok st db" "1 \<le> q" "new_pid \<notin> po_id ` set (ld_positions db)"
  shows "ensures (\<lambda>x. fill_applied st db (snd x) [(eid, q, price)]) (apply_buy_fill st new_pid ord eid q price t db)"
  unfolding apply_buy_fill_def Let_def
proof (rule ensures_bind)
  fix found
  assume found: "position_by_account_code (lo_account_id ord) (lo_code ord) False db = Inr found"
  let ?e = "\<lambda>pid ty. \<lparr>pe_position_id = pid, pe_event_type = ty, pe_order_id = lo_id ord, pe_execution_id = eid, pe_code = lo_code ord,
               pe_quantity_delta = q, pe_price = price, pe_realized_pnl = 0\<rparr>"
  have row: "fill_row (?e pid ty) = (eid, q, price)" for pid ty by (simp add: fill_row_def)
  have "fill_applied st db (insert_position_event (?e (po_id p) ty) (update_position (po_id p) (increased_position st p q price t) db))
      [fill_row (?e (po_id p) ty)]" if "found = Some p" for p ty
    using that found assms by (intro changed_fill balanced_increased) (auto dest: position_by_account_code_in)
  then show "ensures (\<lambda>x. fill_applied st db (snd x) [(eid, q, price)])
     (case case found of None \<Rightarrow> (new_pid, ''POSITION_OPENED'', db\<lparr>ld_positions := ld_positions db @ [opened_position st new_pid ord q price t]\<rparr>)
        | Some p \<Rightarrow> (po_id p, ''POSITION_INCREASED'', update_position (po_id p) (increased_position st p q price t) db) of
      (pid, ty, db1) \<Rightarrow> Inr (\<lparr>pr_event_type = ty, pr_position_id = Some pid, pr_remaining = None\<rparr>, insert_position_event (?e pid ty) db1))"
    using assms by (cases found) (auto simp: row intro!: ensures_rules opened_fill)
qed

lemma sold_position_in: "sold_position rp ord metadata db = Inr (Some p) \<Longrightarrow> p \<in> set (ld_positions db)"
  by (auto simp: sold_position_def Let_def sql_find_def find_Some_iff in_set_conv_nth
      split: if_splits option.splits dest: position_by_account_code_in)

lemma sell_fill:
  assumes "positions_ok st db" "1 \<le> q"
  shows "ensures (\<lambda>x. \<exists>fills. fills \<in> {[], [(eid, - q, price)]} \<and> fill_applied st db (snd x) fills)
    (apply_sell_fill rp st ord eid q price t metadata db)"
proof -
  have sold: "fill_applied st db (insert_position_event e (update_position (po_id p) (reduced_position st p q price t) db)) [(eid, - q, price)]"
    if "sold_position rp ord metadata db = Inr (Some p)" "\<not> po_available p < q" "pe_position_id e = po_id p" "fill_row e = (eid, - q, price)" for p e
    unfolding that(4) [symmetric] using that assms
    by (intro changed_fill balanced_reduced) (auto simp: fill_row_def dest: sold_position_in)
  have none: "\<exists>fills. fills \<in> {[], [(eid, - q, price)]} \<and> fill_applied st db db' fills" if "fill_applied st db db' []" for db'
    using that by blast
  have one: "\<exists>fills. fills \<in> {[], [(eid, - q, price)]} \<and> fill_applied st db db' fills" if "fill_applied st db db' [(eid, - q, price)]" for db'
    using that by blast
  show ?thesis
    unfolding apply_sell_fill_def Let_def
    by (intro ensures_rules; unfold snd_conv;
        (rule none, erule error_fill [OF _ assms(1)]; simp add: books_of_position_def
         | rule one, rule sold; simp add: fill_row_def))
qed


section \<open>Executions and fills\<close>

definition traded :: "live_side \<Rightarrow> live_db \<Rightarrow> live_execution \<Rightarrow> bool" where
  \<comment> \<open>the side of the order that an execution filled\<close>
  "traded side db e \<longleftrightarrow> (le_order_id e, side) \<in> (\<lambda>r. (lo_id r, lo_side r)) ` set (ld_orders db)"

definition executed :: "live_side \<Rightarrow> live_db \<Rightarrow> (string \<times> int \<times> rat) list" where
  "executed side db = map (\<lambda>e. (le_id e, le_quantity e, le_price e)) (filter (traded side db) (ld_executions db))"

definition bought :: "live_db \<Rightarrow> (string \<times> int \<times> rat) list" where
  "bought db = filter (\<lambda>(_, q, _). q > 0) (map fill_row (ld_position_events db))"

definition sold :: "live_db \<Rightarrow> (string \<times> int \<times> rat) list" where
  "sold db = map (\<lambda>(i, q, p). (i, - q, p)) (filter (\<lambda>(_, q, _). \<not> q > 0) (map fill_row (ld_position_events db)))"

definition fills_matched :: "live_db \<Rightarrow> bool" where
  \<comment> \<open>every share bought is in a position; every share taken from one was sold, in that order\<close>
  "fills_matched db \<longleftrightarrow> bought db = executed BUY db \<and> subseq (sold db) (executed SELL db)"

lemma fills_matched_kept:
  assumes "fills_matched db" "books_kept db db'"
  shows "fills_matched db'"
proof -
  have books: "map books_of_order (ld_orders db') = map books_of_order (ld_orders db)" using assms(2) by (simp add: books_kept_def orders_kept_def)
  have "map (\<lambda>r. (lo_id r, lo_side r)) (ld_orders db') = map (\<lambda>r. (lo_id r, lo_side r)) (ld_orders db)"
    using arg_cong [OF books, of "map (\<lambda>(i, s, _). (i, s))"] by (simp add: books_of_order_def comp_def)
  from arg_cong [OF this, of set] have "traded side db' = traded side db" for side by (intro ext) (simp add: traded_def)
  then show ?thesis using assms by (simp add: fills_matched_def executed_def bought_def sold_def books_kept_def orders_kept_def positions_kept_def)
qed

definition fills_of :: "live_side \<Rightarrow> string \<times> int \<times> rat \<Rightarrow> (string \<times> int \<times> rat) list set" where
  "fills_of side f = (case side of BUY \<Rightarrow> {[f]} | SELL \<Rightarrow> {[], [(fst f, - fst (snd f), snd (snd f))]})"

lemma orders_ok_side: "orders_ok db \<Longrightarrow> ord \<in> set (ld_orders db) \<Longrightarrow> le_order_id e = lo_id ord \<Longrightarrow> traded side db e \<longleftrightarrow> side = lo_side ord"
  by (auto simp: traded_def orders_ok_def unique_key_def distinct_map dest: inj_onD)

lemma traded_booked [simp]: "traded side (book_execution ord e remaining now db) = traded side db"
proof -
  have "map (\<lambda>r. (lo_id r, lo_side r)) (ld_orders (book_execution ord e remaining now db)) = map (\<lambda>r. (lo_id r, lo_side r)) (ld_orders db)"
    unfolding orders_booked by (rule map_sql_update_kept) (simp add: filled_order_def)
  from arg_cong [OF this, of set] show ?thesis by (intro ext) (simp add: traded_def)
qed

lemma traded_kept: "orders_kept db db' \<Longrightarrow> traded side db' = traded side db"
proof -
  assume "orders_kept db db'"
  then have books: "map books_of_order (ld_orders db') = map books_of_order (ld_orders db)" by (simp add: orders_kept_def)
  have "map (\<lambda>r. (lo_id r, lo_side r)) (ld_orders db') = map (\<lambda>r. (lo_id r, lo_side r)) (ld_orders db)"
    using arg_cong [OF books, of "map (\<lambda>(i, s, _). (i, s))"] by (simp add: books_of_order_def comp_def)
  from arg_cong [OF this, of set] show ?thesis by (intro ext) (simp add: traded_def)
qed

lemma fills_matched_booked:
  assumes "fills_matched db" "orders_ok db" "ord \<in> set (ld_orders db)" "le_order_id e = lo_id ord" "1 \<le> le_quantity e"
    and "fill_applied st (book_execution ord e remaining now db) db' fills" "fills \<in> fills_of (lo_side ord) (le_id e, le_quantity e, le_price e)"
  shows "fills_matched db'"
proof -
  have kept: "orders_kept (book_execution ord e remaining now db) db'" using assms(6) by (simp add: fill_applied_def)
  have ev: "map fill_row (ld_position_events db') = map fill_row (ld_position_events db) @ fills"
    using assms(6) by (simp add: fill_applied_def book_execution_def Let_def update_order_def)
  have ex: "executed side db' = executed side db @ (if side = lo_side ord then [(le_id e, le_quantity e, le_price e)] else [])" for side
    using traded_kept [OF kept] kept orders_ok_side [OF assms(2-4)] by (auto simp: executed_def orders_kept_def)
  have "bought db' = bought db @ filter (\<lambda>(_, q, _). q > 0) fills"
    "sold db' = sold db @ map (\<lambda>(i, q, p). (i, - q, p)) (filter (\<lambda>(_, q, _). \<not> q > 0) fills)"
    by (simp_all add: bought_def sold_def ev)
  then show ?thesis using assms(1,5,7)
    by (cases "lo_side ord") (auto simp: fills_matched_def ex fills_of_def intro: list_emb_append_mono subseq_append')
qed

definition books_ok :: "live_settings \<Rightarrow> live_db \<Rightarrow> bool" where
  "books_ok st db \<longleftrightarrow> orders_ok db \<and> positions_ok st db \<and> fills_matched db"

lemma books_ok_kept: "books_ok st db \<Longrightarrow> books_kept db db' \<Longrightarrow> books_ok st db'"
  using orders_ok_kept positions_ok_kept fills_matched_kept unfolding books_ok_def books_kept_def by blast

lemma books_ok_execution:
  assumes ok: "books_ok st db" and r: "ord \<in> set (ld_orders db)"
    and e: "le_order_id e = lo_id ord" "1 \<le> le_quantity e" "0 \<le> le_price e"
      "le_key e \<notin> le_key ` set (ld_executions db)" "le_id e \<notin> le_id ` set (ld_executions db)"
    and fresh: "new_pid \<notin> po_id ` set (ld_positions db)"
  shows "ensures (books_ok st) (apply_execution rp st new_pid ord e remaining executed_at metadata now db)"
proof -
  let ?db1 = "book_execution ord e remaining now db" and ?f = "(le_id e, le_quantity e, le_price e)"
  have orders: "orders_ok ?db1" using ok orders_ok_booked [OF _ r e] by (simp add: books_ok_def)
  have "positions_kept db ?db1" by (simp add: book_execution_def Let_def positions_kept_def update_order_def)
  then have positions: "positions_ok st ?db1" using ok positions_ok_kept by (auto simp: books_ok_def)
  have fresh1: "new_pid \<notin> po_id ` set (ld_positions ?db1)" using fresh by (simp add: book_execution_def Let_def update_order_def)
  have finish: "books_ok st (record_lifecycle_event a b c d g h i db3)"
    if "fill_applied st ?db1 db2 fills" "fills \<in> fills_of (lo_side ord) ?f" "books_kept db2 db3" for db2 db3 fills a b c d g h i
  proof -
    have "books_ok st db2" using that(1) orders orders_ok_kept fills_matched_booked [OF _ _ r e(1,2) that(1,2)] ok
      by (auto simp: books_ok_def fill_applied_def)
    then show ?thesis using that(3) by (rule books_ok_kept [OF books_ok_kept]) (simp add: books_kept_def)
  qed
  show ?thesis
  proof (cases "lo_side ord")
    case BUY
    show ?thesis unfolding apply_execution_def Let_def BUY
      using buy_fill [OF positions e(2) fresh1, of "le_id e" "le_price e" ord executed_at]
      by (auto simp: ensures_def rbind_Inr_iff BUY fills_of_def intro!: finish)
  next
    case SELL
    have "books_ok st (record_lifecycle_event a b c d g h i (mark_exit_after_sell_fill ord res status db2))"
      if call: "apply_sell_fill rp st ord (le_id e) (le_quantity e) (le_price e) executed_at metadata ?db1 = Inr (res, db2)"
      for a b c d g h i res status db2
    proof -
      obtain fills where "fill_applied st ?db1 db2 fills" "fills \<in> fills_of (lo_side ord) ?f"
        using ensuresD [OF sell_fill [OF positions e(2)] call] by (auto simp: SELL fills_of_def)
      then show ?thesis by (rule finish) (simp add: books_kept_def)
    qed
    then show ?thesis unfolding apply_execution_def Let_def by (auto simp: SELL ensures_def rbind_Inr_iff)
  qed
qed

section \<open>Execution events\<close>

lemma execution_record_facts:
  assumes "execution_record rp ts eid key ord payload no quantity price = Inr e"
  shows "le_order_id e = py_strip (lo_id ord) \<and> le_id e = py_strip eid \<and> le_key e = key \<and> 1 \<le> le_quantity e \<and> 0 \<le> le_price e"
  using assms parse_int_at_least [where m = 1] parse_float_at_least [where m = 0]
  by (auto simp: execution_record_def rbind_Inr_iff require_non_empty_str_def invalid_def split: if_splits)

lemma sql_find_in: "sql_find p t = Some r \<Longrightarrow> r \<in> set t \<and> p r"
  by (auto simp: sql_find_def find_Some_iff)

lemma order_of_execution_in: "order_of_execution rp ev metadata no db = Inr (Some r) \<Longrightarrow> r \<in> set (ld_orders db)"
  by (auto simp: order_of_execution_def order_by_broker_order_no_def order_by_command_id_def find_by_text_def rbind_Inr_iff Let_def
      split: if_splits dest!: sql_find_in)

lemma books_ok_execution_event:
  assumes ok: "books_ok st db" and fresh: "py_strip new_eid \<notin> le_id ` set (ld_executions db)" "new_pid \<notin> po_id ` set (ld_positions db)"
  shows "ensures (\<lambda>x. books_ok st (snd x)) (handle_live_sim_execution_event js rp ts wire st new_eid new_pid now ev db)"
proof -
  have logged: "books_ok st db'" if "record_error oid code m db = Inr db'" for oid code m db'
    using books_ok_kept [OF ok books_error [OF that]] by simp
  have applied: "books_ok st db'"
    if "order_of_execution rp ev metadata no db = Inr (Some r)" "execution_record rp ts new_eid key r payload no q price = Inr e"
      "key \<notin> le_key ` set (ld_executions db)" "apply_execution rp st new_pid r e remaining t metadata now db = Inr db'"
    for metadata no r key payload q price e remaining t db'
  proof -
    note r = order_of_execution_in [OF that(1)]
    have "py_strip (lo_id r) = lo_id r" using ok r by (simp add: books_ok_def orders_ok_def)
    then show ?thesis using ensuresD [OF books_ok_execution [OF ok r _ _ _ _ _ fresh(2)] that(4)] execution_record_facts [OF that(2)] that(3) fresh(1)
      by simp
  qed
  show ?thesis unfolding handle_live_sim_execution_event_def Let_def
    by (intro ensures_rules; simp add: logged applied)
      (auto intro: books_ok_kept [OF ok] simp: books_kept_def)
qed

lemma books_ok_chejan_event:
  assumes "books_ok st db" "py_strip new_eid \<notin> le_id ` set (ld_executions db)" "new_pid \<notin> po_id ` set (ld_positions db)"
  shows "ensures (\<lambda>x. books_ok st (snd x)) (handle_live_sim_chejan_event js rp ts wire st new_eid new_pid now ev db)"
  unfolding handle_live_sim_chejan_event_def Let_def
  by (intro ensures_rules books_ok_execution_event assms) (auto intro!: books_ok_kept [OF assms(1)] simp: books_kept_def)


section \<open>Orders, intents and commands\<close>

lemma books_ok_insert:
  assumes "books_ok st db" "insert_order r db = Inr db'" "py_strip (lo_id r) = lo_id r" "lo_filled_quantity r = 0" "lo_avg_fill_price r = None"
  shows "books_ok st db'"
proof -
  have fresh: "lo_id r \<notin> lo_id ` set (ld_orders db)" and db': "db' = db\<lparr> ld_orders := ld_orders db @ [r] \<rparr>"
    using assms(2) by (auto simp: insert_order_def sql_find_def find_None_iff split: if_splits)
  have "le_order_id e \<noteq> lo_id r" if "e \<in> set (ld_executions db)" for e
    using assms(1) fresh that unfolding books_ok_def orders_ok_def by metis
  then have "traded side db' e = traded side db e" if "e \<in> set (ld_executions db)" for side e
    using that by (auto simp: traded_def db')
  then have "executed side db' = executed side db" for side
    by (simp add: executed_def db' cong: filter_cong)
  then have "fills_matched db'" using assms(1) by (simp add: books_ok_def fills_matched_def bought_def sold_def db')
  moreover have "positions_ok st db'" using assms(1) by (auto simp: books_ok_def db' intro: positions_ok_kept simp: positions_kept_def)
  ultimately show ?thesis using assms orders_ok_insert [of db r db'] by (simp add: books_ok_def)
qed

lemma validated_order_books: "validated_order r0 = Inr r \<Longrightarrow> py_strip (lo_id r) = lo_id r \<and> lo_filled_quantity r = lo_filled_quantity r0
    \<and> lo_avg_fill_price r = lo_avg_fill_price r0 \<and> lo_side r = lo_side r0"
  by (auto simp: validated_order_def rbind_Inr_iff require_non_empty_str_def parse_int_def at_least_def invalid_def Let_def split: if_splits)

lemma books_exit_recorded: "books_ok st db \<Longrightarrow> record_exit_order now oid cid wire xid x p db = Inr db' \<Longrightarrow> books_ok st db'"
proof -
  assume ok: "books_ok st db" and run: "record_exit_order now oid cid wire xid x p db = Inr db'"
  obtain r db1 where r: "validated_order (exit_order_of oid cid now xid x p) = Inr r" and db1: "insert_order r db = Inr db1"
    using run by (auto simp: record_exit_order_def rbind_Inr_iff)
  have "books_ok st db1" using books_ok_insert [OF ok db1] validated_order_books [OF r] by (simp add: exit_order_of_def)
  moreover have "books_kept db1 db'" using run by (auto simp: record_exit_order_def rbind_Inr_iff r db1 Let_def books_kept_def books_of_position_def)
  ultimately show ?thesis by (rule books_ok_kept)
qed

lemma books_signalled: "insert_exit_signal now sid c db = Inr db' \<Longrightarrow> books_kept db db'"
  by (auto simp: insert_exit_signal_def books_kept_def split: if_splits)

lemma books_exit_created: "ensures (\<lambda>x. books_kept db (snd x)) (create_live_sim_exit_intent st xid pid sid db)"
  unfolding create_live_sim_exit_intent_def Let_def by (intro ensures_rules) (simp_all add: books_kept_def)

lemma books_cancel_created: "ensures (\<lambda>x. books_kept db (snd x)) (create_live_sim_cancel_intent now cid oid reason db)"
  unfolding create_live_sim_cancel_intent_def Let_def by (intro ensures_rules) (simp_all add: books_kept_def)

lemma books_rejected_intent [simp]: "books_kept db (mark_exit_intent_rejected x rs db)" "books_kept db (mark_cancel_intent_rejected c rs db)"
  by (simp_all add: mark_exit_intent_rejected_def mark_cancel_intent_rejected_def books_kept_def)

lemma books_exit_enqueued: "enqueue_exit_order js ts rp hsh st gv now cid xid (db, queue) = (res, db', queue') \<Longrightarrow> books_kept db db'"
  by (auto simp: enqueue_exit_order_def Let_def split: sum.split_asm prod.split_asm if_splits)

lemma books_cancel_enqueued: "enqueue_cancel_order js ts rp hsh st gv now cid ciid (db, queue) = (res, db', queue') \<Longrightarrow> books_kept db db'"
  by (auto simp: enqueue_cancel_order_def Let_def split: sum.split_asm prod.split_asm if_splits)

lemma books_cancel_recorded: "books_kept db (record_cancel_command now cid ciid c r db)"
  by (simp add: record_cancel_command_def books_kept_def)

section \<open>The service\<close>

inductive live_step for js rp ts wire hsh st where
  command: "handle_live_sim_command_event js rp now ev db = Inr (a, db') \<Longrightarrow> live_step js rp ts wire hsh st (db, queue) (db', queue)"
| lifecycle: "handle_live_sim_order_lifecycle_event js rp now ev db = Inr (a, db') \<Longrightarrow> live_step js rp ts wire hsh st (db, queue) (db', queue)"
| execution: "handle_live_sim_execution_event js rp ts wire st eid pid now ev db = Inr (a, db') \<Longrightarrow>
    py_strip eid \<notin> le_id ` set (ld_executions db) \<Longrightarrow> pid \<notin> po_id ` set (ld_positions db) \<Longrightarrow> live_step js rp ts wire hsh st (db, queue) (db', queue)"
| chejan: "handle_live_sim_chejan_event js rp ts wire st eid pid now ev db = Inr (a, db') \<Longrightarrow>
    py_strip eid \<notin> le_id ` set (ld_executions db) \<Longrightarrow> pid \<notin> po_id ` set (ld_positions db) \<Longrightarrow> live_step js rp ts wire hsh st (db, queue) (db', queue)"
| marked: "live_step js rp ts wire hsh st (db, queue) (mark_position_to_market st p price at_time now db, queue)"
| ordered: "validated_order r0 = Inr r \<Longrightarrow> lo_filled_quantity r0 = 0 \<Longrightarrow> lo_avg_fill_price r0 = None \<Longrightarrow> insert_order r db = Inr db' \<Longrightarrow>
    live_step js rp ts wire hsh st (db, queue) (db', queue)"
| signalled: "insert_exit_signal now sid c db = Inr db' \<Longrightarrow> live_step js rp ts wire hsh st (db, queue) (db', queue)"
| exit_created: "create_live_sim_exit_intent st xid pid sid db = Inr (x, db') \<Longrightarrow> live_step js rp ts wire hsh st (db, queue) (db', queue)"
| exit_enqueued: "enqueue_exit_order js ts rp hsh st gv now cid xid (db, queue) = (res, db', queue') \<Longrightarrow> live_step js rp ts wire hsh st (db, queue) (db', queue')"
| exit_recorded: "record_exit_order now oid cid wire xid x p db = Inr db' \<Longrightarrow> live_step js rp ts wire hsh st (db, queue) (db', queue)"
| cancel_created: "create_live_sim_cancel_intent now cid oid reason db = Inr (c, db') \<Longrightarrow> live_step js rp ts wire hsh st (db, queue) (db', queue)"
| cancel_enqueued: "enqueue_cancel_order js ts rp hsh st gv now cid ciid (db, queue) = (res, db', queue') \<Longrightarrow> live_step js rp ts wire hsh st (db, queue) (db', queue')"
| cancel_recorded: "live_step js rp ts wire hsh st (db, queue) (record_cancel_command now cid ciid c r db, queue)"
| queue_works: "live_step js rp ts wire hsh st (db, queue) (db, queue')"

lemma books_ok_step: "live_step js rp ts wire hsh st s s' \<Longrightarrow> books_ok st (fst s) \<Longrightarrow> books_ok st (fst s')"
proof (induction rule: live_step.induct)
  case (command now ev db a db' queue)
  then show ?case using ensuresD [OF books_command_event command(1)] by (auto intro: books_ok_kept)
next
  case (lifecycle now ev db a db' queue)
  then show ?case using ensuresD [OF books_lifecycle_event lifecycle(1)] by (auto intro: books_ok_kept)
next
  case (execution eid pid now ev db a db' queue)
  then show ?case using ensuresD [OF books_ok_execution_event execution(1)] by auto
next
  case (chejan eid pid now ev db a db' queue)
  then show ?case using ensuresD [OF books_ok_chejan_event chejan(1)] by auto
next
  case (ordered r0 r db db' queue)
  then show ?case using validated_order_books [OF ordered(1)] books_ok_insert by auto
next
  case (exit_created xid pid sid db x db' queue)
  then show ?case using ensuresD [OF books_exit_created exit_created(1)] by (auto intro: books_ok_kept)
next
  case (cancel_created now cid oid reason db c db' queue)
  then show ?case using ensuresD [OF books_cancel_created cancel_created(1)] by (auto intro: books_ok_kept)
qed (auto intro: books_ok_kept books_marked books_signalled books_exit_enqueued books_exit_recorded books_cancel_enqueued books_cancel_recorded)

lemma books_ok_empty: "books_ok st empty_live_db"
  by (simp add: books_ok_def orders_ok_def positions_ok_def fills_matched_def bought_def sold_def executed_def empty_live_db_def unique_key_def)

lemma books_always_ok: "(live_step js rp ts wire hsh st)\<^sup>*\<^sup>* (empty_live_db, queue) s \<Longrightarrow> books_ok st (fst s)"
  by (induction rule: rtranclp_induct) (auto intro: books_ok_empty books_ok_step)


section \<open>The properties\<close>

text \<open>
  C9: The books of the positions balance. In every state that the service reaches from empty tables, a position
  holds exactly the shares that its fills brought in and took out, all of them available for sale and never a
  negative number; its cost basis is the average price times the quantity; and realised profit less cost basis is
  the cash that the fills moved, fees and taxes included. So the realised profit of a position that holds no share is the
  cash its fills made or lost, to the last digit.
\<close>

theorem position_books_balance:
  assumes "(live_step js rp ts wire hsh st)\<^sup>*\<^sup>* (empty_live_db, queue) (db, queue')" "p \<in> set (ld_positions db)"
  defines "es \<equiv> events_of (po_id p) db"
  shows "po_quantity p = (\<Sum>e\<leftarrow>es. pe_quantity_delta e) \<and> 0 \<le> po_quantity p \<and> po_available p = po_quantity p
    \<and> po_total_entry_notional p = po_avg_entry_price p * of_int (po_quantity p)
    \<and> po_realized_pnl p - po_total_entry_notional p = (\<Sum>e\<leftarrow>es. cash_flow st e)
    \<and> (po_quantity p = 0 \<longrightarrow> po_realized_pnl p = (\<Sum>e\<leftarrow>es. cash_flow st e))"
proof -
  have "position_balanced st es p" using books_always_ok [OF assms(1)] assms(2) by (simp add: books_ok_def positions_ok_def es_def)
  then show ?thesis by (auto simp: position_balanced_def)
qed

text \<open>
  C10: No fill is lost, made up or booked twice. In every state that the service reaches from empty tables, an order
  has filled exactly the sum of its executions, at their weighted average price; the keys of executions are
  distinct; the fills that entered positions are the executions of the orders to buy, in the order
  in which they came, and the fills that left positions are a subsequence of the executions of the orders to sell.
\<close>

theorem fills_are_conserved:
  assumes "(live_step js rp ts wire hsh st)\<^sup>*\<^sup>* (empty_live_db, queue) (db, queue')"
  shows "(\<forall>r \<in> set (ld_orders db). lo_filled_quantity r = (\<Sum>e\<leftarrow>executions_of (lo_id r) db. le_quantity e)
        \<and> lo_avg_fill_price r = fill_average (executions_of (lo_id r) db))
    \<and> unique_key le_key (ld_executions db) \<and> bought db = executed BUY db \<and> subseq (sold db) (executed SELL db)"
  using books_always_ok [OF assms] by (auto simp: books_ok_def orders_ok_def fills_matched_def fill_sum_def)

section \<open>A round trip\<close>

definition sample_live_order :: "string \<Rightarrow> live_side \<Rightarrow> string \<Rightarrow> live_order" where
  "sample_live_order oid side cid = \<lparr> lo_id = oid, lo_intent_id = ''i'', lo_command_id = Some cid, lo_trade_date = ''d'', lo_account_id = ''A1'',
     lo_code = ''005930'', lo_name = ''n'', lo_side = side, lo_order_type = ''LIMIT'', lo_quantity = 10, lo_limit_price = Some 100,
     lo_notional = 1000, lo_status = LO_COMMAND_QUEUED, lo_broker_order_no = None, lo_broker_result_code = None, lo_broker_message = None,
     lo_filled_quantity = 0, lo_remaining_quantity = 10, lo_avg_fill_price = None, lo_idempotency_key = cid, lo_created_at = 0,
     lo_queued_at = None, lo_dispatched_at = None, lo_broker_acked_at = None, lo_last_event_at = None \<rparr>"

definition sample_fill :: "string \<Rightarrow> string \<Rightarrow> int \<Rightarrow> gateway_event" where
  "sample_fill cid side price = \<lparr> v_event_id = cid, v_event_type = ''execution_event'', v_source = ''g'', v_ts = 0,
     v_payload = [(''code'', PStr ''005930''), (''side'', PStr side), (''quantity'', PInt 10), (''price'', PInt price),
       (''executed_at'', PStr ''t''), (''execution_id'', PStr cid)], v_command_id = Some cid, v_idempotency_key = None \<rparr>"

definition sample_handle :: "string \<Rightarrow> string \<Rightarrow> gateway_event \<Rightarrow> live_db \<Rightarrow> live_db result" where
  \<comment> \<open>the event is handled with new ids\<close>
  "sample_handle eid pid ev db =
     (if py_strip eid \<in> set (map le_id (ld_executions db)) \<or> pid \<in> set (map po_id (ld_positions db)) then Inl (ValueError [])
      else rbind (handle_live_sim_execution_event (\<lambda>_. Inr PNone) (\<lambda>_. []) (\<lambda>_. Some 0) (\<lambda>_. []) sample_live_settings eid pid 0 ev db)
        (\<lambda>x. Inr (snd x)))"

definition sample_insert :: "live_order \<Rightarrow> live_db \<Rightarrow> live_db result" where
  "sample_insert r0 db = rbind (validated_order r0) (\<lambda>r. insert_order r db)"

definition sample_trip :: "live_db result" where
  "sample_trip =
     rbind (sample_insert (sample_live_order ''o1'' BUY ''c1'') empty_live_db) (\<lambda>db1.
     rbind (sample_handle ''e1'' ''p1'' (sample_fill ''c1'' ''BUY'' 100) db1) (\<lambda>db2.
     rbind (sample_insert (sample_live_order ''o2'' SELL ''c2'') db2) (\<lambda>db3.
     sample_handle ''e2'' ''p2'' (sample_fill ''c2'' ''SELL'' 110) db3)))"

abbreviation sample_step :: "live_db \<times> command_store \<Rightarrow> live_db \<times> command_store \<Rightarrow> bool" where
  "sample_step \<equiv> live_step (\<lambda>_. Inr PNone) (\<lambda>_. []) (\<lambda>_. Some 0) (\<lambda>_. []) (\<lambda>_. []) sample_live_settings"

lemma sample_handle_step: "sample_handle eid pid ev db = Inr db' \<Longrightarrow> sample_step (db, q) (db', q)"
  by (auto simp: sample_handle_def rbind_Inr_iff split: if_splits intro: live_step.execution)

lemma sample_insert_step: "sample_insert (sample_live_order oid side cid) db = Inr db' \<Longrightarrow> sample_step (db, q) (db', q)"
  by (auto simp: sample_insert_def rbind_Inr_iff intro: live_step.ordered) (auto simp: sample_live_order_def intro: live_step.ordered)

lemma sample_extend:
  "sample_step\<^sup>*\<^sup>* s (db, q) \<Longrightarrow> sample_handle eid pid ev db = Inr db' \<Longrightarrow> sample_step\<^sup>*\<^sup>* s (db', q)"
  "sample_step\<^sup>*\<^sup>* s (db, q) \<Longrightarrow> sample_insert (sample_live_order oid side cid) db = Inr db' \<Longrightarrow> sample_step\<^sup>*\<^sup>* s (db', q)"
  by (erule rtranclp.rtrancl_into_rtrancl, erule sample_handle_step, erule rtranclp.rtrancl_into_rtrancl, erule sample_insert_step)

lemma sample_trip_reachable: assumes "sample_trip = Inr db" shows "sample_step\<^sup>*\<^sup>* (empty_live_db, q) (db, q)"
proof -
  obtain db1 db2 db3 where steps:
    "sample_insert (sample_live_order ''o1'' BUY ''c1'') empty_live_db = Inr db1"
    "sample_handle ''e1'' ''p1'' (sample_fill ''c1'' ''BUY'' 100) db1 = Inr db2"
    "sample_insert (sample_live_order ''o2'' SELL ''c2'') db2 = Inr db3"
    "sample_handle ''e2'' ''p2'' (sample_fill ''c2'' ''SELL'' 110) db3 = Inr db"
    using assms unfolding sample_trip_def rbind_Inr_iff by blast
  show ?thesis
    by (rule sample_extend(1) [OF sample_extend(2) [OF sample_extend(1) [OF sample_extend(2) [OF rtranclp.rtrancl_refl steps(1)] steps(2)] steps(3)] steps(4)])
qed

lemma sample_trip_result:
  "case sample_trip of Inl _ \<Rightarrow> False
   | Inr db \<Rightarrow> map (\<lambda>p. (po_id p, po_quantity p, po_realized_pnl p)) (ld_positions db) = [(''p1'', 0, 489 / 5)]
       \<and> map lo_filled_quantity (ld_orders db) = [10, 10]"
  by code_simp

lemma sample_trip_obtains:
  obtains db p where "sample_trip = Inr db" "p \<in> set (ld_positions db)" "po_quantity p = 0" "po_realized_pnl p = 489 / 5"
    "\<forall>r \<in> set (ld_orders db). lo_filled_quantity r = 10"
proof -
  obtain db where db: "sample_trip = Inr db" using sample_trip_result by (auto split: sum.split_asm)
  have *: "map (\<lambda>p. (po_id p, po_quantity p, po_realized_pnl p)) (ld_positions db) = [(''p1'', 0, 489 / 5)]"
    "map lo_filled_quantity (ld_orders db) = [10, 10]"
    using sample_trip_result by (simp_all only: db sum.case)
  obtain p where "ld_positions db = [p]" "po_quantity p = 0" "po_realized_pnl p = 489 / 5" using *(1) by (auto simp: map_eq_Cons_conv)
  moreover have "lo_filled_quantity r = 10" if "r \<in> set (ld_orders db)" for r
    using imageI [OF that, of lo_filled_quantity] unfolding set_map [symmetric] *(2) by simp
  ultimately show thesis using db that by simp
qed

text \<open>Ten shares bought at 100 and sold at 110 with a tax of 0.2 percent on the sale make 97.8.\<close>

theorem position_books_balance_witness:
  "\<exists>db p. sample_trip = Inr db \<and> p \<in> set (ld_positions db) \<and> (\<Sum>e\<leftarrow>events_of (po_id p) db. cash_flow sample_live_settings e) = 489 / 5"
proof -
  obtain db p where *: "sample_trip = Inr db" "p \<in> set (ld_positions db)" "po_quantity p = 0" "po_realized_pnl p = 489 / 5"
    by (rule sample_trip_obtains)
  show ?thesis using position_books_balance [OF sample_trip_reachable [OF *(1), of empty_store] *(2)] * by auto
qed

theorem fills_are_conserved_witness:
  "\<exists>db. sample_trip = Inr db \<and> (\<forall>r \<in> set (ld_orders db). (\<Sum>e\<leftarrow>executions_of (lo_id r) db. le_quantity e) = 10) \<and> bought db = executed BUY db"
proof -
  obtain db p where *: "sample_trip = Inr db" "\<forall>r \<in> set (ld_orders db). lo_filled_quantity r = 10" by (rule sample_trip_obtains)
  show ?thesis using fills_are_conserved [OF sample_trip_reachable [OF *(1), of empty_store]] * by auto
qed

section \<open>An execution is booked once\<close>

definition matched_order :: "(string \<Rightarrow> pyval result) \<Rightarrow> repr \<Rightarrow> gateway_event \<Rightarrow> live_db \<Rightarrow> live_order option result" where
  \<comment> \<open>the order that the handler of an execution event finds\<close>
  "matched_order js rp ev db = rbind (json_object js rp (dget (v_payload ev) ''metadata'')) (\<lambda>metadata.
     order_of_execution rp ev metadata (py_or (dget (v_payload ev) ''broker_order_id'') (dget (v_payload ev) ''broker_order_no'')) db)"

lemma executions_fill: "fill_applied st db db' fills \<Longrightarrow> ld_executions db' = ld_executions db"
  by (simp add: fill_applied_def orders_kept_def)

lemma executions_after:
  assumes "positions_ok st db" "1 \<le> le_quantity e" "new_pid \<notin> po_id ` set (ld_positions db)"
  shows "ensures (\<lambda>db'. ld_executions db' = ld_executions db @ [e]) (apply_execution rp st new_pid ord e remaining t metadata now db)"
proof -
  let ?db1 = "book_execution ord e remaining now db"
  have "positions_kept db ?db1" by (simp add: book_execution_def Let_def positions_kept_def update_order_def)
  then have ok: "positions_ok st ?db1" using assms(1) positions_ok_kept by auto
  have fresh: "new_pid \<notin> po_id ` set (ld_positions ?db1)" using assms(3) by (simp add: book_execution_def Let_def update_order_def)
  have buy: "ld_executions db' = ld_executions db @ [e]"
    if "apply_buy_fill st new_pid ord (le_id e) (le_quantity e) (le_price e) t ?db1 = Inr (res, db')" for res db'
    using executions_fill ensuresD [OF buy_fill [OF ok assms(2) fresh] that] by auto
  have sell: "ld_executions db' = ld_executions db @ [e]"
    if "apply_sell_fill rp st ord (le_id e) (le_quantity e) (le_price e) t metadata ?db1 = Inr (res, db')" for res db'
    using executions_fill ensuresD [OF sell_fill [OF ok assms(2)] that] by auto
  have log: "ld_executions (record_lifecycle_event a b c d g h i db') = ld_executions db'"
    "ld_executions (mark_exit_after_sell_fill ord res status db') = ld_executions db'" for a b c d g h i db' res status
    by (auto simp: record_lifecycle_event_def mark_exit_after_sell_fill_def Let_def set_exit_status_def update_order_def split: option.splits)
  show ?thesis unfolding apply_execution_def Let_def
    by (intro ensures_rules ensures_pair) (auto simp: log rbind_Inr_iff buy sell split: if_split_asm)
qed

definition booked_as :: "(string \<Rightarrow> pyval result) \<Rightarrow> repr \<Rightarrow> (instant \<Rightarrow> string) \<Rightarrow> gateway_event \<Rightarrow> live_db \<Rightarrow> live_db \<Rightarrow> bool" where
  "booked_as js rp wire ev db db' \<longleftrightarrow>
     (\<exists>r e. matched_order js rp ev db = Inr (Some r) \<and> le_key e = execution_key rp wire r (v_payload ev) (v_ts ev)
        \<and> le_key e \<notin> le_key ` set (ld_executions db) \<and> ld_executions db' = ld_executions db @ [e])"

lemma execution_event_cases:
  assumes "books_ok st db" "py_strip eid \<notin> le_id ` set (ld_executions db)" "pid \<notin> po_id ` set (ld_positions db)"
  shows "ensures (\<lambda>x. if fst x = Handled then booked_as js rp wire ev db (snd x) else books_kept db (snd x))
    (handle_live_sim_execution_event js rp ts wire st eid pid now ev db)"
proof -
  have logged: "books_kept db db'" if "record_error oid code m db = Inr db'" for oid code m db'
    using books_error [OF that] by simp
  have applied: "ld_executions db' = ld_executions db @ [e] \<and> le_key e = key"
    if "execution_record rp ts eid key r payload no q price = Inr e" "apply_execution rp st pid r e remaining t metadata now db = Inr db'"
    for metadata no r key payload q price e remaining t db'
    using ensuresD [OF executions_after [OF _ _ assms(3)] that(2)] execution_record_facts [OF that(1)] assms(1) by (simp add: books_ok_def)
  show ?thesis
    unfolding handle_live_sim_execution_event_def Let_def
    by (intro ensures_rules)
      (use logged applied in \<open>auto simp: books_kept_def booked_as_def matched_order_def\<close>)
qed

definition executions_grow :: "live_db \<Rightarrow> live_db \<Rightarrow> bool" where
  "executions_grow db db' \<longleftrightarrow> prefix (ld_executions db) (ld_executions db')"

lemma grow_kept: "books_kept db db' \<Longrightarrow> executions_grow db db'"
  by (simp add: executions_grow_def books_kept_def orders_kept_def)

lemma grow_execution_event:
  assumes "books_ok st db" "py_strip eid \<notin> le_id ` set (ld_executions db)" "pid \<notin> po_id ` set (ld_positions db)"
  shows "ensures (\<lambda>x. executions_grow db (snd x)) (handle_live_sim_execution_event js rp ts wire st eid pid now ev db)"
  by (rule ensures_mono [OF execution_event_cases [OF assms]]) (auto simp: booked_as_def executions_grow_def books_kept_def orders_kept_def split: if_splits)

lemma grow_chejan_event:
  assumes "books_ok st db" "py_strip eid \<notin> le_id ` set (ld_executions db)" "pid \<notin> po_id ` set (ld_positions db)"
  shows "ensures (\<lambda>x. executions_grow db (snd x)) (handle_live_sim_chejan_event js rp ts wire st eid pid now ev db)"
  unfolding handle_live_sim_chejan_event_def Let_def
  by (intro ensures_rules grow_execution_event assms) (auto intro!: grow_kept simp: books_kept_def)

lemma grow_insert: "insert_order r db = Inr db' \<Longrightarrow> executions_grow db db'"
  by (auto simp: insert_order_def executions_grow_def split: if_splits)

lemma grow_exit_recorded: "record_exit_order now oid cid wire xid x p db = Inr db' \<Longrightarrow> executions_grow db db'"
  by (auto simp: record_exit_order_def rbind_Inr_iff Let_def executions_grow_def insert_order_def update_position_def record_lifecycle_event_def
      split: if_splits)

lemma executions_grow_step: "live_step js rp ts wire hsh st s s' \<Longrightarrow> books_ok st (fst s) \<Longrightarrow> executions_grow (fst s) (fst s')"
proof (induction rule: live_step.induct)
  case (command now ev db a db' queue)
  then show ?case using ensuresD [OF books_command_event command(1)] by (auto intro: grow_kept)
next
  case (lifecycle now ev db a db' queue)
  then show ?case using ensuresD [OF books_lifecycle_event lifecycle(1)] by (auto intro: grow_kept)
next
  case (execution eid pid now ev db a db' queue)
  then show ?case using ensuresD [OF grow_execution_event execution(1)] by auto
next
  case (chejan eid pid now ev db a db' queue)
  then show ?case using ensuresD [OF grow_chejan_event chejan(1)] by auto
next
  case (exit_created xid pid sid db x db' queue)
  then show ?case using ensuresD [OF books_exit_created exit_created(1)] by (auto intro: grow_kept)
next
  case (cancel_created now cid oid reason db c db' queue)
  then show ?case using ensuresD [OF books_cancel_created cancel_created(1)] by (auto intro: grow_kept)
qed (auto intro: grow_kept grow_insert grow_exit_recorded books_marked books_signalled books_exit_enqueued books_cancel_enqueued books_cancel_recorded)

lemma executions_grow_steps:
  "(live_step js rp ts wire hsh st)\<^sup>*\<^sup>* s s' \<Longrightarrow> books_ok st (fst s) \<Longrightarrow> executions_grow (fst s) (fst s') \<and> books_ok st (fst s')"
proof (induction rule: rtranclp_induct)
  case (step s' s'')
  then show ?case using executions_grow_step [OF step(2)] books_ok_step [OF step(2)] by (auto simp: executions_grow_def)
qed (simp add: executions_grow_def)

text \<open>
  C11: An execution event is booked at most once. Let an event be booked in a state that the service reaches, and let
  the same event arrive again after any further activity of the service, matched to the same order. It is not booked a second
  time: the answer is not \<open>Handled\<close>, and no order, execution, position or position event changes.
\<close>

theorem execution_booked_once:
  assumes "(live_step js rp ts wire hsh st)\<^sup>*\<^sup>* (empty_live_db, queue) (db, queue')"
    and "handle_live_sim_execution_event js rp ts wire st eid pid now ev db = Inr (Handled, db1)"
    and "py_strip eid \<notin> le_id ` set (ld_executions db)" "pid \<notin> po_id ` set (ld_positions db)"
    and "(live_step js rp ts wire hsh st)\<^sup>*\<^sup>* (db1, queue1) (db2, queue2)"
    and "matched_order js rp ev db = Inr (Some r)" "matched_order js rp ev db2 = Inr (Some r2)" "lo_id r2 = lo_id r"
    and "handle_live_sim_execution_event js rp ts wire st eid2 pid2 now2 ev db2 = Inr (a, db3)"
    and "py_strip eid2 \<notin> le_id ` set (ld_executions db2)" "pid2 \<notin> po_id ` set (ld_positions db2)"
  shows "a \<noteq> Handled \<and> books_kept db2 db3"
proof -
  have ok: "books_ok st db" using books_always_ok [OF assms(1)] by simp
  have ok1: "books_ok st db1" using ensuresD [OF books_ok_execution_event [OF ok assms(3,4)] assms(2)] by simp
  have "booked_as js rp wire ev db db1" using ensuresD [OF execution_event_cases [OF ok assms(3,4)] assms(2)] by simp
  then have key: "execution_key rp wire r (v_payload ev) (v_ts ev) \<in> le_key ` set (ld_executions db1)"
    using assms(6) by (auto simp: booked_as_def intro!: image_eqI)
  have grown: "executions_grow db1 db2" "books_ok st db2" using executions_grow_steps [OF assms(5)] ok1 by auto
  have "execution_key rp wire r2 (v_payload ev) (v_ts ev) = execution_key rp wire r (v_payload ev) (v_ts ev)"
    by (simp only: execution_key_def assms(8))
  then have "execution_key rp wire r2 (v_payload ev) (v_ts ev) \<in> le_key ` set (ld_executions db2)"
    using key grown(1) by (auto simp: executions_grow_def prefix_def)
  then have "\<not> booked_as js rp wire ev db2 db3" using assms(7) by (auto simp: booked_as_def)
  then show ?thesis using ensuresD [OF execution_event_cases [OF grown(2) assms(10,11)] assms(9)] by (auto split: if_splits)
qed

abbreviation sample_event :: gateway_event where
  "sample_event \<equiv> sample_fill ''c1'' ''BUY'' 100"

abbreviation sample_execution :: "string \<Rightarrow> string \<Rightarrow> live_db \<Rightarrow> (answer \<times> live_db) result" where
  "sample_execution eid pid \<equiv> handle_live_sim_execution_event (\<lambda>_. Inr PNone) (\<lambda>_. []) (\<lambda>_. Some 0) (\<lambda>_. []) sample_live_settings eid pid 0 sample_event"

lemma sample_once_facts:
  "rbind (sample_insert (sample_live_order ''o1'' BUY ''c1'') empty_live_db) (\<lambda>db.
   rbind (sample_execution ''e1'' ''p1'' db) (\<lambda>(a, db1).
   rbind (matched_order (\<lambda>_. Inr PNone) (\<lambda>_. []) sample_event db) (\<lambda>r.
   rbind (matched_order (\<lambda>_. Inr PNone) (\<lambda>_. []) sample_event db1) (\<lambda>r2.
   rbind (sample_execution ''e2'' ''p2'' db1) (\<lambda>(a2, db3).
     Inr (a, a2, map_option lo_id r, map_option lo_id r2, map le_id (ld_executions db), map po_id (ld_positions db),
          map le_id (ld_executions db1), map po_id (ld_positions db1)))))))
   = Inr (Handled, Duplicate, Some ''o1'', Some ''o1'', [], [], [''e1''], [''p1''])"
  by code_simp

theorem execution_booked_once_witness:
  "\<exists>db1 db3. sample_execution ''e2'' ''p2'' db1 = Inr (Duplicate, db3) \<and> map le_id (ld_executions db1) = [''e1''] \<and> books_kept db1 db3"
proof -
  obtain db db1 r r2 db3 where *: "sample_insert (sample_live_order ''o1'' BUY ''c1'') empty_live_db = Inr db"
      "sample_execution ''e1'' ''p1'' db = Inr (Handled, db1)" "sample_execution ''e2'' ''p2'' db1 = Inr (Duplicate, db3)"
      "matched_order (\<lambda>_. Inr PNone) (\<lambda>_. []) sample_event db = Inr (Some r)" "lo_id r = ''o1''"
      "matched_order (\<lambda>_. Inr PNone) (\<lambda>_. []) sample_event db1 = Inr (Some r2)" "lo_id r2 = ''o1''"
      "map le_id (ld_executions db) = []" "map po_id (ld_positions db) = []"
      "map le_id (ld_executions db1) = [''e1'']" "map po_id (ld_positions db1) = [''p1'']"
    using sample_once_facts unfolding rbind_Inr_iff by (auto simp: rbind_Inr_iff)
  have sets: "le_id ` set (ld_executions db) = {}" "po_id ` set (ld_positions db) = {}"
      "le_id ` set (ld_executions db1) = {''e1''}" "po_id ` set (ld_positions db1) = {''p1''}"
    unfolding set_map [symmetric] * by simp_all
  have "py_strip ''e2'' = ''e2''" by code_simp
  then have "books_kept db1 db3"
    using execution_booked_once [OF sample_extend(2) [OF rtranclp.rtrancl_refl *(1), of empty_store] *(2) _ _ rtranclp.rtrancl_refl *(4,6) _ *(3)] sets *(5,7)
    by simp
  then show ?thesis using *(3,10) by (intro exI [of _ db1] exI [of _ db3] conjI)
qed

section \<open>Behaviour that the books do not excuse\<close>

definition unknown_number :: "repr \<Rightarrow> gateway_event \<Rightarrow> live_db \<Rightarrow> bool" where
  \<comment> \<open>if the event carries an order number of the broker, no order row has it\<close>
  "unknown_number rp ev db \<longleftrightarrow>
     (let no = py_or (dget (v_payload ev) ''broker_order_id'') (dget (v_payload ev) ''broker_order_no'') in
      py_truthy no \<longrightarrow> (\<forall>r \<in> set (ld_orders db). lo_broker_order_no r \<noteq> Some (py_strip (py_str rp no))))"

lemma unmatched_command:
  assumes "v_command_id ev = Some cid" "unknown_number rp ev db"
    and "\<forall>r \<in> set (ld_orders db). lo_command_id r \<noteq> Some (py_strip cid)"
  shows "matched_order js rp ev db \<noteq> Inr (Some r)"
  using assms
  by (auto simp: matched_order_def order_of_execution_def rbind_Inr_iff Let_def unknown_number_def order_by_command_id_def order_by_broker_order_no_def
      find_by_text_def require_non_empty_str_def invalid_def split: if_splits dest!: sql_find_in)

text \<open>
  C23: A crash between the two transactions of an exit orphans its order. Let the first transaction have queued the command of an
  exit, and the process stop before the second. The tables that remain do not know the order: an execution that names the
  command is not booked on them, whatever order number of the broker it carries, unless another order happens to have that number, although
  the broker has sold the shares; and however the queue works on, from these tables the exit of that intent cannot be queued
  again, since its idempotency key is retained for good.
\<close>

theorem crash_orphans_exit_order:
  assumes "(live_step js rp ts wire hsh st)\<^sup>*\<^sup>* (empty_live_db, queue0) (db, queue)"
    and "enqueue_exit_order js ts rp hsh st gv now cid xid (db, queue) = (Inr (x, p), db1, queue1)"
    and "\<forall>r \<in> set (ld_orders db). lo_command_id r \<noteq> Some (py_strip cid)"
  shows "db1 = db \<and> (\<exists>row \<in> set (s_commands queue1). r_command_id row = cid \<and> r_status row = QUEUED)
    \<and> (\<forall>ev eid pid now2 a db2. v_command_id ev = Some cid \<and> unknown_number rp ev db1
        \<and> py_strip eid \<notin> le_id ` set (ld_executions db1) \<and> pid \<notin> po_id ` set (ld_positions db1)
        \<and> handle_live_sim_execution_event js rp ts wire st eid pid now2 ev db1 = Inr (a, db2) \<longrightarrow> a \<noteq> Handled \<and> books_kept db1 db2)
    \<and> (\<forall>queue2 gv2 now2 cid2 out db2 queue3. (store_step rp)\<^sup>*\<^sup>* queue1 queue2
        \<and> enqueue_exit_order js ts rp hsh st gv2 now2 cid2 xid (db1, queue2) = (out, db2, queue3) \<longrightarrow> (\<exists>e. out = Inl e))"
proof -
  note cases = enqueue_exit_cases [OF assms(2)]
  obtain c q where c: "gateway_command_for cid now ''send_order'' (build_gateway_exit_order_payload st p x) (xi_idempotency_key x) = Inr c"
    and q: "enqueue_command rp hsh now c None queue = (q, queue1)" "q_accepted q" using cases by blast
  have key: "g_idempotency_key c = Some (py_strip (xi_idempotency_key x))" "g_command_id c = cid"
    using c by (auto simp: gateway_command_for_def rbind_Inr_iff require_non_empty_str_def invalid_def split: if_splits)
  note queued = enqueue_accepted [OF q key(1)]
  have row: "\<exists>row \<in> set (s_commands queue1). r_command_id row = cid \<and> r_status row = QUEUED"
    using queued key(2) by (auto simp: queued_row_def intro!: bexI [of _ "queued_row hsh c None"])
  have ok: "books_ok st db" using books_always_ok [OF assms(1)] by simp
  have lost: "a \<noteq> Handled \<and> books_kept db1 db2"
    if "v_command_id ev = Some cid" "unknown_number rp ev db1"
      "py_strip eid \<notin> le_id ` set (ld_executions db1)" "pid \<notin> po_id ` set (ld_positions db1)"
      "handle_live_sim_execution_event js rp ts wire st eid pid now2 ev db1 = Inr (a, db2)" for ev eid pid now2 a db2
  proof -
    have "\<not> booked_as js rp wire ev db db2" using unmatched_command [OF that(1) that(2) [unfolded conjunct1 [OF conjunct2 [OF cases]]] assms(3)] by (auto simp: booked_as_def)
    then show ?thesis using ensuresD [OF execution_event_cases [OF ok] that(5) [unfolded conjunct1 [OF conjunct2 [OF cases]]]] that(3,4) cases
      by (auto split: if_splits)
  qed
  have never: "\<exists>e. out = Inl e"
    if works: "(store_step rp)\<^sup>*\<^sup>* queue1 queue2" and retry: "enqueue_exit_order js ts rp hsh st gv2 now2 cid2 xid (db1, queue2) = (out, db2, queue3)"
    for queue2 gv2 now2 cid2 out db2 queue3
  proof (rule ccontr)
    assume "\<nexists>e. out = Inl e"
    then obtain x2 p2 where run: "enqueue_exit_order js ts rp hsh st gv2 now2 cid2 xid (db, queue2) = (Inr (x2, p2), db2, queue3)"
      using retry cases by (cases out) auto
    note again = enqueue_exit_cases [OF run]
    have x2: "x2 = x" using exit_checks_facts [OF conjunct1 [OF again]] exit_checks_facts [OF conjunct1 [OF cases]] by simp
    obtain c2 q2 where c2: "gateway_command_for cid2 now2 ''send_order'' (build_gateway_exit_order_payload st p2 x) (xi_idempotency_key x) = Inr c2"
      and q2: "enqueue_command rp hsh now2 c2 None queue2 = (q2, queue3)" "q_accepted q2" using again x2 by blast
    have "g_idempotency_key c2 = Some (py_strip (xi_idempotency_key x))"
      using c2 by (auto simp: gateway_command_for_def rbind_Inr_iff require_non_empty_str_def invalid_def split: if_splits)
    then show False using enqueue_retained [OF q2(1)] q2(2) retains_forever_star [OF works] queued by blast
  qed
  show ?thesis using cases row lost never by blast
qed

text \<open>
  An execution that sells more than the position has is only logged, and the position is marked as a mismatch; but the intent
  of the exit is closed and its order counts as filled, since the result of the mismatch names no remaining quantity.
\<close>

lemma exit_closed_without_remaining:
  assumes "exit_intent_by_order_id db (lo_id ord) = Some x" "pr_remaining res = None" "db' = mark_exit_after_sell_fill ord res status db"
  shows "(\<forall>y \<in> set (ld_exit_intents db'). xi_id y = xi_id x \<longrightarrow> xi_status y = ''CLOSED'')
    \<and> (\<forall>r \<in> set (ld_orders db'). lo_id r = lo_id ord \<longrightarrow> lo_status r = LO_EXIT_FILLED) \<and> ld_positions db' = ld_positions db"
  using assms by (auto simp: mark_exit_after_sell_fill_def Let_def set_exit_status_def update_order_def set_sql_update)

lemma oversold_exit_is_closed:
  assumes "apply_execution rp st new_pid ord e remaining t metadata now db = Inr db'" "lo_side ord = SELL"
    and "sold_position rp ord metadata db = Inr (Some p)" "po_available p < le_quantity e" "exit_intent_by_order_id db (lo_id ord) = Some x"
  shows "(\<forall>y \<in> set (ld_exit_intents db'). xi_id y = xi_id x \<longrightarrow> xi_status y = ''CLOSED'')
    \<and> (\<forall>r \<in> set (ld_orders db'). lo_id r = lo_id ord \<longrightarrow> lo_status r = LO_EXIT_FILLED)
    \<and> map po_quantity (ld_positions db') = map po_quantity (ld_positions db)"
proof -
  let ?db1 = "book_execution ord e remaining now db"
  have frame: "ld_positions ?db1 = ld_positions db" "ld_exit_intents ?db1 = ld_exit_intents db"
    by (simp_all add: book_execution_def Let_def update_order_def)
  have "sold_position rp ord metadata ?db1 = Inr (Some p)"
    using assms(3) by (simp only: sold_position_def position_by_account_code_def frame)
  then obtain db2 where db2: "record_error (Some (lo_id ord)) (PStr (lo_code ord)) ''SELL_FILL_EXCEEDS_AVAILABLE_QUANTITY'' ?db1 = Inr db2"
    and db': "db' = record_lifecycle_event ''EXECUTION_EVENT_APPLIED'' ''LIVE_SIM_ORDER'' (Some (lo_id ord)) (Some (lo_id ord)) (Some (po_id p))
      (Some (order_status_text (if remaining = 0 then LO_FILLED else LO_PARTIALLY_FILLED))) ''FILL_EVENT_RECEIVED''
      (mark_exit_after_sell_fill ord \<lparr> pr_event_type = ''RECONCILE_MISMATCH'', pr_position_id = Some (po_id p), pr_remaining = None \<rparr>
        (if remaining = 0 then LO_FILLED else LO_PARTIALLY_FILLED)
        (update_position (po_id p) (\<lambda>r. r\<lparr> po_status := PS_RECONCILE_MISMATCH, po_updated_at := t \<rparr>) db2))"
    using assms(1,2,4) by (auto simp: apply_execution_def Let_def apply_sell_fill_def rbind_Inr_iff)
  have same: "ld_positions db2 = ld_positions db" "ld_exit_intents db2 = ld_exit_intents db"
    using db2 frame by (auto simp: record_error_def rbind_Inr_iff record_lifecycle_event_def split: pyval.splits)
  have x: "exit_intent_by_order_id (update_position i u db2) (lo_id ord) = Some x" for i u
    using assms(5) by (simp add: exit_intent_by_order_id_def same update_position_def)
  show ?thesis
    using exit_closed_without_remaining [OF x _ refl, of "\<lparr> pr_event_type = ''RECONCILE_MISMATCH'', pr_position_id = Some (po_id p), pr_remaining = None \<rparr>"
      "if remaining = 0 then LO_FILLED else LO_PARTIALLY_FILLED" "po_id p" "\<lambda>r. r\<lparr> po_status := PS_RECONCILE_MISMATCH, po_updated_at := t \<rparr>"]
    unfolding db' record_lifecycle_event_def by (simp add: same map_sql_update_kept)
qed

text \<open>An acknowledgement decides the status of an order whatever it was: one that comes late reopens a filled order.\<close>

lemma late_ack_reopens_order:
  assumes "order_by_command_id db cid = Inr (Some r)" "v_command_id ev = Some cid" "py_lower (py_strip (v_event_type ev)) = ''command_ack''"
    and "dget (v_payload ev) ''details'' = PNone" "handle_live_sim_command_event js rp now ev db = Inr (a, db')"
  shows "\<forall>s \<in> set (ld_orders db'). lo_id s = lo_id r \<longrightarrow> lo_status s = LO_BROKER_ACKED"
proof -
  have "ensures (\<lambda>db'. \<forall>s \<in> set (ld_orders db'). lo_id s = lo_id r \<longrightarrow> lo_status s = LO_BROKER_ACKED) (order_acked rp (v_payload ev) [] now r db)"
    unfolding order_acked_def Let_def
    by (intro ensures_rules)
      (auto simp: dget_or_def record_lifecycle_event_def update_intent_def update_order_def set_sql_update acked_order_def)
  then show ?thesis using assms
    by (auto simp: handle_live_sim_command_event_def Let_def rbind_Inr_iff json_object_def ensures_def)
qed

abbreviation sample_enqueue :: "string \<Rightarrow> live_db \<times> command_store \<Rightarrow> (exit_intent \<times> live_position) durable" where
  "sample_enqueue cid \<equiv> enqueue_exit_order (\<lambda>_. Inr PNone) (\<lambda>_. Some 0) (\<lambda>_. []) (\<lambda>_. []) sample_live_settings sample_view 0 cid ''x1''"

definition sample_exit_signal :: exit_signal where
  "sample_exit_signal = \<lparr> xs_id = [], xs_position_id = ''p1'', xs_reason = ''TAKE_PROFIT'', xs_last_price = Some 110, xs_status = ''SIGNALLED'', xs_created_at = 0 \<rparr>"

definition sample_crash :: "((exit_intent \<times> live_position) \<times> live_db \<times> command_store) result" where
  \<comment> \<open>a purchase, its fill, a signal, an intent, and the first transaction of the exit\<close>
  "sample_crash =
     rbind (sample_insert (sample_live_order ''o1'' BUY ''c1'') empty_live_db) (\<lambda>db1.
     rbind (sample_handle ''e1'' ''p1'' sample_event db1) (\<lambda>db2.
     rbind (insert_exit_signal 0 ''s1'' sample_exit_signal db2) (\<lambda>db3.
     rbind (create_live_sim_exit_intent sample_live_settings ''x1'' ''p1'' None db3) (\<lambda>(x, db4).
     succeeded (sample_enqueue ''c2'' (db4, empty_store))))))"

definition sample_sold :: gateway_event where
  \<comment> \<open>the fill of the exit, as the broker reports it\<close>
  "sample_sold = (sample_fill ''c2'' ''SELL'' 110)\<lparr> v_payload := (''broker_order_id'', PStr ''88'') # v_payload (sample_fill ''c2'' ''SELL'' 110) \<rparr>"

lemma sample_crash_result:
  "rbind sample_crash (\<lambda>(xp, db, queue). Inr (map lo_command_id (ld_orders db), map r_command_id (s_commands queue))) = Inr ([Some ''c1''], [''c2''])"
  by code_simp

lemma sample_sold_result:
  "rbind sample_crash (\<lambda>(xp, db, queue). rbind (handle_live_sim_execution_event (\<lambda>_. Inr PNone) (\<lambda>_. []) (\<lambda>_. Some 0) (\<lambda>_. [])
      sample_live_settings ''e2'' ''p2'' 1 sample_sold db) (\<lambda>(a, db').
        Inr (map le_id (ld_executions db), map po_id (ld_positions db), list_all (\<lambda>r. lo_broker_order_no r \<noteq> Some ''88'') (ld_orders db))))
    = Inr ([''e1''], [''p1''], True)"
  by code_simp

theorem crash_orphans_exit_order_witness:
  "\<exists>xp db queue. sample_crash = Inr (xp, db, queue)
     \<and> (\<exists>a db'. handle_live_sim_execution_event (\<lambda>_. Inr PNone) (\<lambda>_. []) (\<lambda>_. Some 0) (\<lambda>_. []) sample_live_settings ''e2'' ''p2'' 1 sample_sold db
           = Inr (a, db') \<and> a \<noteq> Handled \<and> books_kept db db')
     \<and> (\<exists>e db2 queue2. sample_enqueue ''c3'' (db, queue) = (Inl e, db2, queue2))"
proof -
  obtain xp db queue where out: "sample_crash = Inr (xp, db, queue)" and ids: "map lo_command_id (ld_orders db) = [Some ''c1'']"
    using sample_crash_result unfolding rbind_Inr_iff by auto
  obtain db1 db2 db3 x db4 where steps: "sample_insert (sample_live_order ''o1'' BUY ''c1'') empty_live_db = Inr db1"
      "sample_handle ''e1'' ''p1'' sample_event db1 = Inr db2" "insert_exit_signal 0 ''s1'' sample_exit_signal db2 = Inr db3"
      "create_live_sim_exit_intent sample_live_settings ''x1'' ''p1'' None db3 = Inr (x, db4)"
      "sample_enqueue ''c2'' (db4, empty_store) = (Inr (fst xp, snd xp), db, queue)"
    using out unfolding sample_crash_def rbind_Inr_iff by (auto simp: succeeded_iff)
  have reached: "sample_step\<^sup>*\<^sup>* (empty_live_db, empty_store) (db4, empty_store)"
    by (rule rtranclp.rtrancl_into_rtrancl [OF rtranclp.rtrancl_into_rtrancl [OF
          sample_extend(1) [OF sample_extend(2) [OF rtranclp.rtrancl_refl steps(1)] steps(2)] live_step.signalled [OF steps(3)]]
          live_step.exit_created [OF steps(4)]])
  have same: "db = db4" using enqueue_exit_cases [OF steps(5)] by simp
  have "lo_command_id r = Some ''c1''" if "r \<in> set (ld_orders db4)" for r
    using imageI [OF that, of lo_command_id] unfolding set_map [symmetric] ids [unfolded same] by simp
  moreover have "py_strip ''c2'' = ''c2''" by code_simp
  ultimately have "\<forall>r \<in> set (ld_orders db4). lo_command_id r \<noteq> Some (py_strip ''c2'')" by simp
  note crash = crash_orphans_exit_order [OF reached steps(5) this]
  obtain r db5 queue5 where again: "sample_enqueue ''c3'' (db, queue) = (r, db5, queue5)" by (cases "sample_enqueue ''c3'' (db, queue)") auto
  have refused: "\<exists>e. r = Inl e" using crash again rtranclp.rtrancl_refl by blast
  obtain a db6 where sold: "handle_live_sim_execution_event (\<lambda>_. Inr PNone) (\<lambda>_. []) (\<lambda>_. Some 0) (\<lambda>_. []) sample_live_settings ''e2'' ''p2'' 1 sample_sold db
      = Inr (a, db6)" and rows: "map le_id (ld_executions db) = [''e1'']" "map po_id (ld_positions db) = [''p1'']"
      "\<forall>r \<in> set (ld_orders db). lo_broker_order_no r \<noteq> Some ''88''"
    using sample_sold_result unfolding out by (auto simp: rbind_Inr_iff list_all_iff)
  have strips: "py_strip ''e2'' = ''e2''" "py_strip ''88'' = ''88''" by code_simp+
  have "v_command_id sample_sold = Some ''c2''" "unknown_number (\<lambda>_. []) sample_sold db"
    using rows(3) strips by (simp_all add: sample_sold_def sample_fill_def unknown_number_def dget_def py_or_def)
  moreover have "py_strip ''e2'' \<notin> le_id ` set (ld_executions db)" "''p2'' \<notin> po_id ` set (ld_positions db)"
    unfolding set_map [symmetric] rows strips by simp_all
  ultimately have "a \<noteq> Handled \<and> books_kept db db6" using crash sold by blast
  then show ?thesis using out again sold refused by blast
qed

end
