(* ===== verification/Admission.thy ===== *)
theory Admission
  imports Broker_Values
begin

text \<open>
  Which candidate may be traded: \<open>services/admission/evaluator.py\<close>. It reads the latest rows of the candidate, of its
  strategy and risk observations and of its market data, and returns a trace with the reasons against it.

  \<^item> The tables it reads are the fields of \<open>market_db\<close>, with the columns it uses; of the ticks, those of the exchange KRX. A
    row of \<open>md_dry_runs\<close> is a row of the join of the dry-run intents with their orders.
  \<^item> \<open>ts\<close> parses a timestamp. The evidence dictionaries are left out, except what callers read of them: the price of the
    latest tick and the dry run.
\<close>

section \<open>Rows\<close>

record candidate_row =
  ca_id :: string
  ca_trade_date :: string
  ca_code :: string
  ca_name :: string
  ca_state :: string

record strategy_row =
  sg_candidate_id :: string
  sg_observation_id :: string
  sg_overall_status :: string
  sg_observe_only :: bool

record risk_row =
  rk_candidate_id :: string
  rk_observation_id :: string
  rk_overall_status :: string
  rk_observe_only :: bool

record tick_row =
  tk_code :: string
  tk_price :: rat
  tk_event_ts :: string

record dry_run_row =
  dy_candidate_id :: string
  dy_intent_id :: string
  dy_order_id :: "string option"
  dy_notional :: rat
  dy_created_at :: string

record market_db =
  md_candidates :: "candidate_row list"
  md_contexts :: "string list"
  md_strategies :: "strategy_row list"
  md_risks :: "risk_row list"
  md_ticks :: "tick_row list"
  md_dry_runs :: "dry_run_row list"

definition candidate_of :: "market_db \<Rightarrow> string \<Rightarrow> candidate_row option" where
  "candidate_of md cid = sql_find (\<lambda>r. ca_id r = cid) (md_candidates md)"

definition strategy_of :: "market_db \<Rightarrow> string \<Rightarrow> strategy_row option" where
  "strategy_of md cid = sql_find (\<lambda>r. sg_candidate_id r = cid) (md_strategies md)"

definition risk_of :: "market_db \<Rightarrow> string \<Rightarrow> risk_row option" where
  "risk_of md cid = sql_find (\<lambda>r. rk_candidate_id r = cid) (md_risks md)"

definition tick_of :: "market_db \<Rightarrow> string \<Rightarrow> tick_row option" where
  "tick_of md code = sql_find (\<lambda>t. tk_code t = code) (md_ticks md)"

definition latest_dry_run :: "market_db \<Rightarrow> string \<Rightarrow> dry_run_row option" where
  "latest_dry_run md cid =
     (case rev (sort_key (\<lambda>r. (dy_created_at r, dy_intent_id r)) (filter (\<lambda>r. dy_candidate_id r = cid) (md_dry_runs md))) of
        [] \<Rightarrow> None | r # _ \<Rightarrow> Some r)"

section \<open>Timestamps\<close>

definition parsed_ts :: "(pyval \<Rightarrow> instant option) \<Rightarrow> string \<Rightarrow> instant result" where
  "parsed_ts ts s = (case ts (PStr s) of Some t \<Rightarrow> Inr t | None \<Rightarrow> invalid ''timestamp'')"

definition tick_age :: "(pyval \<Rightarrow> instant option) \<Rightarrow> instant \<Rightarrow> string \<Rightarrow> int result" where
  \<comment> \<open>in microseconds\<close>
  "tick_age ts now event_ts = rbind (parsed_ts ts event_ts) (\<lambda>t. Inr (max (now - t) 0))"

section \<open>The decision\<close>

record admission_policy =
  ap_name :: string
  ap_context_ready :: bool
  ap_context_row :: bool
  ap_strategy_matched :: bool
  ap_risk_pass :: bool
  ap_fresh_tick :: bool
  ap_stale_tick_sec :: int
  ap_dry_run_evidence :: bool
  ap_strategy_observe_only :: "bool option"
  ap_risk_observe_only :: "bool option"

record admission_trace =
  adm_policy_name :: string
  adm_candidate_id :: string
  adm_eligible :: bool
  adm_reason_codes :: "string list"
  adm_tick :: "tick_row option"
  adm_dry_run :: "dry_run_row option"
  adm_trade_date :: "string option"
  adm_code :: "string option"
  adm_name :: string
  adm_strategy_id :: "string option"
  adm_risk_id :: "string option"

definition raised :: "(bool \<times> string) list \<Rightarrow> string list" where
  \<comment> \<open>the reasons whose condition holds, in order\<close>
  "raised gs = map snd (filter fst gs)"

definition candidate_reasons :: "admission_policy \<Rightarrow> candidate_row option \<Rightarrow> string list" where
  "candidate_reasons pol found =
     (case found of
        None \<Rightarrow> [''CANDIDATE_NOT_FOUND'']
      | Some r \<Rightarrow> raised [(ap_context_ready pol \<and> py_upper (ca_state r) \<noteq> ''CONTEXT_READY'', ''CANDIDATE_NOT_CONTEXT_READY'')])"

definition strategy_reasons :: "admission_policy \<Rightarrow> strategy_row option \<Rightarrow> string list" where
  "strategy_reasons pol found =
     (case found of
        None \<Rightarrow> [''STRATEGY_OBSERVATION_MISSING'']
      | Some r \<Rightarrow> raised
          [(ap_strategy_matched pol \<and> py_upper (sg_overall_status r) \<noteq> ''MATCHED_OBSERVATION'', ''STRATEGY_NOT_MATCHED''),
           (ap_strategy_observe_only pol \<notin> {None, Some (sg_observe_only r)}, ''STRATEGY_OBSERVE_ONLY_MISMATCH'')])"

definition risk_reasons :: "admission_policy \<Rightarrow> risk_row option \<Rightarrow> string list" where
  "risk_reasons pol found =
     (case found of
        None \<Rightarrow> [''RISK_OBSERVATION_MISSING'']
      | Some r \<Rightarrow> raised
          [(ap_risk_pass pol \<and> py_upper (rk_overall_status r) \<noteq> ''OBSERVE_PASS'', ''RISK_NOT_OBSERVE_PASS''),
           (ap_risk_observe_only pol \<notin> {None, Some (rk_observe_only r)}, ''RISK_OBSERVE_ONLY_MISMATCH'')])"

definition tick_reasons :: "(pyval \<Rightarrow> instant option) \<Rightarrow> instant \<Rightarrow> market_db \<Rightarrow> admission_policy \<Rightarrow> string option \<Rightarrow> (string list \<times> tick_row option) result" where
  "tick_reasons ts now md pol code =
     (case code of
        None \<Rightarrow> Inr ([''LATEST_TICK_MISSING''], None)
      | Some c \<Rightarrow>
          (case tick_of md c of
             None \<Rightarrow> Inr ([''LATEST_TICK_MISSING''], None)
           | Some t \<Rightarrow> rbind (tick_age ts now (tk_event_ts t)) (\<lambda>age.
               Inr (raised [(ap_fresh_tick pol \<and> age > ap_stale_tick_sec pol * microseconds, ''LATEST_TICK_STALE'')], Some t))))"

definition evaluate_trade_admission ::
  "(pyval \<Rightarrow> instant option) \<Rightarrow> instant \<Rightarrow> market_db \<Rightarrow> string \<Rightarrow> admission_policy \<Rightarrow> string option \<Rightarrow> string option \<Rightarrow> string option
     \<Rightarrow> dry_run_row option \<Rightarrow> admission_trace result" where
  "evaluate_trade_admission ts now md candidate_id pol fallback_date fallback_code fallback_name dry_run =
     rbind (require_non_empty_str ''candidate_instance_id'' (PStr candidate_id)) (\<lambda>cid.
     let candidate = candidate_of md cid; strategy = strategy_of md cid; risk = risk_of md cid in
     rbind (case fallback_code of None \<Rightarrow> Inr None | Some v \<Rightarrow> (if v = [] then Inr None else rbind (validate_stock_code v) (\<lambda>c. Inr (Some c)))) (\<lambda>code0.
     rbind (case candidate of
              None \<Rightarrow> Inr (fallback_date, code0, (case fallback_name of Some n \<Rightarrow> (if n = [] then ''UNKNOWN'' else n) | None \<Rightarrow> ''UNKNOWN''))
            | Some r \<Rightarrow> rbind (validate_stock_code (ca_code r)) (\<lambda>c. Inr (Some (ca_trade_date r), Some c, ca_name r))) (\<lambda>(day, code, name).
     rbind (tick_reasons ts now md pol code) (\<lambda>(from_tick, tick).
     rbind (require_non_empty_str ''policy.name'' (PStr (ap_name pol))) (\<lambda>policy_name.
       let reasons = merge_reasons (candidate_reasons pol candidate
             @ raised [(ap_context_row pol \<and> cid \<notin> set (md_contexts md), ''CANDIDATE_CONTEXT_MISSING'')]
             @ strategy_reasons pol strategy @ risk_reasons pol risk @ from_tick
             @ raised [(ap_dry_run_evidence pol \<and> dry_run = None, ''DRY_RUN_EVIDENCE_MISSING'')]) in
       Inr \<lparr> adm_policy_name = policy_name, adm_candidate_id = cid, adm_eligible = (reasons = []), adm_reason_codes = reasons,
             adm_tick = tick, adm_dry_run = dry_run, adm_trade_date = day, adm_code = code, adm_name = name,
             adm_strategy_id = map_option sg_observation_id strategy, adm_risk_id = map_option rk_observation_id risk \<rparr>)))))"

section \<open>What admission means\<close>

lemma raised_simps [simp]: "raised [] = []" "raised ((b, r) # gs) = (if b then r # raised gs else raised gs)"
  by (simp_all add: raised_def)

lemma admission_reasons_visible [simp]:
  "py_strip ''CANDIDATE_NOT_FOUND'' \<noteq> []" "py_strip ''CANDIDATE_NOT_CONTEXT_READY'' \<noteq> []" "py_strip ''CANDIDATE_CONTEXT_MISSING'' \<noteq> []"
  "py_strip ''STRATEGY_OBSERVATION_MISSING'' \<noteq> []" "py_strip ''STRATEGY_NOT_MATCHED'' \<noteq> []" "py_strip ''STRATEGY_OBSERVE_ONLY_MISMATCH'' \<noteq> []"
  "py_strip ''RISK_OBSERVATION_MISSING'' \<noteq> []" "py_strip ''RISK_NOT_OBSERVE_PASS'' \<noteq> []" "py_strip ''RISK_OBSERVE_ONLY_MISMATCH'' \<noteq> []"
  "py_strip ''LATEST_TICK_MISSING'' \<noteq> []" "py_strip ''LATEST_TICK_STALE'' \<noteq> []" "py_strip ''DRY_RUN_EVIDENCE_MISSING'' \<noteq> []"
  by code_simp+

text \<open>What admission says of a candidate, in terms of the rows: there is a candidate, it has observations, each of them passes, and a tick.\<close>

definition admitted_rows :: "(pyval \<Rightarrow> instant option) \<Rightarrow> instant \<Rightarrow> market_db \<Rightarrow> admission_policy \<Rightarrow> dry_run_row option \<Rightarrow> string \<Rightarrow> candidate_row \<Rightarrow> string \<Rightarrow> bool" where
  "admitted_rows ts now md pol dry_run cid r code \<longleftrightarrow>
     (ap_context_ready pol \<longrightarrow> py_upper (ca_state r) = ''CONTEXT_READY'') \<and> (ap_context_row pol \<longrightarrow> cid \<in> set (md_contexts md))
   \<and> (\<exists>s. strategy_of md cid = Some s \<and> (ap_strategy_matched pol \<longrightarrow> py_upper (sg_overall_status s) = ''MATCHED_OBSERVATION'')
        \<and> ap_strategy_observe_only pol \<in> {None, Some (sg_observe_only s)})
   \<and> (\<exists>k. risk_of md cid = Some k \<and> (ap_risk_pass pol \<longrightarrow> py_upper (rk_overall_status k) = ''OBSERVE_PASS'')
        \<and> ap_risk_observe_only pol \<in> {None, Some (rk_observe_only k)})
   \<and> (\<exists>t age. tick_of md code = Some t \<and> tick_age ts now (tk_event_ts t) = Inr age \<and> (ap_fresh_tick pol \<longrightarrow> age \<le> ap_stale_tick_sec pol * microseconds))
   \<and> (ap_dry_run_evidence pol \<longrightarrow> dry_run \<noteq> None)"

lemma tick_reasons_clear:
  "tick_reasons ts now md pol code = Inr (rs, t) \<Longrightarrow> merge_reasons rs = [] \<longleftrightarrow>
     (\<exists>c t age. code = Some c \<and> tick_of md c = Some t \<and> tick_age ts now (tk_event_ts t) = Inr age
        \<and> (ap_fresh_tick pol \<longrightarrow> age \<le> ap_stale_tick_sec pol * microseconds))"
  by (auto simp: tick_reasons_def rbind_Inr_iff merge_Cons_Nil split: option.splits if_splits)

lemma admission_exact:
  assumes "evaluate_trade_admission ts now md candidate_id pol None None None dry_run = Inr a"
  shows "adm_eligible a \<longleftrightarrow> (\<exists>r code. candidate_of md (py_strip candidate_id) = Some r \<and> validate_stock_code (ca_code r) = Inr code
    \<and> admitted_rows ts now md pol dry_run (py_strip candidate_id) r code)"
proof -
  let ?cid = "py_strip candidate_id"
  from assms obtain day code name rs t where *: "py_strip candidate_id \<noteq> []"
      "(case candidate_of md ?cid of None \<Rightarrow> Inr (None, None, ''UNKNOWN'')
        | Some r \<Rightarrow> rbind (validate_stock_code (ca_code r)) (\<lambda>c. Inr (Some (ca_trade_date r), Some c, ca_name r))) = Inr (day, code, name)"
      "tick_reasons ts now md pol code = Inr (rs, t)"
    and el: "adm_eligible a \<longleftrightarrow> merge_reasons (candidate_reasons pol (candidate_of md ?cid)
             @ raised [(ap_context_row pol \<and> ?cid \<notin> set (md_contexts md), ''CANDIDATE_CONTEXT_MISSING'')]
             @ strategy_reasons pol (strategy_of md ?cid) @ risk_reasons pol (risk_of md ?cid) @ rs
             @ raised [(ap_dry_run_evidence pol \<and> dry_run = None, ''DRY_RUN_EVIDENCE_MISSING'')]) = []"
    by (auto simp: evaluate_trade_admission_def rbind_Inr_iff Let_def require_non_empty_str_def invalid_def simp del: raised_simps
        split: if_split_asm cong: option.case_cong)
  have parts: "merge_reasons (candidate_reasons pol (candidate_of md ?cid)) = [] \<longleftrightarrow>
      (\<exists>r. candidate_of md ?cid = Some r \<and> (ap_context_ready pol \<longrightarrow> py_upper (ca_state r) = ''CONTEXT_READY''))"
    "merge_reasons (strategy_reasons pol (strategy_of md ?cid)) = [] \<longleftrightarrow>
      (\<exists>s. strategy_of md ?cid = Some s \<and> (ap_strategy_matched pol \<longrightarrow> py_upper (sg_overall_status s) = ''MATCHED_OBSERVATION'')
        \<and> ap_strategy_observe_only pol \<in> {None, Some (sg_observe_only s)})"
    "merge_reasons (risk_reasons pol (risk_of md ?cid)) = [] \<longleftrightarrow>
      (\<exists>k. risk_of md ?cid = Some k \<and> (ap_risk_pass pol \<longrightarrow> py_upper (rk_overall_status k) = ''OBSERVE_PASS'')
        \<and> ap_risk_observe_only pol \<in> {None, Some (rk_observe_only k)})"
    by (auto simp: candidate_reasons_def strategy_reasons_def risk_reasons_def merge_Cons_Nil split: option.splits)
  show ?thesis
  proof (cases "candidate_of md ?cid")
    case None
    then show ?thesis using el parts by (auto simp: merge_append_Nil)
  next
    case (Some r)
    then obtain c where c: "validate_stock_code (ca_code r) = Inr c" "code = Some c" using *(2) by (auto simp: rbind_Inr_iff)
    show ?thesis
      unfolding el admitted_rows_def merge_append_Nil parts tick_reasons_clear [OF *(3)] using Some c by (auto simp: merge_Cons_Nil)
  qed
qed

end
