(* ===== verification/Live_Exit_Run.thy ===== *)
theory Live_Exit_Run
  imports Live_Exit Exit_Policy Admission
begin

text \<open>
  One run of the exit engine: \<open>evaluate_live_sim_exit_signals\<close> and \<open>run_live_sim_exit_once\<close> of
  \<open>services/live_sim/live_sim_service.py\<close>. The positions are marked to the latest ticks and put to the exit policy
  (\<open>domain/exit/policy.py\<close>); what it says to close becomes a signal, an intent and a command.

  \<^item> The latest ticks of the market are an argument. So are, for each signal of a run, the ids that are drawn for it, the time
    and what the safety gate sees.
  \<^item> \<open>ts\<close> parses a timestamp; a position whose time of opening is empty counts as opened now.
\<close>

section \<open>Signals\<close>

definition exit_policy_of :: "live_settings \<Rightarrow> exit_policy_config" where
  "exit_policy_of st = \<lparr> xp_stop_loss_pct = ls_exit_stop_loss_pct st, xp_take_profit_pct = ls_exit_take_profit_pct st,
     xp_trailing_activation_pct = ls_trailing_activation_pct st, xp_trailing_stop_pct = ls_trailing_stop_pct st,
     xp_minimum_hold_sec = ls_exit_min_hold_sec st, xp_maximum_hold_sec = ls_exit_max_hold_sec st,
     xp_eod_flatten_enabled = ls_exit_eod_flatten_enabled st, xp_eod_flatten_time = ls_exit_eod_flatten_time st,
     xp_close_only = True, xp_allow_short = False, xp_policy_version = ls_config_version st \<rparr>"

fun trigger_text :: "exit_trigger_type \<Rightarrow> string" where
  "trigger_text STOP_LOSS = ''STOP_LOSS''"
| "trigger_text TAKE_PROFIT = ''TAKE_PROFIT''"
| "trigger_text TRAILING_STOP = ''TRAILING_STOP''"
| "trigger_text MAX_HOLD = ''MAX_HOLD''"
| "trigger_text EOD_FLATTEN = ''EOD_FLATTEN''"

definition exit_signal_candidate :: "live_position \<Rightarrow> rat \<Rightarrow> exit_trigger \<Rightarrow> exit_signal" where
  \<comment> \<open>it has neither an id nor a time yet\<close>
  "exit_signal_candidate p last_price tr =
     \<lparr> xs_id = [], xs_position_id = po_id p, xs_reason = trigger_text (xt_trigger_type tr), xs_last_price = Some last_price,
       xs_status = ''SIGNALLED'', xs_created_at = 0 \<rparr>"

definition exit_data_wait :: "live_position \<Rightarrow> string \<Rightarrow> live_db \<Rightarrow> live_db" where
  "exit_data_wait p reason db =
     record_lifecycle_event ''EXIT_EVALUATION_DATA_WAIT'' ''LIVE_SIM_POSITION'' (Some (po_id p)) None (Some (po_id p))
       (Some (case po_status p of PS_OPEN \<Rightarrow> ''OPEN'' | PS_CLOSING \<Rightarrow> ''CLOSING'' | PS_CLOSED \<Rightarrow> ''CLOSED'' | PS_RECONCILE_MISMATCH \<Rightarrow> ''RECONCILE_MISMATCH''))
       reason db"

definition evaluate_position ::
  "(pyval \<Rightarrow> instant option) \<Rightarrow> (instant \<Rightarrow> string) \<Rightarrow> live_settings \<Rightarrow> tick_row list \<Rightarrow> instant \<Rightarrow> live_position \<Rightarrow> live_db
     \<Rightarrow> ((exit_signal \<times> bool) list \<times> live_db) result" where
  \<comment> \<open>the candidates, each with its field \<open>eligible\<close>\<close>
  "evaluate_position ts wire st ticks now p0 db =
     rbind (validate_stock_code (po_code p0)) (\<lambda>code.
     case sql_find (\<lambda>t. tk_code t = code) ticks of
       None \<Rightarrow> Inr ([], exit_data_wait p0 ''LATEST_TICK_MISSING'' db)
     | Some tick \<Rightarrow>
         let last_price = tk_price tick in
         rbind (tick_age ts now (tk_event_ts tick)) (\<lambda>age.
         let db1 = mark_position_to_market st p0 last_price (tk_event_ts tick) (wire now) db;
             p = (case sql_find (\<lambda>r. po_id r = po_id p0) (ld_positions db1) of Some r \<Rightarrow> r | None \<Rightarrow> p0) in
         if age > ls_stale_tick_sec st * microseconds
         then Inr ([], exit_data_wait p ''LIVE_SIM_EXIT_LATEST_TICK_STALE'' db1)
         else rbind (if po_opened_at p = [] then Inr now else parsed_ts ts (po_opened_at p)) (\<lambda>opened.
              rbind (make_position \<lparr> lp_entry_price = po_avg_entry_price p, lp_current_price = last_price,
                       lp_highest_price = price_or (po_highest_price p) last_price, lp_quantity = po_quantity p,
                       lp_opened_at = opened, lp_observed_at = now \<rparr>) (\<lambda>snapshot.
              case policy_error (exit_policy_of st) of
                Some message \<Rightarrow> Inl (ValueError message)
              | None \<Rightarrow>
                  Inr (map (\<lambda>tr. (exit_signal_candidate p last_price tr, \<not> active_exit_for_position (po_id p) db1))
                         (xd_triggers (evaluate_long_exit_policy snapshot (exit_policy_of st))), db1)))))"

fun evaluate_positions ::
  "(pyval \<Rightarrow> instant option) \<Rightarrow> (instant \<Rightarrow> string) \<Rightarrow> live_settings \<Rightarrow> tick_row list \<Rightarrow> instant \<Rightarrow> live_position list \<Rightarrow> live_db
     \<Rightarrow> ((exit_signal \<times> bool) list \<times> live_db) result" where
  "evaluate_positions ts wire st ticks now [] db = Inr ([], db)"
| "evaluate_positions ts wire st ticks now (p # ps) db =
     rbind (evaluate_position ts wire st ticks now p db) (\<lambda>(signals, db1).
     rbind (evaluate_positions ts wire st ticks now ps db1) (\<lambda>(more, db2). Inr (signals @ more, db2)))"

definition bounded_limit :: "int \<Rightarrow> int" where
  "bounded_limit n = min (max n 1) 500"

definition evaluate_live_sim_exit_signals ::
  "(pyval \<Rightarrow> instant option) \<Rightarrow> (instant \<Rightarrow> string) \<Rightarrow> live_settings \<Rightarrow> tick_row list \<Rightarrow> instant \<Rightarrow> string option \<Rightarrow> string option
     \<Rightarrow> int option \<Rightarrow> live_db \<Rightarrow> ((exit_signal \<times> bool) list \<times> live_db) result" where
  "evaluate_live_sim_exit_signals ts wire st ticks now position_id code limit db =
     rbind (case position_id of None \<Rightarrow> Inr None | Some v \<Rightarrow> rbind (require_non_empty_str ''position_id'' (PStr v)) (\<lambda>s. Inr (Some s))) (\<lambda>pid.
     rbind (case code of None \<Rightarrow> Inr None | Some v \<Rightarrow> rbind (validate_stock_code v) (\<lambda>s. Inr (Some s))) (\<lambda>c.
       let n = bounded_limit (case limit of None \<Rightarrow> 500 | Some l \<Rightarrow> (if l = 0 then 500 else l));
           rows = filter (\<lambda>p. po_status p = PS_OPEN \<and> po_quantity p > 0 \<and> po_available p > 0
                    \<and> (pid = None \<or> pid = Some (po_id p)) \<and> (c = None \<or> c = Some (po_code p))) (ld_positions db) in
       evaluate_positions ts wire st ticks now (take (nat n) (sort_key (\<lambda>p. (po_opened_at p, po_id p)) rows)) db))"

section \<open>A run\<close>

record signal_draw =
  sd_signal_id :: string
  sd_intent_id :: string
  sd_command_id :: string
  sd_order_id :: string
  sd_now :: instant
  sd_view :: gate_view

record run_result =
  rr_signals :: nat
  rr_intents :: nat
  rr_queued :: nat
  rr_errors :: nat

definition error_text :: "py_error \<Rightarrow> string" where
  "error_text e = (case e of KeyError s \<Rightarrow> s | ValueError s \<Rightarrow> s | TypeError s \<Rightarrow> s | BrokerValidationError s \<Rightarrow> s | OverflowError s \<Rightarrow> s)"

definition exit_one ::
  "(string \<Rightarrow> pyval result) \<Rightarrow> (pyval \<Rightarrow> instant option) \<Rightarrow> repr \<Rightarrow> (pydict \<Rightarrow> string) \<Rightarrow> (instant \<Rightarrow> string) \<Rightarrow> live_settings \<Rightarrow> bool
     \<Rightarrow> signal_draw \<Rightarrow> exit_signal \<Rightarrow> run_result \<Rightarrow> live_db \<times> command_store \<Rightarrow> run_result \<times> py_error option \<times> live_db \<times> command_store" where
  \<comment> \<open>the body of the \<open>try\<close>, with the exception that leaves it\<close>
  "exit_one js ts rp hsh wire st queue_commands d signal res s =
     (let (db, queue) = s in
      case insert_exit_signal (sd_now d) (sd_signal_id d) signal db of
        Inl e \<Rightarrow> (res, Some e, db, queue)
      | Inr db1 \<Rightarrow>
          (let res1 = res\<lparr> rr_signals := rr_signals res + 1 \<rparr> in
           case create_live_sim_exit_intent st (sd_intent_id d) (xs_position_id signal) (Some (sd_signal_id d)) db1 of
             Inl e \<Rightarrow> (res1, Some e, db1, queue)
           | Inr (x, db2) \<Rightarrow>
               (let res2 = res1\<lparr> rr_intents := rr_intents res + 1 \<rparr> in
                if \<not> queue_commands then (res2, None, db2, queue)
                else case queue_live_sim_exit_order_command js ts rp hsh wire st (sd_view d) (sd_now d) (sd_command_id d) (sd_order_id d)
                            (xi_id x) (db2, queue) of
                  (Inl e, db3, queue3) \<Rightarrow> (res2, Some e, db3, queue3)
                | (Inr _, db3, queue3) \<Rightarrow> (res2\<lparr> rr_queued := rr_queued res + 1 \<rparr>, None, db3, queue3))))"

fun exit_loop ::
  "(string \<Rightarrow> pyval result) \<Rightarrow> (pyval \<Rightarrow> instant option) \<Rightarrow> repr \<Rightarrow> (pydict \<Rightarrow> string) \<Rightarrow> (instant \<Rightarrow> string) \<Rightarrow> live_settings \<Rightarrow> bool \<Rightarrow> bool
     \<Rightarrow> (nat \<Rightarrow> signal_draw) \<Rightarrow> (exit_signal \<times> bool) list \<Rightarrow> nat \<Rightarrow> run_result \<Rightarrow> live_db \<times> command_store
     \<Rightarrow> run_result \<times> live_db \<times> command_store" where
  \<comment> \<open>\<open>k\<close> counts the signals; the error of a signal has no order and the code of its position, so that recording it cannot fail\<close>
  "exit_loop js ts rp hsh wire st dry_run queue_commands draw [] k res s = (res, s)"
| "exit_loop js ts rp hsh wire st dry_run queue_commands draw ((signal, eligible) # signals) k res s =
     (if \<not> eligible then exit_loop js ts rp hsh wire st dry_run queue_commands draw signals (Suc k) res s
      else if int (rr_intents res) \<ge> ls_exit_max_commands_per_run st then (res, s)
      else if dry_run then exit_loop js ts rp hsh wire st dry_run queue_commands draw signals (Suc k) res s
      else case exit_one js ts rp hsh wire st queue_commands (draw k) signal res s of
        (res', None, s') \<Rightarrow> exit_loop js ts rp hsh wire st dry_run queue_commands draw signals (Suc k) res' s'
      | (res', Some e, db', queue') \<Rightarrow>
          exit_loop js ts rp hsh wire st dry_run queue_commands draw signals (Suc k) (res'\<lparr> rr_errors := rr_errors res' + 1 \<rparr>)
            (record_lifecycle_event ''LIFECYCLE_ERROR'' ''LIVE_SIM_ERROR'' None None None (Some ''ERROR'') (error_text e)
               (db'\<lparr> ld_errors := ld_errors db' @ [error_text e] \<rparr>), queue'))"

definition run_live_sim_exit_once ::
  "(string \<Rightarrow> pyval result) \<Rightarrow> (pyval \<Rightarrow> instant option) \<Rightarrow> repr \<Rightarrow> (pydict \<Rightarrow> string) \<Rightarrow> (instant \<Rightarrow> string) \<Rightarrow> live_settings \<Rightarrow> bool \<Rightarrow> bool
     \<Rightarrow> tick_row list \<Rightarrow> instant \<Rightarrow> string option \<Rightarrow> string option \<Rightarrow> int option \<Rightarrow> (nat \<Rightarrow> signal_draw)
     \<Rightarrow> live_db \<times> command_store \<Rightarrow> (run_result \<times> live_db \<times> command_store) result" where
  "run_live_sim_exit_once js ts rp hsh wire st dry_run queue_commands ticks now position_id code limit draw s =
     rbind (evaluate_live_sim_exit_signals ts wire st ticks now position_id code
              (Some (case limit of Some l \<Rightarrow> (if l = 0 then ls_exit_max_commands_per_run st else l) | None \<Rightarrow> ls_exit_max_commands_per_run st)) (fst s))
       (\<lambda>(signals, db). Inr (exit_loop js ts rp hsh wire st dry_run queue_commands draw signals 0
                               \<lparr> rr_signals = 0, rr_intents = 0, rr_queued = 0, rr_errors = 0 \<rparr> (db, snd s)))"

section \<open>What a run leaves alone\<close>

definition exit_tables_kept :: "live_db \<Rightarrow> live_db \<Rightarrow> bool" where
  "exit_tables_kept db db' \<longleftrightarrow> ld_exit_signals db' = ld_exit_signals db \<and> ld_exit_intents db' = ld_exit_intents db"

lemma exit_tables_log [simp]:
  "ld_exit_signals (record_lifecycle_event a b c d e f g db) = ld_exit_signals db" "ld_exit_intents (record_lifecycle_event a b c d e f g db) = ld_exit_intents db"
  "ld_exit_signals (update_position i u db) = ld_exit_signals db" "ld_exit_intents (update_position i u db) = ld_exit_intents db"
  "ld_exit_signals (mark_position_to_market st p price t now db) = ld_exit_signals db"
  "ld_exit_intents (mark_position_to_market st p price t now db) = ld_exit_intents db"
  "ld_exit_signals (exit_data_wait p r db) = ld_exit_signals db" "ld_exit_intents (exit_data_wait p r db) = ld_exit_intents db"
  by (simp_all add: record_lifecycle_event_def update_position_def mark_position_to_market_def exit_data_wait_def Let_def)

lemma evaluate_position_keeps: "ensures (\<lambda>x. exit_tables_kept db (snd x)) (evaluate_position ts wire st ticks now p db)"
  unfolding evaluate_position_def Let_def by (intro ensures_rules) (simp_all add: exit_tables_kept_def)

lemma evaluate_positions_keep: "ensures (\<lambda>x. exit_tables_kept db (snd x)) (evaluate_positions ts wire st ticks now ps db)"
proof (induction ps arbitrary: db)
  case Nil
  then show ?case by (simp add: ensures_def exit_tables_kept_def)
next
  case (Cons p ps)
  show ?case unfolding evaluate_positions.simps
  proof (intro ensures_rules ensures_pair)
    fix x signals db1 y more db2
    assume "evaluate_position ts wire st ticks now p db = Inr x" "x = (signals, db1)"
      "evaluate_positions ts wire st ticks now ps db1 = Inr y" "y = (more, db2)"
    then show "exit_tables_kept db (snd (signals @ more, db2))"
      using ensuresD [OF evaluate_position_keeps [of db ts wire st ticks now p], of "(signals, db1)"] ensuresD [OF Cons [of db1], of "(more, db2)"]
      by (simp add: exit_tables_kept_def)
  qed
qed

lemma evaluate_keeps: "ensures (\<lambda>x. exit_tables_kept db (snd x)) (evaluate_live_sim_exit_signals ts wire st ticks now pid code limit db)"
  unfolding evaluate_live_sim_exit_signals_def Let_def by (intro ensures_rules evaluate_positions_keep)

section \<open>A position with an open signal\<close>

definition open_signal :: "string \<Rightarrow> exit_signal list \<Rightarrow> bool" where
  "open_signal pid ss \<longleftrightarrow> (\<exists>s \<in> set ss. xs_position_id s = pid \<and> xs_status s \<in> ACTIVE_SIGNAL)"

definition intent_ids :: "string \<Rightarrow> exit_intent list \<Rightarrow> string list" where
  "intent_ids pid xs = map xi_id (filter (\<lambda>x. xi_position_id x = pid) xs)"

definition stuck :: "string \<Rightarrow> string list \<Rightarrow> live_db \<Rightarrow> bool" where
  "stuck pid ids db \<longleftrightarrow> open_signal pid (ld_exit_signals db) \<and> intent_ids pid (ld_exit_intents db) = ids"

lemma open_signal_active: "open_signal pid (ld_exit_signals db) \<Longrightarrow> active_exit_for_position pid db"
  by (auto simp: open_signal_def active_exit_for_position_def sql_find_def find_None_iff)

lemma open_signal_update:
  assumes "\<And>s. xs_position_id (f s) = xs_position_id s" "\<And>s. xs_status (f s) \<in> ACTIVE_SIGNAL"
  shows "open_signal pid ss \<Longrightarrow> open_signal pid (sql_update q f ss)"
  using assms by (induction ss) (auto simp: open_signal_def)

lemma open_signal_snoc: "open_signal pid ss \<Longrightarrow> open_signal pid (ss @ [s])"
  by (auto simp: open_signal_def)

lemma intent_ids_update [simp]:
  "(\<And>x. xi_position_id (f x) = xi_position_id x) \<Longrightarrow> (\<And>x. xi_id (f x) = xi_id x) \<Longrightarrow> intent_ids pid (sql_update q f xs) = intent_ids pid xs"
  unfolding intent_ids_def by (induction xs) auto

lemma intent_ids_snoc [simp]: "intent_ids pid (xs @ [x]) = intent_ids pid xs @ (if xi_position_id x = pid then [xi_id x] else [])"
  by (simp add: intent_ids_def)

lemma stuck_kept: "exit_tables_kept db db' \<Longrightarrow> stuck pid ids db' = stuck pid ids db"
  by (simp add: exit_tables_kept_def stuck_def)

lemma stuck_logged [simp]:
  "stuck pid ids (record_lifecycle_event a b c d e f g db) = stuck pid ids db" "stuck pid ids (update_position i u db) = stuck pid ids db"
  "stuck pid ids (ld_errors_update w db) = stuck pid ids db" "stuck pid ids (ld_orders_update v db) = stuck pid ids db"
  "stuck pid ids (set_exit_status i st db) = stuck pid ids db" "stuck pid ids (mark_exit_intent_rejected x rs db) = stuck pid ids db"
  by (simp_all add: stuck_def set_exit_status_def mark_exit_intent_rejected_def)

lemma active_texts [simp]: "''EXIT_INTENT_CREATED'' \<in> ACTIVE_SIGNAL" "''COMMAND_QUEUED'' \<in> ACTIVE_SIGNAL"
  by (simp_all add: ACTIVE_SIGNAL_def)

lemma stuck_inserted:
  "ensures (\<lambda>db'. \<not> active_exit_for_position (xs_position_id c) db \<and> (stuck pid ids db \<longrightarrow> stuck pid ids db')) (insert_exit_signal now sid c db)"
  unfolding insert_exit_signal_def by (intro ensures_rules) (simp_all add: stuck_def open_signal_snoc)

lemma stuck_created:
  assumes "stuck pid ids db" "qid \<noteq> pid"
  shows "ensures (\<lambda>x. stuck pid ids (snd x)) (create_live_sim_exit_intent st xid qid sid db)"
  unfolding create_live_sim_exit_intent_def Let_def
  by (intro ensures_rules) (use assms in \<open>simp_all add: stuck_def open_signal_update\<close>)

lemma stuck_recorded:
  assumes "stuck pid ids db"
  shows "ensures (stuck pid ids) (record_exit_order now oid cid wire xid x p db)"
  unfolding record_exit_order_def Let_def insert_order_def
  by (intro ensures_rules) (use assms in \<open>auto simp: stuck_def open_signal_update split: if_splits\<close>)

lemma stuck_enqueued:
  assumes "stuck pid ids db" "enqueue_exit_order js ts rp hsh st gv now cid xid (db, queue) = (r, db', queue')"
  shows "stuck pid ids db'"
  using assms by (auto simp: enqueue_exit_order_def Let_def split: sum.split_asm prod.split_asm if_splits)

lemma stuck_queued:
  assumes "stuck pid ids db" "queue_live_sim_exit_order_command js ts rp hsh wire st gv now cid oid xid (db, queue) = (r, db', queue')"
  shows "stuck pid ids db'"
proof -
  obtain r1 db1 queue1 where 1: "enqueue_exit_order js ts rp hsh st gv now cid xid (db, queue) = (r1, db1, queue1)"
    by (cases "enqueue_exit_order js ts rp hsh st gv now cid xid (db, queue)") auto
  have "stuck pid ids db1" by (rule stuck_enqueued [OF assms(1) 1])
  then show ?thesis using assms(2) ensuresD [OF stuck_recorded]
    by (auto simp: queue_live_sim_exit_order_command_def 1 split: sum.split_asm prod.split_asm)
qed

lemma stuck_one:
  assumes "stuck pid ids db" "exit_one js ts rp hsh wire st qc d signal res (db, queue) = (res', err, db', queue')"
  shows "stuck pid ids db'"
proof (cases "insert_exit_signal (sd_now d) (sd_signal_id d) signal db")
  case (Inl e)
  then show ?thesis using assms by (auto simp: exit_one_def)
next
  case (Inr db1)
  have 1: "stuck pid ids db1" "xs_position_id signal \<noteq> pid"
    using ensuresD [OF stuck_inserted Inr] assms(1) open_signal_active by (auto simp: stuck_def)
  show ?thesis
  proof (cases "create_live_sim_exit_intent st (sd_intent_id d) (xs_position_id signal) (Some (sd_signal_id d)) db1")
    case (Inl e)
    then show ?thesis using assms(2) Inr 1 by (auto simp: exit_one_def Let_def)
  next
    case c: (Inr y)
    then have "stuck pid ids (snd y)" using ensuresD [OF stuck_created [OF 1]] by blast
    then show ?thesis using assms(2) stuck_queued
      by (auto simp: exit_one_def Let_def Inr c split: if_splits prod.split_asm sum.split_asm)
  qed
qed

lemma stuck_loop:
  "exit_loop js ts rp hsh wire st dry qc draw signals k res (db, queue) = (res', db', queue') \<Longrightarrow> stuck pid ids db \<Longrightarrow> stuck pid ids db'"
proof (induction signals arbitrary: k res db queue)
  case (Cons sg signals)
  obtain signal eligible where sg: "sg = (signal, eligible)" by (cases sg)
  obtain res1 err db1 queue1 where one: "exit_one js ts rp hsh wire st qc (draw k) signal res (db, queue) = (res1, err, db1, queue1)"
    by (cases "exit_one js ts rp hsh wire st qc (draw k) signal res (db, queue)") auto
  have "stuck pid ids db1" by (rule stuck_one [OF Cons.prems(2) one])
  then show ?case using Cons.prems Cons.IH [of "Suc k"]
    by (cases err) (auto simp: sg one split: if_splits)
qed simp

definition exit_ran :: "live_db \<times> command_store \<Rightarrow> live_db \<times> command_store \<Rightarrow> bool" where
  \<comment> \<open>some run of the engine, with any settings, prices, clock, ids and gateway\<close>
  "exit_ran s s' \<longleftrightarrow> (\<exists>js ts rp hsh wire st dry_run queue_commands ticks now position_id code limit draw res.
     run_live_sim_exit_once js ts rp hsh wire st dry_run queue_commands ticks now position_id code limit draw s = Inr (res, s'))"

lemma stuck_ran: "exit_ran s s' \<Longrightarrow> stuck pid ids (fst s) \<Longrightarrow> stuck pid ids (fst s')"
proof -
  assume "exit_ran s s'" and ok: "stuck pid ids (fst s)"
  then obtain js ts rp hsh wire st dry_run qc ticks now position_id code limit draw res signals db where
    eval: "evaluate_live_sim_exit_signals ts wire st ticks now position_id code limit (fst s) = Inr (signals, db)"
    and loop: "exit_loop js ts rp hsh wire st dry_run qc draw signals 0 \<lparr> rr_signals = 0, rr_intents = 0, rr_queued = 0, rr_errors = 0 \<rparr> (db, snd s) = (res, s')"
    by (auto simp: exit_ran_def run_live_sim_exit_once_def rbind_Inr_iff)
  have "stuck pid ids db" using stuck_kept ensuresD [OF evaluate_keeps eval] ok by auto
  then show ?thesis using stuck_loop [of _ _ _ _ _ _ _ _ _ _ _ _ _ _ _ "fst s'" "snd s'"] loop by fastforce
qed

lemma stuck_runs: "exit_ran\<^sup>*\<^sup>* s s' \<Longrightarrow> stuck pid ids (fst s) \<Longrightarrow> stuck pid ids (fst s')"
  by (induction rule: rtranclp_induct) (auto intro: stuck_ran)

text \<open>
  C22: A refused exit disables the engine for its position. Let a signal become an intent and let the intent be refused when
  its command is to be queued, be it for a heartbeat that is late. The signal keeps a status that counts as active. However often the
  engine runs afterwards, with whatever prices, settings and gateway, it creates no further intent for the position, and no signal
  for it can be inserted: the stop loss of the position is gone until someone edits the row.
\<close>

theorem refused_exit_disables_engine:
  assumes "insert_exit_signal now sid c db = Inr db1" "xs_status c = ''SIGNALLED''"
    and "create_live_sim_exit_intent st xid (xs_position_id c) (Some sid) db1 = Inr (x, db2)"
    and "enqueue_exit_order js ts rp hsh st gv now' cid xid (db2, queue) = (Inl e, db3, queue3)"
    and "exit_ran\<^sup>*\<^sup>* (db3, queue3) (db4, queue4)"
  shows "intent_ids (xs_position_id c) (ld_exit_intents db4) = intent_ids (xs_position_id c) (ld_exit_intents db2)
     \<and> (\<forall>now2 sid2 c2. xs_position_id c2 = xs_position_id c \<longrightarrow> insert_exit_signal now2 sid2 c2 db4 = Inl (ValueError ''LIVE_SIM_EXIT_DUPLICATE''))"
proof -
  let ?pid = "xs_position_id c"
  have "open_signal ?pid (ld_exit_signals db1)"
    using assms(1,2) by (auto simp: insert_exit_signal_def open_signal_def ACTIVE_SIGNAL_def split: if_splits)
  moreover have "ensures (\<lambda>y. open_signal ?pid (ld_exit_signals (snd y))) (create_live_sim_exit_intent st xid ?pid (Some sid) db1)"
    unfolding create_live_sim_exit_intent_def Let_def by (intro ensures_rules) (use calculation in \<open>simp_all add: open_signal_update\<close>)
  ultimately have "stuck ?pid (intent_ids ?pid (ld_exit_intents db2)) db2" using ensuresD assms(3) by (fastforce simp: stuck_def)
  then have "stuck ?pid (intent_ids ?pid (ld_exit_intents db2)) db4"
    using stuck_enqueued [OF _ assms(4)] stuck_runs [OF assms(5)] by simp
  then show ?thesis using open_signal_active by (auto simp: stuck_def insert_exit_signal_def)
qed

section \<open>The extent of a run\<close>

lemma enqueue_length: "enqueue_command rp hsh now c ex s = (q, s') \<Longrightarrow> length (s_commands s') \<le> Suc (length (s_commands s))"
proof (cases rule: enqueue_command_cases [where rp = rp and c = c and hsh = hsh and now = now and ex = ex and s = s])
  case (accepted res s'')
  then show "enqueue_command rp hsh now c ex s = (q, s') \<Longrightarrow> length (s_commands s') \<le> Suc (length (s_commands s))"
    by (auto simp: insert_queued_def split: option.split_asm if_splits)
qed auto

lemma exit_queue_length:
  "queue_live_sim_exit_order_command js ts rp hsh wire st gv now cid oid xid (db, queue) = (r, db', queue') \<Longrightarrow>
     length (s_commands queue') \<le> Suc (length (s_commands queue))"
  by (auto simp: queue_live_sim_exit_order_command_def enqueue_exit_order_def Let_def
      split: sum.split_asm prod.split_asm if_splits dest!: enqueue_length)

definition extent :: "live_settings \<Rightarrow> nat \<Rightarrow> run_result \<Rightarrow> command_store \<Rightarrow> bool" where
  "extent st n res queue \<longleftrightarrow> int (rr_intents res) \<le> max 0 (ls_exit_max_commands_per_run st) \<and> rr_queued res \<le> rr_intents res
     \<and> rr_intents res \<le> rr_signals res \<and> length (s_commands queue) \<le> n + rr_intents res"

lemma extent_one:
  assumes "extent st n res queue" "int (rr_intents res) < ls_exit_max_commands_per_run st"
    and "exit_one js ts rp hsh wire st qc d signal res (db, queue) = (res', err, db', queue')"
  shows "extent st n res' queue'"
proof (cases "insert_exit_signal (sd_now d) (sd_signal_id d) signal db")
  case (Inl e)
  then show ?thesis using assms by (auto simp: exit_one_def)
next
  case (Inr db1)
  show ?thesis
  proof (cases "create_live_sim_exit_intent st (sd_intent_id d) (xs_position_id signal) (Some (sd_signal_id d)) db1")
    case (Inl e)
    then show ?thesis using assms Inr by (auto simp: exit_one_def Let_def extent_def)
  next
    case c: (Inr y)
    obtain x db2 where y: "y = (x, db2)" by (cases y)
    obtain r db3 queue3 where run: "queue_live_sim_exit_order_command js ts rp hsh wire st (sd_view d) (sd_now d) (sd_command_id d) (sd_order_id d)
        (xi_id x) (db2, queue) = (r, db3, queue3)"
      by (cases "queue_live_sim_exit_order_command js ts rp hsh wire st (sd_view d) (sd_now d) (sd_command_id d) (sd_order_id d) (xi_id x) (db2, queue)") auto
    show ?thesis using assms exit_queue_length [OF run]
      by (cases r) (auto simp: exit_one_def Let_def Inr c y run extent_def split: if_splits)
  qed
qed

lemma extent_loop:
  "exit_loop js ts rp hsh wire st dry qc draw signals k res (db, queue) = (res', db', queue') \<Longrightarrow> extent st n res queue \<Longrightarrow> extent st n res' queue'"
proof (induction signals arbitrary: k res db queue)
  case (Cons sg signals)
  obtain signal eligible where sg: "sg = (signal, eligible)" by (cases sg)
  obtain res1 err db1 queue1 where one: "exit_one js ts rp hsh wire st qc (draw k) signal res (db, queue) = (res1, err, db1, queue1)"
    by (cases "exit_one js ts rp hsh wire st qc (draw k) signal res (db, queue)") auto
  have later: "int (rr_intents res) < ls_exit_max_commands_per_run st \<Longrightarrow> extent st n res1 queue1"
    by (rule extent_one [OF Cons.prems(2) _ one])
  have "extent st n (res1\<lparr> rr_errors := m \<rparr>) queue1 = extent st n res1 queue1" for m by (simp add: extent_def)
  then show ?case using Cons.prems Cons.IH [of "Suc k"] later
    by (cases err) (auto simp: sg one split: if_splits)
qed simp

text \<open>
  A run of the exit engine is bounded. It creates no more intents than the settings allow for one run, queues no more orders than it
  creates intents, and adds at most one command to the queue for each intent.
\<close>

theorem exit_run_is_bounded:
  assumes "run_live_sim_exit_once js ts rp hsh wire st dry_run queue_commands ticks now position_id code limit draw (db, queue) = Inr (res, db', queue')"
  shows "int (rr_intents res) \<le> max 0 (ls_exit_max_commands_per_run st) \<and> rr_queued res \<le> rr_intents res
     \<and> length (s_commands queue') \<le> length (s_commands queue) + rr_intents res"
proof -
  have "extent st (length (s_commands queue)) \<lparr> rr_signals = 0, rr_intents = 0, rr_queued = 0, rr_errors = 0 \<rparr> queue" by (simp add: extent_def)
  then show ?thesis using assms extent_loop by (fastforce simp: run_live_sim_exit_once_def rbind_Inr_iff extent_def)
qed

section \<open>A run that sells and one that is refused\<close>

definition sample_draw :: "gate_view \<Rightarrow> nat \<Rightarrow> signal_draw" where
  "sample_draw gv k = \<lparr> sd_signal_id = ''s9'', sd_intent_id = ''x9'', sd_command_id = ''c9'', sd_order_id = ''o9'', sd_now = 0, sd_view = gv \<rparr>"

definition sample_run :: "gate_view \<Rightarrow> live_db \<Rightarrow> (run_result \<times> live_db \<times> command_store) result" where
  "sample_run gv db = run_live_sim_exit_once (\<lambda>_. Inr PNone) (\<lambda>_. Some 0) (\<lambda>_. []) (\<lambda>_. []) (\<lambda>_. []) sample_live_settings False True
     [\<lparr> tk_code = ''005930'', tk_price = 110, tk_event_ts = ''t'' \<rparr>] 0 None None None (sample_draw gv) (db, empty_store)"

lemma sample_run_result:
  "rbind (sample_run sample_view (sample_held\<lparr> ld_exit_signals := [] \<rparr>)) (\<lambda>(res, db, queue). Inr (rr_intents res, rr_queued res, rr_errors res,
     map lo_quantity (ld_orders db), map po_status (ld_positions db), length (s_commands queue))) = Inr (1, 1, 0, [10], [PS_CLOSING], 1)"
  by code_simp

theorem exit_run_is_bounded_witness:
  "\<exists>res db queue. sample_run sample_view (sample_held\<lparr> ld_exit_signals := [] \<rparr>) = Inr (res, db, queue) \<and> rr_queued res = 1 \<and> length (s_commands queue) \<le> 1"
proof -
  obtain res db queue where out: "sample_run sample_view (sample_held\<lparr> ld_exit_signals := [] \<rparr>) = Inr (res, db, queue)"
    and n: "rr_intents res = 1" "rr_queued res = 1"
    using sample_run_result unfolding rbind_Inr_iff by auto
  have "s_commands empty_store = []" by (simp add: empty_store_def)
  then show ?thesis using exit_run_is_bounded [OF out [unfolded sample_run_def]] out n by auto
qed

definition sample_candidate :: exit_signal where
  "sample_candidate = \<lparr> xs_id = [], xs_position_id = ''p1'', xs_reason = ''STOP_LOSS'', xs_last_price = Some 90, xs_status = ''SIGNALLED'', xs_created_at = 0 \<rparr>"

lemma sample_refusal_result:
  "rbind (insert_exit_signal 0 ''s9'' sample_candidate (sample_held\<lparr> ld_exit_signals := [] \<rparr>)) (\<lambda>db1.
   rbind (create_live_sim_exit_intent sample_live_settings ''x9'' ''p1'' (Some ''s9'') db1) (\<lambda>(x, db2).
     case enqueue_exit_order (\<lambda>_. Inr PNone) (\<lambda>_. Some 0) (\<lambda>_. []) (\<lambda>_. []) sample_live_settings (sample_view\<lparr> gv_values := [(''orderable'', ''1'')] \<rparr>)
            0 ''c9'' ''x9'' (db2, empty_store) of
       (Inl e, db3, queue) \<Rightarrow> Inr (e, map xi_status (ld_exit_intents db3))
     | (Inr _, db3, queue) \<Rightarrow> Inl (ValueError [])))
   = Inr (ValueError ''GATEWAY_HEARTBEAT_STALE'', [''REJECTED''])"
  by code_simp

theorem refused_exit_disables_engine_witness:
  "\<exists>db3. map xi_status (ld_exit_intents db3) = [''REJECTED'']
     \<and> (\<forall>now2 sid2. insert_exit_signal now2 sid2 sample_candidate db3 = Inl (ValueError ''LIVE_SIM_EXIT_DUPLICATE''))"
proof -
  obtain db1 where 1: "insert_exit_signal 0 ''s9'' sample_candidate (sample_held\<lparr> ld_exit_signals := [] \<rparr>) = Inr db1"
    using sample_refusal_result unfolding rbind_Inr_iff by blast
  obtain x db2 where 2: "create_live_sim_exit_intent sample_live_settings ''x9'' ''p1'' (Some ''s9'') db1 = Inr (x, db2)"
    using sample_refusal_result unfolding 1 rbind.simps by (auto simp: rbind_Inr_iff)
  obtain e db3 queue where 3: "enqueue_exit_order (\<lambda>_. Inr PNone) (\<lambda>_. Some 0) (\<lambda>_. []) (\<lambda>_. []) sample_live_settings
      (sample_view\<lparr> gv_values := [(''orderable'', ''1'')] \<rparr>) 0 ''c9'' ''x9'' (db2, empty_store) = (Inl e, db3, queue)"
      "map xi_status (ld_exit_intents db3) = [''REJECTED'']"
    using sample_refusal_result unfolding 1 2 rbind.simps prod.case by (auto split: prod.split_asm sum.split_asm)
  have p: "xs_position_id sample_candidate = ''p1''" "xs_status sample_candidate = ''SIGNALLED''" by (simp_all add: sample_candidate_def)
  have "insert_exit_signal now2 sid2 sample_candidate db3 = Inl (ValueError ''LIVE_SIM_EXIT_DUPLICATE'')" for now2 sid2
    using refused_exit_disables_engine [OF 1 p(2) 2 [folded p(1)] 3(1) rtranclp.rtrancl_refl] by simp
  then show ?thesis using 3(2) by (intro exI [of _ db3] conjI allI)
qed

end
