(* ===== verification/Live_Entry.thy ===== *)
theory Live_Entry
  imports Live_Exit Admission Tick_Size
begin

text \<open>
  The purchase path of the service: which candidate is eligible, the intent it becomes, and the order command the intent
  is queued as (\<open>evaluate_live_sim_eligibility\<close>, \<open>create_live_sim_intent\<close>, \<open>queue_live_sim_order_command\<close> and their helpers
  in \<open>services/live_sim/live_sim_service.py\<close>).

  \<^item> What a decision reads besides the tables of the service is \<open>entry_view\<close>: the view of the safety gate, the rows of the market, the
    latest reconciliation, the report on the lifecycle of executions (or the exception of its classifier), the clock, and what
    the checks of a bound order plan object to.
  \<^item> The connection is in no transaction of a caller. An order command and its order row are written in one savepoint: a failure
    leaves neither. A refusal commits its row in \<open>live_sim_rejections\<close>.
\<close>

section \<open>Counts and limits\<close>

definition ACTIVE_ORDER :: "live_order_status set" where
  "ACTIVE_ORDER = {LO_INTENT_CREATED, LO_COMMAND_QUEUED, LO_COMMAND_DISPATCHED, LO_BROKER_ACKED, LO_PARTIALLY_FILLED, LO_CANCEL_REQUESTED,
     LO_CANCEL_COMMAND_QUEUED, LO_EXIT_REQUESTED, LO_EXIT_COMMAND_QUEUED}"

definition active_intent_status :: "live_intent_status set" where
  "active_intent_status = {LI_CREATED, LI_COMMAND_QUEUED}"

definition buy_limit_price :: "live_settings \<Rightarrow> rat \<Rightarrow> int result" where
  "buy_limit_price st price = add_ticks price (ls_buy_price_offset_ticks st)"

definition quantity_and_notional :: "live_settings \<Rightarrow> rat \<Rightarrow> dry_run_row option \<Rightarrow> int \<times> rat" where
  "quantity_and_notional st price dry_run =
     (if price \<le> 0 then (0, 0)
      else let target = (case dry_run of None \<Rightarrow> ls_max_order_notional st | Some r \<Rightarrow> min (ls_max_order_notional st) (dy_notional r));
               quantity = \<lfloor>target / price\<rfloor> in
           (quantity, price * of_int quantity))"

definition recent_active_count :: "live_settings \<Rightarrow> instant \<Rightarrow> string \<Rightarrow> string option \<Rightarrow> live_db \<Rightarrow> nat result" where
  \<comment> \<open>active intents and orders of a code that are younger than the cooldown\<close>
  "recent_active_count st now code exclude db =
     rbind (validate_stock_code code) (\<lambda>c.
       let recent = wire_le (now - ls_duplicate_cooldown_sec st * microseconds) in
       Inr (sql_count (\<lambda>i. li_code i = c \<and> li_status i \<in> active_intent_status \<and> recent (li_created_at i)
                          \<and> (case exclude of None \<Rightarrow> True | Some x \<Rightarrow> li_id i \<noteq> x)) (ld_intents db)
            + sql_count (\<lambda>r. lo_code r = c \<and> lo_status r \<in> ACTIVE_ORDER \<and> recent (lo_created_at r)) (ld_orders db)))"

definition daily_order_notional :: "string \<Rightarrow> live_db \<Rightarrow> rat" where
  "daily_order_notional day db =
     sum_list (map lo_notional (filter (\<lambda>r. lo_trade_date r = day \<and> lo_status r \<notin> NON_CONSUMING) (ld_orders db)))"

definition active_order_count :: "live_db \<Rightarrow> nat" where
  "active_order_count db = sql_count (\<lambda>r. lo_status r \<in> ACTIVE_ORDER) (ld_orders db)"

definition bought_order :: "live_order \<Rightarrow> bool" where
  "bought_order r \<longleftrightarrow> lo_side r = BUY \<and> lo_status r \<in> {LO_PARTIALLY_FILLED, LO_FILLED}"

definition held :: "live_position \<Rightarrow> bool" where
  "held p \<longleftrightarrow> po_status p \<in> ACTIVE_POSITION \<and> po_quantity p > 0"

definition active_position_count :: "live_db \<Rightarrow> nat" where
  \<comment> \<open>distinct codes\<close>
  "active_position_count db =
     length (remdups (map po_code (filter held (ld_positions db)) @ map lo_code (filter bought_order (ld_orders db))))"

definition open_position_count :: "string \<Rightarrow> live_db \<Rightarrow> nat" where
  \<comment> \<open>distinct ids\<close>
  "open_position_count code db =
     length (remdups (map po_id (filter (\<lambda>p. po_code p = code \<and> held p) (ld_positions db))
                    @ map lo_id (filter (\<lambda>r. lo_code r = code \<and> bought_order r) (ld_orders db))))"

definition active_exit_count :: "string \<Rightarrow> live_db \<Rightarrow> nat" where
  "active_exit_count code db = sql_count (\<lambda>x. xi_code x = code \<and> xi_status x \<in> ACTIVE_INTENT) (ld_exit_intents db)"

definition active_cancel_count :: "string \<Rightarrow> live_db \<Rightarrow> nat" where
  "active_cancel_count code db = sql_count (\<lambda>c. ci_code c = code \<and> ci_status c \<in> ACTIVE_INTENT) (ld_cancel_intents db)"

section \<open>The lifecycle of executions\<close>

definition effective_blocker_count :: "pydict \<Rightarrow> int result" where
  "effective_blocker_count status =
     (case dget status ''effective_blocker_count'' of
        PInt n \<Rightarrow>
          (let qualification = dget status ''qualification_status'' in
           if n < 0 then Inl (ValueError ''execution lifecycle effective blocker count cannot be negative'')
           else if qualification \<notin> {PStr ''PASS'', PStr ''BLOCKED''} then Inl (ValueError ''execution lifecycle qualification status is invalid'')
           else if dget status ''status'' \<noteq> qualification then Inl (ValueError ''execution lifecycle status alias does not match qualification'')
           else if qualification = PStr ''PASS'' \<and> n \<noteq> 0 then Inl (ValueError ''passing execution lifecycle status cannot contain blockers'')
           else if qualification = PStr ''BLOCKED'' \<and> n < 1 then Inl (ValueError ''blocked execution lifecycle status requires a blocker'')
           else Inr n)
      | _ \<Rightarrow> Inl (ValueError ''execution lifecycle effective blocker count must be an integer''))"

fun require_consistent :: "pydict \<Rightarrow> string list \<Rightarrow> unit result" where
  "require_consistent status [] = Inr ()"
| "require_consistent status (key # keys) =
     (case dget status key of
        PBool v \<Rightarrow> (if dget status ''qualification_status'' = PStr ''PASS'' \<and> \<not> v then Inl (ValueError ''execution lifecycle PASS requires key=true'')
                  else require_consistent status keys)
      | _ \<Rightarrow> Inl (ValueError ''execution lifecycle contract is invalid''))"

definition validated_blocker_count :: "pydict \<Rightarrow> int result" where
  "validated_blocker_count status =
     rbind (effective_blocker_count status) (\<lambda>n.
     rbind (require_consistent status [''mirror_consistent'', ''inventory_count_consistent'']) (\<lambda>_.
       if \<exists>k \<in> set [''read_only'', ''observe_only'', ''no_order_side_effects'']. dget status k \<noteq> PBool True
       then Inl (ValueError ''execution lifecycle contract is invalid'')
       else if dget status ''real_order_allowed'' \<noteq> PBool False then Inl (ValueError ''execution lifecycle real_order_allowed contract is invalid'')
       else Inr n))"

definition lifecycle_blockers :: "pyval result \<Rightarrow> int result" where
  "lifecycle_blockers report =
     rbind report (\<lambda>v. case v of PDict status \<Rightarrow> validated_blocker_count status | _ \<Rightarrow> Inl (TypeError ''execution lifecycle status must be a mapping''))"

section \<open>Reconciliation\<close>

record reconcile_row =
  rc_status :: string
  rc_mismatch_count :: int
  rc_blocking_new_buy :: bool
  rc_snapshot_json :: pyval

definition snapshot_is_complete :: "repr \<Rightarrow> pyval \<Rightarrow> bool" where
  "snapshot_is_complete rp v \<longleftrightarrow> py_upper (py_strip (py_str rp (py_or v (PStr [])))) = ''COMPLETE''"

definition snapshot_is_fresh :: "(pyval \<Rightarrow> instant option) \<Rightarrow> instant \<Rightarrow> string \<Rightarrow> int \<Rightarrow> bool" where
  "snapshot_is_fresh ts now snapshot_at stale_sec \<longleftrightarrow> py_strip snapshot_at \<noteq> []
     \<and> (case ts (PStr snapshot_at) of None \<Rightarrow> False
        | Some t \<Rightarrow> \<not> now - t < - 5 * microseconds \<and> now - t \<le> stale_sec * microseconds)"

definition snapshot_requested :: "command_store \<Rightarrow> bool" where
  "snapshot_requested queue \<longleftrightarrow>
     sql_find (\<lambda>r. r_command_type r = ''broker_snapshot_request'' \<and> r_status r \<in> {QUEUED, DISPATCHED, CLAIMED, GATEWAY_STARTED}) (s_commands queue) \<noteq> None"

definition reconcile_blocks_new_buy ::
  "(string \<Rightarrow> pyval result) \<Rightarrow> repr \<Rightarrow> (pyval \<Rightarrow> instant option) \<Rightarrow> live_settings \<Rightarrow> instant \<Rightarrow> reconcile_row option \<Rightarrow> command_store \<Rightarrow> bool result" where
  "reconcile_blocks_new_buy js rp ts st now latest queue =
     (if \<not> ls_reconcile_block_on_mismatch st then Inr False
      else if snapshot_requested queue then Inr True
      else case latest of
        None \<Rightarrow> Inr (ls_reconcile_request_snapshot st)
      | Some row \<Rightarrow>
          if rc_blocking_new_buy row \<or> rc_mismatch_count row > 0 \<and> py_upper (rc_status row) = ''RECONCILE_MISMATCH'' then Inr True
          else if \<not> ls_reconcile_request_snapshot st then Inr False
          else rbind (json_object js rp (rc_snapshot_json row)) (\<lambda>outer.
               rbind (json_object js rp (dget outer ''broker_snapshot'')) (\<lambda>snapshot.
                 if snapshot = [] \<or> \<not> snapshot_is_complete rp (dget snapshot ''snapshot_status'') then Inr True
                 else rbind (py_int (py_or (dget snapshot ''stale_after_sec'') (PInt (ls_broker_snapshot_stale_sec st)))) (\<lambda>stale.
                   Inr (\<not> snapshot_is_fresh ts now (py_str rp (py_or (dget snapshot ''snapshot_at'') (PStr []))) stale)))))"

section \<open>Eligibility\<close>

record entry_view =
  ev_gate :: gate_view
  ev_market :: market_db
  ev_reconcile :: "reconcile_row option"
  ev_lifecycle :: "pyval result"
  ev_plan :: "live_intent \<Rightarrow> string list result"
  ev_now :: instant

record eligibility =
  el_eligible :: bool
  el_reason_codes :: "string list"
  el_trace :: admission_trace
  el_quantity :: int
  el_notional :: rat

definition admission_reason :: "string \<Rightarrow> string" where
  \<comment> \<open>\<open>LIVE_SIM_ADMISSION_REASON_MAP\<close>; the other reasons keep their names\<close>
  "admission_reason r =
     (let u = py_upper r in
      if u = ''CANDIDATE_CONTEXT_MISSING'' then ''CANDIDATE_NOT_CONTEXT_READY''
      else if u = ''STRATEGY_OBSERVE_ONLY_MISMATCH'' then ''STRATEGY_NOT_MATCHED''
      else if u = ''RISK_OBSERVE_ONLY_MISMATCH'' then ''RISK_NOT_OBSERVE_PASS'' else u)"

definition intent_policy :: "live_settings \<Rightarrow> admission_policy" where
  "intent_policy st = \<lparr> ap_name = ''live_sim_intent'', ap_context_ready = ls_require_candidate_context_ready st, ap_context_row = False,
     ap_strategy_matched = ls_require_strategy_matched st, ap_risk_pass = ls_require_risk_observe_pass st,
     ap_fresh_tick = ls_require_fresh_tick st, ap_stale_tick_sec = ls_stale_tick_sec st,
     ap_dry_run_evidence = ls_require_dry_run_evidence st, ap_strategy_observe_only = None, ap_risk_observe_only = None \<rparr>"

definition order_type_of :: "string \<Rightarrow> string result" where
  "order_type_of s = (if s \<in> {''LIMIT'', ''MARKET''} then Inr s else Inl (ValueError ''not a valid LiveSimOrderType''))"

definition side_and_size_reasons :: "live_settings \<Rightarrow> string \<Rightarrow> int \<Rightarrow> rat \<Rightarrow> string list" where
  "side_and_size_reasons st order_type quantity notional = raised
     [(\<not> ls_allow_buy st, ''SELL_NOT_ALLOWED''),
      (order_type = ''MARKET'' \<and> \<not> ls_allow_market_order st, ''MARKET_ORDER_NOT_ALLOWED''),
      (order_type = ''LIMIT'' \<and> \<not> ls_allow_limit_order st, ''MARKET_ORDER_NOT_ALLOWED''),
      (quantity < 1, ''INVALID_QUANTITY''),
      (notional \<le> 0 \<or> notional > ls_max_order_notional st, ''MAX_ORDER_NOTIONAL_EXCEEDED'')]"

definition code_reasons ::
  "(string \<Rightarrow> pyval result) \<Rightarrow> repr \<Rightarrow> (pyval \<Rightarrow> instant option) \<Rightarrow> live_settings \<Rightarrow> entry_view \<Rightarrow> string \<Rightarrow> string \<Rightarrow> rat
     \<Rightarrow> live_db \<Rightarrow> command_store \<Rightarrow> string list result" where
  \<comment> \<open>the checks that need a code and a trade date\<close>
  "code_reasons js rp ts st ev code day notional db queue =
     rbind (recent_active_count st (ev_now ev) code None db) (\<lambda>recent.
     rbind (reconcile_blocks_new_buy js rp ts st (ev_now ev) (ev_reconcile ev) queue) (\<lambda>mismatch.
     rbind (lifecycle_blockers (ev_lifecycle ev)) (\<lambda>blockers.
       Inr (raised
         [(recent > 0, ''DUPLICATE_LIVE_SIM_ORDER''),
          (mismatch, ''LIVE_SIM_RECONCILE_MISMATCH_BLOCK''),
          (\<not> ls_position_allow_scale_in st \<and> open_position_count code db > 0, ''LIVE_SIM_OPEN_POSITION_EXISTS''),
          (active_exit_count code db > 0, ''LIVE_SIM_ACTIVE_EXIT_EXISTS''),
          (active_cancel_count code db > 0, ''LIVE_SIM_ACTIVE_CANCEL_EXISTS''),
          (blockers > 0, ''LIVE_SIM_LIFECYCLE_ERROR_BLOCK''),
          (int (daily_order_count day BUY db) \<ge> ls_max_daily_order_count st, ''DAILY_ORDER_LIMIT_EXCEEDED''),
          (daily_order_notional day db + notional > ls_max_daily_notional st, ''DAILY_NOTIONAL_LIMIT_EXCEEDED'')]))))"

definition evaluate_live_sim_eligibility ::
  "(string \<Rightarrow> pyval result) \<Rightarrow> repr \<Rightarrow> (pyval \<Rightarrow> instant option) \<Rightarrow> live_settings \<Rightarrow> entry_view \<Rightarrow> string \<Rightarrow> live_db \<Rightarrow> command_store
     \<Rightarrow> eligibility result" where
  "evaluate_live_sim_eligibility js rp ts st ev candidate_id db queue =
     rbind (require_non_empty_str ''candidate_instance_id'' (PStr candidate_id)) (\<lambda>cid.
     rbind (evaluate_trade_admission ts (ev_now ev) (ev_market ev) cid (intent_policy st) None None None (latest_dry_run (ev_market ev) cid)) (\<lambda>adm.
     rbind (check_live_sim_safety_gate js ts st ''NEW_BUY'' True True (adm_trade_date adm) (ev_gate ev) db) (\<lambda>gate.
     let price = (case adm_tick adm of Some t \<Rightarrow> tk_price t | None \<Rightarrow> 0) in
     rbind (if price > 0 then buy_limit_price st price else Inr 0) (\<lambda>limit.
     rbind (order_type_of (ls_default_order_type st)) (\<lambda>order_type.
     let (quantity, notional) = quantity_and_notional st (of_int limit) (adm_dry_run adm) in
     rbind (case (adm_code adm, adm_trade_date adm) of
              (Some code, Some day) \<Rightarrow> code_reasons js rp ts st ev code day notional db queue
            | _ \<Rightarrow> Inr []) (\<lambda>from_code.
       let reasons = merge_reasons (map admission_reason (adm_reason_codes adm) @ (if gr_passed gate then [] else gr_reason_codes gate)
             @ side_and_size_reasons st order_type quantity notional @ from_code
             @ raised [(int (active_order_count db) \<ge> ls_max_active_orders st, ''ACTIVE_ORDER_LIMIT_EXCEEDED''),
                       (int (active_position_count db) \<ge> ls_max_active_positions st, ''ACTIVE_POSITION_LIMIT_EXCEEDED'')]) in
       Inr \<lparr> el_eligible = (reasons = []), el_reason_codes = reasons, el_trace = adm, el_quantity = quantity, el_notional = notional \<rparr>))))))"

section \<open>Intents\<close>

definition validated_intent :: "live_intent \<Rightarrow> live_intent result" where
  \<comment> \<open>\<open>LiveSimIntent\<close>; the side, the status and the flags are given by the callers\<close>
  "validated_intent i =
     rbind (require_non_empty_str ''live_sim_intent_id'' (PStr (li_id i))) (\<lambda>iid.
     rbind (require_non_empty_str ''candidate_instance_id'' (PStr (li_candidate_id i))) (\<lambda>cid.
     rbind (require_non_empty_str ''trade_date'' (PStr (li_trade_date i))) (\<lambda>day.
     rbind (require_non_empty_str ''account_id'' (PStr (li_account_id i))) (\<lambda>account.
     rbind (require_non_empty_str ''name'' (PStr (li_name i))) (\<lambda>name.
     rbind (require_non_empty_str ''strategy_observation_id'' (PStr (li_strategy_id i))) (\<lambda>strategy.
     rbind (require_non_empty_str ''risk_observation_id'' (PStr (li_risk_id i))) (\<lambda>risk.
     rbind (validate_stock_code (li_code i)) (\<lambda>code.
     rbind (parse_str_enum ''order_type'' [(''LIMIT'', ''LIMIT''), (''MARKET'', ''MARKET'')] (PStr (li_order_type i))) (\<lambda>ty.
     rbind (parse_int ''quantity'' (Some 0) (PInt (li_quantity i))) (\<lambda>quantity.
     rbind (case li_limit_price i of None \<Rightarrow> Inr None
            | Some x \<Rightarrow> rbind (parse_float ''limit_price'' (Some 0) (PFloat (Finite x))) (\<lambda>y. Inr (Some y))) (\<lambda>limit.
     rbind (parse_float ''notional'' (Some 0) (PFloat (Finite (li_notional i)))) (\<lambda>notional.
     rbind (require_non_empty_str ''idempotency_key'' (PStr (li_idempotency_key i))) (\<lambda>key.
     rbind (optional_non_empty_str ''order_plan_id'' (opt_text (li_order_plan_id i))) (\<lambda>plan.
     rbind (optional_non_empty_str ''dry_run_intent_id'' (opt_text (li_dry_run_intent_id i))) (\<lambda>dry_intent.
     rbind (optional_non_empty_str ''dry_run_order_id'' (opt_text (li_dry_run_order_id i))) (\<lambda>dry_order.
       Inr (i\<lparr> li_id := iid, li_candidate_id := cid, li_trade_date := day, li_account_id := account, li_name := name,
                li_strategy_id := strategy, li_risk_id := risk, li_code := code, li_order_type := ty, li_quantity := quantity,
                li_limit_price := limit, li_notional := notional, li_idempotency_key := key, li_order_plan_id := plan,
                li_dry_run_intent_id := dry_intent, li_dry_run_order_id := dry_order \<rparr>)))))))))))))))))"

definition insert_intent :: "live_intent \<Rightarrow> live_db \<Rightarrow> live_db result" where
  "insert_intent i db =
     (if sql_find (\<lambda>x. li_id x = li_id i) (ld_intents db) \<noteq> None
      then Inl (ValueError ''UNIQUE constraint failed: live_sim_intents.live_sim_intent_id'')
      else if sql_find (\<lambda>x. li_idempotency_key x = li_idempotency_key i) (ld_intents db) \<noteq> None
      then Inl (ValueError ''UNIQUE constraint failed: live_sim_intents.idempotency_key'')
      else Inr (db\<lparr> ld_intents := ld_intents db @ [i] \<rparr>))"

definition save_rejection :: "string \<Rightarrow> string option \<Rightarrow> string option \<Rightarrow> string list \<Rightarrow> live_db \<Rightarrow> live_db" where
  "save_rejection candidate_id day code reasons db =
     db\<lparr> ld_rejections := ld_rejections db @ [\<lparr> rj_candidate_id = candidate_id, rj_trade_date = day, rj_code = code, rj_reasons = reasons \<rparr>] \<rparr>"

definition intent_key :: "string \<Rightarrow> string \<Rightarrow> string \<Rightarrow> string \<Rightarrow> string \<Rightarrow> string option \<Rightarrow> string result" where
  \<comment> \<open>\<open>_idempotency_key\<close>\<close>
  "intent_key day code candidate_id strategy_id risk_id suffix =
     rbind (require_non_empty_str ''trade_date'' (PStr day)) (\<lambda>d.
     rbind (validate_stock_code code) (\<lambda>c.
     rbind (require_non_empty_str ''candidate_instance_id'' (PStr candidate_id)) (\<lambda>cid.
     rbind (require_non_empty_str ''strategy'' (PStr (if strategy_id = [] then ''missing_strategy'' else strategy_id))) (\<lambda>sid.
     rbind (require_non_empty_str ''risk'' (PStr (if risk_id = [] then ''missing_risk'' else risk_id))) (\<lambda>rid.
     rbind (case suffix of None \<Rightarrow> Inr [] | Some s \<Rightarrow> rbind (require_non_empty_str ''idempotency_suffix'' (PStr s)) (\<lambda>s'. Inr ('':'' @ s'))) (\<lambda>tail.
       Inr (''live_sim:'' @ d @ '':'' @ c @ '':'' @ cid @ '':'' @ sid @ '':'' @ rid @ tail)))))))"

datatype intent_outcome = Intent_created live_intent | Intent_rejected "string list"

definition purchase_intent ::
  "live_settings \<Rightarrow> instant \<Rightarrow> candidate_row \<Rightarrow> strategy_row \<Rightarrow> risk_row \<Rightarrow> tick_row \<Rightarrow> dry_run_row option \<Rightarrow> string \<Rightarrow> string option \<Rightarrow> pydict
     \<Rightarrow> live_intent result" where
  \<comment> \<open>from the price of the tick to the end of the constructor\<close>
  "purchase_intent st now c s k t dry_run new_id suffix reprice =
     rbind (buy_limit_price st (tk_price t)) (\<lambda>limit.
     let (quantity, notional) = quantity_and_notional st (of_int limit) dry_run in
     rbind (order_type_of (ls_default_order_type st)) (\<lambda>order_type.
     rbind (intent_key (ca_trade_date c) (ca_code c) (ca_id c) (sg_observation_id s) (rk_observation_id k) suffix) (\<lambda>key.
       validated_intent \<lparr> li_id = new_id, li_candidate_id = ca_id c, li_strategy_id = sg_observation_id s, li_risk_id = rk_observation_id k,
         li_order_plan_id = None, li_dry_run_intent_id = map_option dy_intent_id dry_run,
         li_dry_run_order_id = (case dry_run of None \<Rightarrow> None | Some r \<Rightarrow> dy_order_id r),
         li_trade_date = ca_trade_date c, li_account_id = ls_account_id st, li_code = ca_code c, li_name = ca_name c, li_side = BUY,
         li_order_type = order_type, li_quantity = quantity, li_limit_price = Some (of_int limit), li_notional = notional,
         li_status = LI_CREATED, li_reason_codes = [''OBSERVE_ONLY_AI_ARTIFACT_IGNORED''], li_reprice = reprice,
         li_idempotency_key = key, li_command_id = None, li_broker_order_sent = False, li_created_at = now,
         li_expires_at = Some (now + ls_order_ttl_sec st * microseconds) \<rparr>)))"

definition create_live_sim_intent ::
  "(string \<Rightarrow> pyval result) \<Rightarrow> repr \<Rightarrow> (pyval \<Rightarrow> instant option) \<Rightarrow> live_settings \<Rightarrow> entry_view \<Rightarrow> string \<Rightarrow> string \<Rightarrow> string option \<Rightarrow> pydict
     \<Rightarrow> live_db \<Rightarrow> command_store \<Rightarrow> (intent_outcome \<times> live_db) result" where
  \<comment> \<open>of the intent returned for a refusal, which is not stored, the reasons are kept; the rows do not change while it runs\<close>
  "create_live_sim_intent js rp ts st ev new_id candidate_id suffix reprice db queue =
     rbind (evaluate_live_sim_eligibility js rp ts st ev candidate_id db queue) (\<lambda>el.
     let adm = el_trace el; md = ev_market ev in
     if \<not> el_eligible el
     then Inr (Intent_rejected (el_reason_codes el), save_rejection candidate_id (adm_trade_date adm) (adm_code adm) (el_reason_codes el) db)
     else case (candidate_of md candidate_id, strategy_of md candidate_id, risk_of md candidate_id) of
       (Some c, Some s, Some k) \<Rightarrow>
         rbind (validate_stock_code (ca_code c)) (\<lambda>code.
         case tick_of md code of
           None \<Rightarrow> Inl (ValueError ''eligible LIVE_SIM intent requires latest tick'')
         | Some t \<Rightarrow>
             rbind (purchase_intent st (ev_now ev) c s k t (adm_dry_run adm) new_id suffix reprice) (\<lambda>i.
             rbind (insert_intent i db) (\<lambda>db'. Inr (Intent_created i, db'))))
     | _ \<Rightarrow> Inl (ValueError ''eligible LIVE_SIM intent requires candidate, strategy, and risk rows''))"

section \<open>The order command of an intent\<close>

definition build_gateway_send_order_payload :: "live_settings \<Rightarrow> live_intent \<Rightarrow> pydict" where
  "build_gateway_send_order_payload st i =
     (let limit = (case li_limit_price i of None \<Rightarrow> PNone | Some x \<Rightarrow> PFloat (Finite x));
          side = PStr (case li_side i of BUY \<Rightarrow> ''BUY'' | SELL \<Rightarrow> ''SELL'') in
      [(''account_id'', PStr (li_account_id i)), (''account_mode'', PStr (ls_account_mode st)), (''broker_env'', PStr (ls_broker_env st)),
       (''server_mode'', PStr (ls_server_mode st)), (''code'', PStr (li_code i)), (''name'', PStr (li_name i)), (''side'', side),
       (''quantity'', PInt (li_quantity i)), (''price'', limit), (''limit_price'', limit), (''order_type'', PStr (li_order_type i)),
       (''hoga'', PStr (ls_default_hoga st)), (''order_exchange'', PStr (ls_order_exchange st)), (''mode'', PStr ''LIVE_SIM''),
       (''live_mode'', PStr ''LIVE_SIM''), (''live_sim_only'', PBool True), (''live_real_allowed'', PBool False),
       (''broker_order_path'', PStr ''LIVE_SIM_ONLY''), (''real_order_allowed'', PBool False), (''live_sim_intent_id'', PStr (li_id i)),
       (''idempotency_key'', PStr (li_idempotency_key i)),
       (''metadata'', PDict
         [(''source'', PStr ''live_sim''), (''live_sim_only'', PBool True), (''live_real_allowed'', PBool False),
          (''broker_order_path'', PStr ''LIVE_SIM_ONLY''), (''order_exchange'', PStr (ls_order_exchange st)),
          (''candidate_instance_id'', PStr (li_candidate_id i)), (''strategy_observation_id'', PStr (li_strategy_id i)),
          (''risk_observation_id'', PStr (li_risk_id i)), (''dry_run_intent_id'', opt_text (li_dry_run_intent_id i)),
          (''dry_run_order_id'', opt_text (li_dry_run_order_id i)), (''live_sim_intent_id'', PStr (li_id i)),
          (''idempotency_key'', PStr (li_idempotency_key i))])])"

definition queue_reasons ::
  "(string \<Rightarrow> pyval result) \<Rightarrow> repr \<Rightarrow> (pyval \<Rightarrow> instant option) \<Rightarrow> live_settings \<Rightarrow> entry_view \<Rightarrow> string \<Rightarrow> live_intent
     \<Rightarrow> live_db \<Rightarrow> command_store \<Rightarrow> string list result" where
  "queue_reasons js rp ts st ev intent_id i db queue =
     rbind (check_live_sim_safety_gate js ts st ''NEW_BUY'' (li_side i = BUY) (li_side i = BUY) (Some (li_trade_date i)) (ev_gate ev) db) (\<lambda>gate.
     rbind (if li_side i = BUY then reconcile_blocks_new_buy js rp ts st (ev_now ev) (ev_reconcile ev) queue else Inr False) (\<lambda>mismatch.
     rbind (recent_active_count st (ev_now ev) (li_code i) (Some intent_id) db) (\<lambda>recent.
       Inr (merge_reasons (gr_reason_codes gate @ raised
         [(mismatch, ''LIVE_SIM_RECONCILE_MISMATCH_BLOCK''),
          (li_side i = SELL \<and> \<not> ls_allow_sell st, ''SELL_NOT_ALLOWED''),
          (li_order_type i = ''MARKET'', ''MARKET_ORDER_NOT_ALLOWED''),
          (int (active_order_count db) \<ge> ls_max_active_orders st, ''ACTIVE_ORDER_LIMIT_EXCEEDED''),
          (recent > 0, ''DUPLICATE_LIVE_SIM_ORDER'')])))))"

definition reject_queued_intent :: "live_intent \<Rightarrow> string list \<Rightarrow> live_db \<Rightarrow> live_db" where
  "reject_queued_intent i reasons db = save_rejection (li_candidate_id i) (Some (li_trade_date i)) (Some (li_code i)) reasons db"

definition reject_bound_order_plan :: "live_intent \<Rightarrow> string list \<Rightarrow> live_db \<Rightarrow> live_db" where
  "reject_bound_order_plan i reasons db =
     (let merged = merge_reasons (li_reason_codes i @ reasons) in
      reject_queued_intent i merged
        (update_intent (li_id i) (\<lambda>x. li_status x = LI_CREATED) (\<lambda>x. x\<lparr> li_status := LI_REJECTED, li_reason_codes := merged \<rparr>) db))"

definition purchase_barrier :: "entry_view \<Rightarrow> bool \<Rightarrow> live_intent \<Rightarrow> live_db \<Rightarrow> (string \<times> live_db) option result" where
  \<comment> \<open>the lifecycle of executions, of which every doubt blocks, and the plan the intent is bound to; \<open>None\<close>: the order may go\<close>
  "purchase_barrier ev plan_required i db =
     (if li_side i \<noteq> BUY then Inr None
      else if (case lifecycle_blockers (ev_lifecycle ev) of Inl _ \<Rightarrow> True | Inr n \<Rightarrow> n \<ge> 1)
      then Inr (Some (''LIVE_SIM_LIFECYCLE_ERROR_BLOCK'', reject_queued_intent i [''LIVE_SIM_LIFECYCLE_ERROR_BLOCK''] db))
      else if li_order_plan_id i \<in> {None, Some []} \<and> \<not> plan_required then Inr None
      else rbind (ev_plan ev i) (\<lambda>objections.
        let found = objections @ (if li_order_plan_id i \<in> {None, Some []} then [''ORDER_PLAN_INTENT_PLAN_ID_MISSING''] else []);
            reasons = merge_reasons (''ORDER_PLAN_BINDING_INVALID'' # found) in
        Inr (if found = [] then None else Some (comma_list reasons, reject_bound_order_plan i reasons db))))"

definition order_of_intent :: "string \<Rightarrow> string \<Rightarrow> string \<Rightarrow> instant \<Rightarrow> live_intent \<Rightarrow> live_order" where
  "order_of_intent oid intent_id cid now i =
     \<lparr> lo_id = oid, lo_intent_id = intent_id, lo_command_id = Some cid, lo_trade_date = li_trade_date i, lo_account_id = li_account_id i,
       lo_code = li_code i, lo_name = li_name i, lo_side = li_side i, lo_order_type = li_order_type i, lo_quantity = li_quantity i,
       lo_limit_price = li_limit_price i, lo_notional = li_notional i, lo_status = LO_COMMAND_QUEUED, lo_broker_order_no = None,
       lo_broker_result_code = None, lo_broker_message = None, lo_filled_quantity = 0, lo_remaining_quantity = li_quantity i,
       lo_avg_fill_price = None, lo_idempotency_key = li_idempotency_key i, lo_created_at = now, lo_queued_at = Some now,
       lo_dispatched_at = None, lo_broker_acked_at = None, lo_last_event_at = None \<rparr>"

definition record_purchase :: "string \<Rightarrow> string \<Rightarrow> string \<Rightarrow> instant \<Rightarrow> live_intent \<Rightarrow> live_db \<Rightarrow> (live_order \<times> live_db) result" where
  "record_purchase oid intent_id cid now i db =
     rbind (validated_order (order_of_intent oid intent_id cid now i)) (\<lambda>r.
     rbind (insert_order r db) (\<lambda>db1.
       if sql_count (\<lambda>x. li_id x = intent_id \<and> li_status x = LI_CREATED) (ld_intents db1) \<noteq> 1 then Inl (ValueError ''INVALID_INTENT_STATUS'')
       else Inr (r, update_intent intent_id (\<lambda>x. li_status x = LI_CREATED) (\<lambda>x. x\<lparr> li_status := LI_COMMAND_QUEUED, li_command_id := Some cid \<rparr>) db1)))"

definition commit_purchase ::
  "repr \<Rightarrow> (pydict \<Rightarrow> string) \<Rightarrow> live_settings \<Rightarrow> instant \<Rightarrow> string \<Rightarrow> string \<Rightarrow> string \<Rightarrow> live_intent \<Rightarrow> live_db \<times> command_store \<Rightarrow> live_order durable" where
  \<comment> \<open>the savepoint: command, order row and intent, or none of them\<close>
  "commit_purchase rp hsh st now oid intent_id cid i s =
     (let (db, queue) = s in
      case gateway_command_for cid now ''send_order'' (build_gateway_send_order_payload st i) (li_idempotency_key i) of
        Inl e \<Rightarrow> (Inl e, db, queue)
      | Inr command \<Rightarrow>
          (let (q, queue') = enqueue_command rp hsh now command (li_expires_at i) queue in
           if \<not> q_accepted q then (Inl (ValueError (refusal_text q)), reject_queued_intent i [''COMMAND_QUEUE_REJECTED''] db, queue)
           else case record_purchase oid intent_id cid now i db of
             Inl e \<Rightarrow> (Inl e, db, queue)
           | Inr (r, db') \<Rightarrow> (Inr r, db', queue')))"

definition queue_live_sim_order_command ::
  "(string \<Rightarrow> pyval result) \<Rightarrow> repr \<Rightarrow> (pydict \<Rightarrow> string) \<Rightarrow> (pyval \<Rightarrow> instant option) \<Rightarrow> live_settings \<Rightarrow> entry_view \<Rightarrow> bool
     \<Rightarrow> string \<Rightarrow> string \<Rightarrow> string \<Rightarrow> live_db \<times> command_store \<Rightarrow> live_order durable" where
  "queue_live_sim_order_command js rp hsh ts st ev plan_required oid cid intent_id s =
     (let (db, queue) = s in
      case find_row li_id intent_id (ld_intents db) of
        Inl e \<Rightarrow> (Inl e, db, queue)
      | Inr None \<Rightarrow> (Inl (ValueError ''LIVE_SIM intent not found''), db, queue)
      | Inr (Some i) \<Rightarrow>
          if li_status i \<noteq> LI_CREATED
          then (case record_error None (PStr (li_code i)) ''INVALID_INTENT_STATUS'' db of
                  Inl e \<Rightarrow> (Inl e, db, queue)
                | Inr db' \<Rightarrow> (Inl (ValueError ''LIVE_SIM intent cannot be queued from its status''), db', queue))
          else (case queue_reasons js rp ts st ev intent_id i db queue of
                  Inl e \<Rightarrow> (Inl e, db, queue)
                | Inr reasons \<Rightarrow>
                    if reasons \<noteq> [] then (Inl (ValueError (comma_list reasons)), reject_queued_intent i reasons db, queue)
                    else (case purchase_barrier ev plan_required i db of
                            Inl e \<Rightarrow> (Inl e, db, queue)
                          | Inr (Some (message, db')) \<Rightarrow> (Inl (ValueError message), db', queue)
                          | Inr None \<Rightarrow> commit_purchase rp hsh st (ev_now ev) oid intent_id cid i (db, queue))))"

section \<open>What queueing guarantees\<close>

lemma enqueue_queued:
  assumes "enqueue_command rp hsh now c ex s = (q, s')" "q_accepted q"
  shows "validate_command_type_allowed rp (normalize_command_type (g_command_type c)) (Some c) = None
    \<and> s_commands s' = s_commands s @ [queued_row hsh c ex]"
proof (cases rule: enqueue_command_cases [where rp = rp and c = c and hsh = hsh and now = now and ex = ex and s = s])
  case (accepted res s'')
  with assms(1) have "insert_queued hsh c ex now (s\<lparr>s_dedupe := dedupe_after c now (s_dedupe s)\<rparr>) = Inr s'" by simp
  then show ?thesis using accepted(1) by (auto simp: insert_queued_def split: if_splits option.split_asm)
qed (use assms in \<open>auto simp: rejection_def\<close>)

lemma purchase_reasons_visible [simp]:
  "py_strip ''LIVE_SIM_RECONCILE_MISMATCH_BLOCK'' \<noteq> []" "py_strip ''SELL_NOT_ALLOWED'' \<noteq> []" "py_strip ''MARKET_ORDER_NOT_ALLOWED'' \<noteq> []"
  "py_strip ''ACTIVE_ORDER_LIMIT_EXCEEDED'' \<noteq> []" "py_strip ''DUPLICATE_LIVE_SIM_ORDER'' \<noteq> []" "py_strip ''INVALID_QUANTITY'' \<noteq> []"
  "py_strip ''MAX_ORDER_NOTIONAL_EXCEEDED'' \<noteq> []" "py_strip ''LIVE_SIM_OPEN_POSITION_EXISTS'' \<noteq> []" "py_strip ''LIVE_SIM_ACTIVE_EXIT_EXISTS'' \<noteq> []"
  "py_strip ''LIVE_SIM_ACTIVE_CANCEL_EXISTS'' \<noteq> []" "py_strip ''LIVE_SIM_LIFECYCLE_ERROR_BLOCK'' \<noteq> []" "py_strip ''DAILY_ORDER_LIMIT_EXCEEDED'' \<noteq> []"
  "py_strip ''DAILY_NOTIONAL_LIMIT_EXCEEDED'' \<noteq> []" "py_strip ''ACTIVE_POSITION_LIMIT_EXCEEDED'' \<noteq> []"
  by code_simp+

lemma merge_merge_Nil [simp]: "merge_reasons (merge_reasons rs) = [] \<longleftrightarrow> merge_reasons rs = []"
  by (auto simp: merge_reasons_Nil_iff merge_reasons_def set_dedupe py_strip_upper)

lemma no_queue_reasons:
  assumes "queue_reasons js rp ts st ev intent_id i db queue = Inr []"
  obtains g where "check_live_sim_safety_gate js ts st ''NEW_BUY'' (li_side i = BUY) (li_side i = BUY) (Some (li_trade_date i)) (ev_gate ev) db = Inr g"
    "gr_passed g" "li_order_type i \<noteq> ''MARKET''" "int (active_order_count db) < ls_max_active_orders st"
    "recent_active_count st (ev_now ev) (li_code i) (Some intent_id) db = Inr 0"
    "li_side i = BUY \<Longrightarrow> reconcile_blocks_new_buy js rp ts st (ev_now ev) (ev_reconcile ev) queue = Inr False"
proof -
  obtain g mismatch recent where *: "check_live_sim_safety_gate js ts st ''NEW_BUY'' (li_side i = BUY) (li_side i = BUY) (Some (li_trade_date i)) (ev_gate ev) db = Inr g"
    "(if li_side i = BUY then reconcile_blocks_new_buy js rp ts st (ev_now ev) (ev_reconcile ev) queue else Inr False) = Inr mismatch"
    "recent_active_count st (ev_now ev) (li_code i) (Some intent_id) db = Inr recent"
    and none: "merge_reasons (gr_reason_codes g) = []" "\<not> mismatch" "li_order_type i \<noteq> ''MARKET''" "\<not> int (active_order_count db) \<ge> ls_max_active_orders st" "recent = 0"
    using assms by (auto simp: queue_reasons_def rbind_Inr_iff merge_append_Nil merge_Cons_Nil split: if_splits)
  have "gr_passed g" using *(1) none(1) by (auto simp: check_live_sim_safety_gate_def rbind_Inr_iff Let_def merge_merge_Nil)
  then show ?thesis using *(1,2,3) none by (intro that [of g]) simp_all
qed

lemma purchase_barrier_intents:
  assumes "purchase_barrier ev plan_required i db = Inr (Some (message, db'))"
  shows "ld_orders db' = ld_orders db \<and> (\<forall>x \<in> set (ld_intents db'). li_status x = LI_COMMAND_QUEUED \<longrightarrow> x \<in> set (ld_intents db))"
  using assms
  by (auto simp: purchase_barrier_def rbind_Inr_iff Let_def reject_bound_order_plan_def reject_queued_intent_def save_rejection_def update_intent_def
      set_sql_update split: if_splits)

lemma purchase_recorded:
  assumes "record_purchase oid intent_id cid now i db = Inr (r, db')"
  shows "ld_orders db' = ld_orders db @ [r] \<and> lo_command_id r = Some (py_strip cid) \<and> lo_quantity r = li_quantity i \<and> lo_side r = li_side i
    \<and> lo_status r = LO_COMMAND_QUEUED \<and> lo_trade_date r = li_trade_date i \<and> lo_idempotency_key r = py_strip (li_idempotency_key i)
    \<and> sql_count (\<lambda>x. li_id x = intent_id \<and> li_status x = LI_CREATED) (ld_intents db) = 1
    \<and> ld_intents db' = sql_update (\<lambda>x. li_id x = intent_id \<and> li_status x = LI_CREATED) (\<lambda>x. x\<lparr> li_status := LI_COMMAND_QUEUED, li_command_id := Some cid \<rparr>) (ld_intents db)"
proof -
  obtain db1 where r: "validated_order (order_of_intent oid intent_id cid now i) = Inr r" and db1: "insert_order r db = Inr db1"
    and db': "sql_count (\<lambda>x. li_id x = intent_id \<and> li_status x = LI_CREATED) (ld_intents db1) = 1"
      "db' = update_intent intent_id (\<lambda>x. li_status x = LI_CREATED) (\<lambda>x. x\<lparr> li_status := LI_COMMAND_QUEUED, li_command_id := Some cid \<rparr>) db1"
    using assms by (auto simp: record_purchase_def rbind_Inr_iff split: if_splits)
  have "lo_command_id r = Some (py_strip cid) \<and> lo_quantity r = li_quantity i \<and> lo_side r = li_side i
    \<and> lo_status r = LO_COMMAND_QUEUED \<and> lo_trade_date r = li_trade_date i \<and> lo_idempotency_key r = py_strip (li_idempotency_key i)"
    using r by (auto simp: validated_order_def order_of_intent_def rbind_Inr_iff require_non_empty_str_def optional_non_empty_str_def opt_text_def
        parse_int_def at_least_def invalid_def Let_def split: if_splits)
  moreover have "ld_orders db1 = ld_orders db @ [r]" "ld_intents db1 = ld_intents db" using db1 by (auto simp: insert_order_def split: if_splits)
  ultimately show ?thesis using db' by (simp add: update_intent_def)
qed

lemma commit_cases:
  assumes "commit_purchase rp hsh st now oid intent_id cid i (db, queue) = (out, db', queue')"
  shows "(\<exists>e. out = Inl e \<and> queue' = queue \<and> db' \<in> {db, reject_queued_intent i [''COMMAND_QUEUE_REJECTED''] db})
    \<or> (\<exists>r c q. out = Inr r \<and> gateway_command_for cid now ''send_order'' (build_gateway_send_order_payload st i) (li_idempotency_key i) = Inr c
        \<and> enqueue_command rp hsh now c (li_expires_at i) queue = (q, queue') \<and> q_accepted q \<and> record_purchase oid intent_id cid now i db = Inr (r, db'))"
proof (cases "gateway_command_for cid now ''send_order'' (build_gateway_send_order_payload st i) (li_idempotency_key i)")
  case (Inr c)
  obtain q s' where q: "enqueue_command rp hsh now c (li_expires_at i) queue = (q, s')" by fastforce
  show ?thesis using assms
    by (cases "record_purchase oid intent_id cid now i db") (auto simp: commit_purchase_def Inr q split: if_splits)
qed (use assms in \<open>auto simp: commit_purchase_def\<close>)

lemma queue_cases:
  assumes "queue_live_sim_order_command js rp hsh ts st ev plan_required oid cid intent_id (db, queue) = (out, db', queue')"
  shows "(\<exists>e. out = Inl e \<and> queue' = queue \<and> ld_orders db' = ld_orders db
        \<and> (\<forall>x \<in> set (ld_intents db'). li_status x = LI_COMMAND_QUEUED \<longrightarrow> x \<in> set (ld_intents db)))
    \<or> (\<exists>i r. out = Inr r \<and> find_row li_id intent_id (ld_intents db) = Inr (Some i) \<and> li_status i = LI_CREATED
        \<and> queue_reasons js rp ts st ev intent_id i db queue = Inr [] \<and> purchase_barrier ev plan_required i db = Inr None
        \<and> commit_purchase rp hsh st (ev_now ev) oid intent_id cid i (db, queue) = (Inr r, db', queue'))"
proof -
  have refused: ?thesis if "out = Inl e" "queue' = queue" "ld_orders db' = ld_orders db" "ld_intents db' = ld_intents db" for e
    using that by auto
  show ?thesis
  proof (cases "find_row li_id intent_id (ld_intents db)")
    case (Inl e)
    then show ?thesis using assms by (intro refused) (auto simp: queue_live_sim_order_command_def)
  next
    case found: (Inr found)
    show ?thesis
    proof (cases found)
      case None
      then show ?thesis using assms found by (intro refused) (auto simp: queue_live_sim_order_command_def)
    next
      case (Some i)
      note run = assms [unfolded queue_live_sim_order_command_def, simplified, simplified found Some, simplified]
      show ?thesis
      proof (cases "li_status i = LI_CREATED")
        case False
        then show ?thesis using run
          by (cases "record_error None (PStr (li_code i)) ''INVALID_INTENT_STATUS'' db")
            (auto simp: record_error_def rbind_Inr_iff record_lifecycle_event_def)
      next
        case created: True
        show ?thesis
        proof (cases "queue_reasons js rp ts st ev intent_id i db queue")
          case (Inl e)
          then show ?thesis using run created by (intro refused) auto
        next
          case reasons: (Inr reasons)
          show ?thesis
          proof (cases "reasons = []")
            case False
            then show ?thesis using run created reasons by (intro refused) (auto simp: reject_queued_intent_def save_rejection_def)
          next
            case True
            note run' = run [simplified created reasons True, simplified]
            show ?thesis
            proof (cases "purchase_barrier ev plan_required i db")
              case (Inl e)
              then show ?thesis using run' by (intro refused) auto
            next
              case barrier: (Inr b)
              show ?thesis
              proof (cases b)
                case (Some p)
                then show ?thesis using run' barrier purchase_barrier_intents [of ev plan_required i db "fst p" "snd p"] by (cases p) auto
              next
                case None
                then have commit: "commit_purchase rp hsh st (ev_now ev) oid intent_id cid i (db, queue) = (out, db', queue')" using run' barrier by simp
                show ?thesis using commit_cases [OF commit] commit found \<open>found = Some i\<close> created reasons True barrier None
                  by (auto simp: reject_queued_intent_def save_rejection_def)
              qed
            qed
          qed
        qed
      qed
    qed
  qed
qed

lemma counts_after_queueing:
  assumes "ld_orders db' = ld_orders db @ [r]" "lo_status r = LO_COMMAND_QUEUED"
  shows "active_order_count db' = active_order_count db + 1"
    and "daily_order_count day side db' = daily_order_count day side db + (if lo_trade_date r = day \<and> lo_side r = side then 1 else 0)"
  using assms by (simp_all add: active_order_count_def daily_order_count_def sql_count_def ACTIVE_ORDER_def NON_CONSUMING_def)

text \<open>
  C13: A purchase is all or nothing. Either queueing an intent returns an order: then the intent was waiting and is now
  marked with the command, no intent of that id waits any more, one order row is added for it and one command of that id
  waits in the queue, a simulated order of the quantity of the row, with the expiry of the intent. Or it raises: then no order row, no command
  and no retained key has been written, and no intent has become queued.
\<close>

theorem purchase_is_atomic:
  assumes "queue_live_sim_order_command js rp hsh ts st ev plan_required oid cid intent_id (db, queue) = (out, db', queue')"
    and "py_strip intent_id = intent_id"
  shows "(\<exists>e. out = Inl e \<and> ld_orders db' = ld_orders db \<and> queue' = queue
        \<and> (\<forall>x \<in> set (ld_intents db'). li_status x = LI_COMMAND_QUEUED \<longrightarrow> x \<in> set (ld_intents db)))
    \<or> (\<exists>r i row. out = Inr r \<and> i \<in> set (ld_intents db) \<and> li_id i = intent_id \<and> li_status i = LI_CREATED
        \<and> i\<lparr> li_status := LI_COMMAND_QUEUED, li_command_id := Some cid \<rparr> \<in> set (ld_intents db')
        \<and> (\<forall>x \<in> set (ld_intents db'). li_id x = intent_id \<longrightarrow> li_status x \<noteq> LI_CREATED)
        \<and> ld_orders db' = ld_orders db @ [r] \<and> lo_command_id r = Some (py_strip cid) \<and> lo_quantity r = li_quantity i \<and> lo_status r = LO_COMMAND_QUEUED
        \<and> s_commands queue' = s_commands queue @ [row] \<and> r_command_id row = cid \<and> r_status row = QUEUED \<and> r_expires_at row = li_expires_at i
        \<and> simulation_order rp (r_source row) (r_idempotency_key row) (r_payload row) \<and> dget (r_payload row) ''quantity'' = PInt (lo_quantity r))"
proof (cases rule: disjE [OF queue_cases [OF assms(1)]])
  case 2
  then obtain i r where i: "out = Inr r" "find_row li_id intent_id (ld_intents db) = Inr (Some i)" "li_status i = LI_CREATED"
    and commit: "commit_purchase rp hsh st (ev_now ev) oid intent_id cid i (db, queue) = (Inr r, db', queue')" by blast
  obtain c q where c: "gateway_command_for cid (ev_now ev) ''send_order'' (build_gateway_send_order_payload st i) (li_idempotency_key i) = Inr c"
    and q: "enqueue_command rp hsh (ev_now ev) c (li_expires_at i) queue = (q, queue')" "q_accepted q"
    and rec: "record_purchase oid intent_id cid (ev_now ev) i db = Inr (r, db')" using commit_cases [OF commit] by auto
  note queued = enqueue_queued [OF q] and recorded = purchase_recorded [OF rec]
  have cf: "g_command_type c = ''send_order''" "g_source c = ''live_sim''" "g_command_id c = cid" "g_payload c = build_gateway_send_order_payload st i"
    using c by (auto simp: gateway_command_for_def rbind_Inr_iff)
  have ty: "normalize_command_type ''send_order'' = ''send_order''" "is_order_command_type ''send_order''" by code_simp+
  have sim: "simulation_order rp (g_source c) (g_idempotency_key c) (g_payload c)"
    by (rule accepted_order_scope [OF conjunct1 [OF queued]]) (simp add: cf(1) ty)
  have found: "i \<in> set (ld_intents db)" "li_id i = py_strip intent_id"
    using i(2) by (auto simp: find_row_def rbind_Inr_iff require_non_empty_str_def invalid_def sql_find_def find_Some_iff split: if_splits)
  have id: "li_id i = intent_id" using found assms(2) by simp
  have intents: "i\<lparr> li_status := LI_COMMAND_QUEUED, li_command_id := Some cid \<rparr> \<in> set (ld_intents db')"
      "\<forall>x \<in> set (ld_intents db'). li_id x = intent_id \<longrightarrow> li_status x \<noteq> LI_CREATED"
    using recorded found(1) id i(3) by (auto simp: set_sql_update)
  have "dget (build_gateway_send_order_payload st i) ''quantity'' = PInt (li_quantity i)"
    by (simp add: build_gateway_send_order_payload_def dget_def Let_def)
  then have quantity: "dget (g_payload c) ''quantity'' = PInt (lo_quantity r)" using cf(4) recorded by simp
  show ?thesis
    using i(1,3) found(1) id intents recorded queued sim quantity
    by (intro disjI2 exI [of _ r] exI [of _ i] exI [of _ "queued_row hsh c (li_expires_at i)"] conjI) (simp_all add: queued_row_def cf(3))
qed auto

lemma effective_blockers_nonneg: "effective_blocker_count status = Inr n \<Longrightarrow> 0 \<le> n"
  unfolding effective_blocker_count_def Let_def by (cases "dget status ''effective_blocker_count''") (simp_all split: if_split_asm)

lemma lifecycle_blockers_nonneg:
  assumes "lifecycle_blockers report = Inr n" shows "0 \<le> n"
proof -
  obtain v where v: "report = Inr v" "(case v of PDict status \<Rightarrow> validated_blocker_count status | _ \<Rightarrow> Inl (TypeError ''execution lifecycle status must be a mapping'')) = Inr n"
    using assms by (auto simp: lifecycle_blockers_def rbind_Inr_iff)
  then obtain status where "validated_blocker_count status = Inr n" by (cases v) auto
  then show ?thesis unfolding validated_blocker_count_def rbind_Inr_iff by (auto dest: effective_blockers_nonneg split: if_split_asm)
qed

text \<open>
  C14: A purchase respects the limits at the moment it is queued. When an intent to buy becomes an order, the safety gate is open
  (simulation only, no kill switch, a fresh and orderable gateway, the entry window, no block on routing, losses under their
  limit); with the new order the day has at most the configured number of purchases and the service at most the
  configured number of active orders; no other intent or order of the stock that is younger than the cooldown is active; the
  intent is not one for a market order; the latest reconciliation does not forbid it; and the report on the lifecycle of executions was
  valid and names no blocker.
\<close>

theorem purchase_within_limits:
  assumes "queue_live_sim_order_command js rp hsh ts st ev plan_required oid cid intent_id (db, queue) = (Inr r, db', queue')"
    and "lo_side r = BUY"
  defines "day \<equiv> if lo_trade_date r = [] then gv_today (ev_gate ev) else lo_trade_date r"
  shows "lifecycle_clear js ts st (ev_gate ev) \<and> entry_window_open st (gv_clock (ev_gate ev)) \<and> \<not> boundary_blocks_routing (gv_boundary (ev_gate ev))
    \<and> \<not> daily_loss_limit_exceeded st day db
    \<and> int (daily_order_count day BUY db') \<le> ls_max_daily_order_count st \<and> int (active_order_count db') \<le> ls_max_active_orders st
    \<and> (\<exists>i. find_row li_id intent_id (ld_intents db) = Inr (Some i) \<and> recent_active_count st (ev_now ev) (li_code i) (Some intent_id) db = Inr 0
          \<and> li_order_type i \<noteq> ''MARKET'')
    \<and> reconcile_blocks_new_buy js rp ts st (ev_now ev) (ev_reconcile ev) queue = Inr False \<and> lifecycle_blockers (ev_lifecycle ev) = Inr 0"
proof -
  obtain i where i: "find_row li_id intent_id (ld_intents db) = Inr (Some i)" "queue_reasons js rp ts st ev intent_id i db queue = Inr []"
      "purchase_barrier ev plan_required i db = Inr None"
    and commit: "commit_purchase rp hsh st (ev_now ev) oid intent_id cid i (db, queue) = (Inr r, db', queue')"
    using queue_cases [OF assms(1)] by auto
  have rec: "record_purchase oid intent_id cid (ev_now ev) i db = Inr (r, db')" using commit_cases [OF commit] by auto
  note recorded = purchase_recorded [OF rec]
  have buy: "li_side i = BUY" "lo_trade_date r = li_trade_date i" using recorded assms(2) by simp_all
  obtain g where g: "check_live_sim_safety_gate js ts st ''NEW_BUY'' True True (Some (li_trade_date i)) (ev_gate ev) db = Inr g" "gr_passed g"
    and reasons: "li_order_type i \<noteq> ''MARKET''" "int (active_order_count db) < ls_max_active_orders st"
      "recent_active_count st (ev_now ev) (li_code i) (Some intent_id) db = Inr 0"
      "reconcile_blocks_new_buy js rp ts st (ev_now ev) (ev_reconcile ev) queue = Inr False"
    using no_queue_reasons [OF i(2)] buy by auto
  have purpose: "normalize_purpose ''NEW_BUY'' = Inr ''NEW_BUY''" by code_simp
  have day: "gr_trade_date g = day" "gr_purpose g = ''NEW_BUY''"
    using g(1) purpose by (auto simp: check_live_sim_safety_gate_def Let_def day_def buy(2))
  note gate = gate_passes_iff [OF g(1)]
  have "lifecycle_blockers (ev_lifecycle ev) = Inr 0"
    using i(3) buy lifecycle_blockers_nonneg [of "ev_lifecycle ev"] by (cases "lifecycle_blockers (ev_lifecycle ev)") (auto simp: purchase_barrier_def split: if_splits)
  then show ?thesis
    using gate g(2) day i(1) reasons recorded counts_after_queueing(1) [of db' db r] counts_after_queueing(2) [of db' db r day BUY] by auto
qed

section \<open>The budget of an intent\<close>

lemma admission_of_candidate:
  assumes "evaluate_trade_admission ts now md cid pol None None None dry_run = Inr a" "py_strip cid = cid"
    and "candidate_of md cid = Some c" "validate_stock_code (ca_code c) = Inr code"
  shows "adm_code a = Some code \<and> adm_trade_date a = Some (ca_trade_date c) \<and> adm_tick a = tick_of md code \<and> adm_dry_run a = dry_run"
proof -
  obtain rs t where t: "tick_reasons ts now md pol (Some code) = Inr (rs, t)"
    and a: "adm_code a = Some code" "adm_trade_date a = Some (ca_trade_date c)" "adm_tick a = t" "adm_dry_run a = dry_run"
    using assms(1) unfolding evaluate_trade_admission_def
    by (auto simp: rbind_Inr_iff Let_def require_non_empty_str_def invalid_def assms(2,3,4) simp del: raised_simps split: if_split_asm)
  have "t = tick_of md code" using t by (auto simp: tick_reasons_def rbind_Inr_iff simp del: raised_simps split: option.split_asm)
  then show ?thesis using a by simp
qed

lemma purchase_intent_fields:
  assumes "purchase_intent st now c s k t dry_run new_id suffix reprice = Inr i"
  obtains limit quantity notional where "buy_limit_price st (tk_price t) = Inr limit" "(quantity, notional) = quantity_and_notional st (of_int limit) dry_run"
    "li_status i = LI_CREATED" "li_side i = BUY" "li_quantity i = quantity" "li_notional i = notional" "li_limit_price i = Some (of_int limit)"
    "validate_stock_code (ca_code c) = Inr (li_code i)" "li_trade_date i = py_strip (ca_trade_date c)" "li_candidate_id i = py_strip (ca_id c)"
    "li_created_at i = now" "li_expires_at i = Some (now + ls_order_ttl_sec st * microseconds)"
proof -
  obtain limit where limit: "buy_limit_price st (tk_price t) = Inr limit" using assms by (auto simp: purchase_intent_def rbind_Inr_iff)
  obtain quantity notional where q: "quantity_and_notional st (of_int limit) dry_run = (quantity, notional)" by fastforce
  show ?thesis
    using assms [unfolded purchase_intent_def limit rbind.simps Let_def q prod.case] limit q
    by (intro that [of limit quantity notional])
      (auto simp: rbind_Inr_iff validated_intent_def require_non_empty_str_def parse_int_def parse_float_def at_least_def invalid_def split: if_split_asm)
qed

lemma admission_reason_blank [simp]: "py_strip (admission_reason r) = [] \<longleftrightarrow> py_strip r = []"
proof -
  have "py_strip ''CANDIDATE_NOT_CONTEXT_READY'' \<noteq> []" "py_strip ''STRATEGY_NOT_MATCHED'' \<noteq> []" "py_strip ''RISK_NOT_OBSERVE_PASS'' \<noteq> []"
    "py_strip ''CANDIDATE_CONTEXT_MISSING'' \<noteq> []" "py_strip ''STRATEGY_OBSERVE_ONLY_MISMATCH'' \<noteq> []" "py_strip ''RISK_OBSERVE_ONLY_MISMATCH'' \<noteq> []"
    by code_simp+
  moreover have "py_strip (py_upper r) = [] \<longleftrightarrow> py_strip r = []" by (simp add: py_strip_upper)
  ultimately show ?thesis by (auto simp: admission_reason_def Let_def)
qed

lemma merge_mapped_Nil: "merge_reasons (map admission_reason rs) = [] \<longleftrightarrow> merge_reasons rs = []"
  by (auto simp: merge_reasons_Nil_iff)

lemma raised_clear:
  assumes "\<exists>gs. rs = raised gs \<and> list_all (\<lambda>g. py_strip (snd g) \<noteq> []) gs" "merge_reasons rs = []" shows "rs = []"
  using assms by (fastforce simp: raised_def merge_reasons_Nil_iff list_all_iff filter_empty_conv)

lemma eligible_purchase:
  assumes "evaluate_live_sim_eligibility js rp ts st ev cid db queue = Inr el" "el_eligible el" "py_strip cid = cid"
    and c: "candidate_of (ev_market ev) cid = Some c" "validate_stock_code (ca_code c) = Inr code" "tick_of (ev_market ev) code = Some t"
    and q: "buy_limit_price st (tk_price t) = Inr limit" "(quantity, notional) = quantity_and_notional st (of_int limit) (adm_dry_run (el_trace el))"
  shows "1 \<le> quantity \<and> 0 < notional \<and> notional \<le> ls_max_order_notional st
    \<and> adm_dry_run (el_trace el) = latest_dry_run (ev_market ev) cid
    \<and> admitted_rows ts (ev_now ev) (ev_market ev) (intent_policy st) (latest_dry_run (ev_market ev) cid) cid c code
    \<and> code_reasons js rp ts st ev code (ca_trade_date c) notional db queue = Inr []
    \<and> int (active_order_count db) < ls_max_active_orders st \<and> int (active_position_count db) < ls_max_active_positions st"
proof -
  obtain adm where adm: "evaluate_trade_admission ts (ev_now ev) (ev_market ev) cid (intent_policy st) None None None (latest_dry_run (ev_market ev) cid) = Inr adm"
    and filled: "py_strip cid \<noteq> []"
    using assms(1) by (auto simp: evaluate_live_sim_eligibility_def rbind_Inr_iff require_non_empty_str_def invalid_def assms(3) split: if_split_asm)
  note a = admission_of_candidate [OF adm assms(3) c(1,2)]
  have id: "require_non_empty_str ''candidate_instance_id'' (PStr cid) = Inr cid" using filled assms(3) by (simp add: require_non_empty_str_def)
  have tick: "adm_tick adm = Some t" using a c(3) by simp
  let ?size = "\<lambda>l. quantity_and_notional st (of_int l) (latest_dry_run (ev_market ev) cid)"
  define total where "total (gate :: gate_result) order_type l from_code = map admission_reason (adm_reason_codes adm)
             @ (if gr_passed gate then [] else gr_reason_codes gate)
             @ side_and_size_reasons st order_type (fst (?size l)) (snd (?size l)) @ from_code
             @ raised [(int (active_order_count db) \<ge> ls_max_active_orders st, ''ACTIVE_ORDER_LIMIT_EXCEEDED''),
                       (int (active_position_count db) \<ge> ls_max_active_positions st, ''ACTIVE_POSITION_LIMIT_EXCEEDED'')]" for gate order_type l from_code
  have "\<exists>gate l order_type from_code. (if tk_price t > 0 then buy_limit_price st (tk_price t) else Inr 0) = Inr l
      \<and> code_reasons js rp ts st ev code (ca_trade_date c) (snd (?size l)) db queue = Inr from_code
      \<and> el_trace el = adm \<and> el_eligible el = (merge_reasons (total gate order_type l from_code) = [])"
    using assms(1) [unfolded evaluate_live_sim_eligibility_def, simplified id rbind.simps adm Let_def case_prod_beta]
    by (simp only: a c(3) rbind_Inr_iff Let_def case_prod_beta fst_conv snd_conv option.case total_def [symmetric] sum.inject) (auto, (intro exI, rule refl)+)
  then obtain gate limit' order_type from_code where limit': "(if tk_price t > 0 then buy_limit_price st (tk_price t) else Inr 0) = Inr limit'"
      and code': "code_reasons js rp ts st ev code (ca_trade_date c) (snd (?size limit')) db queue = Inr from_code"
      and el': "el_trace el = adm" "el_eligible el = (merge_reasons (total gate order_type limit' from_code) = [])" by blast
  obtain quantity' notional' where q': "?size limit' = (quantity', notional')" by fastforce
  note code = code' [unfolded q' snd_conv] and el = el' [unfolded total_def q' fst_conv snd_conv]
  note clear = assms(2) [unfolded el(2) merge_append_Nil merge_mapped_Nil]
  have size: "1 \<le> quantity'" "0 < notional'" "notional' \<le> ls_max_order_notional st"
    using clear by (auto simp: side_and_size_reasons_def merge_Cons_Nil split: if_split_asm)
  have "tk_price t > 0"
  proof (rule ccontr)
    assume "\<not> 0 < tk_price t"
    then have "limit' = 0" using limit' by simp
    then show False using q' size(1) by (simp add: quantity_and_notional_def)
  qed
  then have same: "quantity' = quantity" "notional' = notional" using limit' q q' a el(1) by simp_all
  have "from_code = []"
  proof (rule raised_clear)
    show "merge_reasons from_code = []" using clear by blast
    show "\<exists>gs. from_code = raised gs \<and> list_all (\<lambda>g. py_strip (snd g) \<noteq> []) gs"
      using code unfolding code_reasons_def rbind_Inr_iff sum.inject by (elim exE conjE) (intro exI conjI, erule sym, simp)
  qed
  moreover have "adm_eligible adm"
  proof -
    have "merge_reasons (adm_reason_codes adm) = []" using clear by blast
    moreover have "\<exists>rs. adm_reason_codes adm = merge_reasons rs \<and> (adm_eligible adm \<longleftrightarrow> merge_reasons rs = [])"
      using adm unfolding evaluate_trade_admission_def by (auto simp: rbind_Inr_iff Let_def simp del: raised_simps split: prod.split_asm)
    ultimately show ?thesis by auto
  qed
  ultimately show ?thesis
    using size same code clear a el(1) admission_exact [OF adm] c(1,2) assms(3) by (auto simp: merge_Cons_Nil split: if_split_asm)
qed

lemma code_reasons_clear:
  assumes "code_reasons js rp ts st ev code day notional db queue = Inr []"
  shows "recent_active_count st (ev_now ev) code None db = Inr 0 \<and> reconcile_blocks_new_buy js rp ts st (ev_now ev) (ev_reconcile ev) queue = Inr False
      \<and> lifecycle_blockers (ev_lifecycle ev) = Inr 0 \<and> (ls_position_allow_scale_in st \<or> open_position_count code db = 0)
      \<and> active_exit_count code db = 0 \<and> active_cancel_count code db = 0 \<and> int (daily_order_count day BUY db) < ls_max_daily_order_count st
      \<and> daily_order_notional day db + notional \<le> ls_max_daily_notional st"
proof -
  obtain recent mismatch blockers where "recent_active_count st (ev_now ev) code None db = Inr recent"
      "reconcile_blocks_new_buy js rp ts st (ev_now ev) (ev_reconcile ev) queue = Inr mismatch" "lifecycle_blockers (ev_lifecycle ev) = Inr blockers"
    and "recent = 0" "\<not> mismatch" "\<not> blockers > 0" "ls_position_allow_scale_in st \<or> open_position_count code db = 0"
      "active_exit_count code db = 0" "active_cancel_count code db = 0" "int (daily_order_count day BUY db) < ls_max_daily_order_count st"
      "daily_order_notional day db + notional \<le> ls_max_daily_notional st"
    using assms unfolding code_reasons_def rbind_Inr_iff sum.inject by (elim exE conjE) (auto split: if_split_asm)
  then show ?thesis using lifecycle_blockers_nonneg [of "ev_lifecycle ev" blockers] by simp
qed

text \<open>
  C15: An intent stays within the budget. An intent to buy is only created for a candidate whose rows admit it, once nothing speaks
  against its stock (a waiting intent or order younger than the cooldown, a held position where scaling in is off, an exit
  or a cancellation under way, a reconciliation that blocks, a lifecycle with blockers) and while the day has orders, the service active orders and positions left;
  its quantity is at least one, its notional is exactly limit price times quantity and at most the bound of one order,
  and added to the notional of the day's orders at most the bound of the day.
\<close>

theorem created_intent_within_budget:
  assumes "create_live_sim_intent js rp ts st ev new_id cid suffix reprice db queue = Inr (Intent_created i, db')"
    and "py_strip cid = cid"
  shows "ld_intents db' = ld_intents db @ [i] \<and> li_status i = LI_CREATED \<and> li_side i = BUY \<and> 1 \<le> li_quantity i
    \<and> (\<exists>limit. li_limit_price i = Some limit \<and> li_notional i = limit * of_int (li_quantity i)) \<and> li_notional i \<le> ls_max_order_notional st
    \<and> int (active_order_count db) < ls_max_active_orders st \<and> int (active_position_count db) < ls_max_active_positions st
    \<and> recent_active_count st (ev_now ev) (li_code i) None db = Inr 0
    \<and> reconcile_blocks_new_buy js rp ts st (ev_now ev) (ev_reconcile ev) queue = Inr False \<and> lifecycle_blockers (ev_lifecycle ev) = Inr 0
    \<and> (ls_position_allow_scale_in st \<or> open_position_count (li_code i) db = 0) \<and> active_exit_count (li_code i) db = 0 \<and> active_cancel_count (li_code i) db = 0
    \<and> (\<exists>c. admitted_rows ts (ev_now ev) (ev_market ev) (intent_policy st) (latest_dry_run (ev_market ev) cid) cid c (li_code i)
          \<and> li_trade_date i = py_strip (ca_trade_date c) \<and> int (daily_order_count (ca_trade_date c) BUY db) < ls_max_daily_order_count st
          \<and> daily_order_notional (ca_trade_date c) db + li_notional i \<le> ls_max_daily_notional st)"
proof -
  obtain el c s k code t where el: "evaluate_live_sim_eligibility js rp ts st ev cid db queue = Inr el" "el_eligible el"
    and c: "candidate_of (ev_market ev) cid = Some c" "validate_stock_code (ca_code c) = Inr code" "tick_of (ev_market ev) code = Some t"
    and i: "purchase_intent st (ev_now ev) c s k t (adm_dry_run (el_trace el)) new_id suffix reprice = Inr i" "insert_intent i db = Inr db'"
    using assms(1) unfolding create_live_sim_intent_def rbind_Inr_iff Let_def
    by (elim exE conjE) (auto simp: rbind_Inr_iff split: if_split_asm option.split_asm)
  obtain limit quantity notional where q: "buy_limit_price st (tk_price t) = Inr limit" "(quantity, notional) = quantity_and_notional st (of_int limit) (adm_dry_run (el_trace el))"
    and f: "li_status i = LI_CREATED" "li_side i = BUY" "li_quantity i = quantity" "li_notional i = notional" "li_limit_price i = Some (of_int limit)"
      "validate_stock_code (ca_code c) = Inr (li_code i)" "li_trade_date i = py_strip (ca_trade_date c)"
    using purchase_intent_fields [OF i(1)] by metis
  note e = eligible_purchase [OF el assms(2) c q]
  have code: "li_code i = code" using f(6) c(2) by simp
  have notional: "notional = of_int limit * of_int quantity" using q(2) by (auto simp: quantity_and_notional_def Let_def split: if_splits)
  have day: "recent_active_count st (ev_now ev) code None db = Inr 0 \<and> reconcile_blocks_new_buy js rp ts st (ev_now ev) (ev_reconcile ev) queue = Inr False
      \<and> lifecycle_blockers (ev_lifecycle ev) = Inr 0 \<and> (ls_position_allow_scale_in st \<or> open_position_count code db = 0)
      \<and> active_exit_count code db = 0 \<and> active_cancel_count code db = 0 \<and> int (daily_order_count (ca_trade_date c) BUY db) < ls_max_daily_order_count st
      \<and> daily_order_notional (ca_trade_date c) db + notional \<le> ls_max_daily_notional st"
    by (rule code_reasons_clear) (use e in blast)
  show ?thesis using e f code notional day i(2) by (auto simp: insert_intent_def split: if_splits)
qed

section \<open>A purchase from the candidate to the order\<close>

definition sample_entry :: entry_view where
  "sample_entry = \<lparr> ev_gate = sample_view,
     ev_market = \<lparr> md_candidates = [\<lparr> ca_id = ''k1'', ca_trade_date = ''d'', ca_code = ''005930'', ca_name = ''n'', ca_state = ''CONTEXT_READY'' \<rparr>],
       md_contexts = [], md_strategies = [\<lparr> sg_candidate_id = ''k1'', sg_observation_id = ''s1'', sg_overall_status = ''MATCHED_OBSERVATION'', sg_observe_only = True \<rparr>],
       md_risks = [\<lparr> rk_candidate_id = ''k1'', rk_observation_id = ''r1'', rk_overall_status = ''OBSERVE_PASS'', rk_observe_only = True \<rparr>],
       md_ticks = [\<lparr> tk_code = ''005930'', tk_price = 9000, tk_event_ts = ''t'' \<rparr>],
       md_dry_runs = [\<lparr> dy_candidate_id = ''k1'', dy_intent_id = ''y1'', dy_order_id = None, dy_notional = 50000, dy_created_at = ''t'' \<rparr>] \<rparr>,
     ev_reconcile = None,
     ev_lifecycle = Inr (PDict [(''effective_blocker_count'', PInt 0), (''qualification_status'', PStr ''PASS''), (''status'', PStr ''PASS''),
       (''mirror_consistent'', PBool True), (''inventory_count_consistent'', PBool True), (''read_only'', PBool True), (''observe_only'', PBool True),
       (''no_order_side_effects'', PBool True), (''real_order_allowed'', PBool False)]),
     ev_plan = (\<lambda>_. Inr []), ev_now = 0 \<rparr>"

definition sample_intent :: "(live_intent \<times> live_db) result" where
  "sample_intent = rbind (create_live_sim_intent (\<lambda>_. Inr PNone) (\<lambda>_. []) (\<lambda>_. Some 0) sample_live_settings sample_entry ''i1'' ''k1'' None [] empty_live_db empty_store)
     (\<lambda>(out, db). case out of Intent_created i \<Rightarrow> Inr (i, db) | Intent_rejected _ \<Rightarrow> Inl (ValueError []))"

definition sample_purchase :: "live_db \<Rightarrow> (live_order \<times> live_db \<times> command_store) result" where
  "sample_purchase db = succeeded (queue_live_sim_order_command (\<lambda>_. Inr PNone) (\<lambda>_. []) (\<lambda>_. []) (\<lambda>_. Some 0) sample_live_settings sample_entry False
     ''o1'' ''c1'' ''i1'' (db, empty_store))"

lemma sample_purchase_result:
  "rbind sample_intent (\<lambda>(i, db). rbind (sample_purchase db) (\<lambda>(r, db', queue).
      Inr (li_quantity i, li_notional i, lo_quantity r, lo_side r, map li_status (ld_intents db'), map r_status (s_commands queue))))
    = Inr (5, 45050, 5, BUY, [LI_COMMAND_QUEUED], [QUEUED])"
  by code_simp

lemma intent_outcome_iff:
  "(case out of Intent_created i \<Rightarrow> Inr (f i) | Intent_rejected _ \<Rightarrow> Inl e) = Inr x \<longleftrightarrow> (\<exists>i. out = Intent_created i \<and> f i = x)"
  by (cases out) auto

lemma sample_purchase_run:
  obtains i db r db' queue where
    "create_live_sim_intent (\<lambda>_. Inr PNone) (\<lambda>_. []) (\<lambda>_. Some 0) sample_live_settings sample_entry ''i1'' ''k1'' None [] empty_live_db empty_store
       = Inr (Intent_created i, db)"
    "queue_live_sim_order_command (\<lambda>_. Inr PNone) (\<lambda>_. []) (\<lambda>_. []) (\<lambda>_. Some 0) sample_live_settings sample_entry False ''o1'' ''c1'' ''i1'' (db, empty_store)
       = (Inr r, db', queue)"
    "sample_intent = Inr (i, db)" "sample_purchase db = Inr (r, db', queue)" "li_quantity i = 5" "lo_side r = BUY"
proof -
  obtain i db r db' queue where out: "sample_intent = Inr (i, db)" "sample_purchase db = Inr (r, db', queue)" "li_quantity i = 5" "lo_side r = BUY"
    using sample_purchase_result by (auto simp: rbind_Inr_iff)
  then show thesis
    by (intro that [of i db r db' queue]) (auto simp: sample_intent_def sample_purchase_def succeeded_iff rbind_Inr_iff intent_outcome_iff)
qed

lemma sample_ids: "py_strip ''k1'' = ''k1''" "py_strip ''i1'' = ''i1''"
  by code_simp+

theorem created_intent_within_budget_witness:
  "\<exists>i db. sample_intent = Inr (i, db) \<and> ld_intents db = ld_intents empty_live_db @ [i] \<and> li_quantity i = 5 \<and> li_notional i \<le> ls_max_order_notional sample_live_settings"
proof -
  obtain i db where i: "sample_intent = Inr (i, db)" "li_quantity i = 5"
    and run: "create_live_sim_intent (\<lambda>_. Inr PNone) (\<lambda>_. []) (\<lambda>_. Some 0) sample_live_settings sample_entry ''i1'' ''k1'' None [] empty_live_db empty_store
       = Inr (Intent_created i, db)" by (rule sample_purchase_run, rule that, assumption+)
  then show ?thesis using created_intent_within_budget [OF run sample_ids(1)] by blast
qed

theorem purchase_is_atomic_witness:
  "\<exists>i db r db' queue row. sample_intent = Inr (i, db) \<and> sample_purchase db = Inr (r, db', queue)
     \<and> ld_orders db' = ld_orders db @ [r] \<and> s_commands queue = s_commands empty_store @ [row] \<and> r_status row = QUEUED"
proof -
  obtain i db r db' queue where i: "sample_intent = Inr (i, db)" "sample_purchase db = Inr (r, db', queue)"
    and run: "queue_live_sim_order_command (\<lambda>_. Inr PNone) (\<lambda>_. []) (\<lambda>_. []) (\<lambda>_. Some 0) sample_live_settings sample_entry False ''o1'' ''c1'' ''i1'' (db, empty_store)
       = (Inr r, db', queue)" by (rule sample_purchase_run, rule that, assumption+)
  from purchase_is_atomic [OF run sample_ids(2)] obtain row
    where row: "ld_orders db' = ld_orders db @ [r]" "s_commands queue = s_commands empty_store @ [row]" "r_status row = QUEUED"
    by (elim disjE exE conjE, simp, intro that) simp_all
  show ?thesis by (intro exI conjI, rule i(1), rule i(2), rule row(1), rule row(2), rule row(3))
qed

theorem purchase_within_limits_witness:
  "\<exists>i db r db' queue. sample_intent = Inr (i, db) \<and> sample_purchase db = Inr (r, db', queue)
     \<and> int (active_order_count db') \<le> ls_max_active_orders sample_live_settings \<and> lifecycle_blockers (ev_lifecycle sample_entry) = Inr 0"
proof -
  obtain i db r db' queue where i: "sample_intent = Inr (i, db)" "sample_purchase db = Inr (r, db', queue)" "lo_side r = BUY"
    and run: "queue_live_sim_order_command (\<lambda>_. Inr PNone) (\<lambda>_. []) (\<lambda>_. []) (\<lambda>_. Some 0) sample_live_settings sample_entry False ''o1'' ''c1'' ''i1'' (db, empty_store)
       = (Inr r, db', queue)" by (rule sample_purchase_run, rule that, assumption+)
  have limits: "int (active_order_count db') \<le> ls_max_active_orders sample_live_settings" "lifecycle_blockers (ev_lifecycle sample_entry) = Inr 0"
    using purchase_within_limits [OF run i(3)] by - (elim conjE, assumption)+
  show ?thesis by (intro exI conjI, rule i(1), rule i(2), rule limits(1), rule limits(2))
qed

end
