(* ===== verification/Live_Upkeep.thy ===== *)
theory Live_Upkeep imports Live_Entry Live_Exit_Run Command_Queue begin

text \<open>
  What keeps the orders of the service in hand between its decisions: the sweep of orders whose command expired before it was
  sent, the run that cancels purchases which stay unfilled, and the run that repeats a cancelled purchase at a new price
  (\<open>sweep_expired_live_sim_order_commands\<close>, \<open>evaluate_live_sim_cancel_candidates\<close>, \<open>run_live_sim_cancel_unfilled_once\<close>,
  \<open>evaluate_live_sim_reprice_candidates\<close>, \<open>create_live_sim_reprice_intent\<close>, \<open>run_live_sim_reprice_once\<close> in
  \<open>services/live_sim/live_sim_service.py\<close>).

  \<^item> Both runs are one loop over candidates; it is \<open>lifecycle_loop\<close>, with what the run does for one candidate as an argument.
  \<^item> For each candidate of a run the ids that are drawn, the time and what the safety gate and the purchase see are arguments.
\<close>

section \<open>Orders whose command expired\<close>

definition unsent_expired :: "command_store \<Rightarrow> live_order \<Rightarrow> bool" where
  \<comment> \<open>the join with the command that carries the order\<close>
  "unsent_expired queue r \<longleftrightarrow> lo_status r = LO_COMMAND_QUEUED
     \<and> list_ex (\<lambda>c. lo_command_id r = Some (r_command_id c) \<and> r_command_type c = ''send_order'' \<and> r_status c = EXPIRED \<and> r_dispatched_at c = None)
         (s_commands queue)"

definition still_unsent :: "command_store \<Rightarrow> live_order \<Rightarrow> bool" where
  \<comment> \<open>the guard of the update\<close>
  "still_unsent queue r \<longleftrightarrow> lo_status r = LO_COMMAND_QUEUED
     \<and> list_ex (\<lambda>c. lo_command_id r = Some (r_command_id c) \<and> r_status c = EXPIRED \<and> r_dispatched_at c = None) (s_commands queue)"

definition expired_order :: "instant \<Rightarrow> live_order \<Rightarrow> live_order" where
  "expired_order now r = r\<lparr> lo_status := LO_ORDER_EXPIRED, lo_remaining_quantity := 0,
     lo_broker_message := coalesce (lo_broker_message r) (Some ''Gateway command expired before dispatch.''), lo_last_event_at := Some now \<rparr>"

definition write_off :: "instant \<Rightarrow> command_store \<Rightarrow> live_order \<Rightarrow> live_db \<Rightarrow> live_db" where
  "write_off now queue r db =
     record_lifecycle_event ''COMMAND_EXPIRED_BEFORE_DISPATCH'' ''LIVE_SIM_ORDER'' (Some (lo_id r)) (Some (lo_id r)) None (Some ''ORDER_EXPIRED'')
       ''GATEWAY_COMMAND_EXPIRED_BEFORE_DISPATCH''
       (update_intent (lo_intent_id r) (\<lambda>i. li_status i = LI_COMMAND_QUEUED) (\<lambda>i. i\<lparr> li_status := LI_EXPIRED, li_broker_order_sent := False \<rparr>)
         (db\<lparr> ld_orders := sql_update (\<lambda>x. lo_id x = lo_id r \<and> still_unsent queue x) (expired_order now) (ld_orders db) \<rparr>))"

fun write_off_each :: "instant \<Rightarrow> command_store \<Rightarrow> live_order list \<Rightarrow> live_db \<Rightarrow> string list \<times> live_db" where
  "write_off_each now queue [] db = ([], db)"
| "write_off_each now queue (r # rs) db =
     (if sql_count (\<lambda>x. lo_id x = lo_id r \<and> still_unsent queue x) (ld_orders db) \<noteq> 1 then write_off_each now queue rs db
      else let (more, db') = write_off_each now queue rs (write_off now queue r db) in (lo_id r # more, db'))"

definition sweep_expired_live_sim_order_commands :: "instant \<Rightarrow> int \<Rightarrow> command_store \<Rightarrow> live_db \<Rightarrow> string list \<times> live_db" where
  \<comment> \<open>the ids of the orders it wrote off\<close>
  "sweep_expired_live_sim_order_commands now limit queue db =
     write_off_each now queue
       (take (nat (bounded_limit limit)) (sort_key (\<lambda>r. (wire_key (lo_created_at r), lo_id r)) (filter (unsent_expired queue) (ld_orders db)))) db"

section \<open>A run over candidates\<close>

fun lifecycle_loop ::
  "(nat \<Rightarrow> live_order \<Rightarrow> run_result \<Rightarrow> live_db \<times> command_store \<Rightarrow> run_result \<times> py_error option \<times> live_db \<times> command_store)
     \<Rightarrow> int \<Rightarrow> bool \<Rightarrow> (live_order \<times> bool) list \<Rightarrow> nat \<Rightarrow> run_result \<Rightarrow> live_db \<times> command_store \<Rightarrow> (run_result \<times> live_db \<times> command_store) result" where
  \<comment> \<open>\<open>k\<close> counts the candidates\<close>
  "lifecycle_loop one limit dry_run [] k res s = Inr (res, s)"
| "lifecycle_loop one limit dry_run ((r, eligible) # candidates) k res s =
     (if \<not> eligible then lifecycle_loop one limit dry_run candidates (Suc k) res s
      else if int (rr_intents res) \<ge> limit then Inr (res, s)
      else if dry_run then lifecycle_loop one limit dry_run candidates (Suc k) res s
      else case one k r res s of
        (res', None, s') \<Rightarrow> lifecycle_loop one limit dry_run candidates (Suc k) res' s'
      | (res', Some e, db', queue') \<Rightarrow>
          rbind (record_error (Some (lo_id r)) (PStr (lo_code r)) (error_text e) db') (\<lambda>db''.
            lifecycle_loop one limit dry_run candidates (Suc k) (res'\<lparr> rr_errors := rr_errors res' + 1 \<rparr>) (db'', queue')))"

definition run_limit :: "int option \<Rightarrow> int \<Rightarrow> int" where
  \<comment> \<open>\<open>limit or n\<close>\<close>
  "run_limit limit n = (case limit of None \<Rightarrow> n | Some l \<Rightarrow> (if l = 0 then n else l))"

definition new_run :: "nat \<Rightarrow> run_result" where
  "new_run evaluated = \<lparr> rr_signals = evaluated, rr_intents = 0, rr_queued = 0, rr_errors = 0 \<rparr>"

section \<open>Unfilled purchases\<close>

definition too_young :: "live_settings \<Rightarrow> instant \<Rightarrow> live_order \<Rightarrow> bool" where
  "too_young st now r \<longleftrightarrow> max (now - lo_created_at r) 0 < ls_cancel_order_ttl_sec st * microseconds"

definition cancel_candidate_reasons :: "live_settings \<Rightarrow> instant \<Rightarrow> live_order \<Rightarrow> live_db \<Rightarrow> string list result" where
  "cancel_candidate_reasons st now r db =
     rbind (require_non_empty_str ''live_sim_order_id'' (PStr (lo_id r))) (\<lambda>oid.
       Inr (raised
         [(too_young st now r, ''LIVE_SIM_CANCEL_TTL_NOT_EXPIRED''),
          (lo_remaining_quantity r \<le> 0, ''LIVE_SIM_CANCEL_NO_REMAINING_QUANTITY''),
          (lo_side r \<noteq> BUY, ''LIVE_SIM_CANCEL_NOT_BUY''),
          (ls_cancel_require_broker_order_no st \<and> \<not> ls_cancel_allow_without_broker_order_no st \<and> lo_broker_order_no r \<in> {None, Some []},
             ''LIVE_SIM_CANCEL_BROKER_ORDER_NO_REQUIRED''),
          (sql_find (\<lambda>c. ci_order_id c = oid \<and> ci_status c \<in> ACTIVE_INTENT) (ld_cancel_intents db) \<noteq> None, ''LIVE_SIM_CANCEL_DUPLICATE'')]))"

fun evaluate_cancel_rows :: "live_settings \<Rightarrow> instant \<Rightarrow> live_order list \<Rightarrow> live_db \<Rightarrow> ((live_order \<times> bool) list \<times> live_db) result" where
  "evaluate_cancel_rows st now [] db = Inr ([], db)"
| "evaluate_cancel_rows st now (r # rs) db =
     rbind (cancel_candidate_reasons st now r db) (\<lambda>reasons.
       if reasons = [''LIVE_SIM_CANCEL_TTL_NOT_EXPIRED''] then evaluate_cancel_rows st now rs db
       else let db1 = (if reasons \<noteq> [] \<and> \<not> too_young st now r
                       then record_lifecycle_event ''CANCEL_CANDIDATE_REJECTED'' ''LIVE_SIM_ORDER'' (Some (lo_id r)) (Some (lo_id r)) None
                              (Some (order_status_text (lo_status r))) (comma_list (merge_reasons reasons)) db
                       else db) in
            rbind (evaluate_cancel_rows st now rs db1) (\<lambda>(more, db2). Inr ((r, reasons = []) # more, db2)))"

definition evaluate_live_sim_cancel_candidates :: "live_settings \<Rightarrow> instant \<Rightarrow> int option \<Rightarrow> live_db \<Rightarrow> ((live_order \<times> bool) list \<times> live_db) result" where
  "evaluate_live_sim_cancel_candidates st now limit db =
     evaluate_cancel_rows st now
       (take (nat (bounded_limit (run_limit limit 500)))
         (sort_key (\<lambda>r. (wire_key (lo_created_at r), lo_id r))
           (filter (\<lambda>r. lo_side r = BUY \<and> lo_status r \<in> ACTIVE_ORDER \<and> lo_remaining_quantity r > 0) (ld_orders db)))) db"

record cancel_draw =
  cd_intent_id :: string
  cd_command_id :: string
  cd_now :: instant
  cd_view :: gate_view

definition cancel_one ::
  "(string \<Rightarrow> pyval result) \<Rightarrow> (pyval \<Rightarrow> instant option) \<Rightarrow> repr \<Rightarrow> (pydict \<Rightarrow> string) \<Rightarrow> live_settings \<Rightarrow> bool \<Rightarrow> (nat \<Rightarrow> cancel_draw)
     \<Rightarrow> nat \<Rightarrow> live_order \<Rightarrow> run_result \<Rightarrow> live_db \<times> command_store \<Rightarrow> run_result \<times> py_error option \<times> live_db \<times> command_store" where
  \<comment> \<open>the body of the \<open>try\<close>, with the exception that leaves it\<close>
  "cancel_one js ts rp hsh st queue_commands draw k r res s =
     (let (db, queue) = s; d = draw k in
      case create_live_sim_cancel_intent (cd_now d) (cd_intent_id d) (lo_id r) ''TTL_EXPIRED'' db of
        Inl e \<Rightarrow> (res, Some e, db, queue)
      | Inr (c, db1) \<Rightarrow>
          (let res1 = res\<lparr> rr_intents := rr_intents res + 1 \<rparr> in
           if \<not> queue_commands then (res1, None, db1, queue)
           else case queue_live_sim_cancel_command js ts rp hsh st (cd_view d) (cd_now d) (cd_command_id d) (ci_id c) (db1, queue) of
             (Inl e, s2) \<Rightarrow> (res1, Some e, s2)
           | (Inr _, s2) \<Rightarrow> (res1\<lparr> rr_queued := rr_queued res + 1 \<rparr>, None, s2)))"

definition run_live_sim_cancel_unfilled_once ::
  "(string \<Rightarrow> pyval result) \<Rightarrow> (pyval \<Rightarrow> instant option) \<Rightarrow> repr \<Rightarrow> (pydict \<Rightarrow> string) \<Rightarrow> live_settings \<Rightarrow> bool \<Rightarrow> bool \<Rightarrow> instant \<Rightarrow> int option
     \<Rightarrow> (nat \<Rightarrow> cancel_draw) \<Rightarrow> live_db \<times> command_store \<Rightarrow> (run_result \<times> live_db \<times> command_store) result" where
  "run_live_sim_cancel_unfilled_once js ts rp hsh st dry_run queue_commands now limit draw s =
     rbind (evaluate_live_sim_cancel_candidates st now (Some (run_limit limit (ls_cancel_max_commands_per_run st))) (fst s)) (\<lambda>(candidates, db).
       lifecycle_loop (cancel_one js ts rp hsh st queue_commands draw) (ls_cancel_max_commands_per_run st) dry_run candidates 0
         (new_run (length candidates)) (db, snd s))"

section \<open>Purchases at a new price\<close>

definition latest_cancel_intent :: "string \<Rightarrow> live_db \<Rightarrow> cancel_intent option result" where
  "latest_cancel_intent order_id db =
     rbind (require_non_empty_str ''live_sim_order_id'' (PStr order_id)) (\<lambda>oid.
       Inr (case rev (sort_key (\<lambda>c. (ci_created_at c, ci_id c)) (filter (\<lambda>c. ci_order_id c = oid) (ld_cancel_intents db))) of
              [] \<Rightarrow> None | c # _ \<Rightarrow> Some c))"

definition is_ttl_cancel_ack :: "cancel_intent option \<Rightarrow> bool" where
  "is_ttl_cancel_ack found \<longleftrightarrow> (case found of None \<Rightarrow> False | Some c \<Rightarrow> py_upper (ci_reason c) = ''TTL_EXPIRED'' \<and> py_upper (ci_status c) = ''ACKED'')"

definition reprice_root :: "repr \<Rightarrow> live_order \<Rightarrow> live_intent option \<Rightarrow> string" where
  "reprice_root rp r intent =
     (let reprice = (case intent of None \<Rightarrow> [] | Some i \<Rightarrow> li_reprice i) in
      py_str rp (py_or (py_or (dget reprice ''root_live_sim_order_id'') (dget reprice ''original_live_sim_order_id'')) (PStr (lo_id r))))"

definition recorded_root :: "repr \<Rightarrow> live_intent \<Rightarrow> string" where
  "recorded_root rp i = py_str rp (py_or (dget (li_reprice i) ''root_live_sim_order_id'') (PStr []))"

definition reprice_attempt_count :: "repr \<Rightarrow> string \<Rightarrow> live_db \<Rightarrow> nat" where
  \<comment> \<open>among the latest thousand intents\<close>
  "reprice_attempt_count rp origin db =
     sql_count (\<lambda>i. recorded_root rp i = origin) (take 1000 (rev (sort_key (\<lambda>i. (wire_key (li_created_at i), li_id i)) (ld_intents db))))"

definition reprice_eligible :: "repr \<Rightarrow> live_settings \<Rightarrow> market_db \<Rightarrow> live_order \<Rightarrow> live_db \<Rightarrow> bool result" where
  "reprice_eligible rp st md r db =
     rbind (find_row li_id (lo_intent_id r) (ld_intents db)) (\<lambda>intent.
     rbind (latest_cancel_intent (lo_id r) db) (\<lambda>cancel.
     rbind (validate_stock_code (lo_code r)) (\<lambda>code.
       Inr (intent \<noteq> None \<and> is_ttl_cancel_ack cancel
            \<and> int (reprice_attempt_count rp (reprice_root rp r intent) db) < ls_reprice_max_attempts st \<and> tick_of md code \<noteq> None))))"

fun evaluate_reprice_rows :: "repr \<Rightarrow> live_settings \<Rightarrow> market_db \<Rightarrow> live_order list \<Rightarrow> live_db \<Rightarrow> (live_order \<times> bool) list result" where
  "evaluate_reprice_rows rp st md [] db = Inr []"
| "evaluate_reprice_rows rp st md (r # rs) db =
     rbind (reprice_eligible rp st md r db) (\<lambda>eligible. rbind (evaluate_reprice_rows rp st md rs db) (\<lambda>more. Inr ((r, eligible) # more)))"

definition event_rank :: "instant option \<Rightarrow> nat \<times> int" where
  \<comment> \<open>\<open>NULL\<close> comes first in ascending order\<close>
  "event_rank t = (case t of None \<Rightarrow> (0, 0) | Some x \<Rightarrow> (1, wire_key x))"

definition evaluate_live_sim_reprice_candidates ::
  "repr \<Rightarrow> live_settings \<Rightarrow> market_db \<Rightarrow> int option \<Rightarrow> live_db \<Rightarrow> (live_order \<times> bool) list result" where
  "evaluate_live_sim_reprice_candidates rp st md limit db =
     (if \<not> ls_reprice_enabled st then Inr []
      else evaluate_reprice_rows rp st md
        (take (nat (bounded_limit (run_limit limit 500)))
          (rev (sort_key (\<lambda>r. (event_rank (lo_last_event_at r), wire_key (lo_created_at r), lo_id r))
            (filter (\<lambda>r. lo_side r = BUY \<and> lo_status r \<in> {LO_CANCELLED, LO_CANCEL_ACKED} \<and> lo_filled_quantity r = 0 \<and> lo_remaining_quantity r > 0)
              (ld_orders db))))) db)"

definition reprice_evidence :: "live_settings \<Rightarrow> live_order \<Rightarrow> string \<Rightarrow> string \<Rightarrow> int \<Rightarrow> cancel_intent option \<Rightarrow> pydict" where
  "reprice_evidence st r order_id origin attempt cancel =
     [(''enabled'', PBool True), (''attempt'', PInt attempt), (''max_attempts'', PInt (ls_reprice_max_attempts st)),
      (''original_live_sim_order_id'', PStr order_id), (''original_live_sim_intent_id'', PStr (lo_intent_id r)),
      (''root_live_sim_order_id'', PStr origin),
      (''cancel_intent_id'', (case cancel of None \<Rightarrow> PNone | Some c \<Rightarrow> PStr (ci_id c))),
      (''cancel_reason'', (case cancel of None \<Rightarrow> PNone | Some c \<Rightarrow> PStr (ci_reason c))),
      (''price_source'', PStr ''LATEST_TICK''), (''live_sim_only'', PBool True), (''live_real_allowed'', PBool False),
      (''broker_order_path'', PStr ''LIVE_SIM_ONLY'')]"

definition create_live_sim_reprice_intent ::
  "(string \<Rightarrow> pyval result) \<Rightarrow> repr \<Rightarrow> (pyval \<Rightarrow> instant option) \<Rightarrow> live_settings \<Rightarrow> entry_view \<Rightarrow> string \<Rightarrow> string
     \<Rightarrow> live_db \<Rightarrow> command_store \<Rightarrow> (intent_outcome \<times> live_db) result" where
  "create_live_sim_reprice_intent js rp ts st ev new_id order_id db queue =
     rbind (find_row lo_id order_id (ld_orders db)) (\<lambda>found. case found of
       None \<Rightarrow> Inl (ValueError ''LIVE_SIM order not found'')
     | Some r \<Rightarrow> rbind (find_row li_id (lo_intent_id r) (ld_intents db)) (\<lambda>intent. case intent of
         None \<Rightarrow> Inl (ValueError ''LIVE_SIM_REPRICE_ORIGINAL_INTENT_MISSING'')
       | Some original \<Rightarrow> rbind (latest_cancel_intent order_id db) (\<lambda>cancel.
           if \<not> is_ttl_cancel_ack cancel then Inl (ValueError ''LIVE_SIM_REPRICE_REQUIRES_TTL_CANCEL_ACK'')
           else if lo_filled_quantity r \<noteq> 0 then Inl (ValueError ''LIVE_SIM_REPRICE_REQUIRES_UNFILLED_BUY'')
           else if lo_side r \<noteq> BUY then Inl (ValueError ''LIVE_SIM_REPRICE_REQUIRES_BUY'')
           else let origin = reprice_root rp r (Some original);
                    attempt = int (reprice_attempt_count rp origin db) + 1 in
                if attempt > ls_reprice_max_attempts st then Inl (ValueError ''LIVE_SIM_REPRICE_MAX_ATTEMPTS_EXCEEDED'')
                else rbind (create_live_sim_intent js rp ts st ev new_id (li_candidate_id original)
                              (Some (''reprice:'' @ origin @ '':'' @ int_text attempt)) (reprice_evidence st r order_id origin attempt cancel) db queue)
                  (\<lambda>(out, db'). Inr (out, case out of
                     Intent_rejected _ \<Rightarrow> db'
                   | Intent_created i \<Rightarrow> record_lifecycle_event ''REPRICE_INTENT_CREATED'' ''LIVE_SIM_INTENT'' (Some (li_id i)) (Some order_id) None
                                           (Some ''CREATED'') ''TTL_CANCEL_REPRICE'' db')))))"

record reprice_draw =
  rw_intent_id :: string
  rw_order_id :: string
  rw_command_id :: string
  rw_view :: entry_view

definition reprice_one ::
  "(string \<Rightarrow> pyval result) \<Rightarrow> repr \<Rightarrow> (pydict \<Rightarrow> string) \<Rightarrow> (pyval \<Rightarrow> instant option) \<Rightarrow> live_settings \<Rightarrow> bool \<Rightarrow> (nat \<Rightarrow> reprice_draw)
     \<Rightarrow> nat \<Rightarrow> live_order \<Rightarrow> run_result \<Rightarrow> live_db \<times> command_store \<Rightarrow> run_result \<times> py_error option \<times> live_db \<times> command_store" where
  \<comment> \<open>a refused intent counts as one of the run\<close>
  "reprice_one js rp hsh ts st queue_commands draw k r res s =
     (let (db, queue) = s; d = draw k in
      case create_live_sim_reprice_intent js rp ts st (rw_view d) (rw_intent_id d) (lo_id r) db queue of
        Inl e \<Rightarrow> (res, Some e, db, queue)
      | Inr (out, db1) \<Rightarrow>
          (let res1 = res\<lparr> rr_intents := rr_intents res + 1 \<rparr> in
           case out of
             Intent_rejected _ \<Rightarrow> (res1, None, db1, queue)
           | Intent_created i \<Rightarrow>
               (if \<not> queue_commands then (res1, None, db1, queue)
                else case queue_live_sim_order_command js rp hsh ts st (rw_view d) False (rw_order_id d) (rw_command_id d) (li_id i) (db1, queue) of
                  (Inl e, s2) \<Rightarrow> (res1, Some e, s2)
                | (Inr _, s2) \<Rightarrow> (res1\<lparr> rr_queued := rr_queued res + 1 \<rparr>, None, s2))))"

definition run_live_sim_reprice_once ::
  "(string \<Rightarrow> pyval result) \<Rightarrow> repr \<Rightarrow> (pydict \<Rightarrow> string) \<Rightarrow> (pyval \<Rightarrow> instant option) \<Rightarrow> live_settings \<Rightarrow> bool \<Rightarrow> bool \<Rightarrow> market_db \<Rightarrow> int option
     \<Rightarrow> (nat \<Rightarrow> reprice_draw) \<Rightarrow> live_db \<times> command_store \<Rightarrow> (run_result \<times> live_db \<times> command_store) result" where
  "run_live_sim_reprice_once js rp hsh ts st dry_run queue_commands md limit draw s =
     (if \<not> ls_reprice_enabled st then Inr (new_run 0, s)
      else let n = run_limit limit (ls_max_buy_commands_per_cycle st) in
           rbind (evaluate_live_sim_reprice_candidates rp st md (Some n) (fst s)) (\<lambda>candidates.
             lifecycle_loop (reprice_one js rp hsh ts st queue_commands draw) (bounded_limit n) dry_run candidates 0 (new_run (length candidates)) s))"

section \<open>What the sweep writes off\<close>

lemma unsent_still: "unsent_expired queue r \<Longrightarrow> still_unsent queue r"
  unfolding unsent_expired_def still_unsent_def list_ex_iff by blast

lemma expired_order_simps [simp]: "lo_id (expired_order now r) = lo_id r" "lo_status (expired_order now r) = LO_ORDER_EXPIRED"
  by (simp_all add: expired_order_def)

lemma count_one_row: "unique_key key t \<Longrightarrow> r \<in> set t \<Longrightarrow> p r \<Longrightarrow> sql_count (\<lambda>x. key x = key r \<and> p x) t = 1"
proof (induction t)
  case (Cons x t)
  show ?case
  proof (cases "r = x")
    case True
    then have "filter (\<lambda>x. key x = key r \<and> p x) t = []" using Cons.prems(1) by (auto simp: filter_empty_conv unique_key_def) (metis image_eqI)
    then show ?thesis using True Cons.prems(3) by (simp add: sql_count_def)
  next
    case False
    then have "key x \<noteq> key r" using Cons.prems(1,2) by (auto simp: unique_key_def)
    then show ?thesis using Cons False by (simp add: sql_count_def unique_key_def)
  qed
qed simp

lemma orders_written_off: "ld_orders (write_off now queue r db) = sql_update (\<lambda>x. lo_id x = lo_id r \<and> still_unsent queue x) (expired_order now) (ld_orders db)"
  by (simp add: write_off_def record_lifecycle_event_def update_intent_def)

lemma written_off_rows:
  assumes "unique_key lo_id (ld_orders db)" "r \<in> set (ld_orders db)" "unsent_expired queue r"
  shows "ld_orders (write_off now queue r db) = map (\<lambda>x. if lo_id x = lo_id r then expired_order now x else x) (ld_orders db)"
proof -
  have "x = r" if "x \<in> set (ld_orders db)" "lo_id x = lo_id r" for x
    using assms(1,2) that by (auto simp: unique_key_def distinct_map dest: inj_onD)
  then show ?thesis using unsent_still [OF assms(3)] by (auto simp: orders_written_off sql_update_def)
qed

lemma write_off_each_rows:
  assumes "write_off_each now queue rs db = (ids, db')" "unique_key lo_id (ld_orders db)" "distinct (map lo_id rs)"
    and "\<forall>r \<in> set rs. r \<in> set (ld_orders db) \<and> unsent_expired queue r"
  shows "ids = map lo_id rs \<and> ld_orders db' = map (\<lambda>x. if lo_id x \<in> set ids then expired_order now x else x) (ld_orders db)"
  using assms
proof (induction rs arbitrary: db ids)
  case (Cons r rs)
  let ?db = "write_off now queue r db"
  have r: "r \<in> set (ld_orders db)" "unsent_expired queue r" using Cons.prems(4) by auto
  obtain more where more: "write_off_each now queue rs ?db = (more, db')" "ids = lo_id r # more"
    using Cons.prems(1) count_one_row [OF Cons.prems(2) r(1), of "still_unsent queue"] unsent_still [OF r(2)] by (auto split: prod.splits)
  note rows = written_off_rows [OF Cons.prems(2) r]
  have ids: "map lo_id (ld_orders ?db) = map lo_id (ld_orders db)" by (simp add: rows)
  have "\<forall>x \<in> set rs. x \<in> set (ld_orders ?db) \<and> unsent_expired queue x"
  proof
    fix x assume x: "x \<in> set rs"
    moreover have "lo_id r \<notin> lo_id ` set rs" using Cons.prems(3) by simp
    ultimately have "lo_id x \<noteq> lo_id r" "x \<in> set (ld_orders db)" using Cons.prems(4) by (metis image_eqI, simp)
    then show "x \<in> set (ld_orders ?db) \<and> unsent_expired queue x"
      using Cons.prems(4) x unfolding rows set_map by (intro conjI image_eqI [of _ _ x]) auto
  qed
  with Cons.IH [OF more(1)] Cons.prems(2,3) have "more = map lo_id rs
      \<and> ld_orders db' = map (\<lambda>x. if lo_id x \<in> set more then expired_order now x else x) (ld_orders ?db)"
    unfolding unique_key_def ids by auto
  moreover have "lo_id r \<notin> lo_id ` set rs" using Cons.prems(3) by simp
  ultimately show ?case using more(2) by (auto simp: rows)
qed simp

definition due_orders :: "int \<Rightarrow> command_store \<Rightarrow> live_db \<Rightarrow> live_order list" where
  "due_orders limit queue db = take (nat (bounded_limit limit)) (sort_key (\<lambda>r. (wire_key (lo_created_at r), lo_id r)) (filter (unsent_expired queue) (ld_orders db)))"

lemma due_orders_unsent: "r \<in> set (due_orders limit queue db) \<Longrightarrow> r \<in> set (ld_orders db) \<and> unsent_expired queue r"
  by (auto simp: due_orders_def dest!: in_set_takeD)

lemma due_orders_distinct: "unique_key lo_id (ld_orders db) \<Longrightarrow> distinct (map lo_id (due_orders limit queue db))"
proof -
  assume "unique_key lo_id (ld_orders db)"
  then have "distinct (map lo_id (sort_key (\<lambda>r. (wire_key (lo_created_at r), lo_id r)) (filter (unsent_expired queue) (ld_orders db))))"
    by (simp add: unique_key_def distinct_map inj_on_def)
  then show ?thesis by (simp add: due_orders_def take_map [symmetric])
qed

lemma swept_rows:
  assumes "sweep_expired_live_sim_order_commands now limit queue db = (ids, db')" "unique_key lo_id (ld_orders db)"
  shows "ids = map lo_id (due_orders limit queue db) \<and> ld_orders db' = map (\<lambda>x. if lo_id x \<in> set ids then expired_order now x else x) (ld_orders db)"
proof -
  have "write_off_each now queue (due_orders limit queue db) db = (ids, db')"
    using assms(1) by (simp add: sweep_expired_live_sim_order_commands_def due_orders_def)
  then show ?thesis using write_off_each_rows due_orders_unsent due_orders_distinct assms(2) by blast
qed

lemma swept_ids:
  assumes "sweep_expired_live_sim_order_commands now limit queue db = (ids, db')" "unique_key lo_id (ld_orders db)" "r \<in> set (ld_orders db)"
  shows "lo_id r \<in> set ids \<longleftrightarrow> r \<in> set (due_orders limit queue db)"
proof -
  have "x = r" if "x \<in> set (ld_orders db)" "lo_id x = lo_id r" for x
    using assms(2,3) that by (auto simp: unique_key_def distinct_map dest: inj_onD)
  then have "x = r" if "x \<in> set (due_orders limit queue db)" "lo_id x = lo_id r" for x using that due_orders_unsent [OF that(1)] by blast
  then show ?thesis unfolding conjunct1 [OF swept_rows [OF assms(1,2)]] set_map by (auto simp: image_iff)
qed

lemma due_orders_oldest:
  assumes "r \<in> set (due_orders limit queue db)" "r' \<in> set (ld_orders db)" "unsent_expired queue r'" "r' \<notin> set (due_orders limit queue db)"
  shows "wire_key (lo_created_at r) \<le> wire_key (lo_created_at r')"
proof -
  let ?k = "\<lambda>r. (wire_key (lo_created_at r), lo_id r)"
  let ?rs = "sort_key ?k (filter (unsent_expired queue) (ld_orders db))" and ?n = "nat (bounded_limit limit)"
  have "r' \<in> set (take ?n ?rs @ drop ?n ?rs)" using assms(2,3) unfolding append_take_drop_id by simp
  then have "r' \<in> set (drop ?n ?rs)" using assms(4) unfolding set_append due_orders_def by blast
  moreover have "sorted (map ?k (take ?n ?rs @ drop ?n ?rs))" unfolding append_take_drop_id by (rule sorted_sort_key)
  ultimately have "?k r \<le> ?k r'" using assms(1) unfolding map_append sorted_append by (auto simp: due_orders_def)
  then show ?thesis by (auto simp: less_eq_prod_def)
qed

lemma due_orders_length: "length (due_orders limit queue db) = min (sql_count (unsent_expired queue) (ld_orders db)) (nat (bounded_limit limit))"
  by (simp add: due_orders_def sql_count_def)


section \<open>A command that expired\<close>

inductive unreported_step :: "repr \<Rightarrow> string \<Rightarrow> command_store \<Rightarrow> command_store \<Rightarrow> bool" for rp cid where
  \<comment> \<open>the steps of the store but for events that name the command\<close>
  enqueue: "command_wf c \<Longrightarrow> enqueue_command rp hsh now c ex s = (res, s') \<Longrightarrow> unreported_step rp cid s s'"
| expire: "unreported_step rp cid s (expire_queued_commands now s)"
| stale: "expire_stale_gateway_commands rp now tmo s = Inr (cnt, s') \<Longrightarrow> unreported_step rp cid s s'"
| dispatch: "dispatch_ready_commands rp wire now0 st0 now st lmt s = Inr (cmds, s') \<Longrightarrow> unreported_step rp cid s s'"
| event: "record_command_event rp clock other ty pl e oc s = Inr (res, s') \<Longrightarrow> other \<noteq> cid \<Longrightarrow> unreported_step rp cid s s'"

lemma unreported_store: "unreported_step rp cid s s' \<Longrightarrow> store_step rp s s'"
  by (induction rule: unreported_step.induct) (auto intro: store_step.intros)

definition dead_command :: "string \<Rightarrow> command_store \<Rightarrow> bool" where
  "dead_command cid s \<longleftrightarrow> (\<exists>row. command_at cid s = Some row \<and> r_status row = EXPIRED)"

lemma dead_command_kept:
  assumes "unreported_step rp cid s s'" "store_ok rp s" "dead_command cid s" shows "dead_command cid s'"
proof -
  obtain row where row: "command_at cid s = Some row" "r_status row = EXPIRED" using assms(3) by (auto simp: dead_command_def)
  show ?thesis
    using assms(1)
  proof (cases rule: unreported_step.cases)
    case (enqueue c hsh now ex res)
    show ?thesis
    proof (cases rule: enqueue_command_cases [where rp = rp and c = c and hsh = hsh and now = now and ex = ex and s = s])
      case (accepted res' s'')
      with enqueue(2) have "insert_queued hsh c ex now (s\<lparr>s_dedupe := dedupe_after c now (s_dedupe s)\<rparr>) = Inr s'" by simp
      then show ?thesis using row by (cases rule: insert_queued_cases) (auto simp: lookup_by_append dead_command_def)
    qed (use enqueue(2) assms(3) in \<open>auto simp: dead_command_def\<close>)
  next
    case (expire now)
    then show ?thesis using row by (auto simp: expire_queued_at expired_queued_def dead_command_def)
  next
    case (stale now tmo cnt)
    then show ?thesis using row expire_stale_at [OF stale]
      by (auto simp: sweep_row_def expired_queued_def timed_out_dispatched_def unconfirmed_order_def dead_command_def)
  next
    case (dispatch wire now0 st0 now st lmt cmds)
    then show ?thesis
    proof (cases rule: dispatch_ready_cases)
      case (dispatched rows)
      have uk: "unique_key r_command_id (s_commands s)" using assms(2) by (simp add: store_ok_def)
      have e: "command_at cid (expire_queued_commands now s) = Some row" using row by (auto simp: expire_queued_at expired_queued_def)
      show ?thesis
        using dispatch_rows_at [OF dispatched(2)] select_ready_props(3) [OF expire_queued_unique [OF uk]] dispatched(1) e row(2)
        by (auto simp: dead_command_def split: option.split)
    qed (use assms(3) in auto)
  next
    case (event clock other ty pl e oc res)
    have "command_at cid s' \<noteq> None"
      using identity_of_lookup [OF record_command_event_frame(1) [OF event(1)], of cid] row(1) by (cases "command_at cid s'") auto
    then obtain r' where r': "command_at cid s' = Some r'" by blast
    from event(1) r' show ?thesis by (cases rule: record_command_event_at) (use event(2) row r' in \<open>auto simp: dead_command_def\<close>)
  qed
qed

lemma dead_command_kept_star:
  assumes "(unreported_step rp cid)\<^sup>*\<^sup>* s s'" "store_ok rp s" "dead_command cid s" shows "store_ok rp s' \<and> dead_command cid s'"
  using assms(1)
  by (induction rule: rtranclp_induct) (use assms(2,3) in \<open>auto intro: store_step_ok unreported_store dead_command_kept\<close>)

lemma dead_command_not_dispatched:
  assumes "store_ok rp s" "dead_command cid s" "dispatch_ready_commands rp wire now0 st0 now st lmt s = Inr (cmds, s')" "c \<in> set cmds"
  shows "g_command_id c \<noteq> cid"
proof
  assume id: "g_command_id c = cid"
  obtain rows r where rows: "rows = select_ready now (boundary_blocks_routing st) lmt (s_commands (expire_queued_commands now s))"
      "r \<in> set rows" "c = row_to_gateway_command wire r"
    using assms(3,4) by (cases rule: dispatch_ready_cases) auto
  have uk: "unique_key r_command_id (s_commands s)" using assms(1) by (simp add: store_ok_def)
  note row = dispatched_rows_from_store [OF rows(1,2) uk]
  then show False using assms(2) id by (auto simp: dead_command_def ready_queued_def rows(3))
qed

text \<open>
  C17: An order that was written off is never sent. Take any command store Core reaches, sweep, and let Core go on with
  whatever it enqueues, expires, polls and hears from the gateway about other commands: no dispatch hands the gateway the command of an order the
  sweep declared expired. So the quantity the sweep gave back to the limits cannot come to life at the broker.
\<close>

theorem written_off_order_is_never_sent:
  assumes "(store_step rp)\<^sup>*\<^sup>* empty_store queue" "unique_key lo_id (ld_orders db)"
    and "sweep_expired_live_sim_order_commands now limit queue db = (ids, db')"
    and "r \<in> set (ld_orders db)" "lo_id r \<in> set ids" "lo_command_id r = Some cid"
    and "(unreported_step rp cid)\<^sup>*\<^sup>* queue queue1"
    and "dispatch_ready_commands rp wire now0 st0 now1 st lmt queue1 = Inr (cmds, queue2)" "c \<in> set cmds"
  shows "g_command_id c \<noteq> cid"
proof -
  have ok: "store_ok rp queue" by (rule reachable_store_ok [OF assms(1)])
  have "unsent_expired queue r" using swept_ids [OF assms(3,2,4)] assms(5) due_orders_unsent by blast
  then obtain row where "row \<in> set (s_commands queue)" "r_command_id row = cid" "r_status row = EXPIRED"
    using assms(6) by (auto simp: unsent_expired_def list_ex_iff)
  then have "dead_command cid queue" using ok by (auto simp: dead_command_def store_ok_def dest: lookup_by_unique)
  then show ?thesis using dead_command_kept_star [OF assms(7) ok] dead_command_not_dispatched assms(8,9) by blast
qed

section \<open>What a run may do\<close>

text \<open>
  The loop of a run relies on this of its body: it counts at most one intent for a candidate and no command without one, and it keeps
  between its counts and the tables what a candidate it \<open>may\<close> treat can do no harm to.
\<close>

locale candidate_run =
  fixes one :: "nat \<Rightarrow> live_order \<Rightarrow> run_result \<Rightarrow> live_db \<times> command_store \<Rightarrow> run_result \<times> py_error option \<times> live_db \<times> command_store"
    and may :: "live_order \<Rightarrow> bool" and kept :: "run_result \<Rightarrow> live_db \<times> command_store \<Rightarrow> bool"
  assumes one_counts: "one k r res s = (res', e, s') \<Longrightarrow> rr_intents res \<le> rr_intents res' \<and> rr_intents res' \<le> rr_intents res + 1
        \<and> rr_queued res' + rr_intents res \<le> rr_queued res + rr_intents res'"
    and one_keeps: "one k r res s = (res', e, s') \<Longrightarrow> may r \<Longrightarrow> kept res s \<Longrightarrow> kept res' s'"
    and error_keeps: "record_error oid code message db = Inr db' \<Longrightarrow> kept res (db, queue) \<Longrightarrow> kept (res\<lparr> rr_errors := n \<rparr>) (db', queue)"
begin

lemma loop_counts:
  "lifecycle_loop one limit dry_run candidates k res s = Inr (res', s') \<Longrightarrow> rr_queued res \<le> rr_intents res \<Longrightarrow> int (rr_intents res) \<le> max 0 limit
     \<Longrightarrow> rr_queued res' \<le> rr_intents res' \<and> int (rr_intents res') \<le> max 0 limit"
proof (induction candidates arbitrary: k res s)
  case (Cons c candidates)
  obtain r eligible where c: "c = (r, eligible)" by (cases c)
  obtain res1 e db1 queue1 where one: "one k r res s = (res1, e, db1, queue1)" by (cases "one k r res s") auto
  show ?case
  proof (cases "\<not> eligible \<or> int (rr_intents res) \<ge> limit \<or> dry_run")
    case True
    then show ?thesis using Cons by (auto simp: c split: if_splits)
  next
    case False
    have "rr_queued res1 \<le> rr_intents res1" "int (rr_intents res1) \<le> max 0 limit" using one_counts [OF one] Cons.prems(2,3) False by auto
    then show ?thesis using Cons.prems(1) Cons.IH [of "Suc k"] False by (cases e) (auto simp: c one rbind_Inr_iff)
  qed
qed simp

lemma loop_keeps:
  "lifecycle_loop one limit dry_run candidates k res s = Inr (res', s') \<Longrightarrow> (\<And>r. (r, True) \<in> set candidates \<Longrightarrow> may r) \<Longrightarrow> kept res s \<Longrightarrow> kept res' s'"
proof (induction candidates arbitrary: k res s)
  case (Cons c candidates)
  obtain r eligible where c: "c = (r, eligible)" by (cases c)
  obtain res1 e db1 queue1 where one: "one k r res s = (res1, e, db1, queue1)" by (cases "one k r res s") auto
  have rest: "lifecycle_loop one limit dry_run candidates k' res2 s2 = Inr (res', s') \<Longrightarrow> kept res2 s2 \<Longrightarrow> kept res' s'" for k' res2 s2
    using Cons.IH Cons.prems(2) by simp
  show ?case
  proof (cases "\<not> eligible \<or> int (rr_intents res) \<ge> limit \<or> dry_run")
    case True
    then show ?thesis using Cons.prems(1,3) rest by (auto simp: c split: if_splits)
  next
    case False
    then have "kept res1 (db1, queue1)" using one_keeps [OF one] Cons.prems(2,3) c by auto
    then show ?thesis using Cons.prems(1) rest False error_keeps by (cases e) (auto simp: c one rbind_Inr_iff)
  qed
qed simp

end

section \<open>The run of cancellations\<close>

definition cancel_due :: "live_settings \<Rightarrow> instant \<Rightarrow> live_order \<Rightarrow> bool" where
  "cancel_due st now r \<longleftrightarrow> lo_side r = BUY \<and> lo_status r \<in> ACTIVE_ORDER \<and> lo_remaining_quantity r > 0 \<and> \<not> too_young st now r"

definition spares :: "live_settings \<Rightarrow> instant \<Rightarrow> live_db \<Rightarrow> live_db \<times> command_store \<Rightarrow> bool" where
  \<comment> \<open>the orders that are not due are as they were\<close>
  "spares st now db0 s \<longleftrightarrow> (\<forall>r \<in> set (ld_orders db0). \<not> cancel_due st now r \<longrightarrow> r \<in> set (ld_orders (fst s)))"

definition cancellable :: "live_settings \<Rightarrow> instant \<Rightarrow> live_db \<Rightarrow> live_order \<Rightarrow> bool" where
  "cancellable st now db0 r \<longleftrightarrow> r \<in> set (ld_orders db0) \<and> cancel_due st now r \<and> py_strip (lo_id r) = lo_id r \<and> unique_key lo_id (ld_orders db0)"

lemma spares_update:
  assumes "spares st now db0 (db, queue)" "cancellable st now db0 r"
  shows "spares st now db0 (update_order (lo_id r) f db, queue')"
proof -
  have "lo_id x \<noteq> lo_id r" if "x \<in> set (ld_orders db0)" "\<not> cancel_due st now x" for x
    using assms(2) that by (auto simp: cancellable_def unique_key_def distinct_map dest: inj_onD)
  then show ?thesis using assms(1) by (force simp: spares_def update_order_def set_sql_update image_iff)
qed

lemma spares_writers [simp]:
  "spares st now db0 (record_lifecycle_event a b c d e f g db, queue) = spares st now db0 (db, queue)"
  "spares st now db0 (ld_cancel_intents_update h db, queue) = spares st now db0 (db, queue)"
  "spares st now db0 (ld_errors_update w db, queue) = spares st now db0 (db, queue)"
  "spares st now db0 (mark_cancel_intent_rejected ci rs db, queue) = spares st now db0 (db, queue)"
  by (simp_all add: spares_def record_lifecycle_event_def mark_cancel_intent_rejected_def set_cancel_status_def)

lemma spares_queue: "spares st now db0 (db, queue) \<Longrightarrow> spares st now db0 (db, queue')"
  by (simp add: spares_def)

lemma cancel_intent_created:
  assumes "create_live_sim_cancel_intent now cid oid reason db = Inr (c, db')"
  shows "ci_id c = cid \<and> ci_order_id c = oid \<and> ld_cancel_intents db' = ld_cancel_intents db @ [c] \<and> cid \<notin> ci_id ` set (ld_cancel_intents db)"
  using assms
  by (auto simp: create_live_sim_cancel_intent_def rbind_Inr_iff Let_def record_lifecycle_event_def update_order_def sql_find_def find_None_iff
      split: option.splits if_splits)

lemma spares_created:
  assumes "create_live_sim_cancel_intent t cid (lo_id r) reason db = Inr (c, db')" "cancellable st now db0 r" "spares st now db0 (db, queue)"
  shows "spares st now db0 (db', queue)"
  using assms(1) spares_update [OF _ assms(2)] assms(3)
  by (auto simp: create_live_sim_cancel_intent_def rbind_Inr_iff Let_def split: option.splits if_splits)

lemma cancel_checked:
  assumes "cancel_checks js ts st gv t ciid db = Inr (c, r, reasons)"
  shows "find_row ci_id ciid (ld_cancel_intents db) = Inr (Some c) \<and> find_row lo_id (ci_order_id c) (ld_orders db) = Inr (Some r)"
  using assms by (auto simp: cancel_checks_def rbind_Inr_iff split: option.split_asm)

lemma spares_queued:
  assumes "queue_live_sim_cancel_command js ts rp hsh st gv t cid (ci_id c) (db, queue) = (out, db', queue')"
    and "py_strip (ci_id c) = ci_id c" "ld_cancel_intents db = cs @ [c]" "ci_id c \<notin> ci_id ` set cs" "ci_order_id c = lo_id r"
    and "cancellable st now db0 r" "spares st now db0 (db, queue)"
  shows "spares st now db0 (db', queue')"
proof -
  have intent: "c' = c" if "find_row ci_id (ci_id c) (ld_cancel_intents db) = Inr (Some c')" for c'
  proof -
    have "c' \<in> set (ld_cancel_intents db) \<and> ci_id c' = ci_id c"
      using that assms(2) by (auto simp: find_row_def rbind_Inr_iff require_non_empty_str_def invalid_def sql_find_def find_Some_iff split: if_splits)
    then show ?thesis using assms(3,4) by (auto simp: image_iff)
  qed
  have row: "lo_id r' = lo_id r" if "find_row lo_id (ci_order_id c) (ld_orders db) = Inr (Some r')" for r'
    using that assms(5,6) by (auto simp: find_row_def rbind_Inr_iff require_non_empty_str_def invalid_def sql_find_def find_Some_iff cancellable_def split: if_splits)
  obtain r1 db1 queue1 where 1: "enqueue_cancel_order js ts rp hsh st gv t cid (ci_id c) (db, queue) = (r1, db1, queue1)"
    by (cases "enqueue_cancel_order js ts rp hsh st gv t cid (ci_id c) (db, queue)") auto
  have same: "spares st now db0 (db1, queue1) \<and> (\<forall>x y. r1 = Inr (x, y) \<longrightarrow> lo_id y = lo_id r)"
  proof (cases "cancel_checks js ts st gv t (ci_id c) db")
    case (Inl e)
    then show ?thesis using 1 assms(7) by (auto simp: enqueue_cancel_order_def)
  next
    case (Inr p)
    obtain c' r' reasons where p: "p = (c', r', reasons)" by (cases p)
    have r': "lo_id r' = lo_id r" using cancel_checked [OF Inr [unfolded p]] intent row by blast
    show ?thesis
    proof (cases "gateway_command_for cid t ''cancel_order'' (build_gateway_cancel_order_payload st r' c') (ci_idempotency_key c')")
      case (Inl e)
      then show ?thesis using 1 Inr p assms(7) by (cases "reasons = []") (auto simp: enqueue_cancel_order_def)
    next
      case (Inr command)
      obtain q queue2 where q: "enqueue_command rp hsh t command None queue = (q, queue2)"
        by (cases "enqueue_command rp hsh t command None queue")
      have "reasons \<noteq> [] \<or> reasons = [] \<and> q_accepted q \<or> reasons = [] \<and> \<not> q_accepted q" by blast
      then show ?thesis
        using 1 \<open>cancel_checks js ts st gv t (ci_id c) db = Inr p\<close> p Inr q assms(7) r'
        by (elim disjE conjE) (auto simp: enqueue_cancel_order_def Let_def intro: spares_queue)
    qed
  qed
  show ?thesis
  proof (cases r1)
    case (Inl e)
    then show ?thesis using assms(1) same 1 by (simp add: queue_live_sim_cancel_command_def)
  next
    case (Inr p)
    obtain x y where p: "p = (x, y)" by (cases p)
    have id: "lo_id y = lo_id r" using same Inr p by blast
    have "db' = record_cancel_command t cid (ci_id c) x y db1" using assms(1) 1 Inr p by (simp add: queue_live_sim_cancel_command_def)
    moreover have "spares st now db0 (db1\<lparr> ld_cancel_intents := cis \<rparr>, queue1)" for cis
      using same spares_writers(2) [of st now db0 "\<lambda>_. cis" db1 queue1] by simp
    then have "spares st now db0 (update_order (lo_id r) f (db1\<lparr> ld_cancel_intents := cis \<rparr>), queue')" for f cis
      by (rule spares_update) (rule assms(6))
    ultimately show ?thesis by (simp add: record_cancel_command_def id)
  qed
qed

definition counted :: "nat \<Rightarrow> nat \<Rightarrow> run_result \<Rightarrow> live_db \<times> command_store \<Rightarrow> bool" where
  \<comment> \<open>the counts of a run are those of the rows it added to \<open>m\<close> intents and \<open>n\<close> commands\<close>
  "counted m n res s \<longleftrightarrow> length (ld_cancel_intents (fst s)) = m + rr_intents res \<and> length (s_commands (snd s)) = n + rr_queued res"

lemma refused_queue:
  assumes "enqueue_command rp hsh now c ex s = (q, s')" "\<not> q_accepted q"
  shows "s_commands s' = s_commands s"
  by (cases rule: enqueue_command_cases [where rp = rp and c = c and hsh = hsh and now = now and ex = ex and s = s])
    (use assms in \<open>auto simp: rejection_def\<close>)

lemma cancel_writers_length [simp]:
  "length (ld_cancel_intents (record_lifecycle_event a b c d e f g db)) = length (ld_cancel_intents db)"
  "length (ld_cancel_intents (mark_cancel_intent_rejected ci rs db)) = length (ld_cancel_intents db)"
  "length (ld_cancel_intents (record_cancel_command t cid ciid x y db)) = length (ld_cancel_intents db)"
  by (simp_all add: record_lifecycle_event_def mark_cancel_intent_rejected_def set_cancel_status_def record_cancel_command_def update_order_def sql_update_def)

lemma counted_queued:
  assumes "queue_live_sim_cancel_command js ts rp hsh st gv t cid ciid (db, queue) = (out, db', queue')"
  shows "length (ld_cancel_intents db') = length (ld_cancel_intents db)
    \<and> length (s_commands queue') = length (s_commands queue) + (case out of Inl e \<Rightarrow> 0 | Inr c \<Rightarrow> 1)"
proof -
  obtain out1 db1 queue1 where 1: "enqueue_cancel_order js ts rp hsh st gv t cid ciid (db, queue) = (out1, db1, queue1)"
    by (cases "enqueue_cancel_order js ts rp hsh st gv t cid ciid (db, queue)") auto
  have "length (ld_cancel_intents db1) = length (ld_cancel_intents db)
    \<and> length (s_commands queue1) = length (s_commands queue) + (case out1 of Inl e \<Rightarrow> 0 | Inr c \<Rightarrow> 1)"
    using 1 unfolding enqueue_cancel_order_def Let_def
    by (auto dest: refused_queue enqueue_queued split: sum.split_asm prod.split_asm if_split_asm)
  then show ?thesis using assms 1 by (auto simp: queue_live_sim_cancel_command_def split: sum.split_asm)
qed

interpretation cancelling: candidate_run "cancel_one js ts rp hsh st queue_commands draw" "cancellable st now db0"
    "\<lambda>res s. counted m n res s \<and> ((\<forall>k. py_strip (cd_intent_id (draw k)) = cd_intent_id (draw k)) \<longrightarrow> spares st now db0 s)"
  for js ts rp hsh st queue_commands draw now db0 m n
proof (unfold_locales, goal_cases)
  case (1 k r res s res' e s')
  then show ?case by (auto simp: cancel_one_def Let_def split: prod.split_asm sum.split_asm if_split_asm)
next
  case (2 k r res s res' e s')
  obtain db queue where s: "s = (db, queue)" by (cases s)
  have "counted m n res' s'"
  proof (cases "create_live_sim_cancel_intent (cd_now (draw k)) (cd_intent_id (draw k)) (lo_id r) ''TTL_EXPIRED'' db")
    case (Inl err)
    then show ?thesis using 2 by (auto simp: cancel_one_def s Let_def)
  next
    case (Inr p)
    obtain c db1 where p: "p = (c, db1)" by (cases p)
    have "length (ld_cancel_intents db1) = Suc (length (ld_cancel_intents db))" using cancel_intent_created [OF Inr [unfolded p]] by simp
    moreover obtain out db2 queue2 where q: "queue_live_sim_cancel_command js ts rp hsh st (cd_view (draw k)) (cd_now (draw k)) (cd_command_id (draw k)) (ci_id c) (db1, queue)
        = (out, db2, queue2)"
      by (cases "queue_live_sim_cancel_command js ts rp hsh st (cd_view (draw k)) (cd_now (draw k)) (cd_command_id (draw k)) (ci_id c) (db1, queue)") auto
    ultimately show ?thesis using 2(1,3) Inr p counted_queued [OF q]
      by (cases queue_commands; cases out) (auto simp: cancel_one_def s Let_def counted_def)
  qed
  moreover have "spares st now db0 s'" if draws: "\<forall>k. py_strip (cd_intent_id (draw k)) = cd_intent_id (draw k)"
  proof -
    show "spares st now db0 s'"
    proof (cases "create_live_sim_cancel_intent (cd_now (draw k)) (cd_intent_id (draw k)) (lo_id r) ''TTL_EXPIRED'' db")
      case (Inl err)
      then show ?thesis using 2 draws by (auto simp: cancel_one_def s Let_def)
    next
      case (Inr p)
      obtain c db1 where p: "p = (c, db1)" by (cases p)
      note created = Inr [unfolded p]
      have new: "ci_id c = cd_intent_id (draw k)" "ci_order_id c = lo_id r" "ld_cancel_intents db1 = ld_cancel_intents db @ [c]"
          "ci_id c \<notin> ci_id ` set (ld_cancel_intents db)"
        using cancel_intent_created [OF created] by auto
      have 1: "spares st now db0 (db1, queue)" using spares_created [OF created 2(2)] 2(3) draws s by blast
      obtain out db2 queue2 where q: "queue_live_sim_cancel_command js ts rp hsh st (cd_view (draw k)) (cd_now (draw k)) (cd_command_id (draw k)) (ci_id c) (db1, queue)
          = (out, db2, queue2)"
        by (cases "queue_live_sim_cancel_command js ts rp hsh st (cd_view (draw k)) (cd_now (draw k)) (cd_command_id (draw k)) (ci_id c) (db1, queue)") auto
      have "spares st now db0 (db2, queue2)" by (rule spares_queued [OF q _ new(3,4,2) 2(2) 1]) (simp add: new(1) draws)
      then show ?thesis using 2(1) 1 by (auto simp: cancel_one_def s created q Let_def split: if_split_asm sum.split_asm)
    qed
  qed
  ultimately show ?case by blast
next
  case (3 oid code message db db' res queue k)
  then show ?case by (auto simp: record_error_def rbind_Inr_iff counted_def)
qed

lemma reasons_due: "cancel_candidate_reasons st now r db = Inr [] \<Longrightarrow> \<not> too_young st now r"
  by (auto simp: cancel_candidate_reasons_def rbind_Inr_iff split: if_split_asm)

lemma cancel_rows_due:
  "evaluate_cancel_rows st now rs db = Inr (candidates, db') \<Longrightarrow> (r, True) \<in> set candidates \<Longrightarrow> r \<in> set rs \<and> \<not> too_young st now r"
proof (induction rs arbitrary: db candidates)
  case (Cons x rs)
  obtain reasons where reasons: "cancel_candidate_reasons st now x db = Inr reasons"
    using Cons.prems(1) by (cases "cancel_candidate_reasons st now x db") auto
  show ?case
  proof (cases "reasons = [''LIVE_SIM_CANCEL_TTL_NOT_EXPIRED'']")
    case True
    then show ?thesis using Cons.IH [of db candidates] Cons.prems reasons by simp
  next
    case False
    then obtain db1 more where "evaluate_cancel_rows st now rs db1 = Inr (more, db')" "candidates = (x, reasons = []) # more"
      using Cons.prems(1) reasons by (simp add: Let_def rbind_Inr_iff) blast
    then show ?thesis using Cons.IH [of db1 more] Cons.prems(2) reasons_due reasons by auto
  qed
qed simp

lemma cancel_rows_keep: "evaluate_cancel_rows st now rs db = Inr (candidates, db') \<Longrightarrow> ld_orders db' = ld_orders db \<and> ld_cancel_intents db' = ld_cancel_intents db"
proof (induction rs arbitrary: db candidates)
  case (Cons x rs)
  then obtain reasons where reasons: "cancel_candidate_reasons st now x db = Inr reasons"
    by (cases "cancel_candidate_reasons st now x db") auto
  show ?case
  proof (cases "reasons = [''LIVE_SIM_CANCEL_TTL_NOT_EXPIRED'']")
    case True
    then show ?thesis using Cons reasons by simp
  next
    case False
    then obtain db1 more where "evaluate_cancel_rows st now rs db1 = Inr (more, db')" "ld_orders db1 = ld_orders db \<and> ld_cancel_intents db1 = ld_cancel_intents db"
      using Cons.prems(1) reasons by (simp add: Let_def rbind_Inr_iff record_lifecycle_event_def split: if_split_asm) auto
    then show ?thesis using Cons.IH by metis
  qed
qed simp

text \<open>
  C19: A run of cancellations touches only what is due. The intents it counts are the rows it added to the table of intents and
  the commands it counts those it added to the queue: at most the configured number of intents, and no more commands than
  intents. An order that is not a purchase, is not active, has nothing left to cancel or is younger than the
  lifetime is as it was before.
\<close>

theorem cancel_run_spares_others:
  assumes "run_live_sim_cancel_unfilled_once js ts rp hsh st dry_run queue_commands now limit draw (db, queue) = Inr (res, db', queue')"
    and "unique_key lo_id (ld_orders db)" "\<forall>r \<in> set (ld_orders db). py_strip (lo_id r) = lo_id r"
    and "\<forall>k. py_strip (cd_intent_id (draw k)) = cd_intent_id (draw k)"
  shows "rr_queued res \<le> rr_intents res \<and> int (rr_intents res) \<le> max 0 (ls_cancel_max_commands_per_run st)
    \<and> length (ld_cancel_intents db') = length (ld_cancel_intents db) + rr_intents res
    \<and> length (s_commands queue') = length (s_commands queue) + rr_queued res
    \<and> (\<forall>r \<in> set (ld_orders db). \<not> cancel_due st now r \<longrightarrow> r \<in> set (ld_orders db'))"
proof -
  obtain candidates db1 where eval: "evaluate_live_sim_cancel_candidates st now (Some (run_limit limit (ls_cancel_max_commands_per_run st))) db = Inr (candidates, db1)"
    and run: "lifecycle_loop (cancel_one js ts rp hsh st queue_commands draw) (ls_cancel_max_commands_per_run st) dry_run candidates 0
         (new_run (length candidates)) (db1, queue) = Inr (res, db', queue')"
    using assms(1) by (auto simp: run_live_sim_cancel_unfilled_once_def rbind_Inr_iff)
  have orders: "ld_orders db1 = ld_orders db \<and> ld_cancel_intents db1 = ld_cancel_intents db"
    using cancel_rows_keep [OF eval [unfolded evaluate_live_sim_cancel_candidates_def]] .
  have may: "cancellable st now db r" if "(r, True) \<in> set candidates" for r
    using cancel_rows_due [OF eval [unfolded evaluate_live_sim_cancel_candidates_def] that] assms(2,3)
    by (auto simp: cancellable_def cancel_due_def dest!: in_set_takeD)
  have "rr_queued res \<le> rr_intents res \<and> int (rr_intents res) \<le> max 0 (ls_cancel_max_commands_per_run st)"
    by (rule cancelling.loop_counts [OF run]) (simp_all add: new_run_def)
  moreover have "counted (length (ld_cancel_intents db)) (length (s_commands queue)) res (db', queue') \<and> spares st now db (db', queue')"
    using candidate_run.loop_keeps [OF cancelling.candidate_run_axioms run may] assms(4) orders by (simp add: spares_def counted_def new_run_def)
  ultimately show ?thesis by (simp add: spares_def counted_def)
qed

section \<open>The attempts of an order\<close>

definition reprices :: "repr \<Rightarrow> string \<Rightarrow> live_db \<Rightarrow> nat" where
  "reprices rp origin db = sql_count (\<lambda>i. recorded_root rp i = origin) (ld_intents db)"

definition reprices_bounded :: "repr \<Rightarrow> live_settings \<Rightarrow> live_db \<Rightarrow> bool" where
  "reprices_bounded rp st db \<longleftrightarrow> length (ld_intents db) \<le> 1000
     \<longrightarrow> (\<forall>origin. origin \<noteq> [] \<longrightarrow> int (reprices rp origin db) \<le> max 0 (ls_reprice_max_attempts st))"

lemma count_all_reprices: "length (ld_intents db) \<le> 1000 \<Longrightarrow> reprice_attempt_count rp origin db = reprices rp origin db"
  by (simp add: reprice_attempt_count_def reprices_def sql_count_def filter_sort flip: rev_filter)

lemma reprices_map: "map li_reprice (ld_intents db') = map li_reprice (ld_intents db) \<Longrightarrow> reprices rp origin db' = reprices rp origin db"
proof -
  have "reprices rp origin d = length (filter (\<lambda>m. py_str rp (py_or (dget m ''root_live_sim_order_id'') (PStr [])) = origin) (map li_reprice (ld_intents d)))" for d
    by (simp add: reprices_def sql_count_def recorded_root_def filter_map o_def)
  then show "map li_reprice (ld_intents db') = map li_reprice (ld_intents db) \<Longrightarrow> ?thesis" by (simp only:)
qed

lemma bounded_map:
  assumes "map li_reprice (ld_intents db') = map li_reprice (ld_intents db)" "reprices_bounded rp st db"
  shows "reprices_bounded rp st db'"
  using assms reprices_map [OF assms(1)] map_eq_imp_length_eq [OF assms(1)] by (simp add: reprices_bounded_def)

lemma created_reprice:
  assumes "create_live_sim_intent js rp ts st ev new_id cid tail reprice db queue = Inr (out, db')"
  shows "(\<exists>i. ld_intents db' = ld_intents db @ [i] \<and> li_reprice i = reprice) \<or> ld_intents db' = ld_intents db"
proof -
  have reprice: "li_reprice i = reprice" if "purchase_intent st now c s k t dry_run new_id tail reprice = Inr i" for now c s k t dry_run i
    using that unfolding purchase_intent_def validated_intent_def rbind_Inr_iff Let_def case_prod_beta by (elim exE conjE) auto
  show ?thesis
    using assms unfolding create_live_sim_intent_def rbind_Inr_iff Let_def
    by (elim exE conjE) (auto simp: rbind_Inr_iff insert_intent_def save_rejection_def dest: reprice split: if_split_asm option.split_asm)
qed

lemma bounded_create:
  assumes "create_live_sim_intent js rp ts st ev new_id cid tail reprice db queue = Inr (out, db')" "reprices_bounded rp st db"
    and "origin = py_str rp (py_or (dget reprice ''root_live_sim_order_id'') (PStr []))"
    and "origin = [] \<or> int (reprice_attempt_count rp origin db) < ls_reprice_max_attempts st"
  shows "reprices_bounded rp st db'"
proof -
  have "reprices_bounded rp st db'" if i: "ld_intents db' = ld_intents db @ [i]" "li_reprice i = reprice" for i
  proof -
    have "reprices rp other db' = reprices rp other db + (if other = origin then 1 else 0)" for other
      using i assms(3) by (simp add: reprices_def sql_count_def recorded_root_def)
    then show ?thesis using assms(2,4) i(1) count_all_reprices [of db rp origin] by (auto simp: reprices_bounded_def)
  qed
  moreover have "reprices_bounded rp st db'" if "ld_intents db' = ld_intents db" using that assms(2) by (simp add: reprices_bounded_def reprices_def)
  ultimately show ?thesis using created_reprice [OF assms(1)] by blast
qed

lemma bounded_reprice:
  assumes "create_live_sim_reprice_intent js rp ts st ev new_id order_id db queue = Inr (out, db')" "reprices_bounded rp st db"
  shows "reprices_bounded rp st db'"
proof -
  have "\<exists>r origin attempt cancel cid tail db1. int (reprice_attempt_count rp origin db) < ls_reprice_max_attempts st
    \<and> create_live_sim_intent js rp ts st ev new_id cid tail (reprice_evidence st r order_id origin attempt cancel) db queue = Inr (out, db1)
    \<and> ld_intents db' = ld_intents db1"
    using assms(1) unfolding create_live_sim_reprice_intent_def rbind_Inr_iff Let_def
    by (elim exE conjE, cases out) (auto simp: rbind_Inr_iff record_lifecycle_event_def not_le split: if_split_asm option.split_asm,
        (intro exI conjI, assumption, assumption, simp)+)
  then obtain r origin attempt cancel cid tail db1 where few: "int (reprice_attempt_count rp origin db) < ls_reprice_max_attempts st"
    and new: "create_live_sim_intent js rp ts st ev new_id cid tail (reprice_evidence st r order_id origin attempt cancel) db queue = Inr (out, db1)"
    and db': "ld_intents db' = ld_intents db1" by blast
  have root: "py_str rp (py_or (dget (reprice_evidence st r order_id origin attempt cancel) ''root_live_sim_order_id'') (PStr [])) = origin" for origin attempt
    by (simp add: reprice_evidence_def dget_def py_or_def)
  have "reprices_bounded rp st db1" by (rule bounded_create [OF new assms(2) refl]) (simp add: root few)
  then show ?thesis using db' by (simp add: reprices_bounded_def reprices_def)
qed

lemma reprices_updated: "(\<And>i. li_reprice (f i) = li_reprice i) \<Longrightarrow> map li_reprice (sql_update p f t) = map li_reprice t"
  by (simp add: sql_update_def)

lemma barrier_reprices:
  assumes "purchase_barrier ev plan_required i db = Inr (Some (message, db'))"
  shows "map li_reprice (ld_intents db') = map li_reprice (ld_intents db)"
  using assms
  by (auto simp: purchase_barrier_def rbind_Inr_iff Let_def reject_bound_order_plan_def reject_queued_intent_def save_rejection_def update_intent_def
      reprices_updated split: if_splits)

lemma commit_reprices:
  assumes "commit_purchase rp hsh st now oid intent_id cid i (db, queue) = (out, db', queue')"
  shows "map li_reprice (ld_intents db') = map li_reprice (ld_intents db)"
  using commit_cases [OF assms]
  by (auto simp: reject_queued_intent_def save_rejection_def reprices_updated dest!: purchase_recorded)

lemma queueing_reprices:
  assumes "queue_live_sim_order_command js rp hsh ts st ev plan_required oid cid intent_id (db, queue) = (out, db', queue')"
  shows "map li_reprice (ld_intents db') = map li_reprice (ld_intents db)"
proof (cases "find_row li_id intent_id (ld_intents db)")
  case (Inl e)
  then show ?thesis using assms by (auto simp: queue_live_sim_order_command_def)
next
  case found: (Inr found)
  show ?thesis
  proof (cases found)
    case None
    then show ?thesis using assms found by (auto simp: queue_live_sim_order_command_def)
  next
    case (Some i)
    note run = assms [unfolded queue_live_sim_order_command_def, simplified, simplified found Some, simplified]
    show ?thesis
    proof (cases "li_status i = LI_CREATED")
      case False
      then show ?thesis using run
        by (cases "record_error None (PStr (li_code i)) ''INVALID_INTENT_STATUS'' db") (auto simp: record_error_def rbind_Inr_iff record_lifecycle_event_def)
    next
      case created: True
      show ?thesis
      proof (cases "queue_reasons js rp ts st ev intent_id i db queue")
        case (Inl e)
        then show ?thesis using run created by simp
      next
        case reasons: (Inr reasons)
        show ?thesis
        proof (cases "reasons = []")
          case False
          then show ?thesis using run created reasons by (auto simp: reject_queued_intent_def save_rejection_def)
        next
          case True
          note run' = run [simplified created reasons True, simplified]
          show ?thesis
            using run' barrier_reprices [of ev plan_required i db] commit_reprices
            by (cases "purchase_barrier ev plan_required i db"; cases "projr (purchase_barrier ev plan_required i db)") auto
        qed
      qed
    qed
  qed
qed

interpretation repricing: candidate_run "reprice_one js rp hsh ts st queue_commands draw" "\<lambda>_. True" "\<lambda>res s. reprices_bounded rp st (fst s)"
  for js rp hsh ts st queue_commands draw
proof (unfold_locales, goal_cases)
  case (1 k r res s res' e s')
  then show ?case by (auto simp: reprice_one_def Let_def split: prod.split_asm sum.split_asm if_split_asm intent_outcome.split_asm)
next
  case (2 k r res s res' e s')
  obtain db queue where s: "s = (db, queue)" by (cases s)
  show ?case
  proof (cases "create_live_sim_reprice_intent js rp ts st (rw_view (draw k)) (rw_intent_id (draw k)) (lo_id r) db queue")
    case (Inl err)
    then show ?thesis using 2 by (auto simp: reprice_one_def s Let_def)
  next
    case (Inr p)
    obtain out db1 where p: "p = (out, db1)" by (cases p)
    have 1: "reprices_bounded rp st db1" using bounded_reprice [OF Inr [unfolded p]] 2(3) s by simp
    show ?thesis
    proof (cases out)
      case (Intent_rejected rs)
      then show ?thesis using 2(1) 1 Inr p s by (auto simp: reprice_one_def Let_def)
    next
      case (Intent_created i)
      obtain res2 db2 queue2 where q: "queue_live_sim_order_command js rp hsh ts st (rw_view (draw k)) False (rw_order_id (draw k)) (rw_command_id (draw k)) (li_id i)
          (db1, queue) = (res2, db2, queue2)"
        by (cases "queue_live_sim_order_command js rp hsh ts st (rw_view (draw k)) False (rw_order_id (draw k)) (rw_command_id (draw k)) (li_id i) (db1, queue)") auto
      have "reprices_bounded rp st db2" by (rule bounded_map [OF queueing_reprices [OF q] 1])
      then show ?thesis using 2(1) 1 Inr p q Intent_created s by (auto simp: reprice_one_def Let_def split: if_split_asm sum.split_asm)
    qed
  qed
next
  case (3 oid code message db db' res queue k)
  then show ?case by (auto simp: record_error_def rbind_Inr_iff record_lifecycle_event_def reprices_bounded_def reprices_def)
qed

inductive reprice_step ::
  "(string \<Rightarrow> pyval result) \<Rightarrow> repr \<Rightarrow> (pydict \<Rightarrow> string) \<Rightarrow> (pyval \<Rightarrow> instant option) \<Rightarrow> live_settings
     \<Rightarrow> live_db \<times> command_store \<Rightarrow> live_db \<times> command_store \<Rightarrow> bool" for js rp hsh ts st where
  \<comment> \<open>a run, a purchase of the ordinary kind, or anything that leaves the evidence of the intents as it is\<close>
  run: "run_live_sim_reprice_once js rp hsh ts st dry_run queue_commands md limit draw s = Inr (res, s') \<Longrightarrow> reprice_step js rp hsh ts st s s'"
| purchase: "create_live_sim_intent js rp ts st ev new_id cid None [] db queue = Inr (out, db') \<Longrightarrow> reprice_step js rp hsh ts st (db, queue) (db', queue)"
| other: "map li_reprice (ld_intents (fst s')) = map li_reprice (ld_intents (fst s)) \<Longrightarrow> reprice_step js rp hsh ts st s s'"

lemma bounded_step: "reprice_step js rp hsh ts st s s' \<Longrightarrow> reprices_bounded rp st (fst s) \<Longrightarrow> reprices_bounded rp st (fst s')"
proof (induction rule: reprice_step.induct)
  case (run dry_run queue_commands md limit draw s res s')
  then show ?case
    by (cases "ls_reprice_enabled st")
      (auto simp: run_live_sim_reprice_once_def Let_def rbind_Inr_iff dest!: candidate_run.loop_keeps [OF repricing.candidate_run_axioms])
next
  case (purchase ev new_id cid db queue out db')
  then show ?case by (auto intro!: bounded_create [OF purchase(1) _ refl] simp: dget_def py_or_def)
next
  case (other s' s)
  then show ?case by (rule bounded_map)
qed

text \<open>
  C18: A purchase is repeated a bounded number of times. From intents of which none repeats an order, whatever runs of the
  repetition, purchases and other operations come in whatever order, every original order is repeated at most the configured
  number of times, as long as there are at most a thousand intents: the attempts are counted among the latest thousand.
\<close>

theorem reprice_attempts_bounded:
  assumes "(reprice_step js rp hsh ts st)\<^sup>*\<^sup>* s s'" "\<forall>i \<in> set (ld_intents (fst s)). recorded_root rp i = []"
    and "length (ld_intents (fst s')) \<le> 1000" "origin \<noteq> []"
  shows "int (reprices rp origin (fst s')) \<le> max 0 (ls_reprice_max_attempts st)"
proof -
  have "reprices_bounded rp st (fst s)" using assms(2) by (auto simp: reprices_bounded_def reprices_def sql_count_def filter_empty_conv)
  with assms(1) have "reprices_bounded rp st (fst s')" by (induction rule: rtranclp_induct) (auto dest: bounded_step)
  then show ?thesis using assms(3,4) by (simp add: reprices_bounded_def)
qed

section \<open>An order that expires\<close>

definition sample_lapsed :: command_store where
  \<comment> \<open>the command of an order, past its expiry\<close>
  "sample_lapsed = expire_queued_commands (2 * microseconds) (snd (enqueue_command sample_rp (\<lambda>_. ''h'') 0 sample_buy (Some microseconds) empty_store))"

definition sample_waiting :: live_db where
  "sample_waiting = empty_live_db\<lparr> ld_orders := [\<lparr> lo_id = ''o1'', lo_intent_id = ''i1'', lo_command_id = Some ''c1'', lo_trade_date = ''d'',
     lo_account_id = ''A1'', lo_code = ''005930'', lo_name = ''n'', lo_side = BUY, lo_order_type = ''LIMIT'', lo_quantity = 5,
     lo_limit_price = Some 9010, lo_notional = 45050, lo_status = LO_COMMAND_QUEUED, lo_broker_order_no = None, lo_broker_result_code = None,
     lo_broker_message = None, lo_filled_quantity = 0, lo_remaining_quantity = 5, lo_avg_fill_price = None, lo_idempotency_key = ''k1'',
     lo_created_at = 0, lo_queued_at = Some 0, lo_dispatched_at = None, lo_broker_acked_at = None, lo_last_event_at = None \<rparr>] \<rparr>"

definition sample_swept :: "string list \<times> live_db" where
  "sample_swept = sweep_expired_live_sim_order_commands (3 * microseconds) 500 sample_lapsed sample_waiting"

definition sample_ping :: gateway_command where
  "sample_ping = \<lparr> g_command_id = ''c2'', g_command_type = ''heartbeat_request'', g_source = ''core'', g_ts = 0, g_payload = [], g_idempotency_key = None \<rparr>"

definition sample_later :: command_store where
  "sample_later = snd (enqueue_command sample_rp (\<lambda>_. ''h'') (3 * microseconds) sample_ping None sample_lapsed)"

lemma sample_swept_result:
  "fst sample_swept = [''o1''] \<and> map lo_status (ld_orders (snd sample_swept)) = [LO_ORDER_EXPIRED] \<and> map lo_id (ld_orders sample_waiting) = [''o1'']
   \<and> map lo_command_id (ld_orders sample_waiting) = [Some ''c1'']"
  by code_simp

lemma sample_later_dispatch:
  "map_sum id (\<lambda>(cmds, s). map g_command_id cmds) (dispatch_ready_commands sample_rp (\<lambda>_. []) (4 * microseconds) [] (4 * microseconds) [] 20 sample_later)
    = Inr [''c2'']"
  by code_simp

lemma sample_lapsed_reachable: "(store_step sample_rp)\<^sup>*\<^sup>* empty_store sample_lapsed"
proof -
  have "store_step sample_rp empty_store (snd (enqueue_command sample_rp (\<lambda>_. ''h'') 0 sample_buy (Some microseconds) empty_store))"
    by (rule store_step.enqueue [OF sample_wf, where hsh = "\<lambda>_. ''h''" and now = 0 and ex = "Some microseconds"]) (rule prod.collapse [symmetric])
  then show ?thesis unfolding sample_lapsed_def by (meson r_into_rtranclp rtranclp.rtrancl_into_rtrancl store_step.expire)
qed

lemma sample_later_step: "(unreported_step sample_rp ''c1'')\<^sup>*\<^sup>* sample_lapsed sample_later"
proof -
  have wf: "command_wf sample_ping" by (simp add: command_wf_def sample_ping_def)
  show ?thesis unfolding sample_later_def
    by (rule r_into_rtranclp, rule unreported_step.enqueue [OF wf, where hsh = "\<lambda>_. ''h''" and now = "3 * microseconds" and ex = None]) (rule prod.collapse [symmetric])
qed

lemma sample_waiting_unique: "unique_key lo_id (ld_orders sample_waiting)"
  using sample_swept_result by (simp add: unique_key_def)


theorem written_off_order_is_never_sent_witness:
  "\<exists>cmds s c. dispatch_ready_commands sample_rp (\<lambda>_. []) (4 * microseconds) [] (4 * microseconds) [] 20 sample_later = Inr (cmds, s)
     \<and> c \<in> set cmds \<and> g_command_id c \<noteq> ''c1''"
proof -
  have run: "sweep_expired_live_sim_order_commands (3 * microseconds) 500 sample_lapsed sample_waiting = (fst sample_swept, snd sample_swept)"
    by (simp add: sample_swept_def)
  obtain r where r: "r \<in> set (ld_orders sample_waiting)" "lo_id r \<in> set (fst sample_swept)" "lo_command_id r = Some ''c1''"
    using sample_swept_result by (cases "ld_orders sample_waiting") auto
  obtain cmds s c where d: "dispatch_ready_commands sample_rp (\<lambda>_. []) (4 * microseconds) [] (4 * microseconds) [] 20 sample_later = Inr (cmds, s)" "c \<in> set cmds"
    using sample_later_dispatch
    by (cases "dispatch_ready_commands sample_rp (\<lambda>_. []) (4 * microseconds) [] (4 * microseconds) [] 20 sample_later") (auto simp: map_eq_Cons_conv)
  have "g_command_id c \<noteq> ''c1''"
    by (rule written_off_order_is_never_sent [OF sample_lapsed_reachable sample_waiting_unique run r sample_later_step d])
  with d show ?thesis by blast
qed

section \<open>A cancellation and a second attempt\<close>

definition sample_book :: live_db where
  \<comment> \<open>a purchase that waits since 0 and one of a moment ago\<close>
  "sample_book = empty_live_db\<lparr> ld_orders := map (\<lambda>r. r\<lparr> lo_status := LO_BROKER_ACKED, lo_broker_order_no := Some ''77'' \<rparr>)
     (ld_orders sample_waiting @ map (\<lambda>r. r\<lparr> lo_id := ''o2'', lo_created_at := 100 * microseconds \<rparr>) (ld_orders sample_waiting)) \<rparr>"

definition sample_cancel_draw :: "nat \<Rightarrow> cancel_draw" where
  "sample_cancel_draw k = \<lparr> cd_intent_id = ''x'' @ replicate k CHR ''i'', cd_command_id = ''c'' @ replicate k CHR ''i'', cd_now = 120 * microseconds,
     cd_view = sample_view \<rparr>"

definition sample_cancel_run :: "(run_result \<times> live_db \<times> command_store) result" where
  "sample_cancel_run = run_live_sim_cancel_unfilled_once (\<lambda>_. Inr PNone) (\<lambda>_. Some 0) (\<lambda>_. []) (\<lambda>_. []) sample_live_settings False True
     (120 * microseconds) None sample_cancel_draw (sample_book, empty_store)"

definition sample_cancelled :: "live_db \<Rightarrow> live_db" where
  \<comment> \<open>the order of the intent, cancelled since it waited too long\<close>
  "sample_cancelled db = db\<lparr> ld_intents := map (\<lambda>i. i\<lparr> li_status := LI_CANCELLED \<rparr>) (ld_intents db),
     ld_orders := map (\<lambda>r. r\<lparr> lo_status := LO_CANCEL_ACKED \<rparr>) (ld_orders sample_waiting),
     ld_cancel_intents := [\<lparr> ci_id = ''x1'', ci_order_id = ''o1'', ci_command_id = Some ''c1'', ci_code = ''005930'', ci_original_order_no = Some ''77'',
       ci_cancel_quantity = 5, ci_status = ''ACKED'', ci_reason = ''TTL_EXPIRED'', ci_idempotency_key = ''k'', ci_created_at = 0 \<rparr>] \<rparr>"

definition sample_reprice_run :: "live_db \<Rightarrow> (run_result \<times> live_db \<times> command_store) result" where
  "sample_reprice_run db =
     run_live_sim_reprice_once (\<lambda>_. Inr PNone) (\<lambda>_. []) (\<lambda>_. []) (\<lambda>_. Some 0) sample_live_settings False True (ev_market sample_entry) None
       (\<lambda>k. \<lparr> rw_intent_id = ''i2'', rw_order_id = ''o2'', rw_command_id = ''c2'', rw_view = sample_entry \<rparr>)
       (sample_cancelled db, empty_store)"

lemma sample_cancel_result:
  "rbind sample_cancel_run (\<lambda>(res, db, queue). Inr (rr_intents res, rr_queued res, map lo_status (ld_orders db), length (s_commands queue)))
     = Inr (1, 1, [LO_CANCEL_COMMAND_QUEUED, LO_BROKER_ACKED], 1)"
  by code_simp

lemma sample_book_rows:
  "map lo_id (ld_orders sample_book) = [''o1'', ''o2''] \<and> map (cancel_due sample_live_settings (120 * microseconds)) (ld_orders sample_book) = [True, False]
     \<and> map py_strip [''o1'', ''o2''] = [''o1'', ''o2'']"
  by code_simp

lemma sample_intent_ids: "py_strip (cd_intent_id (sample_cancel_draw k)) = cd_intent_id (sample_cancel_draw k)"
proof -
  have "\<not> py_space CHR ''x''" "\<not> py_space CHR ''i''" by code_simp+
  moreover from this have "dropWhile py_space (replicate k CHR ''i'' @ ''x'') = replicate k CHR ''i'' @ ''x''" by (cases k) simp_all
  ultimately have "py_strip (''x'' @ replicate k CHR ''i'') = ''x'' @ replicate k CHR ''i''" by (simp add: py_strip_def)
  then show ?thesis by (simp add: sample_cancel_draw_def)
qed

theorem cancel_run_spares_others_witness:
  "\<exists>res db' queue r. sample_cancel_run = Inr (res, db', queue) \<and> length (ld_cancel_intents db') = 1 \<and> length (s_commands queue) = 1 \<and> r \<in> set (ld_orders db') \<and> lo_id r = ''o2''
     \<and> lo_status r = LO_BROKER_ACKED"
proof -
  obtain res db' queue where run: "sample_cancel_run = Inr (res, db', queue)" and n: "rr_intents res = 1" "rr_queued res = 1"
    using sample_cancel_result by (auto simp: rbind_Inr_iff)
  obtain r1 r2 where rows: "ld_orders sample_book = [r1, r2]" "lo_id r1 = ''o1''" "lo_id r2 = ''o2''" "\<not> cancel_due sample_live_settings (120 * microseconds) r2"
    using sample_book_rows by (auto simp: map_eq_Cons_conv)
  have status: "lo_status r2 = LO_BROKER_ACKED" using rows(1) by (auto simp: sample_book_def map_eq_Cons_conv append_eq_Cons_conv)
  have keys: "unique_key lo_id (ld_orders sample_book)" "\<forall>r \<in> set (ld_orders sample_book). py_strip (lo_id r) = lo_id r"
    using rows sample_book_rows by (simp_all add: unique_key_def)
  have "\<forall>k. py_strip (cd_intent_id (sample_cancel_draw k)) = cd_intent_id (sample_cancel_draw k)" by (simp add: sample_intent_ids)
  from cancel_run_spares_others [OF run [unfolded sample_cancel_run_def] keys this] have "r2 \<in> set (ld_orders db')" "length (ld_cancel_intents db') = 1" "length (s_commands queue) = 1"
    using rows n by (simp, simp add: sample_book_def empty_live_db_def, simp add: empty_store_def)
  then show ?thesis using run n rows(3) status by (intro exI conjI) auto
qed

lemma sample_reprice_result:
  "rbind sample_intent (\<lambda>(i, db). rbind (sample_reprice_run db) (\<lambda>(res, db', queue).
      Inr (rr_intents res, reprices (\<lambda>_. []) ''o1'' db', map (recorded_root (\<lambda>_. [])) (ld_intents (sample_cancelled db)), length (ld_intents db'))))
    = Inr (1, 1, [[]], 2)"
  by code_simp

theorem reprice_attempts_bounded_witness:
  "\<exists>i db res db' queue. sample_intent = Inr (i, db) \<and> sample_reprice_run db = Inr (res, db', queue) \<and> reprices (\<lambda>_. []) ''o1'' db' = 1
     \<and> reprices (\<lambda>_. []) ''o1'' db' \<le> nat (ls_reprice_max_attempts sample_live_settings)"
proof -
  obtain i db res db' queue where run: "sample_intent = Inr (i, db)" "sample_reprice_run db = Inr (res, db', queue)"
    and n: "reprices (\<lambda>_. []) ''o1'' db' = 1" "map (recorded_root (\<lambda>_. [])) (ld_intents (sample_cancelled db)) = [[]]" "length (ld_intents db') = 2"
    using sample_reprice_result by (auto simp: rbind_Inr_iff)
  have step: "(reprice_step (\<lambda>_. Inr PNone) (\<lambda>_. []) (\<lambda>_. []) (\<lambda>_. Some 0) sample_live_settings)\<^sup>*\<^sup>* (sample_cancelled db, empty_store) (db', queue)"
    by (rule r_into_rtranclp, rule reprice_step.run [OF run(2) [unfolded sample_reprice_run_def]])
  have fresh: "\<forall>i \<in> set (ld_intents (fst (sample_cancelled db, empty_store))). recorded_root (\<lambda>_. []) i = []"
    using n(2) by (auto simp: map_eq_Cons_conv)
  have few: "length (ld_intents (fst (db', queue))) \<le> 1000" using n(3) by simp
  have "int (reprices (\<lambda>_. []) ''o1'' db') \<le> max 0 (ls_reprice_max_attempts sample_live_settings)"
    using reprice_attempts_bounded [OF step fresh few, of "''o1''"] by simp
  then have bound: "reprices (\<lambda>_. []) ''o1'' db' \<le> nat (ls_reprice_max_attempts sample_live_settings)" by (simp add: sample_live_settings_def)
  show ?thesis by (intro exI conjI, rule run(1), rule run(2), rule n(1), rule bound)
qed

end
