(* ===== verification/Spec2Isabelle.thy ===== *)
theory Spec2Isabelle
  imports Order_Boundary Order_Report Command_Policy Command_Queue Projection_Outbox Core_IO_Delivery Execution_Lock Candidate_FSM Order_Plan Order_Gateway
    Exit_Policy Condition_Admission Live_Books Live_Exit_Run Live_Entry Live_Upkeep
begin

text \<open>
  A model of the order path of the trader and of the components that guard it, translated from the Python
  sources under \<open>src/\<close>.

  \<^bold>\<open>The program.\<close> Core (a web service over SQLite) decides what to trade and queues commands; a gateway process beside
  the broker's Windows control polls them, calls the broker and posts events back. Only simulated trading is allowed.

  \<^item> \<open>Py_Prelude\<close>: what the sources use of Python and SQL. Strings are ASCII char lists, a dictionary is an
    association list, an exception the left summand of a sum, an instant a number of microseconds, a table a list
    of rows in insertion order. The locale \<open>row_update\<close> is the contract of an \<open>UPDATE\<close> that keeps the primary key.
  \<^item> \<open>Command_Row\<close>, \<open>Command_Policy\<close>, \<open>Command_Store\<close>, \<open>Command_Queue\<close>: \<open>storage/gateway_command_store.py\<close>. The
    policy is the validators of the file; the store is enqueueing, the stale sweep, dispatch, polling and the events
    of the gateway, over the tables of commands, retained keys and order claims; \<open>Command_Queue\<close> runs any
    interleaving of them and holds the properties: what the gateway is handed is a permitted simulated order, an order
    the broker accepted is never queued again, the ledger is never behind the queue.
  \<^item> \<open>Order_Boundary\<close>: \<open>storage/gateway_order_broker_boundary.py\<close>, the ledger of what the broker may hold. Claims,
    broker events, time-outs and the replay of stored events. \<open>resolve_state\<close> is shown to be a maximum, hence the
    replay is independent of the order of the events.
  \<^item> \<open>Rate_Governor\<close>, \<open>Order_Gateway\<close>: \<open>gateway/kiwoom_command_handlers.py\<close>, \<open>gateway/order_pre_ack_journal.py\<close>,
    \<open>gateway/event_factory.py\<close> and the command loop of \<open>gateway/kiwoom_runtime.py\<close>. A handler is a state transformer that may
    raise; its effects (journal lines, posts to Core, calls of the broker) are logged in order. What the world
    answers (clock, broker, Core, disk) is a record passed in, so every failure is a case of the theorems.
  \<^item> \<open>Core_IO_Worker\<close>, \<open>Core_IO_Delivery\<close>: \<open>gateway/core_io_worker.py\<close>, the buffer of events on their way to Core.
    The worker's operations are steps; a turn of its loop is shown to be a sequence of steps, and the properties hold
    for every interleaving with the threads that enqueue.
  \<^item> \<open>Projection_Watermarks\<close>, \<open>Projection_Outbox\<close>: \<open>storage/projection_watermarks.py\<close> and \<open>storage/projection_outbox.py\<close>,
    the work queue that turns stored events into read models, with claims, retries and dead letters.
  \<^item> \<open>Execution_Lock\<close>: \<open>services/runtime/evaluation_run_guard.py\<close>, the lock with leases and fencing tokens.
  \<^item> \<open>Candidate_FSM\<close>: \<open>domain/candidate/fsm.py\<close>. \<open>Tick_Size\<close>, \<open>Entry_Timing\<close>, \<open>Order_Plan\<close>: \<open>services/entry_timing/\<close>, from the state of a stock
    to a draft of an order. \<open>Exit_Policy\<close>: \<open>domain/exit/policy.py\<close>. \<open>Condition_Admission\<close>:
    \<open>gateway/condition_admission.py\<close>, which hits of a search may take a real-time subscription.
  \<^item> \<open>Order_Report\<close> composes the gateway with the ledger: whichever events of a turn of the gateway Core records beside
    those it answered for, their replay never puts the ledger behind the broker.
  \<^item> \<open>Broker_Values\<close>: the validators and parsers of \<open>domain/broker/utils.py\<close>.
  \<^item> \<open>Live_Orders\<close>, \<open>Live_Positions\<close>, \<open>Live_Gate\<close>, \<open>Live_Exit\<close>, \<open>Live_Exit_Run\<close>, \<open>Live_Books\<close>: the service that trades,
    \<open>services/live_sim/\<close>. Its tables are the fields of \<open>live_db\<close>. \<open>Live_Orders\<close> holds the tables and the events of the order and cancel
    commands, \<open>Live_Positions\<close> the executions and what they do to orders and positions, \<open>Live_Gate\<close> the safety gate and the daily
    loss limit (\<open>safety_gate.py\<close>, \<open>daily_loss_guard.py\<close>), \<open>Live_Exit\<close> the exits and cancellations up to the queue of the command store,
    each with its two transactions, and \<open>Live_Exit_Run\<close> a run of the exit engine over ticks and exit policy.
    \<open>Admission\<close> (\<open>services/admission/evaluator.py\<close>) decides from the rows of the market which candidate may be traded, and \<open>Live_Entry\<close> is the purchase
    path: eligibility, the intent, and the order command written with its row in one savepoint. \<open>Live_Upkeep\<close> is what keeps the orders in hand
    afterwards: the sweep of orders whose command expired unsent, and the two runs that cancel unfilled purchases and repeat them at a new price. Both
    runs are one loop; the locale \<open>candidate_run\<close> is the contract of its body, interpreted on both bodies.
    \<open>Live_Books\<close> runs any interleaving of all of it and holds the invariants of the books: fills are conserved from
    executions to orders to positions, positions balance in shares and in cash, and an execution is booked once.

  \<^bold>\<open>Interfaces.\<close> Where a component relies on another it does so through a locale whose assumptions are the laws used,
  interpreted on the definitions of the provider in the provider's theory.

  \<^bold>\<open>Parameters.\<close> Code that is not in the repository, and text that Python renders, is an argument: \<open>rp\<close> renders floats and
  containers (\<open>repr\<close>), \<open>hsh\<close> and \<open>sha\<close> are the hash functions, \<open>ts\<close> parses a time stamp, \<open>wire\<close> prints one. No law
  of them is assumed unless a theorem states it.

  \<^bold>\<open>Numbers.\<close> Python integers are \<open>int\<close>. Floats are exact rationals, with the two infinities and NaN kept where
  text or JSON can bring them in (\<open>pyfloat\<close>); rounding of the float arithmetic itself is not modelled.

  \<^bold>\<open>Loops.\<close> All loops are structural recursions over the rows, codes or clock readings they consume, except the one of
  \<open>price_tick_distance\<close>, a partial function whose termination is a property. The rounds of the poll loop are a list of
  answers of the world: a property for all lists is one for every number of rounds.

  \<^bold>\<open>Not modelled.\<close> HTTP, threads, files and the Windows control, except for the order of their effects; the DDL
  (\<open>storage/sqlite.py\<close>) beyond the columns and unique indexes used here; the approval and resolution workflows of the boundary ledger;
  the loading of settings; rendering to JSON; of \<open>services/live_sim\<close> the binding of intents to order plans and the classifier of open lifecycles, which are arguments of the purchase path
  (\<open>ev_plan\<close>, \<open>ev_lifecycle\<close>), and the comparison with snapshots of the broker; the services that aggregate SQL tables
  (\<open>services/dashboard_service.py\<close>, \<open>services/pipeline_coherency.py\<close>, the strategy, risk and theme engines) and the operator tools.
\<close>

end
